(* ===== verification/Prelude.thy ===== *)
theory Prelude
  imports Main "HOL-Library.Word" "HOL-Library.Multiset"
begin

text \<open>
  The shared vocabulary of the development: machine integers and time points, decimal
  rendering of numbers (\<open>std::to_string\<close>), the list searches of \<open><algorithm>\<close> that the
  event queues use, and ordered association lists for \<open>std::map\<close>. The lemmas here are
  the ones several components need; those that are safe as rewrite rules are declared
  \<open>[simp]\<close>, the others are collected in \<open>pop_facts\<close>, \<open>map_facts\<close> and \<open>eh_defs\<close>.
\<close>

unbundle bit_operations_syntax

named_theorems pop_facts \<open>facts about taking the first matching element out of a list\<close>
named_theorems map_facts \<open>facts about ordered association lists\<close>
named_theorems eh_defs \<open>definitions that an evaluation on a concrete input unfolds\<close>

section \<open>Machine integers and time\<close>

text \<open>
  \<open>InnerEvent::TimePoint\<close> and the \<open>int64_t\<close> vsync times are signed 64-bit nanosecond
  counts. Signed overflow is undefined behaviour in C++, so the model computes them in
  \<open>int\<close>; \<open>TIME_MAX\<close> is \<open>TimePoint::max()\<close> and \<open>INT64_MAX\<close>. Unsigned values, whose
  overflow wraps and is defined, are words.
\<close>

type_synonym time = int
type_synonym u8 = "8 word"
type_synonym u32 = "32 word"
type_synonym u64 = "64 word"

definition TIME_MAX :: time where
  [eh_defs]: "TIME_MAX = 9223372036854775807"

definition UINT64_MAX :: u64 where
  [eh_defs]: "UINT64_MAX = 18446744073709551615"

definition UINT32_MAX :: int where
  [eh_defs]: "UINT32_MAX = 4294967295"

definition INT32_MAX :: int where
  [eh_defs]: "INT32_MAX = 2147483647"

definition MS :: int where
  \<comment> \<open>\<open>NANOSECONDS_PER_ONE_MILLISECOND\<close> and \<open>MILLISECONDS_TO_NANOSECONDS_RATIO\<close>\<close>
  [eh_defs]: "MS = 1000000"

lemma MS_pos [simp]: "0 < MS"
  by (simp add: MS_def)

definition u64_of_time :: "time \<Rightarrow> u64" where
  \<comment> \<open>\<open>static_cast<uint64_t>\<close> of a signed count\<close>
  [eh_defs]: "u64_of_time t = word_of_int t"

lemma uint_u64_of_time:
  assumes "0 \<le> t" "t \<le> TIME_MAX"
  shows "uint (u64_of_time t) = t"
  using assms by (simp add: u64_of_time_def TIME_MAX_def unsigned_of_int take_bit_int_eq_self)

lemma u64_of_time_ne_max:
  assumes "0 \<le> t" "t \<le> TIME_MAX"
  shows "u64_of_time t \<noteq> UINT64_MAX"
proof
  assume "u64_of_time t = UINT64_MAX"
  then have "uint (u64_of_time t) = uint UINT64_MAX" by simp
  with assms show False by (simp add: uint_u64_of_time UINT64_MAX_def TIME_MAX_def)
qed

section \<open>Rendering numbers: \<open>std::to_string\<close>\<close>

fun to_string_nat :: "nat \<Rightarrow> string" where
  "to_string_nat n =
     (if n < 10 then [char_of (48 + n)] else to_string_nat (n div 10) @ [char_of (48 + n mod 10)])"

declare to_string_nat.simps [simp del]

definition to_string_int :: "int \<Rightarrow> string" where
  "to_string_int i = (if i < 0 then CHR ''-'' # to_string_nat (nat (- i)) else to_string_nat (nat i))"

definition decimal_value :: "string \<Rightarrow> nat" where
  "decimal_value s = foldl (\<lambda>acc c. 10 * acc + (of_char c - 48)) 0 s"

lemma to_string_nat_value [simp]: "decimal_value (to_string_nat n) = n"
proof (induction n rule: to_string_nat.induct)
  case (1 n)
  show ?case
  proof (cases "n < 10")
    case True
    then show ?thesis
      by (subst to_string_nat.simps) (simp add: decimal_value_def)
  next
    case False
    have "48 + n mod 10 < (256::nat)" by simp
    then have c: "of_char (char_of (48 + n mod 10) :: char) = (48 + n mod 10 :: nat)"
      by simp
    from False "1.IH" have "decimal_value (to_string_nat (n div 10)) = n div 10" by simp
    with False c show ?thesis
      by (subst to_string_nat.simps) (simp add: decimal_value_def)
  qed
qed

lemma to_string_nat_inject [simp]: "to_string_nat m = to_string_nat n \<longleftrightarrow> m = n"
  by (metis to_string_nat_value)

lemma to_string_nat_not_Nil [simp]: "to_string_nat n \<noteq> []"
  by (subst to_string_nat.simps) simp

lemma to_string_nat_digits: "c \<in> set (to_string_nat n) \<Longrightarrow> 48 \<le> (of_char c :: nat) \<and> (of_char c :: nat) \<le> 57"
proof (induction n rule: to_string_nat.induct)
  case (1 n)
  show ?case
  proof (cases "n < 10")
    case True
    with "1.prems" show ?thesis by (subst (asm) to_string_nat.simps) auto
  next
    case False
    with "1.prems" have "c \<in> set (to_string_nat (n div 10)) \<or> c = char_of (48 + n mod 10)"
      by (subst (asm) to_string_nat.simps) auto
    then show ?thesis
    proof
      assume "c \<in> set (to_string_nat (n div 10))"
      with False show ?thesis using "1.IH" by simp
    next
      assume "c = char_of (48 + n mod 10)"
      moreover have "n mod 10 < 10" by simp
      ultimately show ?thesis by auto
    qed
  qed
qed

lemma to_string_nat_no_char:
  assumes "(of_char c :: nat) < 48 \<or> 57 < (of_char c :: nat)"
  shows "c \<notin> set (to_string_nat n)"
  using assms to_string_nat_digits [of c n] by auto

lemma to_string_int_inject [simp]: "to_string_int i = to_string_int j \<longleftrightarrow> i = j"
proof -
  have minus: "CHR ''-'' \<notin> set (to_string_nat n)" for n
    by (rule to_string_nat_no_char) simp
  have "CHR ''-'' # to_string_nat m \<noteq> to_string_nat n" for m n
    using minus [of n] by (metis list.set_intros(1))
  then show ?thesis
    by (auto simp: to_string_int_def dest: sym)
qed

section \<open>Searching a list: \<open>find_if\<close> and \<open>splice\<close>\<close>

text \<open>
  The queue code takes one event out of the middle of a list by \<open>std::find_if\<close>, a
  \<open>splice\<close> into a temporary list and a pop of that list.
\<close>

fun pop_first :: "('a \<Rightarrow> bool) \<Rightarrow> 'a list \<Rightarrow> ('a \<times> 'a list) option" where
  "pop_first P [] = None"
| "pop_first P (x # xs) =
     (if P x then Some (x, xs)
      else (case pop_first P xs of None \<Rightarrow> None | Some (y, ys) \<Rightarrow> Some (y, x # ys)))"

lemma pop_first_None: "pop_first P xs = None \<longleftrightarrow> (\<forall>x\<in>set xs. \<not> P x)"
  by (induction xs) (auto split: option.splits)

lemma pop_first_Some:
  "pop_first P xs = Some (y, ys) \<Longrightarrow>
     \<exists>us vs. xs = us @ y # vs \<and> ys = us @ vs \<and> P y \<and> (\<forall>u\<in>set us. \<not> P u)"
proof (induction xs arbitrary: ys)
  case Nil
  then show ?case by simp
next
  case (Cons x xs)
  show ?case
  proof (cases "P x")
    case True
    with Cons.prems have "x # xs = [] @ y # xs \<and> ys = [] @ xs \<and> P y \<and> (\<forall>u\<in>set []. \<not> P u)"
      by simp
    then show ?thesis by blast
  next
    case False
    with Cons.prems obtain zs where zs: "pop_first P xs = Some (y, zs)" "ys = x # zs"
      by (auto split: option.splits)
    from Cons.IH [OF zs(1)] obtain us vs where
      "xs = us @ y # vs" "zs = us @ vs" "P y" "\<forall>u\<in>set us. \<not> P u" by blast
    with False zs(2) have "x # xs = (x # us) @ y # vs \<and> ys = (x # us) @ vs \<and> P y \<and>
      (\<forall>u\<in>set (x # us). \<not> P u)" by simp
    then show ?thesis by blast
  qed
qed

lemma pop_first_sat [pop_facts]: "pop_first P xs = Some (y, ys) \<Longrightarrow> P y"
  by (auto dest: pop_first_Some)

lemma pop_first_in [pop_facts]: "pop_first P xs = Some (y, ys) \<Longrightarrow> y \<in> set xs"
  by (auto dest: pop_first_Some)

lemma pop_first_mset [pop_facts]:
  "pop_first P xs = Some (y, ys) \<Longrightarrow> mset xs = add_mset y (mset ys)"
  by (auto dest: pop_first_Some)

lemma pop_first_set [pop_facts]: "pop_first P xs = Some (y, ys) \<Longrightarrow> set ys \<subseteq> set xs"
  by (auto dest: pop_first_Some)

lemma pop_first_sorted [pop_facts]:
  "pop_first P xs = Some (y, ys) \<Longrightarrow> sorted (map f xs) \<Longrightarrow> sorted (map f ys)"
  by (auto dest!: pop_first_Some simp: sorted_append)

lemma pop_first_length [pop_facts]:
  "pop_first P xs = Some (y, ys) \<Longrightarrow> length xs = Suc (length ys)"
  by (auto dest: pop_first_Some)

lemma nonempty_member: "x \<in> set xs \<Longrightarrow> xs \<noteq> []"
  by auto

lemma sorted_hd_le:
  "sorted (map f xs) \<Longrightarrow> x \<in> set xs \<Longrightarrow> f (hd xs) \<le> f x"
  by (cases xs) auto

section \<open>Ordered association lists: \<open>std::map\<close>\<close>

text \<open>
  \<open>std::map\<close> iterates in ascending key order and \<open>emplace\<close> leaves an existing entry
  alone, while \<open>operator[]\<close> creates a default entry that the caller then changes.
\<close>

fun map_emplace :: "'k::linorder \<Rightarrow> 'v \<Rightarrow> ('k \<times> 'v) list \<Rightarrow> ('k \<times> 'v) list" where
  "map_emplace k v [] = [(k, v)]"
| "map_emplace k v ((k', v') # m) =
     (if k < k' then (k, v) # (k', v') # m
      else if k = k' then (k', v') # m
      else (k', v') # map_emplace k v m)"

fun map_assign :: "'k::linorder \<Rightarrow> 'v \<Rightarrow> ('k \<times> 'v) list \<Rightarrow> ('k \<times> 'v) list" where
  "map_assign k v [] = [(k, v)]"
| "map_assign k v ((k', v') # m) =
     (if k < k' then (k, v) # (k', v') # m
      else if k = k' then (k, v) # m
      else (k', v') # map_assign k v m)"

definition map_erase :: "'k \<Rightarrow> ('k \<times> 'v) list \<Rightarrow> ('k \<times> 'v) list" where
  [eh_defs]: "map_erase k m = filter (\<lambda>e. fst e \<noteq> k) m"

definition ordered_map :: "('k::linorder \<times> 'v) list \<Rightarrow> bool" where
  "ordered_map m \<longleftrightarrow> sorted_wrt (<) (map fst m)"

lemma ordered_map_Nil [simp]: "ordered_map []"
  by (simp add: ordered_map_def)

lemma ordered_map_Cons [map_facts]:
  "ordered_map ((k, v) # m) \<longleftrightarrow> (\<forall>k'\<in>fst ` set m. k < k') \<and> ordered_map m"
  by (auto simp: ordered_map_def)

lemma map_emplace_keys [map_facts]: "fst ` set (map_emplace k v m) = insert k (fst ` set m)"
  by (induction k v m rule: map_emplace.induct) auto

lemma map_assign_keys [map_facts]: "fst ` set (map_assign k v m) = insert k (fst ` set m)"
  by (induction k v m rule: map_assign.induct) auto

lemma ordered_map_emplace: "ordered_map m \<Longrightarrow> ordered_map (map_emplace k v m)"
  by (induction k v m rule: map_emplace.induct) (auto simp: map_facts not_less)

lemma ordered_map_assign: "ordered_map m \<Longrightarrow> ordered_map (map_assign k v m)"
  by (induction k v m rule: map_assign.induct) (auto simp: map_facts not_less)

lemma ordered_map_filter: "ordered_map m \<Longrightarrow> ordered_map (filter P m)"
  by (induction m) (auto simp: map_facts)

lemma ordered_map_erase: "ordered_map m \<Longrightarrow> ordered_map (map_erase k m)"
  by (simp add: map_erase_def ordered_map_filter)

lemma map_of_less_None:
  "\<forall>k'\<in>fst ` set m. k < k' \<Longrightarrow> map_of m (k::'k::linorder) = None"
  by (force simp: map_of_eq_None_iff)

lemma map_of_emplace:
  "ordered_map m \<Longrightarrow>
     map_of (map_emplace k v m) = (case map_of m k of None \<Rightarrow> (map_of m)(k \<mapsto> v) | Some _ \<Rightarrow> map_of m)"
proof (induction k v m rule: map_emplace.induct)
  case (1 k v)
  then show ?case by simp
next
  case (2 k v k' v' m)
  consider "k < k'" | "k = k'" | "k' < k" by (rule linorder_cases)
  then show ?case
  proof cases
    case 1
    with 2 have "\<forall>k''\<in>fst ` set m. k < k''" by (auto simp: map_facts)
    with 1 show ?thesis by (auto simp: map_of_less_None)
  next
    case 2
    then show ?thesis by simp
  next
    case 3
    with 2 show ?thesis by (auto simp: map_facts fun_eq_iff split: option.splits)
  qed
qed

lemma map_of_assign: "ordered_map m \<Longrightarrow> map_of (map_assign k v m) = (map_of m)(k \<mapsto> v)"
proof (induction k v m rule: map_assign.induct)
  case (1 k v)
  then show ?case by simp
next
  case (2 k v k' v' m)
  then show ?case by (auto simp: map_facts fun_eq_iff)
qed

lemma map_of_erase: "map_of (map_erase k m) = (map_of m)(k := None)"
  unfolding map_erase_def by (induction m) (auto simp: fun_eq_iff)

lemma map_of_erase_same [simp]: "map_of (map_erase k m) k = None"
  by (simp add: map_of_erase)

end
