(* ===== verification/Inner_Event.thy ===== *)
theory Inner_Event
  imports Prelude
begin

text \<open>
  The event object: \<open>interfaces/inner_api/inner_event.h\<close> and
  \<open>frameworks/eventhandler/src/inner_event.cpp\<close>. An event is a record with the members of
  \<open>class InnerEvent\<close>; the factories \<open>InnerEvent::Get\<close>, the typed payload slot, the caller
  description, the dump strings, \<open>ClearEvent\<close> and the waiter of synchronous events follow.
  The member \<open>foo_\<close>
  of the class is the field \<open>ev_foo\<close> (\<open>c_foo\<close> for a \<open>Caller\<close>). References to shared objects (handlers, listeners, payloads, waiters) are numbers; whether
  a weak reference is still alive is a function argument \<open>alive\<close>. The trace id kept for the
  HiTrace library and the log lines are left out.
\<close>

section \<open>Identifiers, callers and callbacks\<close>

type_synonym handler_ref = nat
type_synonym runner_ref = nat
type_synonym listener_ref = nat
type_synonym waiter_ref = nat
type_synonym object_ref = nat

text \<open>\<open>using EventId = std::variant<uint32_t, std::string>\<close>.\<close>

datatype event_id = IdU32 u32 | IdStr string

record caller =
  c_file :: string
  c_line :: int
  c_func :: string
  c_dfxName :: string

definition no_caller :: caller where
  [eh_defs]: "no_caller = \<lparr>c_file = [], c_line = 0, c_func = [], c_dfxName = []\<rparr>"

text \<open>\<open>std::string::find_last_of\<close>: the index of the last character that is in the set.\<close>

fun find_last_of :: "char list \<Rightarrow> string \<Rightarrow> nat option" where
  "find_last_of cs [] = None"
| "find_last_of cs (c # s) =
     (case find_last_of cs s of
        Some i \<Rightarrow> Some (Suc i)
      | None \<Rightarrow> if c \<in> set cs then Some 0 else None)"

definition Caller_ToString :: "caller \<Rightarrow> string" where
  "Caller_ToString c =
     (if c_file c = [] then ''[ ]''
      else
        let split = (case find_last_of [CHR ''/'', CHR 0x5C] (c_file c) of
                       None \<Rightarrow> 0 | Some i \<Rightarrow> i)
        in ''['' @ drop (split + 1) (c_file c) @ ''('' @ c_func c @ '':'' @ to_string_int (c_line c)
           @ c_dfxName c @ '')]'')"

definition ClearCaller :: "caller \<Rightarrow> caller" where
  [eh_defs]: "ClearCaller c = c\<lparr>c_file := [], c_func := [], c_line := 0\<rparr>"

text \<open>
  What a task's \<open>std::function\<close> holds: a function the client supplied, or one of the two
  lambdas the library itself posts for file descriptor events, with the values they capture.
\<close>

datatype callback =
    UserTask nat
  | FdTask int u32 listener_ref bool
  | DeamonFdTask int u32 listener_ref

section \<open>The typed payload\<close>

text \<open>
  \<open>SaveSharedPtr\<close> and \<open>SaveUniquePtr\<close> store a smart pointer behind a \<open>void *\<close> together
  with a type id; \<open>GetSharedObject\<close> and \<open>GetUniqueObject\<close> give it back only when the id
  matches. The model follows the build without RTTI, where the id is computed from sizes.
\<close>

record cxx_type =
  type_name :: nat
  type_size :: u64

datatype smart_ptr =
    SharedPtr cxx_type
  | WeakPtr cxx_type
  | UniquePtr cxx_type u64
  | UniqueArray cxx_type u64

definition SHARED_PTR_TYPE :: u64 where [eh_defs]: "SHARED_PTR_TYPE = 0x10000000"
definition WEAK_PTR_TYPE :: u64 where [eh_defs]: "WEAK_PTR_TYPE = 0x20000000"
definition UNIQUE_PTR_TYPE :: u64 where [eh_defs]: "UNIQUE_PTR_TYPE = 0x30000000"
definition UNIQUE_PTR_ARRAY_TYPE :: u64 where [eh_defs]: "UNIQUE_PTR_ARRAY_TYPE = 0x40000000"

fun CalculateSmartPtrTypeId :: "smart_ptr \<Rightarrow> u64" where
  "CalculateSmartPtrTypeId (SharedPtr t) = type_size t OR SHARED_PTR_TYPE"
| "CalculateSmartPtrTypeId (WeakPtr t) = type_size t OR WEAK_PTR_TYPE"
| "CalculateSmartPtrTypeId (UniquePtr t d) = type_size t OR (d - 1) OR UNIQUE_PTR_TYPE"
| "CalculateSmartPtrTypeId (UniqueArray t d) = type_size t OR (d - 1) OR UNIQUE_PTR_ARRAY_TYPE"

section \<open>The event\<close>

record inner_event =
  ev_owner :: "handler_ref option"
  ev_handleTime :: time
  ev_sendTime :: time
  ev_senderKernelThreadId :: u64
  ev_innerEventId :: event_id
  ev_param :: int
  ev_smartPtrTypeId :: u64
  ev_smartPtr :: "object_ref option"
  ev_smartPtrDtor :: "smart_ptr option"
  ev_taskCallback :: "callback option"
  ev_taskName :: string
  ev_caller :: caller
  ev_waiter :: "waiter_ref option"
  ev_eventId :: string
  ev_emitterId :: u32
  ev_priority :: int
  ev_isVsync :: bool
  ev_isBarrier :: bool
  ev_ownerId :: string
  ev_delayTime :: int
  ev_isEnhanced :: bool
  ev_stackId :: u64

definition new_event :: inner_event where
  \<comment> \<open>\<open>InnerEvent() = default\<close>: the member initialisers\<close>
  [eh_defs]: "new_event =
     \<lparr>ev_owner = None, ev_handleTime = 0, ev_sendTime = 0, ev_senderKernelThreadId = 0,
      ev_innerEventId = IdU32 0, ev_param = 0, ev_smartPtrTypeId = 0, ev_smartPtr = None,
      ev_smartPtrDtor = None, ev_taskCallback = None, ev_taskName = [], ev_caller = no_caller,
      ev_waiter = None, ev_eventId = [], ev_emitterId = 0, ev_priority = -1, ev_isVsync = False,
      ev_isBarrier = False, ev_ownerId = [], ev_delayTime = 0, ev_isEnhanced = False, ev_stackId = 0\<rparr>"

definition HasTask :: "inner_event \<Rightarrow> bool" where
  [eh_defs]: "HasTask e \<longleftrightarrow> ev_taskCallback e \<noteq> None"

definition GetInnerEventId :: "inner_event \<Rightarrow> u32" where
  [eh_defs]: "GetInnerEventId e = (case ev_innerEventId e of IdU32 n \<Rightarrow> n | IdStr s \<Rightarrow> 0)"

definition GetOwner :: "(handler_ref \<Rightarrow> bool) \<Rightarrow> inner_event \<Rightarrow> handler_ref option" where
  \<comment> \<open>\<open>owner_.lock()\<close>\<close>
  [eh_defs]: "GetOwner alive e =
     (case ev_owner e of None \<Rightarrow> None | Some h \<Rightarrow> if alive h then Some h else None)"

definition owner_expired :: "(handler_ref \<Rightarrow> bool) \<Rightarrow> inner_event \<Rightarrow> bool" where
  \<comment> \<open>\<open>owner_.expired()\<close>\<close>
  [eh_defs]: "owner_expired alive e \<longleftrightarrow> GetOwner alive e = None"

definition SetEventUniqueId :: "time \<Rightarrow> inner_event \<Rightarrow> inner_event" where
  [eh_defs]: "SetEventUniqueId now e = e\<lparr>ev_eventId := to_string_int now\<rparr>"

definition HasWaiter :: "inner_event \<Rightarrow> bool" where
  [eh_defs]: "HasWaiter e \<longleftrightarrow> ev_waiter e \<noteq> None"

definition CreateWaiter :: "waiter_ref \<Rightarrow> inner_event \<Rightarrow> inner_event" where
  [eh_defs]: "CreateWaiter w e = e\<lparr>ev_waiter := Some w\<rparr>"

definition SaveSharedPtr :: "smart_ptr \<Rightarrow> object_ref \<Rightarrow> inner_event \<Rightarrow> inner_event" where
  \<comment> \<open>\<open>smart_ptr\<close> is the static type \<open>T\<close> of the argument: a shared or a weak pointer\<close>
  [eh_defs]: "SaveSharedPtr sp obj e =
     e\<lparr>ev_smartPtrDtor := Some sp, ev_smartPtrTypeId := CalculateSmartPtrTypeId sp,
       ev_smartPtr := Some obj\<rparr>"

definition SaveUniquePtr :: "smart_ptr \<Rightarrow> object_ref \<Rightarrow> inner_event \<Rightarrow> inner_event" where
  [eh_defs]: "SaveUniquePtr sp obj e =
     e\<lparr>ev_smartPtrDtor := Some sp, ev_smartPtrTypeId := CalculateSmartPtrTypeId sp,
       ev_smartPtr := Some obj\<rparr>"

definition GetSharedObject ::
  "(object_ref \<Rightarrow> bool) \<Rightarrow> cxx_type \<Rightarrow> inner_event \<Rightarrow> object_ref option" where
  \<comment> \<open>\<open>alive\<close> says which objects a weak pointer can still lock\<close>
  [eh_defs]: "GetSharedObject alive t e =
     (if CalculateSmartPtrTypeId (SharedPtr t) = ev_smartPtrTypeId e then ev_smartPtr e
      else if CalculateSmartPtrTypeId (WeakPtr t) = ev_smartPtrTypeId e then
        (case ev_smartPtr e of None \<Rightarrow> None | Some ob \<Rightarrow> if alive ob then Some ob else None)
      else None)"

definition GetUniqueObject :: "smart_ptr \<Rightarrow> inner_event \<Rightarrow> object_ref option \<times> inner_event" where
  \<comment> \<open>the object is moved out of the event, whose pointer is then empty\<close>
  [eh_defs]: "GetUniqueObject sp e =
     (if CalculateSmartPtrTypeId sp = ev_smartPtrTypeId e then (ev_smartPtr e, e\<lparr>ev_smartPtr := None\<rparr>)
      else (None, e))"

section \<open>Factories\<close>

text \<open>
  \<open>alloc\<close> says whether \<open>new (std::nothrow) InnerEvent\<close> succeeded; \<open>None\<close> is the null
  \<open>InnerEvent::Pointer\<close>.
\<close>

definition Get_id :: "bool \<Rightarrow> u32 \<Rightarrow> int \<Rightarrow> caller \<Rightarrow> inner_event option" where
  [eh_defs]: "Get_id alloc ident param c =
     (if alloc then Some (new_event\<lparr>ev_innerEventId := IdU32 ident, ev_param := param, ev_caller := c\<rparr>)
      else None)"

definition Get_event_id :: "bool \<Rightarrow> event_id \<Rightarrow> int \<Rightarrow> caller \<Rightarrow> inner_event option" where
  [eh_defs]: "Get_event_id alloc ident param c =
     (if alloc then Some (new_event\<lparr>ev_innerEventId := ident, ev_param := param, ev_caller := c\<rparr>)
      else None)"

definition Get_task ::
  "bool \<Rightarrow> callback option \<Rightarrow> string \<Rightarrow> caller \<Rightarrow> inner_event option" where
  [eh_defs]: "Get_task alloc cb name c =
     (if cb = None then None
      else if alloc then Some (new_event\<lparr>ev_taskCallback := cb, ev_taskName := name, ev_caller := c\<rparr>)
      else None)"

definition Get_shared ::
  "event_id \<Rightarrow> smart_ptr \<Rightarrow> object_ref \<Rightarrow> int \<Rightarrow> caller \<Rightarrow> inner_event" where
  \<comment> \<open>the templates dereference the event without a null check: allocation has succeeded\<close>
  [eh_defs]: "Get_shared ident sp obj param c =
     SaveSharedPtr sp obj (new_event\<lparr>ev_innerEventId := ident, ev_param := param, ev_caller := c\<rparr>)"

definition Get_unique ::
  "event_id \<Rightarrow> smart_ptr \<Rightarrow> object_ref \<Rightarrow> int \<Rightarrow> caller \<Rightarrow> inner_event" where
  [eh_defs]: "Get_unique ident sp obj param c =
     SaveUniquePtr sp obj (new_event\<lparr>ev_innerEventId := ident, ev_param := param, ev_caller := c\<rparr>)"

text \<open>The overloads with the parameter in front of the object.\<close>

definition Get_param_shared ::
  "event_id \<Rightarrow> int \<Rightarrow> smart_ptr \<Rightarrow> object_ref \<Rightarrow> caller \<Rightarrow> inner_event" where
  [eh_defs]: "Get_param_shared ident param sp obj c =
     SaveSharedPtr sp obj (new_event\<lparr>ev_innerEventId := ident, ev_param := param, ev_caller := c\<rparr>)"

definition Get_param_unique ::
  "event_id \<Rightarrow> int \<Rightarrow> smart_ptr \<Rightarrow> object_ref \<Rightarrow> caller \<Rightarrow> inner_event" where
  [eh_defs]: "Get_param_unique ident param sp obj c =
     SaveUniquePtr sp obj (new_event\<lparr>ev_innerEventId := ident, ev_param := param, ev_caller := c\<rparr>)"

section \<open>Recycling an event\<close>

text \<open>What \<open>ClearEvent\<close>, the deleter of \<open>InnerEvent::Pointer\<close>, does outside the event.\<close>

datatype clear_effect =
    NotifyWaiter waiter_ref
  | DestroyPayload smart_ptr "object_ref option"
  | ReleaseStack u64

definition ClearEvent :: "inner_event \<Rightarrow> inner_event \<times> clear_effect list" where
  "ClearEvent e =
     (let wake = (case ev_waiter e of None \<Rightarrow> [] | Some w \<Rightarrow> [NotifyWaiter w]);
          e1 = e\<lparr>ev_waiter := None\<rparr>;
          (e2, payload) =
            (if HasTask e1 then (e1\<lparr>ev_taskName := [], ev_caller := ClearCaller (ev_caller e1)\<rparr>, [])
             else (case ev_smartPtrDtor e1 of
                     None \<Rightarrow> (e1, [])
                   | Some sp \<Rightarrow>
                       (e1\<lparr>ev_smartPtrDtor := None, ev_smartPtr := None, ev_smartPtrTypeId := 0\<rparr>,
                        [DestroyPayload sp (ev_smartPtr e1)])))
      in (e2\<lparr>ev_owner := None\<rparr>, wake @ payload @ [ReleaseStack (ev_stackId e2)]))"

definition SetStackId :: "u64 \<Rightarrow> inner_event \<Rightarrow> inner_event \<times> clear_effect list" where
  [eh_defs]: "SetStackId s e = (e\<lparr>ev_stackId := s\<rparr>, [ReleaseStack (ev_stackId e)])"

section \<open>Dump strings\<close>

text \<open>
  \<open>fmt\<close> stands for \<open>DumpTimeToString\<close>, which \<open>Tracing\<close> defines for given readings of the
  clocks.
\<close>

definition event_id_string :: "event_id \<Rightarrow> string" where
  \<comment> \<open>the two branches on \<open>innerEventId_.index() == TYPE_U32_INDEX\<close>\<close>
  [eh_defs]: "event_id_string i = (case i of IdU32 n \<Rightarrow> to_string_nat (unat n) | IdStr s \<Rightarrow> s)"

definition LINE_SEPARATOR :: string where
  [eh_defs]: "LINE_SEPARATOR = [CHR 0x0A]"

definition InnerEvent_Dump :: "(time \<Rightarrow> string) \<Rightarrow> (handler_ref \<Rightarrow> bool) \<Rightarrow> inner_event \<Rightarrow> string" where
  "InnerEvent_Dump fmt alive e =
     ''Event { '' @
     (if \<not> owner_expired alive e then
        ''send thread = '' @ to_string_nat (unat (ev_senderKernelThreadId e)) @
        '', send time = '' @ fmt (ev_sendTime e) @
        '', handle time = '' @ fmt (ev_handleTime e) @
        (if HasTask e then '', task name = '' @ ev_taskName e
         else '', id = '' @ event_id_string (ev_innerEventId e)) @
        (if ev_param e \<noteq> 0 then '', param = '' @ to_string_int (ev_param e) else []) @
        '', caller = '' @ Caller_ToString (ev_caller e)
      else ''No handler'') @
     '' }'' @ LINE_SEPARATOR"

definition TraceInfo :: "(handler_ref \<Rightarrow> bool) \<Rightarrow> inner_event \<Rightarrow> string" where
  "TraceInfo alive e =
     ''Et:'' @
     (if \<not> owner_expired alive e then
        to_string_nat (unat (ev_senderKernelThreadId e)) @
        '','' @ to_string_int (ev_sendTime e) @
        '','' @ to_string_int (ev_handleTime e) @
        '','' @ (if HasTask e then ev_taskName e else event_id_string (ev_innerEventId e)) @
        '','' @ to_string_int (ev_priority e) @
        '','' @ Caller_ToString (ev_caller e)
      else ''NA'')"

end
