(* ===== verification/Queue_Types.thy ===== *)
theory Queue_Types
  imports Inner_Event
begin

text \<open>
  Enumerations and constants of \<open>interfaces/inner_api/event_queue.h\<close>,
  \<open>file_descriptor_listener.h\<close>, \<open>event_handler_errors.h\<close>, the conversions of
  \<open>frameworks/eventhandler/include/event_handler_utils.h\<close>, and the two records of values
  the queue code takes from its surroundings: \<open>system_params\<close> (system parameters read at
  start-up and build switches) and \<open>world\<close> (which handlers are alive, what runner and
  identity they have, on which thread the code runs).
\<close>

section \<open>Enumerations\<close>

text \<open>
  \<open>enum class Priority : uint32_t\<close>. Any 32-bit value can be cast to it, and the emitters do
  so with a number taken from JavaScript, hence the last constructor.
\<close>

datatype priority = VIP | IMMEDIATE | HIGH | LOW | IDLE | OtherPriority u32

fun prio_num :: "priority \<Rightarrow> u32" where
  "prio_num VIP = 0"
| "prio_num IMMEDIATE = 1"
| "prio_num HIGH = 2"
| "prio_num LOW = 3"
| "prio_num IDLE = 4"
| "prio_num (OtherPriority n) = n"

definition prio_cast :: "u32 \<Rightarrow> priority" where
  \<comment> \<open>\<open>static_cast<Priority>\<close>\<close>
  [eh_defs]: "prio_cast n =
     (if n = 0 then VIP else if n = 1 then IMMEDIATE else if n = 2 then HIGH
      else if n = 3 then LOW else if n = 4 then IDLE else OtherPriority n)"

lemma prio_num_cast [simp]: "prio_num (prio_cast n) = n"
  by (simp add: prio_cast_def)

definition prio_index :: "priority \<Rightarrow> nat" where
  [eh_defs]: "prio_index p = unat (prio_num p)"

definition prio_int :: "priority \<Rightarrow> int" where
  \<comment> \<open>\<open>static_cast<int32_t>(priority)\<close>\<close>
  [eh_defs]: "prio_int p = sint (prio_num p)"

lemma prio_values [simp]:
  "prio_index VIP = 0" "prio_index IMMEDIATE = 1" "prio_index HIGH = 2"
  "prio_index LOW = 3" "prio_index IDLE = 4"
  "prio_int VIP = 0" "prio_int IMMEDIATE = 1" "prio_int HIGH = 2"
  "prio_int LOW = 3" "prio_int IDLE = 4"
  by (simp_all add: prio_index_def prio_int_def)

datatype vsync_policy =
    DISABLE_VSYNC_FIRST
  | VSYNC_FIRST_WITH_DEFAULT_BARRIER
  | VSYNC_FIRST_WITHOUT_DEFAULT_BARRIER

datatype vsync_barrier_option = NO_BARRIER | NEED_BARRIER | FORCE_BARRIER

datatype event_runner_stage =
    STAGE_ENTRY_RUNNER | STAGE_EXIT_RUNNER | STAGE_BEFORE_WAITING | STAGE_AFTER_WAITING
  | STAGE_VIP_EXISTED | STAGE_VIP_NONE | STAGE_INVAILD

fun stage_bits :: "event_runner_stage \<Rightarrow> u32" where
  "stage_bits STAGE_ENTRY_RUNNER = 1"
| "stage_bits STAGE_EXIT_RUNNER = 2"
| "stage_bits STAGE_BEFORE_WAITING = 4"
| "stage_bits STAGE_AFTER_WAITING = 8"
| "stage_bits STAGE_VIP_EXISTED = 16"
| "stage_bits STAGE_VIP_NONE = 32"
| "stage_bits STAGE_INVAILD = 0"

datatype err_code =
    ERR_OK
  | EVENT_HANDLER_ERR_INVALID_PARAM
  | EVENT_HANDLER_ERR_NO_EVENT_RUNNER
  | EVENT_HANDLER_ERR_FD_NOT_SUPPORT
  | EVENT_HANDLER_ERR_FD_ALREADY
  | EVENT_HANDLER_ERR_FD_FAILED
  | EVENT_HANDLER_ERR_RUNNER_NO_PERMIT
  | EVENT_HANDLER_ERR_RUNNER_ALREADY

section \<open>File descriptor listeners\<close>

definition FILE_DESCRIPTOR_INPUT_EVENT :: u32 where [eh_defs]: "FILE_DESCRIPTOR_INPUT_EVENT = 1"
definition FILE_DESCRIPTOR_OUTPUT_EVENT :: u32 where [eh_defs]: "FILE_DESCRIPTOR_OUTPUT_EVENT = 2"
definition FILE_DESCRIPTOR_SHUTDOWN_EVENT :: u32 where [eh_defs]: "FILE_DESCRIPTOR_SHUTDOWN_EVENT = 4"
definition FILE_DESCRIPTOR_EXCEPTION_EVENT :: u32 where [eh_defs]: "FILE_DESCRIPTOR_EXCEPTION_EVENT = 8"
definition FILE_DESCRIPTOR_EVENTS_MASK :: u32 where
  [eh_defs]: "FILE_DESCRIPTOR_EVENTS_MASK = FILE_DESCRIPTOR_INPUT_EVENT OR FILE_DESCRIPTOR_OUTPUT_EVENT"

datatype listener_type = LTYPE_UNKNOW | LTYPE_VSYNC | LTYPE_UV | LTYPE_MMI | LTYPE_WEBVIEW

text \<open>Listeners are shared objects that their users change: \<open>listeners\<close> is their store.\<close>

record fd_listener =
  l_owner :: "handler_ref option"
  l_isDeamonWaiter :: bool
  l_type :: listener_type

type_synonym listeners = "listener_ref \<Rightarrow> fd_listener"

definition new_listener :: fd_listener where
  [eh_defs]: "new_listener = \<lparr>l_owner = None, l_isDeamonWaiter = False, l_type = LTYPE_UNKNOW\<rparr>"

definition IsVsyncListener :: "fd_listener \<Rightarrow> bool" where
  [eh_defs]: "IsVsyncListener l \<longleftrightarrow> l_type l = LTYPE_VSYNC"

definition Listener_GetOwner :: "(handler_ref \<Rightarrow> bool) \<Rightarrow> fd_listener \<Rightarrow> handler_ref option" where
  [eh_defs]: "Listener_GetOwner alive l =
     (case l_owner l of None \<Rightarrow> None | Some h \<Rightarrow> if alive h then Some h else None)"

definition Listener_SetOwner :: "listener_ref \<Rightarrow> handler_ref \<Rightarrow> listeners \<Rightarrow> listeners" where
  [eh_defs]: "Listener_SetOwner r h ls = ls(r := (ls r)\<lparr>l_owner := Some h\<rparr>)"

section \<open>Surroundings of the queue\<close>

record system_params =
  p_vsync_interval_ms :: int
  p_vsync_delayms_default_barrier :: int
  p_vsync_barrier_timeout :: int
  p_monitor_flag :: bool
  p_smart_gc :: bool
  p_pending_vip :: int
  p_pending_immediate :: int
  p_pending_high :: int

definition default_params :: system_params where
  \<comment> \<open>the defaults in the \<open>GetIntParameter\<close> and \<open>GetBoolParameter\<close> calls; smart GC compiled in\<close>
  [eh_defs]: "default_params =
     \<lparr>p_vsync_interval_ms = 4, p_vsync_delayms_default_barrier = 50,
      p_vsync_barrier_timeout = 100, p_monitor_flag = False, p_smart_gc = True,
      p_pending_vip = 4, p_pending_immediate = 40, p_pending_high = 400\<rparr>"

record world =
  wd_alive :: "handler_ref \<Rightarrow> bool"
  wd_handlerId :: "handler_ref \<Rightarrow> string"
  wd_runner :: "handler_ref \<Rightarrow> runner_ref option"
  wd_mainRunner :: "runner_ref option"
  wd_isAppMainThread :: bool
  wd_listeners :: listeners
  wd_listenerAlive :: "listener_ref \<Rightarrow> bool"

definition small_world :: world where
  \<comment> \<open>a world for evaluations: every object alive, handler \<open>n\<close> on runner \<open>n\<close>, runner 0 the main one\<close>
  [eh_defs]: "small_world =
     \<lparr>wd_alive = (\<lambda>_. True), wd_handlerId = (\<lambda>h. to_string_nat h), wd_runner = (\<lambda>h. Some h),
      wd_mainRunner = Some 0, wd_isAppMainThread = False, wd_listeners = (\<lambda>_. new_listener),
      wd_listenerAlive = (\<lambda>_. True)\<rparr>"

section \<open>Conversions of time\<close>

definition TimePointToTimeOut :: "time \<Rightarrow> time \<Rightarrow> int" where
  "TimePointToTimeOut now when = (if when \<le> now then 0 else when - now)"

definition INFINITE_TIMEOUT :: int where
  [eh_defs]: "INFINITE_TIMEOUT = -1"

definition NanosecondsToTimeout :: "int \<Rightarrow> int" where
  "NanosecondsToTimeout nanoseconds =
     (if nanoseconds < 0 then INFINITE_TIMEOUT
      else
        let q = nanoseconds div MS;
            milliseconds = (if nanoseconds mod MS > 0 then q + 1 else q)
        in if milliseconds > INT32_MAX then INT32_MAX else milliseconds)"

lemma NanosecondsToTimeout_ceiling:
  assumes "0 \<le> ns" "ns \<le> INT32_MAX * MS"
  shows "ns \<le> NanosecondsToTimeout ns * MS \<and> NanosecondsToTimeout ns * MS < ns + MS"
  using assms div_mult_mod_eq [of ns 1000000] pos_mod_bound [of 1000000 ns] pos_mod_sign [of 1000000 ns]
  unfolding NanosecondsToTimeout_def Let_def MS_def INT32_MAX_def by (auto; linarith)

lemma NanosecondsToTimeout_range: "-1 \<le> NanosecondsToTimeout ns \<and> NanosecondsToTimeout ns \<le> INT32_MAX"
  unfolding NanosecondsToTimeout_def Let_def MS_def INT32_MAX_def INFINITE_TIMEOUT_def by auto

end
