(* ===== verification/Io_Waiter.thy ===== *)
theory Io_Waiter
  imports Queue_Types
begin

text \<open>
  The IO waiters a queue blocks on: \<open>frameworks/eventhandler/src/none_io_waiter.cpp\<close> (a
  condition variable), \<open>epoll_io_waiter.cpp\<close> (epoll and an eventfd) and
  \<open>deamon_io_waiter.cpp\<close> (one epoll thread for the process). The results of the system calls
  an operation makes are arguments; the calls it makes are appended to the field
  \<open>io_calls\<close>. The locale \<open>fd_registry\<close> is the interface the queue uses to add, remove and
  look up file descriptors.
\<close>

section \<open>System calls\<close>

datatype syscall =
    EpollCreate
  | EventFd
  | EpollCtlAdd int int u32
  | EpollCtlDel int int
  | CloseFd int
  | WriteAwaken int
  | ReadAwaken int

definition EPOLLIN :: u32 where [eh_defs]: "EPOLLIN = 1"
definition EPOLLOUT :: u32 where [eh_defs]: "EPOLLOUT = 4"
definition EPOLLERR :: u32 where [eh_defs]: "EPOLLERR = 8"
definition EPOLLHUP :: u32 where [eh_defs]: "EPOLLHUP = 16"
definition EPOLLET :: u32 where [eh_defs]: "EPOLLET = 0x80000000"

text \<open>\<open>epoll_ctl\<close> of the kernel: a descriptor and whether it is added or deleted give a result.\<close>

record kernel =
  k_ctl_add :: "int \<Rightarrow> u32 \<Rightarrow> int"
  k_ctl_del :: "int \<Rightarrow> int"

text \<open>
  One documented rule of \<open>epoll_ctl\<close>: deleting a descriptor that was not added fails with
  \<open>ENOENT\<close>, so after a failed addition the deletion fails too.
\<close>

definition kernel_rule :: "kernel \<Rightarrow> int \<Rightarrow> bool" where
  "kernel_rule k fd \<longleftrightarrow> ((\<exists>ev. k_ctl_add k fd ev < 0) \<longrightarrow> k_ctl_del k fd < 0)"

definition good_kernel :: kernel where
  \<comment> \<open>a kernel for evaluations: it accepts every request\<close>
  [eh_defs]: "good_kernel = \<lparr>k_ctl_add = (\<lambda>_ _. 0), k_ctl_del = (\<lambda>_. 0)\<rparr>"

section \<open>The condition variable waiter\<close>

record none_waiter =
  n_pred :: bool

definition HOURS_PER_YEAR :: int where
  [eh_defs]: "HOURS_PER_YEAR = 24 * 365"

definition oneYear :: int where
  [eh_defs]: "oneYear = HOURS_PER_YEAR * 3600000000000"

datatype cond_wait = WaitForever | WaitAtMost int

definition None_wait_request :: "int \<Rightarrow> cond_wait" where
  \<comment> \<open>how long \<open>WaitFor\<close> blocks on the condition variable\<close>
  "None_wait_request nanoseconds =
     (if nanoseconds < 0 then WaitForever
      else WaitAtMost (if nanoseconds > oneYear then oneYear else nanoseconds))"

definition None_wait_ready :: "cond_wait \<Rightarrow> int \<Rightarrow> none_waiter \<Rightarrow> bool" where
  \<comment> \<open>the wait is over when the predicate holds or the time has passed\<close>
  "None_wait_ready r elapsed w \<longleftrightarrow>
     n_pred w \<or> (case r of WaitForever \<Rightarrow> False | WaitAtMost d \<Rightarrow> d \<le> elapsed)"

definition None_WaitFor_finish :: "none_waiter \<Rightarrow> bool \<times> none_waiter" where
  "None_WaitFor_finish w = (True, w\<lparr>n_pred := False\<rparr>)"

definition None_NotifyOne :: "none_waiter \<Rightarrow> none_waiter" where
  "None_NotifyOne w = w\<lparr>n_pred := True\<rparr>"

definition None_NotifyAll :: "none_waiter \<Rightarrow> none_waiter" where
  "None_NotifyAll w = w\<lparr>n_pred := True\<rparr>"

definition None_AddFileDescriptor :: "none_waiter \<Rightarrow> bool \<times> none_waiter" where
  "None_AddFileDescriptor w = (False, w)"

section \<open>The epoll waiter\<close>

record fd_info =
  fi_taskName :: string
  fi_priority :: priority
  fi_listener :: "listener_ref option"

type_synonym fd_map = "(int \<times> fd_info) list"

record epoll_waiter =
  io_epollFd :: int
  io_awakenFd :: int
  io_waitingCount :: int
  io_callback :: bool
  io_map :: fd_map
  io_calls :: "syscall list"

definition new_epoll :: epoll_waiter where
  [eh_defs]: "new_epoll =
     \<lparr>io_epollFd = -1, io_awakenFd = -1, io_waitingCount = 0, io_callback = False, io_map = [],
      io_calls = []\<rparr>"

definition call :: "syscall \<Rightarrow> 'a epoll_waiter_scheme \<Rightarrow> 'a epoll_waiter_scheme" where
  [eh_defs]: "call c w = w\<lparr>io_calls := io_calls w @ [c]\<rparr>"

text \<open>
  \<open>epfd\<close>, \<open>evfd\<close> and \<open>ctl\<close> are the results of \<open>epoll_create\<close>, \<open>eventfd\<close> and the
  \<open>epoll_ctl\<close> that adds the eventfd. The calls after a failed one are not made.
\<close>

definition Epoll_Init :: "int \<Rightarrow> int \<Rightarrow> int \<Rightarrow> 'a epoll_waiter_scheme \<Rightarrow> bool \<times> 'a epoll_waiter_scheme" where
  "Epoll_Init epfd evfd ctl w =
     (if io_epollFd w \<ge> 0 then (True, w)
      else
        let w1 = call EpollCreate w
        in if epfd < 0 then (False, w1)
           else
             let w2 = call EventFd w1
             in if evfd < 0 then (False, call (CloseFd epfd) w2)
                else
                  let w3 = call (EpollCtlAdd epfd evfd (EPOLLIN OR EPOLLET)) w2
                  in if ctl < 0 then (False, call (CloseFd evfd) (call (CloseFd epfd) w3))
                     else (True, w3\<lparr>io_epollFd := epfd, io_awakenFd := evfd\<rparr>))"

definition Epoll_destroy :: "'a epoll_waiter_scheme \<Rightarrow> 'a epoll_waiter_scheme" where
  "Epoll_destroy w =
     (let w1 = (if io_epollFd w \<ge> 0 then (call (CloseFd (io_epollFd w)) w)\<lparr>io_epollFd := -1\<rparr> else w)
      in if io_awakenFd w1 \<ge> 0 then (call (CloseFd (io_awakenFd w1)) w1)\<lparr>io_awakenFd := -1\<rparr> else w1)"

definition Epoll_NotifyAll :: "'a epoll_waiter_scheme \<Rightarrow> 'a epoll_waiter_scheme" where
  "Epoll_NotifyAll w =
     (if io_awakenFd w < 0 then w
      else if io_waitingCount w = 0 then w
      else call (WriteAwaken (io_awakenFd w)) w)"

definition Epoll_NotifyOne :: "'a epoll_waiter_scheme \<Rightarrow> 'a epoll_waiter_scheme" where
  "Epoll_NotifyOne w = Epoll_NotifyAll w"

definition Epoll_DrainAwakenPipe :: "'a epoll_waiter_scheme \<Rightarrow> 'a epoll_waiter_scheme" where
  "Epoll_DrainAwakenPipe w = call (ReadAwaken (io_awakenFd w)) w"

definition Epoll_InsertFileDescriptorMap ::
  "int \<Rightarrow> string \<Rightarrow> priority \<Rightarrow> listener_ref option \<Rightarrow> 'a epoll_waiter_scheme \<Rightarrow> 'a epoll_waiter_scheme" where
  "Epoll_InsertFileDescriptorMap fd taskName priority listener w =
     w\<lparr>io_map := map_emplace fd
         \<lparr>fi_taskName = taskName, fi_priority = priority, fi_listener = listener\<rparr> (io_map w)\<rparr>"

definition Epoll_EraseFileDescriptorMap :: "int \<Rightarrow> 'a epoll_waiter_scheme \<Rightarrow> 'a epoll_waiter_scheme" where
  "Epoll_EraseFileDescriptorMap fd w = w\<lparr>io_map := map_erase fd (io_map w)\<rparr>"

definition Epoll_GetFileDescriptorMap :: "int \<Rightarrow> 'a epoll_waiter_scheme \<Rightarrow> fd_info option" where
  "Epoll_GetFileDescriptorMap fd w = map_of (io_map w) fd"

definition Epoll_RemoveFileDescriptor ::
  "kernel \<Rightarrow> int \<Rightarrow> 'a epoll_waiter_scheme \<Rightarrow> 'a epoll_waiter_scheme" where
  "Epoll_RemoveFileDescriptor k fd w =
     (if fd < 0 then w
      else if io_epollFd w < 0 then w
      else
        let w1 = call (EpollCtlDel (io_epollFd w) fd) w
        in if k_ctl_del k fd < 0 then w1 else Epoll_EraseFileDescriptorMap fd w1)"

definition to_epoll_events :: "u32 \<Rightarrow> u32" where
  \<comment> \<open>transform file descriptor listener events into epoll events\<close>
  "to_epoll_events events =
     (let e0 = 0;
          e1 = (if events AND FILE_DESCRIPTOR_INPUT_EVENT \<noteq> 0 then e0 OR EPOLLIN else e0)
      in if events AND FILE_DESCRIPTOR_OUTPUT_EVENT \<noteq> 0 then e1 OR EPOLLOUT else e1)"

definition from_epoll_events :: "u32 \<Rightarrow> u32" where
  \<comment> \<open>transform epoll events into file descriptor listener events\<close>
  "from_epoll_events ep =
     (let e0 = 0;
          e1 = (if ep AND EPOLLIN \<noteq> 0 then e0 OR FILE_DESCRIPTOR_INPUT_EVENT else e0);
          e2 = (if ep AND EPOLLOUT \<noteq> 0 then e1 OR FILE_DESCRIPTOR_OUTPUT_EVENT else e1);
          e3 = (if ep AND EPOLLHUP \<noteq> 0 then e2 OR FILE_DESCRIPTOR_SHUTDOWN_EVENT else e2)
      in if ep AND EPOLLERR \<noteq> 0 then e3 OR FILE_DESCRIPTOR_EXCEPTION_EVENT else e3)"

definition Epoll_AddFileDescriptor ::
  "kernel \<Rightarrow> int \<Rightarrow> u32 \<Rightarrow> string \<Rightarrow> listener_ref option \<Rightarrow> priority \<Rightarrow>
     'a epoll_waiter_scheme \<Rightarrow> bool \<times> 'a epoll_waiter_scheme" where
  "Epoll_AddFileDescriptor k fd events taskName listener priority w =
     (if fd < 0 \<or> events AND FILE_DESCRIPTOR_EVENTS_MASK = 0 then (False, w)
      else if io_epollFd w < 0 then (False, w)
      else
        let w1 = Epoll_InsertFileDescriptorMap fd taskName priority listener w;
            w2 = call (EpollCtlAdd (io_epollFd w) fd (to_epoll_events events)) w1
        in if k_ctl_add k fd (to_epoll_events events) < 0
           then (False, Epoll_RemoveFileDescriptor k fd w2)
           else (True, w2))"

definition Epoll_SetFileDescriptorEventCallback :: "'a epoll_waiter_scheme \<Rightarrow> 'a epoll_waiter_scheme" where
  "Epoll_SetFileDescriptorEventCallback w = w\<lparr>io_callback := True\<rparr>"

text \<open>
  \<open>WaitFor\<close> in two halves around the blocking \<open>epoll_wait\<close>: before it, and after it with
  the result \<open>retVal\<close>, whether \<open>errno\<close> is neither \<open>EINTR\<close> nor \<open>EINVAL\<close>, and the events.
  The second half returns the calls of the queue's callback in order.
\<close>

record fd_callback =
  cb_fd :: int
  cb_events :: u32
  cb_taskName :: string
  cb_priority :: priority

definition Epoll_WaitFor_enter :: "'a epoll_waiter_scheme \<Rightarrow> 'a epoll_waiter_scheme option" where
  \<comment> \<open>\<open>None\<close>: not initialised, \<open>WaitFor\<close> returns false at once\<close>
  "Epoll_WaitFor_enter w =
     (if io_epollFd w < 0 then None else Some (w\<lparr>io_waitingCount := io_waitingCount w + 1\<rparr>))"

definition epoll_dispatch ::
  "listeners \<Rightarrow> bool \<Rightarrow> int \<times> u32 \<Rightarrow> 'a epoll_waiter_scheme \<Rightarrow> fd_callback list" where
  "epoll_dispatch ls vsyncOnly ev w =
     (let fd = fst ev
      in case Epoll_GetFileDescriptorMap fd w of
           None \<Rightarrow> []
         | Some info \<Rightarrow>
             if io_callback w \<and>
                (\<not> vsyncOnly \<or> (case fi_listener info of Some r \<Rightarrow> IsVsyncListener (ls r) | None \<Rightarrow> False))
             then [\<lparr>cb_fd = fd, cb_events = from_epoll_events (snd ev),
                    cb_taskName = fi_taskName info, cb_priority = fi_priority info\<rparr>]
             else [])"

fun epoll_handle ::
  "listeners \<Rightarrow> bool \<Rightarrow> (int \<times> u32) list \<Rightarrow> 'a epoll_waiter_scheme \<Rightarrow>
     fd_callback list \<times> 'a epoll_waiter_scheme" where
  "epoll_handle ls vsyncOnly [] w = ([], w)"
| "epoll_handle ls vsyncOnly (ev # evs) w =
     (if fst ev = io_awakenFd w
      then epoll_handle ls vsyncOnly evs (Epoll_DrainAwakenPipe w)
      else
        let cbs = epoll_dispatch ls vsyncOnly ev w;
            (rest, w') = epoll_handle ls vsyncOnly evs w
        in (cbs @ rest, w'))"

definition Epoll_WaitFor_leave ::
  "listeners \<Rightarrow> bool \<Rightarrow> int \<Rightarrow> bool \<Rightarrow> (int \<times> u32) list \<Rightarrow> 'a epoll_waiter_scheme \<Rightarrow>
     bool \<times> fd_callback list \<times> 'a epoll_waiter_scheme" where
  "Epoll_WaitFor_leave ls vsyncOnly retVal fatalErrno evs w =
     (let w1 = w\<lparr>io_waitingCount := io_waitingCount w - 1\<rparr>
      in if retVal < 0 then (\<not> fatalErrno, [], w1)
         else
           let (cbs, w2) = epoll_handle ls vsyncOnly (take (nat retVal) evs) w1
           in (True, cbs, w2))"


section \<open>The registry of file descriptors\<close>

text \<open>
  What the queue relies on when it registers a descriptor. \<open>deletable\<close> says that the kernel
  will accept the deletion, \<open>ready\<close> that the waiter is initialised.
\<close>

locale fd_registry =
  fixes add :: "int \<Rightarrow> u32 \<Rightarrow> string \<Rightarrow> listener_ref option \<Rightarrow> priority \<Rightarrow> 'w \<Rightarrow> bool \<times> 'w"
    and del :: "int \<Rightarrow> 'w \<Rightarrow> 'w"
    and lookup :: "int \<Rightarrow> 'w \<Rightarrow> fd_info option"
    and wf :: "'w \<Rightarrow> bool"
    and ready :: "'w \<Rightarrow> bool"
    and deletable :: "int \<Rightarrow> bool"
  assumes add_wf: "wf w \<Longrightarrow> wf (snd (add fd ev n l p w))"
    and del_wf: "wf w \<Longrightarrow> wf (del fd w)"
    and add_ready: "ready (snd (add fd ev n l p w)) \<longleftrightarrow> ready w"
    and add_ok_ready: "fst (add fd ev n l p w) \<Longrightarrow> ready w \<and> 0 \<le> fd"
    and add_new: "wf w \<Longrightarrow> fst (add fd ev n l p w) \<Longrightarrow> lookup fd w = None \<Longrightarrow>
        lookup fd (snd (add fd ev n l p w)) = Some \<lparr>fi_taskName = n, fi_priority = p, fi_listener = l\<rparr>"
    and add_old: "wf w \<Longrightarrow> fst (add fd ev n l p w) \<Longrightarrow> lookup fd w = Some i \<Longrightarrow>
        lookup fd (snd (add fd ev n l p w)) = Some i"
    and add_other: "wf w \<Longrightarrow> fd' \<noteq> fd \<Longrightarrow> lookup fd' (snd (add fd ev n l p w)) = lookup fd' w"
    and del_gone: "ready w \<Longrightarrow> deletable fd \<Longrightarrow> 0 \<le> fd \<Longrightarrow> lookup fd (del fd w) = None"
    and del_other: "fd' \<noteq> fd \<Longrightarrow> lookup fd' (del fd w) = lookup fd' w"
begin

lemma add_del_roundtrip:
  assumes "wf w" "lookup fd w = None" "fst (add fd ev n l p w)" "deletable fd"
  shows "lookup f (del fd (snd (add fd ev n l p w))) = lookup f w"
proof (cases "f = fd")
  case True
  then show ?thesis
    using assms add_ready [of fd ev n l p w] add_ok_ready [of fd ev n l p w]
      del_gone [of "snd (add fd ev n l p w)" fd] by simp
next
  case False
  then show ?thesis using assms by (simp add: del_other add_other)
qed

lemma add_commute:
  assumes "wf w" "fd \<noteq> fd'"
    and "fst (add fd ev n l p w)" "fst (add fd' ev' n' l' p' (snd (add fd ev n l p w)))"
    and "lookup fd w = None" "lookup fd' w = None"
  shows "lookup fd (snd (add fd' ev' n' l' p' (snd (add fd ev n l p w)))) =
           Some \<lparr>fi_taskName = n, fi_priority = p, fi_listener = l\<rparr>"
    and "lookup fd' (snd (add fd' ev' n' l' p' (snd (add fd ev n l p w)))) =
           Some \<lparr>fi_taskName = n', fi_priority = p', fi_listener = l'\<rparr>"
  using assms by (simp_all add: add_other add_new add_wf)

lemma add_keeps_first:
  assumes "wf w" "lookup fd w = Some i" "fst (add fd ev n l p w)"
  shows "lookup f (snd (add fd ev n l p w)) = lookup f w"
  using assms by (cases "f = fd") (simp_all add: add_old add_other)

end

definition epoll_wf :: "'a epoll_waiter_scheme \<Rightarrow> bool" where
  "epoll_wf w \<longleftrightarrow> ordered_map (io_map w)"

definition epoll_ready :: "'a epoll_waiter_scheme \<Rightarrow> bool" where
  "epoll_ready w \<longleftrightarrow> 0 \<le> io_epollFd w"

definition del_accepted :: "kernel \<Rightarrow> int \<Rightarrow> bool" where
  "del_accepted k fd \<longleftrightarrow> 0 \<le> k_ctl_del k fd"

lemmas registry_defs = Epoll_AddFileDescriptor_def Epoll_RemoveFileDescriptor_def
  Epoll_GetFileDescriptorMap_def Epoll_InsertFileDescriptorMap_def Epoll_EraseFileDescriptorMap_def
  epoll_wf_def epoll_ready_def del_accepted_def call_def Let_def

interpretation ep: fd_registry "Epoll_AddFileDescriptor k" "Epoll_RemoveFileDescriptor k"
    Epoll_GetFileDescriptorMap epoll_wf epoll_ready "del_accepted k" for k
  by unfold_locales
    (auto simp: registry_defs ordered_map_emplace ordered_map_erase map_of_emplace map_of_erase
       split: if_splits option.splits)

lemma Epoll_Add_failed_entry:
  assumes "kernel_rule k fd" "epoll_wf w" "epoll_ready w" "0 \<le> fd"
    and "events AND FILE_DESCRIPTOR_EVENTS_MASK \<noteq> 0"
    and "k_ctl_add k fd (to_epoll_events events) < 0"
    and "Epoll_GetFileDescriptorMap fd w = None"
  shows "Epoll_GetFileDescriptorMap fd (snd (Epoll_AddFileDescriptor k fd events n l p w)) =
           Some \<lparr>fi_taskName = n, fi_priority = p, fi_listener = l\<rparr>"
proof -
  have "k_ctl_del k fd < 0" using assms unfolding kernel_rule_def by blast
  with assms show ?thesis by (simp add: registry_defs map_of_emplace)
qed

section \<open>Resources and event masks\<close>

text \<open>The descriptors an operation opened and not closed, read off the calls it made.\<close>

fun open_after :: "int \<Rightarrow> int \<Rightarrow> int set \<Rightarrow> syscall list \<Rightarrow> int set" where
  "open_after epfd evfd S [] = S"
| "open_after epfd evfd S (EpollCreate # cs) = open_after epfd evfd (if epfd < 0 then S else insert epfd S) cs"
| "open_after epfd evfd S (EventFd # cs) = open_after epfd evfd (if evfd < 0 then S else insert evfd S) cs"
| "open_after epfd evfd S (CloseFd fd # cs) = open_after epfd evfd (S - {fd}) cs"
| "open_after epfd evfd S (c # cs) = open_after epfd evfd S cs"

lemma Epoll_Init_no_leak:
  assumes "io_epollFd w < 0" "io_calls w = []" "epfd \<noteq> evfd"
  shows "case Epoll_Init epfd evfd ctl w of (ok, w') \<Rightarrow>
     open_after epfd evfd {} (io_calls w') = (if ok then {epfd, evfd} else {}) \<and>
     (ok \<longleftrightarrow> 0 \<le> epfd \<and> 0 \<le> evfd \<and> 0 \<le> ctl) \<and>
     (if ok then io_epollFd w' = epfd \<and> io_awakenFd w' = evfd
      else io_epollFd w' = io_epollFd w \<and> io_awakenFd w' = io_awakenFd w)"
  using assms unfolding Epoll_Init_def call_def Let_def by (auto simp: not_less)

lemma u32_below_4:
  assumes "unat (x :: u32) < 4"
  shows "x \<in> {0, 1, 2, 3}"
proof -
  have "unat x = unat (0 :: u32) \<or> unat x = unat (1 :: u32) \<or> unat x = unat (2 :: u32) \<or>
      unat x = unat (3 :: u32)"
    using assms by simp linarith
  then have "x = 0 \<or> x = 1 \<or> x = 2 \<or> x = 3" by (simp only: word_unat_eq_iff)
  then show ?thesis by blast
qed

text \<open>
  The bits a listener asked for come back unchanged when the kernel reports them.
\<close>

lemma epoll_events_roundtrip:
  assumes "events AND NOT FILE_DESCRIPTOR_EVENTS_MASK = 0"
  shows "from_epoll_events (to_epoll_events events) = events"
proof -
  have bits: "events = events AND FILE_DESCRIPTOR_EVENTS_MASK"
  proof -
    have "events = (events AND FILE_DESCRIPTOR_EVENTS_MASK) OR (events AND NOT FILE_DESCRIPTOR_EVENTS_MASK)"
      by (rule bit_eqI) (auto simp: bit_simps)
    with assms show ?thesis by simp
  qed
  have "events AND 3 \<in> {0, 1, 2, 3}"
  proof -
    have "events AND 3 = take_bit 2 events" by (simp add: take_bit_eq_mask mask_numeral)
    then have "unat (events AND 3) < 4" by (simp add: unsigned_take_bit_eq take_bit_nat_def)
    then show ?thesis by (rule u32_below_4)
  qed
  with bits have "events \<in> {0, 1, 2, 3}"
    by (simp add: FILE_DESCRIPTOR_EVENTS_MASK_def FILE_DESCRIPTOR_INPUT_EVENT_def
        FILE_DESCRIPTOR_OUTPUT_EVENT_def)
  then consider "events = 0" | "events = 1" | "events = 2" | "events = 3" by blast
  then show ?thesis
    by cases (simp_all add: from_epoll_events_def to_epoll_events_def eh_defs)
qed

section \<open>Waiting\<close>

lemma epoll_handle_state:
  "\<exists>n. snd (epoll_handle ls vo evs w) = w\<lparr>io_calls := io_calls w @ replicate n (ReadAwaken (io_awakenFd w))\<rparr>"
proof (induction evs arbitrary: w)
  case Nil
  have "w = w\<lparr>io_calls := io_calls w @ replicate 0 (ReadAwaken (io_awakenFd w))\<rparr>" by simp
  then show ?case by (metis epoll_handle.simps(1) snd_conv)
next
  case (Cons ev evs)
  show ?case
  proof (cases "fst ev = io_awakenFd w")
    case True
    obtain n where "snd (epoll_handle ls vo evs (Epoll_DrainAwakenPipe w)) =
        (Epoll_DrainAwakenPipe w)\<lparr>io_calls := io_calls (Epoll_DrainAwakenPipe w) @
          replicate n (ReadAwaken (io_awakenFd (Epoll_DrainAwakenPipe w)))\<rparr>"
      using Cons by blast
    then have "snd (epoll_handle ls vo (ev # evs) w) =
        w\<lparr>io_calls := io_calls w @ replicate (Suc n) (ReadAwaken (io_awakenFd w))\<rparr>"
      using True by (simp add: Epoll_DrainAwakenPipe_def call_def)
    then show ?thesis by blast
  next
    case False
    then have "snd (epoll_handle ls vo (ev # evs) w) = snd (epoll_handle ls vo evs w)"
      by (simp add: case_prod_unfold Let_def)
    then show ?thesis using Cons [of w] by simp
  qed
qed

lemma epoll_handle_io_map [simp]:
  "io_map (snd (epoll_handle ls vo evs w)) = io_map w"
  "io_waitingCount (snd (epoll_handle ls vo evs w)) = io_waitingCount w"
  "io_epollFd (snd (epoll_handle ls vo evs w)) = io_epollFd w"
  "io_awakenFd (snd (epoll_handle ls vo evs w)) = io_awakenFd w"
  "io_callback (snd (epoll_handle ls vo evs w)) = io_callback w"
  using epoll_handle_state [of ls vo evs w] by auto

lemma epoll_dispatch_drain [simp]:
  "epoll_dispatch ls vo ev (Epoll_DrainAwakenPipe w) = epoll_dispatch ls vo ev w"
  by (simp add: epoll_dispatch_def Epoll_GetFileDescriptorMap_def Epoll_DrainAwakenPipe_def call_def
      Let_def split: option.split)

lemma epoll_handle_callbacks:
  "fst (epoll_handle ls vo evs w) =
     concat (map (\<lambda>ev. epoll_dispatch ls vo ev w) (filter (\<lambda>ev. fst ev \<noteq> io_awakenFd w) evs))"
proof (induction evs arbitrary: w)
  case (Cons ev evs)
  have "io_awakenFd (Epoll_DrainAwakenPipe w) = io_awakenFd w"
    by (simp add: Epoll_DrainAwakenPipe_def call_def)
  then show ?case
    using Cons [of w] Cons [of "Epoll_DrainAwakenPipe w"] by (simp add: case_prod_unfold)
qed simp

text \<open>
  A wait leaves the waiting count as it was, reports only registered descriptors, and with
  \<open>vsyncOnly\<close> only those whose listener is the vsync listener.
\<close>

lemma epoll_dispatch_registered:
  assumes "c \<in> set (epoll_dispatch ls vo ev w)"
  shows "\<exists>i. Epoll_GetFileDescriptorMap (cb_fd c) w = Some i \<and>
           cb_taskName c = fi_taskName i \<and> cb_priority c = fi_priority i \<and>
           (vo \<longrightarrow> (\<exists>r. fi_listener i = Some r \<and> IsVsyncListener (ls r)))"
proof (cases "Epoll_GetFileDescriptorMap (fst ev) w")
  case None
  with assms show ?thesis by (simp add: epoll_dispatch_def)
next
  case (Some i)
  with assms show ?thesis
    by (auto simp: epoll_dispatch_def split: if_splits option.splits)
qed

lemma Epoll_WaitFor_roundtrip:
  assumes "Epoll_WaitFor_enter w = Some w1"
    and "Epoll_WaitFor_leave ls vo r fe evs w1 = (ok, cbs, w2)"
  shows "io_waitingCount w2 = io_waitingCount w \<and> io_map w2 = io_map w \<and>
      io_epollFd w2 = io_epollFd w \<and> io_awakenFd w2 = io_awakenFd w \<and>
      (ok \<longleftrightarrow> 0 \<le> r \<or> \<not> fe)"
    and "c \<in> set cbs \<Longrightarrow> \<exists>i. Epoll_GetFileDescriptorMap (cb_fd c) w = Some i \<and>
           cb_taskName c = fi_taskName i \<and> cb_priority c = fi_priority i \<and>
           (vo \<longrightarrow> (\<exists>r. fi_listener i = Some r \<and> IsVsyncListener (ls r)))"
proof -
  have w1: "w1 = w\<lparr>io_waitingCount := io_waitingCount w + 1\<rparr>"
    using assms(1) by (simp add: Epoll_WaitFor_enter_def split: if_splits)
  let ?h = "epoll_handle ls vo (take (nat r) evs) w"
  have leave: "Epoll_WaitFor_leave ls vo r fe evs w1 =
      (if r < 0 then (\<not> fe, [], w) else (True, fst ?h, snd ?h))"
    by (simp add: Epoll_WaitFor_leave_def w1 Let_def case_prod_unfold)
  show "io_waitingCount w2 = io_waitingCount w \<and> io_map w2 = io_map w \<and>
      io_epollFd w2 = io_epollFd w \<and> io_awakenFd w2 = io_awakenFd w \<and>
      (ok \<longleftrightarrow> 0 \<le> r \<or> \<not> fe)"
  proof (cases "r < 0")
    case True
    with leave assms(2) show ?thesis by auto
  next
    case False
    with leave assms(2) have "w2 = snd ?h" and ok by (metis prod.inject)+
    with False show ?thesis by simp
  qed
  assume "c \<in> set cbs"
  then have "c \<in> set (fst ?h)" using leave assms(2)
    by (cases "r < 0") (auto, metis fst_conv)
  then obtain ev where "c \<in> set (epoll_dispatch ls vo ev w)"
    by (auto simp: epoll_handle_callbacks)
  then show "\<exists>i. Epoll_GetFileDescriptorMap (cb_fd c) w = Some i \<and>
           cb_taskName c = fi_taskName i \<and> cb_priority c = fi_priority i \<and>
           (vo \<longrightarrow> (\<exists>r. fi_listener i = Some r \<and> IsVsyncListener (ls r)))"
    by (rule epoll_dispatch_registered)
qed

end
