(* ===== verification/Deamon_Waiter.thy ===== *)
theory Deamon_Waiter
  imports Io_Waiter
begin

text \<open>
  \<open>frameworks/eventhandler/src/deamon_io_waiter.cpp\<close>: the process-wide epoll thread
  \<open>OS_EVENT_POLL\<close>. Its members extend those of the epoll waiter, whose operations it
  repeats; the field \<open>io_callback\<close> is unused here. The last section interleaves the thread
  with \<open>StopEpollIoWaiter\<close> as a step relation.
\<close>

record deamon_waiter = epoll_waiter +
  d_running :: bool
  d_isFinished :: bool
  d_threads :: nat

definition new_deamon :: deamon_waiter where
  [eh_defs]: "new_deamon =
     \<lparr>io_epollFd = -1, io_awakenFd = -1, io_waitingCount = 0, io_callback = False, io_map = [],
      io_calls = [], d_running = False, d_isFinished = False, d_threads = 0\<rparr>"

definition Deamon_Init :: "int \<Rightarrow> int \<Rightarrow> int \<Rightarrow> deamon_waiter \<Rightarrow> bool \<times> deamon_waiter" where
  "Deamon_Init epfd evfd ctl d = (if d_running d then (True, d) else Epoll_Init epfd evfd ctl d)"

definition Deamon_StartEpollIoWaiter :: "deamon_waiter \<Rightarrow> deamon_waiter" where
  \<comment> \<open>\<open>running_.exchange(true)\<close>\<close>
  "Deamon_StartEpollIoWaiter d =
     (if d_running d then d else d\<lparr>d_running := True, d_threads := d_threads d + 1\<rparr>)"

definition Deamon_NotifyAll :: "deamon_waiter \<Rightarrow> deamon_waiter" where
  "Deamon_NotifyAll d =
     (if io_awakenFd d < 0 then d
      else if io_waitingCount d = 0 then d
      else call (WriteAwaken (io_awakenFd d)) d)"

definition Deamon_NotifyOne :: "deamon_waiter \<Rightarrow> deamon_waiter" where
  "Deamon_NotifyOne d = Deamon_NotifyAll d"

definition Deamon_Stop_request :: "deamon_waiter \<Rightarrow> deamon_waiter" where
  \<comment> \<open>\<open>StopEpollIoWaiter\<close> up to the \<open>join\<close>\<close>
  "Deamon_Stop_request d = Deamon_NotifyAll (d\<lparr>d_isFinished := True\<rparr>)"

definition Deamon_Stop_joined :: "deamon_waiter \<Rightarrow> deamon_waiter" where
  "Deamon_Stop_joined d = d\<lparr>d_running := False\<rparr>"

definition Deamon_destroy :: "deamon_waiter \<Rightarrow> deamon_waiter" where
  "Deamon_destroy d =
     (let d1 = (if \<not> d_isFinished d then Deamon_Stop_joined (Deamon_Stop_request d) else d)
      in (Epoll_destroy d1)\<lparr>io_map := []\<rparr>)"

definition Deamon_InsertFileDescriptorMap ::
  "int \<Rightarrow> string \<Rightarrow> priority \<Rightarrow> listener_ref option \<Rightarrow> deamon_waiter \<Rightarrow> deamon_waiter" where
  "Deamon_InsertFileDescriptorMap fd taskName priority listener d =
     d\<lparr>io_map := map_emplace fd
         \<lparr>fi_taskName = taskName, fi_priority = priority, fi_listener = listener\<rparr> (io_map d)\<rparr>"

definition Deamon_EraseFileDescriptorMap :: "int \<Rightarrow> deamon_waiter \<Rightarrow> deamon_waiter" where
  "Deamon_EraseFileDescriptorMap fd d = d\<lparr>io_map := map_erase fd (io_map d)\<rparr>"

definition Deamon_GetFileDescriptorMap :: "int \<Rightarrow> deamon_waiter \<Rightarrow> fd_info option" where
  "Deamon_GetFileDescriptorMap fd d = map_of (io_map d) fd"

definition Deamon_RemoveFileDescriptor :: "kernel \<Rightarrow> int \<Rightarrow> deamon_waiter \<Rightarrow> deamon_waiter" where
  "Deamon_RemoveFileDescriptor k fd d =
     (if fd < 0 then d
      else if io_epollFd d < 0 then d
      else
        let d1 = call (EpollCtlDel (io_epollFd d) fd) d
        in if k_ctl_del k fd < 0 then d1 else Deamon_EraseFileDescriptorMap fd d1)"

definition Deamon_AddFileDescriptor ::
  "kernel \<Rightarrow> int \<Rightarrow> u32 \<Rightarrow> string \<Rightarrow> listener_ref option \<Rightarrow> priority \<Rightarrow>
     deamon_waiter \<Rightarrow> bool \<times> deamon_waiter" where
  \<comment> \<open>edge triggered, where the queue's own epoll is level triggered\<close>
  "Deamon_AddFileDescriptor k fd events taskName listener priority d =
     (if fd < 0 \<or> events AND FILE_DESCRIPTOR_EVENTS_MASK = 0 then (False, d)
      else if io_epollFd d < 0 then (False, d)
      else
        let ep = to_epoll_events events OR EPOLLET;
            d1 = Deamon_InsertFileDescriptorMap fd taskName priority listener d;
            d2 = call (EpollCtlAdd (io_epollFd d) fd ep) d1
        in if k_ctl_add k fd ep < 0
           then (False, Deamon_RemoveFileDescriptor k fd d2)
           else (True, d2))"

lemmas deamon_registry_defs = Deamon_AddFileDescriptor_def Deamon_RemoveFileDescriptor_def
  Deamon_GetFileDescriptorMap_def Deamon_InsertFileDescriptorMap_def
  Deamon_EraseFileDescriptorMap_def epoll_wf_def epoll_ready_def del_accepted_def call_def Let_def

interpretation dm: fd_registry "Deamon_AddFileDescriptor k" "Deamon_RemoveFileDescriptor k"
    Deamon_GetFileDescriptorMap epoll_wf epoll_ready "del_accepted k" for k
  by unfold_locales
    (auto simp: deamon_registry_defs ordered_map_emplace ordered_map_erase map_of_emplace map_of_erase
       split: if_splits option.splits)

section \<open>Handling events\<close>

text \<open>What the thread does for one event: nothing, a report to the scheduler, or a task.\<close>

datatype deamon_action =
    ReportUiEventBegin
  | DeamonPost handler_ref callback string priority

definition VsyncReport :: "world \<Rightarrow> handler_ref \<Rightarrow> deamon_action list" where
  "VsyncReport wd handler =
     (case wd_runner wd handler of
        None \<Rightarrow> []
      | Some r \<Rightarrow> if Some r = wd_mainRunner wd then [ReportUiEventBegin] else [])"

definition Deamon_HandleFileDescriptorEvent ::
  "world \<Rightarrow> int \<Rightarrow> u32 \<Rightarrow> deamon_waiter \<Rightarrow> deamon_action list" where
  "Deamon_HandleFileDescriptorEvent wd fd events d =
     (case Deamon_GetFileDescriptorMap fd d of
        None \<Rightarrow> []
      | Some info \<Rightarrow>
          (case fi_listener info of
             None \<Rightarrow> []
           | Some l \<Rightarrow>
               (case Listener_GetOwner (wd_alive wd) (wd_listeners wd l) of
                  None \<Rightarrow> []
                | Some handler \<Rightarrow>
                    if fi_taskName info = ''vSyncTask'' then VsyncReport wd handler
                    else [DeamonPost handler (DeamonFdTask fd events l) (fi_taskName info)
                            (fi_priority info)])))"

fun Deamon_HandleEpollEvents ::
  "world \<Rightarrow> (int \<times> u32) list \<Rightarrow> deamon_waiter \<Rightarrow> deamon_action list \<times> deamon_waiter" where
  "Deamon_HandleEpollEvents wd [] d = ([], d)"
| "Deamon_HandleEpollEvents wd (ev # evs) d =
     (if fst ev = io_awakenFd d
      then Deamon_HandleEpollEvents wd evs (call (ReadAwaken (io_awakenFd d)) d)
      else
        let acts = Deamon_HandleFileDescriptorEvent wd (fst ev) (from_epoll_events (snd ev)) d;
            (rest, d') = Deamon_HandleEpollEvents wd evs d
        in (acts @ rest, d'))"

text \<open>
  The calls of the listener that a posted file descriptor task makes: the same four tests
  in the lambda of the queue and in that of the daemon.
\<close>

datatype listener_call = OnReadable int | OnWritable int | OnShutdown int | OnException int

definition listener_calls :: "int \<Rightarrow> u32 \<Rightarrow> listener_call list" where
  "listener_calls fd events =
     (if events AND FILE_DESCRIPTOR_INPUT_EVENT \<noteq> 0 then [OnReadable fd] else []) @
     (if events AND FILE_DESCRIPTOR_OUTPUT_EVENT \<noteq> 0 then [OnWritable fd] else []) @
     (if events AND FILE_DESCRIPTOR_SHUTDOWN_EVENT \<noteq> 0 then [OnShutdown fd] else []) @
     (if events AND FILE_DESCRIPTOR_EXCEPTION_EVENT \<noteq> 0 then [OnException fd] else [])"

definition run_DeamonFdTask :: "world \<Rightarrow> int \<Rightarrow> u32 \<Rightarrow> listener_ref \<Rightarrow> listener_call list" where
  "run_DeamonFdTask wd fd events l = (if wd_listenerAlive wd l then listener_calls fd events else [])"

text \<open>
  The loop of \<open>EpollWaitFor\<close>. A round is the result of one \<open>epoll_wait\<close>, its events, and
  whether another thread called \<open>StopEpollIoWaiter\<close> during it; the list of rounds is what
  the kernel delivers, and its end leaves the thread blocked.
\<close>

record epoll_round =
  er_retVal :: int
  er_events :: "(int \<times> u32) list"
  er_stop :: bool

definition Deamon_round :: "world \<Rightarrow> epoll_round \<Rightarrow> deamon_waiter \<Rightarrow> deamon_action list \<times> deamon_waiter" where
  "Deamon_round wd r d =
     (let d1 = d\<lparr>io_waitingCount := io_waitingCount d + 1\<rparr>;
          d2 = (if er_stop r then Deamon_Stop_request d1 else d1);
          d3 = d2\<lparr>io_waitingCount := io_waitingCount d2 - 1\<rparr>
      in if er_retVal r < 0 then ([], d3)
         else Deamon_HandleEpollEvents wd (take (nat (er_retVal r)) (er_events r)) d3)"

fun Deamon_loop ::
  "world \<Rightarrow> epoll_round list \<Rightarrow> deamon_waiter \<Rightarrow> bool \<times> deamon_action list \<times> deamon_waiter" where
  \<comment> \<open>the first component: the thread has left the loop\<close>
  "Deamon_loop wd [] d = (d_isFinished d, [], d)"
| "Deamon_loop wd (r # rs) d =
     (if d_isFinished d then (True, [], d)
      else
        let (acts, d1) = Deamon_round wd r d;
            (done, more, d2) = Deamon_loop wd rs d1
        in (done, acts @ more, d2))"

definition Deamon_EpollWaitFor ::
  "world \<Rightarrow> epoll_round list \<Rightarrow> deamon_waiter \<Rightarrow> bool \<times> deamon_action list \<times> deamon_waiter" where
  "Deamon_EpollWaitFor wd rounds d =
     (if io_epollFd d < 0 then (True, [], d) else Deamon_loop wd rounds d)"

lemma Deamon_HandleEpollEvents_keeps:
  "io_map (snd (Deamon_HandleEpollEvents wd evs d)) = io_map d \<and>
   io_waitingCount (snd (Deamon_HandleEpollEvents wd evs d)) = io_waitingCount d \<and>
   io_epollFd (snd (Deamon_HandleEpollEvents wd evs d)) = io_epollFd d \<and>
   d_isFinished (snd (Deamon_HandleEpollEvents wd evs d)) = d_isFinished d \<and>
   d_running (snd (Deamon_HandleEpollEvents wd evs d)) = d_running d"
  by (induction evs arbitrary: d) (auto simp: case_prod_unfold call_def Let_def)

lemma Deamon_NotifyAll_keeps [simp]:
  "io_map (Deamon_NotifyAll d) = io_map d"
  "io_waitingCount (Deamon_NotifyAll d) = io_waitingCount d"
  "d_isFinished (Deamon_NotifyAll d) = d_isFinished d"
  by (simp_all add: Deamon_NotifyAll_def call_def)

lemma Deamon_round_keeps:
  "io_map (snd (Deamon_round wd r d)) = io_map d"
  "io_waitingCount (snd (Deamon_round wd r d)) = io_waitingCount d"
  "d_isFinished (snd (Deamon_round wd r d)) \<longleftrightarrow> d_isFinished d \<or> er_stop r"
  using Deamon_HandleEpollEvents_keeps
  by (simp_all add: Deamon_round_def Deamon_Stop_request_def Let_def)

text \<open>The thread leaves the loop exactly when a stop was requested, at the next test.\<close>

lemma Deamon_loop_stops:
  "fst (Deamon_loop wd rs d) \<longleftrightarrow> d_isFinished d \<or> (\<exists>r\<in>set rs. er_stop r)"
proof (induction rs arbitrary: d)
  case (Cons r rs)
  then show ?case
    using Cons [of "snd (Deamon_round wd r d)"] Deamon_round_keeps(3) [of wd r d]
    by (auto simp: case_prod_unfold Let_def)
qed simp

lemma Deamon_loop_keeps:
  "io_map (snd (snd (Deamon_loop wd rs d))) = io_map d \<and>
   io_waitingCount (snd (snd (Deamon_loop wd rs d))) = io_waitingCount d"
proof (induction rs arbitrary: d)
  case (Cons r rs)
  then show ?case
    using Cons [of "snd (Deamon_round wd r d)"] Deamon_round_keeps [of wd r d]
    by (auto simp: case_prod_unfold Let_def)
qed simp

end
