(* ===== verification/Wakeup.thy ===== *)
theory Wakeup
  imports Deamon_Waiter
begin

text \<open>
  Writes to the eventfd of an epoll waiter, and the interleavings of the daemon thread
  (\<open>DeamonIoWaiter::EpollWaitFor\<close>) with \<open>StopEpollIoWaiter\<close>: the thread has no lock between its test of
  \<open>isFinished_\<close> and the increment of the waiting count. The queue's own waiter, whose count is raised under
  the queue lock, is in \<open>Queue_Wakeup\<close>. The eventfd is edge triggered: \<open>edge\<close> says that a write has not been
  reported yet.
\<close>

section \<open>Writes to the eventfd\<close>

definition wrote :: "'a epoll_waiter_scheme \<Rightarrow> 'a epoll_waiter_scheme \<Rightarrow> bool" where
  \<comment> \<open>the operation from \<open>w\<close> to \<open>w'\<close> wrote to the eventfd\<close>
  "wrote w w' \<longleftrightarrow> WriteAwaken (io_awakenFd w) \<in> set (drop (length (io_calls w)) (io_calls w'))"

definition awaken_event :: "'a epoll_waiter_scheme \<Rightarrow> int \<times> u32" where
  "awaken_event w = (io_awakenFd w, EPOLLIN)"

lemma Epoll_NotifyOne_wrote:
  "0 \<le> io_awakenFd w \<Longrightarrow> wrote w (Epoll_NotifyOne w) \<longleftrightarrow> io_waitingCount w \<noteq> 0"
  by (auto simp: wrote_def Epoll_NotifyOne_def Epoll_NotifyAll_def call_def)

lemma Epoll_NotifyOne_keeps [simp]:
  "io_awakenFd (Epoll_NotifyOne w) = io_awakenFd w"
  "io_waitingCount (Epoll_NotifyOne w) = io_waitingCount w"
  by (simp_all add: Epoll_NotifyOne_def Epoll_NotifyAll_def call_def)

lemma Epoll_leave_keeps:
  assumes "Epoll_WaitFor_leave ls vo r fe evs w = (ok, cbs, w')"
  shows "io_awakenFd w' = io_awakenFd w" "io_waitingCount w' = io_waitingCount w - 1"
proof -
  let ?h = "epoll_handle ls vo (take (nat r) evs) (w\<lparr>io_waitingCount := io_waitingCount w - 1\<rparr>)"
  have "w' = (if r < 0 then w\<lparr>io_waitingCount := io_waitingCount w - 1\<rparr> else snd ?h)"
    using assms by (cases "r < 0") (simp_all add: Epoll_WaitFor_leave_def Let_def case_prod_unfold prod_eq_iff)
  then show "io_awakenFd w' = io_awakenFd w" "io_waitingCount w' = io_waitingCount w - 1" by simp_all
qed

section \<open>The daemon thread and \<open>StopEpollIoWaiter\<close>\<close>

datatype loop_pc = LTest | LInc | LWait | LDone
datatype stop_pc = SNot | SFlag | SJoin | SJoined

record stop_state =
  ss_d :: deamon_waiter
  ss_edge :: bool
  ss_loop :: loop_pc
  ss_stop :: stop_pc

inductive stop_step :: "stop_state \<Rightarrow> stop_state \<Rightarrow> bool" where
  loop_again: "ss_loop s = LTest \<Longrightarrow> \<not> d_isFinished (ss_d s) \<Longrightarrow> stop_step s (s\<lparr>ss_loop := LInc\<rparr>)"
| loop_leave: "ss_loop s = LTest \<Longrightarrow> d_isFinished (ss_d s) \<Longrightarrow> stop_step s (s\<lparr>ss_loop := LDone\<rparr>)"
| loop_count: "ss_loop s = LInc \<Longrightarrow>
     stop_step s (s\<lparr>ss_d := (ss_d s)\<lparr>io_waitingCount := io_waitingCount (ss_d s) + 1\<rparr>, ss_loop := LWait\<rparr>)"
| loop_awakened: "ss_loop s = LWait \<Longrightarrow> ss_edge s \<Longrightarrow>
     stop_step s (s\<lparr>ss_d := call (ReadAwaken (io_awakenFd (ss_d s)))
                       ((ss_d s)\<lparr>io_waitingCount := io_waitingCount (ss_d s) - 1\<rparr>),
                   ss_edge := False, ss_loop := LTest\<rparr>)"
| loop_other_fd: "ss_loop s = LWait \<Longrightarrow>
     stop_step s (s\<lparr>ss_d := (ss_d s)\<lparr>io_waitingCount := io_waitingCount (ss_d s) - 1\<rparr>, ss_loop := LTest\<rparr>)"
| stop_flag: "ss_stop s = SNot \<Longrightarrow>
     stop_step s (s\<lparr>ss_d := (ss_d s)\<lparr>d_isFinished := True\<rparr>, ss_stop := SFlag\<rparr>)"
| stop_notify: "ss_stop s = SFlag \<Longrightarrow> d' = Deamon_NotifyAll (ss_d s) \<Longrightarrow>
     stop_step s (s\<lparr>ss_d := d', ss_edge := ss_edge s \<or> wrote (ss_d s) d', ss_stop := SJoin\<rparr>)"
| stop_join: "ss_stop s = SJoin \<Longrightarrow> ss_loop s = LDone \<Longrightarrow>
     stop_step s (s\<lparr>ss_d := Deamon_Stop_joined (ss_d s), ss_stop := SJoined\<rparr>)"

inductive_simps stop_step_iff: "stop_step s t"

definition stop_init :: "deamon_waiter \<Rightarrow> stop_state" where
  "stop_init d = \<lparr>ss_d = d, ss_edge = False, ss_loop = LTest, ss_stop = SNot\<rparr>"

inductive stop_reach :: "deamon_waiter \<Rightarrow> stop_state \<Rightarrow> bool" for d where
  start: "stop_reach d (stop_init d)"
| step: "stop_reach d s \<Longrightarrow> stop_step s t \<Longrightarrow> stop_reach d t"

definition stuck_unless_fd :: "stop_state \<Rightarrow> bool" where
  \<comment> \<open>the stopper waits in \<open>join\<close>, the thread in \<open>epoll_wait\<close>, and no write is pending\<close>
  "stuck_unless_fd s \<longleftrightarrow> ss_stop s = SJoin \<and> ss_loop s = LWait \<and> \<not> ss_edge s"

lemma stuck_only_fd:
  assumes "stuck_unless_fd s" "stop_step s t"
  shows "t = s\<lparr>ss_d := (ss_d s)\<lparr>io_waitingCount := io_waitingCount (ss_d s) - 1\<rparr>, ss_loop := LTest\<rparr>"
  using assms by (auto simp: stop_step_iff stuck_unless_fd_def)

definition stop_inv :: "int \<Rightarrow> stop_state \<Rightarrow> bool" where
  "stop_inv fd s \<longleftrightarrow>
     io_awakenFd (ss_d s) = fd \<and>
     io_waitingCount (ss_d s) = (if ss_loop s = LWait then 1 else 0) \<and>
     (d_isFinished (ss_d s) \<longleftrightarrow> ss_stop s \<noteq> SNot) \<and>
     (ss_loop s = LDone \<longrightarrow> d_isFinished (ss_d s)) \<and>
     (ss_stop s = SJoined \<longrightarrow> ss_loop s = LDone)"

lemma stop_step_inv:
  assumes "stop_step s t" "stop_inv fd s"
  shows "stop_inv fd t"
  using assms
  by cases (auto simp: stop_inv_def call_def Deamon_NotifyAll_def Deamon_Stop_joined_def)

lemma stop_reach_inv:
  assumes "stop_reach d s" "io_waitingCount d = 0" "\<not> d_isFinished d"
  shows "stop_inv (io_awakenFd d) s"
  using assms
proof (induction rule: stop_reach.induct)
  case start
  then show ?case by (simp add: stop_inv_def stop_init_def)
next
  case (step s t)
  then show ?case using stop_step_inv by blast
qed

text \<open>The interleaving that loses the wake-up: test, flag, notify, count.\<close>

lemma stop_lost_wakeup:
  assumes "io_waitingCount d = 0" "\<not> d_isFinished d"
  shows "\<exists>s. stop_reach d s \<and> stuck_unless_fd s \<and> d_isFinished (ss_d s)"
proof -
  let ?s0 = "stop_init d"
  let ?s1 = "?s0\<lparr>ss_loop := LInc\<rparr>"
  let ?s2 = "?s1\<lparr>ss_d := d\<lparr>d_isFinished := True\<rparr>, ss_stop := SFlag\<rparr>"
  let ?d = "Deamon_NotifyAll (d\<lparr>d_isFinished := True\<rparr>)"
  let ?s3 = "?s2\<lparr>ss_d := ?d, ss_edge := ss_edge ?s2 \<or> wrote (ss_d ?s2) ?d, ss_stop := SJoin\<rparr>"
  let ?s4 = "?s3\<lparr>ss_d := (ss_d ?s3)\<lparr>io_waitingCount := io_waitingCount (ss_d ?s3) + 1\<rparr>, ss_loop := LWait\<rparr>"
  have d: "?d = d\<lparr>d_isFinished := True\<rparr>" using assms(1) by (simp add: Deamon_NotifyAll_def)
  have "stop_step ?s0 ?s1" using loop_again [of ?s0] assms(2) by (simp add: stop_init_def)
  moreover have "stop_step ?s1 ?s2" using stop_flag [of ?s1] by (simp add: stop_init_def)
  moreover have "stop_step ?s2 ?s3" using stop_notify [of ?s2 ?d] by (simp add: stop_init_def)
  moreover have "stop_step ?s3 ?s4" using loop_count [of ?s3] by (simp add: stop_init_def)
  ultimately have "stop_reach d ?s4"
    using stop_reach.start stop_reach.step by meson
  moreover have "stuck_unless_fd ?s4 \<and> d_isFinished (ss_d ?s4)"
    by (simp add: stuck_unless_fd_def stop_init_def d wrote_def)
  ultimately show ?thesis by blast
qed

end
