(* ===== verification/Event_Queue.thy ===== *)
theory Event_Queue
  imports Wakeup
begin

text \<open>
  The base class \<open>EventQueue\<close>: \<open>interfaces/inner_api/event_queue.h\<close> and
  \<open>frameworks/eventhandler/src/event_queue.cpp\<close>. The record \<open>event_queue\<close> has the members
  of the class (\<open>foo_\<close> is \<open>q_foo\<close>); the derived queue extends it. Each operation is what
  happens under \<open>queueLock_\<close>; clock readings are arguments. Operations that also touch the
  daemon waiter take and return it. A listener handed to \<open>AddFileDescriptorListener\<close> is never
  null (both derived classes test it), so listeners are plain references here.
\<close>

section \<open>State\<close>

datatype io_waiter = NoneWaiter none_waiter | EpollWaiter epoll_waiter

record observer =
  ob_stages :: u32
  ob_notifyCb :: bool

record event_queue =
  q_usable :: bool
  q_finished :: bool
  q_ioWaiter :: io_waiter
  q_useDeamonIoWaiter :: bool
  q_listeners :: "(int \<times> listener_ref) list"
  q_observer :: observer
  q_sumOfPendingVsync :: u8
  q_needEpoll :: bool
  q_isLazyMode :: bool
  q_isBarrierMode :: bool
  q_vsyncPolicy :: vsync_policy
  q_vsyncOriginPolicy :: vsync_policy
  q_enterBarrierTime :: time
  q_vsyncPeriod :: int
  q_vsyncCheckTime :: time
  q_vsyncRecvTime :: time
  q_vsyncCompleteTime :: time
  q_vsyncFirstForceEnableEndTime :: time

definition CHECK_VSYNC_DELAY_NS :: int where [eh_defs]: "CHECK_VSYNC_DELAY_NS = 1000000"
definition MAX_INIT_VSYNC_PERIOD_NS :: int where [eh_defs]: "MAX_INIT_VSYNC_PERIOD_NS = 34000000"
definition MAX_CHECK_VSYNC_PERIOD_NS :: int where [eh_defs]: "MAX_CHECK_VSYNC_PERIOD_NS = 69000000"

definition new_event_queue :: event_queue where
  [eh_defs]: "new_event_queue =
     \<lparr>q_usable = True, q_finished = True, q_ioWaiter = NoneWaiter \<lparr>n_pred = False\<rparr>,
      q_useDeamonIoWaiter = False, q_listeners = [],
      q_observer = \<lparr>ob_stages = stage_bits STAGE_INVAILD, ob_notifyCb = False\<rparr>,
      q_sumOfPendingVsync = 0, q_needEpoll = False, q_isLazyMode = True, q_isBarrierMode = False,
      q_vsyncPolicy = VSYNC_FIRST_WITH_DEFAULT_BARRIER,
      q_vsyncOriginPolicy = VSYNC_FIRST_WITH_DEFAULT_BARRIER,
      q_enterBarrierTime = TIME_MAX, q_vsyncPeriod = MAX_INIT_VSYNC_PERIOD_NS,
      q_vsyncCheckTime = TIME_MAX, q_vsyncRecvTime = TIME_MAX, q_vsyncCompleteTime = 0,
      q_vsyncFirstForceEnableEndTime = 0\<rparr>"

section \<open>Dispatch over the kind of IO waiter\<close>

definition io_NotifyOne :: "io_waiter \<Rightarrow> io_waiter" where
  [eh_defs]: "io_NotifyOne w = (case w of NoneWaiter n \<Rightarrow> NoneWaiter (None_NotifyOne n)
                       | EpollWaiter e \<Rightarrow> EpollWaiter (Epoll_NotifyOne e))"

definition io_NotifyAll :: "io_waiter \<Rightarrow> io_waiter" where
  [eh_defs]: "io_NotifyAll w = (case w of NoneWaiter n \<Rightarrow> NoneWaiter (None_NotifyAll n)
                       | EpollWaiter e \<Rightarrow> EpollWaiter (Epoll_NotifyAll e))"

definition io_SupportListeningFileDescriptor :: "io_waiter \<Rightarrow> bool" where
  [eh_defs]: "io_SupportListeningFileDescriptor w = (case w of NoneWaiter n \<Rightarrow> False | EpollWaiter e \<Rightarrow> True)"

definition io_AddFileDescriptor ::
  "kernel \<Rightarrow> int \<Rightarrow> u32 \<Rightarrow> string \<Rightarrow> listener_ref option \<Rightarrow> priority \<Rightarrow> io_waiter \<Rightarrow> bool \<times> io_waiter" where
  [eh_defs]: "io_AddFileDescriptor k fd events taskName l p w =
     (case w of
        NoneWaiter n \<Rightarrow> (let (ok, n') = None_AddFileDescriptor n in (ok, NoneWaiter n'))
      | EpollWaiter e \<Rightarrow>
          (let (ok, e') = Epoll_AddFileDescriptor k fd events taskName l p e in (ok, EpollWaiter e')))"

definition io_RemoveFileDescriptor :: "kernel \<Rightarrow> int \<Rightarrow> io_waiter \<Rightarrow> io_waiter" where
  [eh_defs]: "io_RemoveFileDescriptor k fd w =
     (case w of NoneWaiter n \<Rightarrow> NoneWaiter n
              | EpollWaiter e \<Rightarrow> EpollWaiter (Epoll_RemoveFileDescriptor k fd e))"

definition io_GetFileDescriptorMap :: "int \<Rightarrow> io_waiter \<Rightarrow> fd_info option" where
  [eh_defs]: "io_GetFileDescriptorMap fd w =
     (case w of NoneWaiter n \<Rightarrow> None | EpollWaiter e \<Rightarrow> Epoll_GetFileDescriptorMap fd e)"

section \<open>Vsync bookkeeping (inline members of the header)\<close>

definition AddObserver :: "u32 \<Rightarrow> bool \<Rightarrow> 'a event_queue_scheme \<Rightarrow> 'a event_queue_scheme" where
  [eh_defs]: "AddObserver stages cb q = q\<lparr>q_observer := \<lparr>ob_stages = stages, ob_notifyCb = cb\<rparr>\<rparr>"

definition ClearObserver :: "'a event_queue_scheme \<Rightarrow> 'a event_queue_scheme" where
  [eh_defs]: "ClearObserver q =
     q\<lparr>q_observer := \<lparr>ob_stages = stage_bits STAGE_INVAILD, ob_notifyCb = False\<rparr>\<rparr>"

definition DispatchVsyncTaskNotify :: "time \<Rightarrow> 'a event_queue_scheme \<Rightarrow> 'a event_queue_scheme" where
  "DispatchVsyncTaskNotify now q =
     q\<lparr>q_sumOfPendingVsync := q_sumOfPendingVsync q + 1,
       q_vsyncRecvTime := (if now > q_vsyncCheckTime q then q_vsyncCheckTime q else now),
       q_needEpoll := True,
       q_vsyncCheckTime := TIME_MAX\<rparr>"

definition HandleVsyncTaskCompletely :: "time \<Rightarrow> 'a event_queue_scheme \<Rightarrow> 'a event_queue_scheme" where
  "HandleVsyncTaskCompletely now q = q\<lparr>q_vsyncCompleteTime := now\<rparr>"

definition HandleVsyncTaskNotify :: "'a event_queue_scheme \<Rightarrow> 'a event_queue_scheme" where
  "HandleVsyncTaskNotify q = q\<lparr>q_sumOfPendingVsync := q_sumOfPendingVsync q - 1\<rparr>"

definition SetBarrierMode :: "time \<Rightarrow> bool \<Rightarrow> 'a event_queue_scheme \<Rightarrow> 'a event_queue_scheme" where
  "SetBarrierMode now isBarrierMode q =
     q\<lparr>q_isBarrierMode := isBarrierMode,
       q_enterBarrierTime := (if \<not> isBarrierMode then TIME_MAX else now)\<rparr>"

definition UpdateVsyncCheckTime ::
  "time \<Rightarrow> time \<Rightarrow> int \<Rightarrow> 'a event_queue_scheme \<Rightarrow> 'a event_queue_scheme" where
  \<comment> \<open>both operands of \<open>%\<close> are not negative where it is reached, so \<open>mod\<close> is the same\<close>
  "UpdateVsyncCheckTime now lastFrameTime period q =
     (if period > 0 then
        q\<lparr>q_vsyncPeriod := (if period > MAX_INIT_VSYNC_PERIOD_NS then MAX_INIT_VSYNC_PERIOD_NS else period),
          q_vsyncCheckTime :=
            (if lastFrameTime > now
             then now + CHECK_VSYNC_DELAY_NS + (lastFrameTime - now) mod period
             else now + period + CHECK_VSYNC_DELAY_NS - (now - lastFrameTime) mod period)\<rparr>
      else q)"

definition SetVsyncLazyMode :: "bool \<Rightarrow> 'a event_queue_scheme \<Rightarrow> 'a event_queue_scheme" where
  "SetVsyncLazyMode isLazy q =
     (if q_vsyncPolicy q = DISABLE_VSYNC_FIRST then q else q\<lparr>q_isLazyMode := isLazy\<rparr>)"

definition SetVsyncFirstForceEnableTime ::
  "time \<Rightarrow> bool \<Rightarrow> u64 \<Rightarrow> 'a event_queue_scheme \<Rightarrow> 'a event_queue_scheme" where
  \<comment> \<open>\<open>NOW_NS + timeout\<close> is computed in \<open>uint64_t\<close> and stored in an \<open>int64_t\<close>\<close>
  "SetVsyncFirstForceEnableTime now enable timeout q =
     (if enable
      then q\<lparr>q_vsyncPolicy := VSYNC_FIRST_WITHOUT_DEFAULT_BARRIER,
             q_vsyncFirstForceEnableEndTime := sint (u64_of_time now + timeout)\<rparr>
      else q\<lparr>q_vsyncPolicy := q_vsyncOriginPolicy q, q_vsyncFirstForceEnableEndTime := 0\<rparr>)"

definition SetVsyncPolicy :: "vsync_policy \<Rightarrow> 'a event_queue_scheme \<Rightarrow> 'a event_queue_scheme" where
  "SetVsyncPolicy policy q =
     (let q1 = q\<lparr>q_vsyncPolicy := policy, q_vsyncOriginPolicy := policy\<rparr>
      in if policy = DISABLE_VSYNC_FIRST then q1\<lparr>q_isLazyMode := True\<rparr> else q1)"

definition PrepareBase :: "'a event_queue_scheme \<Rightarrow> 'a event_queue_scheme" where
  "PrepareBase q = (if \<not> q_usable q then q else q\<lparr>q_finished := False\<rparr>)"

definition FinishBase :: "'a event_queue_scheme \<Rightarrow> 'a event_queue_scheme" where
  "FinishBase q =
     (if \<not> q_usable q then q
      else q\<lparr>q_finished := True, q_ioWaiter := io_NotifyAll (q_ioWaiter q)\<rparr>)"

section \<open>Waiting\<close>

datatype wait_request = WaitCond cond_wait | WaitEpollMs int

definition WaitUntil_request :: "time \<Rightarrow> time \<Rightarrow> io_waiter \<Rightarrow> wait_request" where
  \<comment> \<open>the time out that \<open>WaitUntilLocked\<close> hands to the condition variable or to \<open>epoll_wait\<close>\<close>
  "WaitUntil_request now when w =
     (case w of
        NoneWaiter n \<Rightarrow> WaitCond (None_wait_request (TimePointToTimeOut now when))
      | EpollWaiter e \<Rightarrow> WaitEpollMs (NanosecondsToTimeout (TimePointToTimeOut now when)))"

record wait_outcome =
  wo_retVal :: int
  wo_fatal :: bool
  wo_events :: "(int \<times> u32) list"

text \<open>
  \<open>other\<close> is what other threads, and the callbacks that run inside \<open>WaitFor\<close>, did to the
  queue while its lock was released. They may have replaced the waiter; the code keeps a
  reference to the old one (\<open>ioWaiterHolder\<close>), so the second half of the wait then has no
  effect on the queue's waiter.
\<close>

definition io_enter :: "io_waiter \<Rightarrow> io_waiter option" where
  "io_enter w =
     (case w of
        NoneWaiter n \<Rightarrow> Some (NoneWaiter n)
      | EpollWaiter e \<Rightarrow> map_option EpollWaiter (Epoll_WaitFor_enter e))"

definition io_leave ::
  "world \<Rightarrow> bool \<Rightarrow> wait_outcome \<Rightarrow> io_waiter \<Rightarrow> io_waiter \<Rightarrow> bool \<times> fd_callback list \<times> io_waiter" where
  \<comment> \<open>the holder and the waiter the queue has now\<close>
  "io_leave wd vsyncOnly wo holder now_w =
     (case (holder, now_w) of
        (NoneWaiter h, NoneWaiter n) \<Rightarrow>
          (let (ok, n') = None_WaitFor_finish n in (ok, [], NoneWaiter n'))
      | (NoneWaiter h, EpollWaiter e) \<Rightarrow> (fst (None_WaitFor_finish h), [], EpollWaiter e)
      | (EpollWaiter h, EpollWaiter e) \<Rightarrow>
          (let (ok, cbs, e') =
             Epoll_WaitFor_leave (wd_listeners wd) vsyncOnly (wo_retVal wo) (wo_fatal wo) (wo_events wo) e
           in (ok, cbs, EpollWaiter e'))
      | (EpollWaiter h, NoneWaiter n) \<Rightarrow>
          (let (ok, cbs, h') =
             Epoll_WaitFor_leave (wd_listeners wd) vsyncOnly (wo_retVal wo) (wo_fatal wo) (wo_events wo) h
           in (ok, cbs, NoneWaiter n)))"

definition reset_io_waiter :: "'a event_queue_scheme \<Rightarrow> 'a event_queue_scheme" where
  "reset_io_waiter q = q\<lparr>q_ioWaiter := NoneWaiter \<lparr>n_pred = False\<rparr>, q_listeners := []\<rparr>"

definition WaitUntilLocked ::
  "world \<Rightarrow> ('a event_queue_scheme \<Rightarrow> 'a event_queue_scheme) \<Rightarrow> wait_outcome \<Rightarrow> bool \<Rightarrow>
     'a event_queue_scheme \<Rightarrow> fd_callback list \<times> 'a event_queue_scheme" where
  "WaitUntilLocked wd other wo vsyncOnly q =
     (case io_enter (q_ioWaiter q) of
        None \<Rightarrow> ([], reset_io_waiter q)
      | Some holder \<Rightarrow>
          let q1 = other (q\<lparr>q_ioWaiter := holder\<rparr>);
              (ok, cbs, w) = io_leave wd vsyncOnly wo holder (q_ioWaiter q1);
              q2 = q1\<lparr>q_ioWaiter := w\<rparr>
          in (cbs, if \<not> ok then reset_io_waiter q2 else q2))"

definition CheckFileDescriptorEvent ::
  "world \<Rightarrow> ('a event_queue_scheme \<Rightarrow> 'a event_queue_scheme) \<Rightarrow> wait_outcome \<Rightarrow>
     'a event_queue_scheme \<Rightarrow> fd_callback list \<times> 'a event_queue_scheme" where
  "CheckFileDescriptorEvent wd other wo q = WaitUntilLocked wd other wo False q"

definition TryEpollFd ::
  "world \<Rightarrow> ('a event_queue_scheme \<Rightarrow> 'a event_queue_scheme) \<Rightarrow> wait_outcome \<Rightarrow>
     'a event_queue_scheme \<Rightarrow> fd_callback list \<times> 'a event_queue_scheme" where
  "TryEpollFd wd other wo q =
     (let need = q_needEpoll q;
          (cbs, q1) = WaitUntilLocked wd other wo (\<not> need) q
      in if q_sumOfPendingVsync q1 \<noteq> 0 then (cbs, q1)
         else if need then (cbs, q1\<lparr>q_needEpoll := False\<rparr>)
         else if q_vsyncPeriod q1 < MAX_CHECK_VSYNC_PERIOD_NS
         then (cbs, q1\<lparr>q_vsyncCheckTime := q_vsyncCheckTime q1 + q_vsyncPeriod q1,
                       q_vsyncPeriod := q_vsyncPeriod q1 * 2\<rparr>)
         else (cbs, q1\<lparr>q_vsyncCheckTime := TIME_MAX\<rparr>))"

section \<open>File descriptor listeners\<close>

record init_results =
  ir_epfd :: int
  ir_evfd :: int
  ir_ctl :: int

definition uses_deamon :: "system_params \<Rightarrow> world \<Rightarrow> listener_ref \<Rightarrow> 'a event_queue_scheme \<Rightarrow> bool" where
  \<comment> \<open>\<open>useDeamonIoWaiter_ || (listener && listener->GetIsDeamonWaiter() && MONITOR_FLAG)\<close>\<close>
  [eh_defs]: "uses_deamon sp wd l q \<longleftrightarrow>
     q_useDeamonIoWaiter q \<or> (l_isDeamonWaiter (wd_listeners wd l) \<and> p_monitor_flag sp)"

definition EnsureIoWaiterLocked ::
  "system_params \<Rightarrow> world \<Rightarrow> init_results \<Rightarrow> init_results \<Rightarrow> listener_ref \<Rightarrow>
     'a event_queue_scheme \<times> deamon_waiter \<Rightarrow> bool \<times> 'a event_queue_scheme \<times> deamon_waiter" where
  \<comment> \<open>\<open>di\<close> and \<open>ni\<close>: the system call results for the daemon and for a new epoll waiter; the
     \<open>NotifyAll\<close> on the waiter that is replaced wakes its threads and changes no state kept here\<close>
  "EnsureIoWaiterLocked sp wd di ni l s =
     (let (q, d) = s;
          (dok, d1) =
            (if uses_deamon sp wd l q
             then (let (ok, d') = Deamon_Init (ir_epfd di) (ir_evfd di) (ir_ctl di) d
                   in if ok then (True, Deamon_StartEpollIoWaiter d') else (False, d'))
             else (True, d))
      in if \<not> dok then (False, q, d1)
         else if io_SupportListeningFileDescriptor (q_ioWaiter q) then (True, q, d1)
         else
           let (ok, e) = Epoll_Init (ir_epfd ni) (ir_evfd ni) (ir_ctl ni) new_epoll
           in if \<not> ok then (False, q, d1)
              else (True, q\<lparr>q_ioWaiter := EpollWaiter (Epoll_SetFileDescriptorEventCallback e)\<rparr>, d1))"

definition AddFileDescriptorByFd ::
  "system_params \<Rightarrow> world \<Rightarrow> kernel \<Rightarrow> kernel \<Rightarrow> int \<Rightarrow> u32 \<Rightarrow> string \<Rightarrow> listener_ref \<Rightarrow> priority \<Rightarrow>
     'a event_queue_scheme \<times> deamon_waiter \<Rightarrow> bool \<times> 'a event_queue_scheme \<times> deamon_waiter" where
  \<comment> \<open>\<open>k\<close> and \<open>kd\<close>: the kernel as the queue's epoll and as the daemon's epoll see it\<close>
  "AddFileDescriptorByFd sp wd k kd fd events taskName l prio s =
     (let (q, d) = s;
          lst = wd_listeners wd l;
          isVsyncListener = IsVsyncListener lst;
          isDaemonListener = (l_isDeamonWaiter lst \<and> p_monitor_flag sp);
          p = (if isVsyncListener then VIP else prio)
      in if q_useDeamonIoWaiter q \<or> (isDaemonListener \<and> \<not> isVsyncListener)
         then (let (ok, d1) = Deamon_AddFileDescriptor kd fd events taskName (Some l) p d
               in (ok, q, d1))
         else
           let d1 =
                 (case Listener_GetOwner (wd_alive wd) lst of
                    None \<Rightarrow> d
                  | Some h \<Rightarrow>
                      if taskName = ''vSyncTask'' \<and> wd_runner wd h = wd_mainRunner wd
                      then snd (Deamon_AddFileDescriptor kd fd events taskName (Some l) p d) else d);
               (ok, w) = io_AddFileDescriptor k fd events taskName (Some l) p (q_ioWaiter q)
           in (ok, q\<lparr>q_ioWaiter := w\<rparr>, d1))"

definition AddFileDescriptorListenerBase ::
  "system_params \<Rightarrow> world \<Rightarrow> init_results \<Rightarrow> init_results \<Rightarrow> kernel \<Rightarrow> kernel \<Rightarrow> int \<Rightarrow> u32 \<Rightarrow>
     listener_ref \<Rightarrow> string \<Rightarrow> priority \<Rightarrow>
     'a event_queue_scheme \<times> deamon_waiter \<Rightarrow> err_code \<times> 'a event_queue_scheme \<times> deamon_waiter" where
  "AddFileDescriptorListenerBase sp wd di ni k kd fd events l taskName prio s =
     (if \<not> q_usable (fst s) then (EVENT_HANDLER_ERR_NO_EVENT_RUNNER, s)
      else if map_of (q_listeners (fst s)) fd \<noteq> None then (EVENT_HANDLER_ERR_FD_ALREADY, s)
      else
        let (eok, s1) = EnsureIoWaiterLocked sp wd di ni l s
        in if \<not> eok then (EVENT_HANDLER_ERR_FD_NOT_SUPPORT, s1)
           else
             let (aok, q2, d2) = AddFileDescriptorByFd sp wd k kd fd events taskName l prio s1
             in if \<not> aok then (EVENT_HANDLER_ERR_FD_FAILED, q2, d2)
                else (ERR_OK, q2\<lparr>q_listeners := map_emplace fd l (q_listeners q2)\<rparr>, d2))"

fun RemoveFileDescriptorListenerLocked ::
  "system_params \<Rightarrow> world \<Rightarrow> kernel \<Rightarrow> kernel \<Rightarrow> (listener_ref \<Rightarrow> bool) \<Rightarrow> bool \<Rightarrow>
     (int \<times> listener_ref) list \<Rightarrow> io_waiter \<Rightarrow> deamon_waiter \<Rightarrow>
     (int \<times> listener_ref) list \<times> io_waiter \<times> deamon_waiter" where
  "RemoveFileDescriptorListenerLocked sp wd k kd f useDeamon [] w d = ([], w, d)"
| "RemoveFileDescriptorListenerLocked sp wd k kd f useDeamon ((fd, l) # ls) w d =
     (if f l then
        let d1 = (if useDeamon \<or> (l_isDeamonWaiter (wd_listeners wd l) \<and> p_monitor_flag sp)
                  then Deamon_RemoveFileDescriptor kd fd d else d);
            w1 = io_RemoveFileDescriptor k fd w
        in RemoveFileDescriptorListenerLocked sp wd k kd f useDeamon ls w1 d1
      else
        let (rest, w1, d1) = RemoveFileDescriptorListenerLocked sp wd k kd f useDeamon ls w d
        in ((fd, l) # rest, w1, d1))"

definition remove_listeners ::
  "system_params \<Rightarrow> world \<Rightarrow> kernel \<Rightarrow> kernel \<Rightarrow> (listener_ref \<Rightarrow> bool) \<Rightarrow>
     'a event_queue_scheme \<times> deamon_waiter \<Rightarrow> 'a event_queue_scheme \<times> deamon_waiter" where
  "remove_listeners sp wd k kd f s =
     (let (q, d) = s;
          (ls, w, d1) = RemoveFileDescriptorListenerLocked sp wd k kd f (q_useDeamonIoWaiter q)
                          (q_listeners q) (q_ioWaiter q) d
      in (q\<lparr>q_listeners := ls, q_ioWaiter := w\<rparr>, d1))"

definition RemoveListenerByOwner ::
  "system_params \<Rightarrow> world \<Rightarrow> kernel \<Rightarrow> kernel \<Rightarrow> handler_ref \<Rightarrow>
     'a event_queue_scheme \<times> deamon_waiter \<Rightarrow> 'a event_queue_scheme \<times> deamon_waiter" where
  "RemoveListenerByOwner sp wd k kd owner s =
     (if \<not> q_usable (fst s) then s
      else remove_listeners sp wd k kd
             (\<lambda>l. Listener_GetOwner (wd_alive wd) (wd_listeners wd l) = Some owner) s)"

definition RemoveInvalidFileDescriptor ::
  "system_params \<Rightarrow> world \<Rightarrow> kernel \<Rightarrow> kernel \<Rightarrow>
     'a event_queue_scheme \<times> deamon_waiter \<Rightarrow> 'a event_queue_scheme \<times> deamon_waiter" where
  "RemoveInvalidFileDescriptor sp wd k kd s =
     remove_listeners sp wd k kd
       (\<lambda>l. Listener_GetOwner (wd_alive wd) (wd_listeners wd l) = None) s"

definition RemoveListenerByFd ::
  "system_params \<Rightarrow> world \<Rightarrow> kernel \<Rightarrow> kernel \<Rightarrow> int \<Rightarrow>
     'a event_queue_scheme \<times> deamon_waiter \<Rightarrow> 'a event_queue_scheme \<times> deamon_waiter" where
  "RemoveListenerByFd sp wd k kd fd s =
     (let (q, d) = s
      in if \<not> q_usable q then s
         else
           case map_of (q_listeners q) fd of
             None \<Rightarrow> s
           | Some l \<Rightarrow>
               let q1 = q\<lparr>q_listeners := map_erase fd (q_listeners q)\<rparr>;
                   vsyncOfMain =
                     (case Deamon_GetFileDescriptorMap fd d of
                        None \<Rightarrow> False
                      | Some info \<Rightarrow>
                          fi_taskName info = ''vSyncTask'' \<and>
                          (case Listener_GetOwner (wd_alive wd) (wd_listeners wd l) of
                             None \<Rightarrow> False
                           | Some h \<Rightarrow> wd_runner wd h = wd_mainRunner wd));
                   d1 = (if uses_deamon sp wd l q \<or> vsyncOfMain
                         then Deamon_RemoveFileDescriptor kd fd d else d)
               in (q1\<lparr>q_ioWaiter := io_RemoveFileDescriptor k fd (q_ioWaiter q1)\<rparr>, d1))"

definition GetListenerByfd :: "int \<Rightarrow> 'a event_queue_scheme \<Rightarrow> listener_ref option" where
  "GetListenerByfd fd q = (if \<not> q_usable q then None else map_of (q_listeners q) fd)"

section \<open>Events of file descriptors\<close>

text \<open>
  \<open>HandleFileDescriptorEvent\<close> posts a task to the listener's owner: for a vsync listener by
  \<open>PostTaskForVsync\<close>, which marks the event, for others by \<open>PostTask\<close> without delay.
\<close>

record fd_post =
  fp_handler :: handler_ref
  fp_callback :: callback
  fp_name :: string
  fp_priority :: priority
  fp_vsync :: bool

definition HandleFileDescriptorEvent ::
  "world \<Rightarrow> fd_callback \<Rightarrow> 'a event_queue_scheme \<Rightarrow> fd_post option" where
  "HandleFileDescriptorEvent wd cb q =
     (case GetListenerByfd (cb_fd cb) q of
        None \<Rightarrow> None
      | Some l \<Rightarrow>
          (case Listener_GetOwner (wd_alive wd) (wd_listeners wd l) of
             None \<Rightarrow> None
           | Some h \<Rightarrow>
               let isVsyncTask = (wd_runner wd h \<noteq> None \<and> IsVsyncListener (wd_listeners wd l))
               in Some \<lparr>fp_handler = h, fp_callback = FdTask (cb_fd cb) (cb_events cb) l isVsyncTask,
                        fp_name = cb_taskName cb, fp_priority = cb_priority cb,
                        fp_vsync = isVsyncTask\<rparr>))"

definition PostTaskForVsync_event ::
  "bool \<Rightarrow> world \<Rightarrow> caller \<Rightarrow> fd_post \<Rightarrow> inner_event option" where
  \<comment> \<open>the event that \<open>PostTaskForVsync\<close> sends, when it sends one\<close>
  "PostTaskForVsync_event alloc wd c p =
     (if wd_runner wd (fp_handler p) = None then None
      else map_option (\<lambda>e. e\<lparr>ev_isVsync := True\<rparr>)
             (Get_task alloc (Some (fp_callback p)) (fp_name p) c))"

definition run_FdTask ::
  "world \<Rightarrow> time \<Rightarrow> int \<Rightarrow> u32 \<Rightarrow> listener_ref \<Rightarrow> bool \<Rightarrow> 'a event_queue_scheme \<Rightarrow>
     listener_call list \<times> 'a event_queue_scheme" where
  \<comment> \<open>the lambda \<open>f\<close>, run by the event runner whose queue is \<open>q\<close>; \<open>now\<close> is the time at its end\<close>
  "run_FdTask wd now fd events l isVsyncTask q =
     (let q1 = (if isVsyncTask then SetBarrierMode now False (HandleVsyncTaskNotify q) else q)
      in if \<not> wd_listenerAlive wd l then ([], q1)
         else (listener_calls fd events,
               if isVsyncTask then HandleVsyncTaskCompletely now q1 else q1))"

end
