(* ===== verification/Event_List.thy ===== *)
theory Event_List
  imports Inner_Event
begin

text \<open>
  The unnamed namespace of \<open>frameworks/eventhandler/src/event_queue_base.cpp\<close>: inserting
  into, inspecting and popping one \<open>std::list<InnerEvent::Pointer>\<close>. A list element is an
  event, not a pointer: \<open>Insert\<close> refuses the null pointer, so the null test inside the
  insertion loop is never taken. The lemmas show that every operation keeps a list sorted
  by handle time, and the locale \<open>time_ordered_list\<close> states that contract for the queue.
\<close>

datatype event_insert_type = AT_END | AT_FRONT

abbreviation time_sorted :: "inner_event list \<Rightarrow> bool" where
  "time_sorted xs \<equiv> sorted (map ev_handleTime xs)"

section \<open>Insertion\<close>

text \<open>
  The \<open>while\<close> loop walks an iterator from \<open>end()\<close> towards \<open>begin()\<close>; the argument is the
  reversed rest of the list, whose head is \<open>std::prev(it)\<close>.
\<close>

fun insert_walk :: "inner_event \<Rightarrow> inner_event list \<Rightarrow> inner_event list" where
  "insert_walk e [] = [e]"
| "insert_walk e (p # before) =
     (if ev_handleTime p \<le> ev_handleTime e then e # p # before
      else p # insert_walk e before)"

definition InsertEventsLocked ::
  "inner_event list \<Rightarrow> inner_event \<Rightarrow> event_insert_type \<Rightarrow> inner_event list" where
  "InsertEventsLocked events event insertType =
     (case insertType of
        AT_FRONT \<Rightarrow>
          (case events of
             [] \<Rightarrow> [event]
           | headEvent # rest \<Rightarrow>
               (if ev_handleTime headEvent < ev_handleTime event
                then event\<lparr>ev_handleTime := ev_handleTime headEvent\<rparr> else event) # events)
      | AT_END \<Rightarrow> rev (insert_walk event (rev events)))"

definition insert_stable :: "inner_event list \<Rightarrow> inner_event \<Rightarrow> inner_event list" where
  \<comment> \<open>the specification of insertion at the end: behind every event that is not later\<close>
  "insert_stable xs e =
     takeWhile (\<lambda>p. ev_handleTime p \<le> ev_handleTime e) xs @
     e # dropWhile (\<lambda>p. ev_handleTime p \<le> ev_handleTime e) xs"

lemma mset_insert_walk [simp]: "mset (insert_walk e xs) = add_mset e (mset xs)"
  by (induction xs) auto

lemma insert_walk_split:
  "rev (insert_walk e (rev xs)) =
     (let late = takeWhile (\<lambda>p. \<not> ev_handleTime p \<le> ev_handleTime e) (rev xs)
      in take (length xs - length late) xs @ e # rev late)"
proof -
  have "insert_walk e ys =
      takeWhile (\<lambda>p. \<not> ev_handleTime p \<le> ev_handleTime e) ys @ e #
      drop (length (takeWhile (\<lambda>p. \<not> ev_handleTime p \<le> ev_handleTime e) ys)) ys" for ys
    by (induction ys) auto
  then show ?thesis by (simp add: Let_def rev_drop)
qed

lemma insert_walk_late:
  "(\<forall>p\<in>set ls. ev_handleTime e < ev_handleTime p) \<Longrightarrow>
     insert_walk e (ls @ ys) = ls @ insert_walk e ys"
  by (induction ls) auto

lemma insert_walk_stable:
  assumes "time_sorted xs"
  shows "rev (insert_walk e (rev xs)) = insert_stable xs e"
proof -
  let ?P = "\<lambda>p. ev_handleTime p \<le> ev_handleTime e"
  let ?early = "takeWhile ?P xs" and ?late = "dropWhile ?P xs"
  have late: "\<forall>p\<in>set (rev ?late). ev_handleTime e < ev_handleTime p"
  proof
    fix p assume p: "p \<in> set (rev ?late)"
    then have ne: "?late \<noteq> []" by (intro nonempty_member [of p]) (simp only: set_rev)
    then have hd: "\<not> ?P (hd ?late)" by (rule hd_dropWhile)
    have "time_sorted (?early @ ?late)" using assms by simp
    then have "time_sorted ?late" unfolding map_append sorted_append by blast
    then have "ev_handleTime (hd ?late) \<le> ev_handleTime p"
      using p by (intro sorted_hd_le) auto
    with hd show "ev_handleTime e < ev_handleTime p" by linarith
  qed
  have early: "insert_walk e (rev ?early) = e # rev ?early"
  proof (cases "rev ?early")
    case Nil
    then show ?thesis by simp
  next
    case (Cons p ps)
    then have "p \<in> set ?early" by (metis list.set_intros(1) set_rev)
    then have "?P p" by (rule set_takeWhileD [THEN conjunct2])
    with Cons show ?thesis by simp
  qed
  have "rev xs = rev ?late @ rev ?early"
    by (metis rev_append takeWhile_dropWhile_id)
  then have "insert_walk e (rev xs) = rev ?late @ e # rev ?early"
    using insert_walk_late [OF late, of "rev ?early"] early by simp
  then show ?thesis by (simp add: insert_stable_def)
qed

lemma mset_InsertEventsLocked:
  "\<exists>e'. mset (InsertEventsLocked xs e it) = add_mset e' (mset xs) \<and>
        (\<exists>t. e' = e\<lparr>ev_handleTime := t\<rparr> \<and> t \<le> ev_handleTime e)"
proof (cases it)
  case AT_END
  then have "mset (InsertEventsLocked xs e it) = add_mset e (mset xs)"
    by (simp add: InsertEventsLocked_def)
  moreover have "e = e\<lparr>ev_handleTime := ev_handleTime e\<rparr>" by simp
  ultimately show ?thesis by (metis order_refl)
next
  case AT_FRONT
  show ?thesis
  proof (cases xs)
    case Nil
    with AT_FRONT have "mset (InsertEventsLocked xs e it) = add_mset e (mset xs)"
      by (simp add: InsertEventsLocked_def)
    moreover have "e = e\<lparr>ev_handleTime := ev_handleTime e\<rparr>" by simp
    ultimately show ?thesis by (metis order_refl)
  next
    case (Cons h r)
    let ?e = "if ev_handleTime h < ev_handleTime e then e\<lparr>ev_handleTime := ev_handleTime h\<rparr> else e"
    have "mset (InsertEventsLocked xs e it) = add_mset ?e (mset xs)"
      using AT_FRONT Cons by (simp add: InsertEventsLocked_def)
    moreover have "?e = e\<lparr>ev_handleTime := min (ev_handleTime h) (ev_handleTime e)\<rparr>"
      by auto
    ultimately show ?thesis by (metis min.cobounded2)
  qed
qed

lemma set_InsertEventsLocked:
  "x \<in> set (InsertEventsLocked xs e it) \<Longrightarrow>
     x \<in> set xs \<or> (\<exists>t\<le>ev_handleTime e. x = e\<lparr>ev_handleTime := t\<rparr>)"
  using mset_InsertEventsLocked [of xs e it]
  by (metis insert_iff set_mset_add_mset_insert set_mset_mset)

lemma sorted_insert_stable:
  assumes "time_sorted xs"
  shows "time_sorted (insert_stable xs e)"
proof -
  let ?P = "\<lambda>p. ev_handleTime p \<le> ev_handleTime e"
  obtain us vs where uv: "us = takeWhile ?P xs" "vs = dropWhile ?P xs" by blast
  have "time_sorted (us @ vs)" using assms unfolding uv by (simp only: takeWhile_dropWhile_id)
  then have s: "time_sorted us" "time_sorted vs"
    and c: "\<forall>x\<in>set us. \<forall>y\<in>set vs. ev_handleTime x \<le> ev_handleTime y"
    by (auto simp: sorted_append)
  have early: "\<forall>x\<in>set us. ev_handleTime x \<le> ev_handleTime e"
    unfolding uv by (blast dest: set_takeWhileD)
  have late: "\<forall>y\<in>set vs. ev_handleTime e \<le> ev_handleTime y"
  proof
    fix y assume y: "y \<in> set vs"
    then have "vs \<noteq> []" by (rule nonempty_member)
    then have "\<not> ?P (hd vs)" unfolding uv by (rule hd_dropWhile)
    moreover have "ev_handleTime (hd vs) \<le> ev_handleTime y"
      using s(2) y by (rule sorted_hd_le)
    ultimately show "ev_handleTime e \<le> ev_handleTime y" by linarith
  qed
  have "time_sorted (us @ e # vs)"
    using s c early late by (auto simp: sorted_append)
  then show ?thesis by (simp only: insert_stable_def uv)
qed

lemma sorted_InsertEventsLocked:
  assumes "time_sorted xs"
  shows "time_sorted (InsertEventsLocked xs e it)"
proof (cases it)
  case AT_END
  with assms show ?thesis
    by (simp add: InsertEventsLocked_def insert_walk_stable sorted_insert_stable)
next
  case AT_FRONT
  with assms show ?thesis
    by (fastforce simp: InsertEventsLocked_def split: list.splits)
qed

lemma InsertEventsLocked_not_Nil [simp]: "InsertEventsLocked xs e it \<noteq> []"
  using mset_InsertEventsLocked [of xs e it] by auto

section \<open>Checking and popping\<close>

text \<open>Each check returns whether an event is due and the updated wake-up time.\<close>

definition CheckEventInListLocked ::
  "inner_event list \<Rightarrow> time \<Rightarrow> time \<Rightarrow> bool \<times> time" where
  "CheckEventInListLocked events now nextWakeUpTime =
     (case events of
        [] \<Rightarrow> (False, nextWakeUpTime)
      | front # rest \<Rightarrow>
          (if ev_handleTime front < nextWakeUpTime
           then (ev_handleTime front \<le> now, ev_handleTime front)
           else (False, nextWakeUpTime)))"

fun CheckBarrierTaskInListLocked ::
  "inner_event list \<Rightarrow> time \<Rightarrow> time \<Rightarrow> bool \<times> time" where
  "CheckBarrierTaskInListLocked [] now nextWakeUpTime = (False, nextWakeUpTime)"
| "CheckBarrierTaskInListLocked (e # events) now nextWakeUpTime =
     (let next = (if ev_handleTime e < nextWakeUpTime then ev_handleTime e else nextWakeUpTime)
      in if ev_handleTime e > now then (False, next)
         else if ev_isBarrier e then (True, next)
         else CheckBarrierTaskInListLocked events now next)"

definition PopFrontEventFromListLocked :: "inner_event list \<Rightarrow> (inner_event \<times> inner_event list) option" where
  \<comment> \<open>\<open>front()\<close> of an empty list is undefined behaviour, written as \<open>None\<close>\<close>
  "PopFrontEventFromListLocked events = (case events of [] \<Rightarrow> None | e # rest \<Rightarrow> Some (e, rest))"

definition PopFrontBarrierEventFromListLocked ::
  "inner_event list \<Rightarrow> (inner_event \<times> inner_event list) option" where
  "PopFrontBarrierEventFromListLocked events = pop_first ev_isBarrier events"

definition PopFrontBarrierEventFromListWithTimeLocked ::
  "inner_event list \<Rightarrow> time \<Rightarrow> time \<Rightarrow> (inner_event \<times> inner_event list) option" where
  "PopFrontBarrierEventFromListWithTimeLocked events sendTime handleTime =
     pop_first (\<lambda>p. ev_isBarrier p \<and> ev_sendTime p \<le> sendTime \<and> ev_handleTime p \<le> handleTime) events"

lemma CheckEvent_hit:
  "CheckEventInListLocked xs now nw = (True, nw') \<Longrightarrow>
     xs \<noteq> [] \<and> ev_handleTime (hd xs) \<le> now \<and> nw' = ev_handleTime (hd xs) \<and> nw' < nw"
  by (auto simp: CheckEventInListLocked_def split: list.splits if_splits)

lemma CheckEvent_le:
  "snd (CheckEventInListLocked xs now nw) \<le> nw"
  by (auto simp: CheckEventInListLocked_def split: list.splits)

lemma CheckEvent_le_hd:
  "xs \<noteq> [] \<Longrightarrow> snd (CheckEventInListLocked xs now nw) \<le> ev_handleTime (hd xs)"
  by (auto simp: CheckEventInListLocked_def split: list.splits)

lemma CheckBarrier_le: "snd (CheckBarrierTaskInListLocked xs now nw) \<le> nw"
proof (induction xs now nw rule: CheckBarrierTaskInListLocked.induct)
  case (2 e events now nw)
  then show ?case by (auto simp: Let_def)
qed simp

lemma CheckBarrier_hit:
  "fst (CheckBarrierTaskInListLocked xs now nw) \<Longrightarrow>
     \<exists>us e vs. xs = us @ e # vs \<and> ev_isBarrier e \<and> ev_handleTime e \<le> now \<and>
       (\<forall>u\<in>set us. \<not> ev_isBarrier u)"
proof (induction xs now nw rule: CheckBarrierTaskInListLocked.induct)
  case (1 now nw)
  then show ?case by simp
next
  case (2 e events now nw)
  show ?case
  proof (cases "ev_isBarrier e")
    case True
    with "2.prems" have "e # events = [] @ e # events \<and> ev_isBarrier e \<and> ev_handleTime e \<le> now \<and>
      (\<forall>u\<in>set []. \<not> ev_isBarrier u)" by (auto simp: Let_def split: if_splits)
    then show ?thesis by blast
  next
    case False
    with 2 obtain us b vs where "events = us @ b # vs" "ev_isBarrier b" "ev_handleTime b \<le> now"
      "\<forall>u\<in>set us. \<not> ev_isBarrier u"
      by (fastforce simp: Let_def split: if_splits)
    with False have "e # events = (e # us) @ b # vs \<and> ev_isBarrier b \<and> ev_handleTime b \<le> now \<and>
      (\<forall>u\<in>set (e # us). \<not> ev_isBarrier u)" by simp
    then show ?thesis by blast
  qed
qed

lemma CheckBarrier_miss:
  "\<not> fst (CheckBarrierTaskInListLocked xs now nw) \<Longrightarrow> time_sorted xs \<Longrightarrow>
     e \<in> set xs \<Longrightarrow> ev_isBarrier e \<Longrightarrow> now < ev_handleTime e"
proof (induction xs now nw rule: CheckBarrierTaskInListLocked.induct)
  case (1 now nw)
  then show ?case by simp
next
  case (2 x events now nw)
  show ?case
  proof (cases "now < ev_handleTime x")
    case True
    with "2.prems" show ?thesis by fastforce
  next
    case False
    with 2 show ?thesis by (auto simp: Let_def split: if_splits)
  qed
qed

text \<open>The barrier event that the check saw is the one the pop returns.\<close>

lemma PopFrontBarrier_hit:
  assumes "fst (CheckBarrierTaskInListLocked xs now nw)"
  shows "\<exists>e ys. PopFrontBarrierEventFromListLocked xs = Some (e, ys) \<and> ev_handleTime e \<le> now"
proof -
  from CheckBarrier_hit [OF assms] obtain us e vs where
    xs: "xs = us @ e # vs" "ev_isBarrier e" "ev_handleTime e \<le> now" "\<forall>u\<in>set us. \<not> ev_isBarrier u"
    by blast
  have "pop_first ev_isBarrier (us @ e # vs) = Some (e, us @ vs)"
    using xs(2,4) by (induction us) auto
  with xs show ?thesis by (auto simp: PopFrontBarrierEventFromListLocked_def)
qed

section \<open>The contract of a time-ordered list\<close>

text \<open>
  What the queue relies on: insertion adds one event and keeps the order, and taking an
  event out by a predicate removes exactly that event. The queue theories use the lemmas
  of this locale through its interpretation below.
\<close>

locale time_ordered_list =
  fixes ins :: "'q \<Rightarrow> 'e \<Rightarrow> 'i \<Rightarrow> 'q"
    and take_out :: "('e \<Rightarrow> bool) \<Rightarrow> 'q \<Rightarrow> ('e \<times> 'q) option"
    and content :: "'q \<Rightarrow> 'e multiset"
    and time_of :: "'e \<Rightarrow> 'k::linorder"
    and ordered :: "'q \<Rightarrow> bool"
  assumes ins_content: "\<exists>e'. content (ins q e i) = add_mset e' (content q) \<and> time_of e' \<le> time_of e"
    and ins_ordered: "ordered q \<Longrightarrow> ordered (ins q e i)"
    and take_content: "take_out P q = Some (e, q') \<Longrightarrow> content q = add_mset e (content q')"
    and take_sat: "take_out P q = Some (e, q') \<Longrightarrow> P e"
    and take_ordered: "take_out P q = Some (e, q') \<Longrightarrow> ordered q \<Longrightarrow> ordered q'"
    and take_none: "take_out P q = None \<longleftrightarrow> (\<forall>e\<in>#content q. \<not> P e)"
begin

lemma ins_size: "size (content (ins q e i)) = Suc (size (content q))"
  using ins_content [of q e i] by auto

lemma take_size: "take_out P q = Some (e, q') \<Longrightarrow> size (content q) = Suc (size (content q'))"
  by (auto dest: take_content)

lemma take_member: "take_out P q = Some (e, q') \<Longrightarrow> e \<in># content q"
  by (auto dest: take_content)

lemma take_subset: "take_out P q = Some (e, q') \<Longrightarrow> content q' \<subseteq># content q"
  by (auto dest: take_content)

lemma take_some_iff: "(\<exists>e q'. take_out P q = Some (e, q')) \<longleftrightarrow> (\<exists>e\<in>#content q. P e)"
  using take_none [of P q] by (cases "take_out P q") auto

text \<open>Taking out everything that satisfies a predicate ends after as many steps as it has matches.\<close>

lemma take_decreases:
  "take_out P q = Some (e, q') \<Longrightarrow> size (filter_mset P (content q)) = Suc (size (filter_mset P (content q')))"
  using take_content [of P q e q'] take_sat [of P q e q'] by simp

end

interpretation events: time_ordered_list InsertEventsLocked pop_first mset ev_handleTime time_sorted
proof
  show "\<exists>e'. mset (InsertEventsLocked q e i) = add_mset e' (mset q) \<and> ev_handleTime e' \<le> ev_handleTime e"
    for q e i
    using mset_InsertEventsLocked [of q e i] by force
qed (auto simp: pop_first_None sorted_InsertEventsLocked dest: pop_facts)

end
