(* ===== verification/Queue_Base.thy ===== *)
theory Queue_Base
  imports Event_Queue Event_List
begin

text \<open>
  \<open>frameworks/eventhandler/include/event_queue_base.h\<close> and the operations of
  \<open>event_queue_base.cpp\<close> that put events into the queue, take them out by a filter or ask
  about them. Four sub queues (VIP, immediate, high, low) and the idle list, each sorted by
  handle time; \<open>queue_wf\<close> is the invariant that every operation keeps. Taking the next event
  is in \<open>Queue_Pick\<close>, history and dumps are in \<open>Queue_History\<close>. The calls of the observer are
  recorded in \<open>b_notified\<close>, and \<open>consumer\<close> is how many milliseconds such a call took.
\<close>

section \<open>State\<close>

record sub_event_queue =
  sq_queue :: "inner_event list"
  sq_handledEventsCount :: nat
  sq_maxHandledEventsCount :: nat
  sq_frontEventHandleTime :: u64

record current_running_event =
  cr_beginTime :: time
  cr_owner :: "handler_ref option"
  cr_senderKernelThreadId :: u64
  cr_sendTime :: time
  cr_handleTime :: time
  cr_triggerTime :: time
  cr_param :: int
  cr_hasTask :: bool
  cr_taskName :: string
  cr_callerInfo :: string
  cr_innerEventId :: event_id

record history_event =
  h_senderKernelThreadId :: u64
  h_taskName :: string
  h_innerEventId :: event_id
  h_hasTask :: bool
  h_sendTime :: time
  h_handleTime :: time
  h_triggerTime :: time
  h_completeTime :: time
  h_priority :: int
  h_callerInfo :: string

record event_queue_base = event_queue +
  b_subEventQueues :: "sub_event_queue list"
  b_idleEvents :: "inner_event list"
  b_wakeUpTime :: time
  b_idleTimeStamp :: time
  b_isIdle :: bool
  b_currentRunningEvent :: current_running_event
  b_historyEvents :: "history_event list"
  b_historyEventIndex :: u8
  b_isExistVipTask :: bool
  b_notified :: "(event_runner_stage \<times> int) list"

definition DEFAULT_MAX_HANDLED_EVENT_COUNT :: nat where [eh_defs]: "DEFAULT_MAX_HANDLED_EVENT_COUNT = 5"
definition SUB_EVENT_QUEUE_NUM :: nat where [eh_defs]: "SUB_EVENT_QUEUE_NUM = 4"
definition HISTORY_EVENT_NUM_POWER :: nat where [eh_defs]: "HISTORY_EVENT_NUM_POWER = 32"

definition new_sub_queue :: sub_event_queue where
  [eh_defs]: "new_sub_queue =
     \<lparr>sq_queue = [], sq_handledEventsCount = 0,
      sq_maxHandledEventsCount = DEFAULT_MAX_HANDLED_EVENT_COUNT, sq_frontEventHandleTime = UINT64_MAX\<rparr>"

definition no_running_event :: current_running_event where
  \<comment> \<open>\<open>CurrentRunningEvent()\<close>\<close>
  [eh_defs]: "no_running_event =
     \<lparr>cr_beginTime = TIME_MAX, cr_owner = None, cr_senderKernelThreadId = 0, cr_sendTime = 0,
      cr_handleTime = 0, cr_triggerTime = 0, cr_param = 0, cr_hasTask = False, cr_taskName = [],
      cr_callerInfo = [], cr_innerEventId = IdU32 0\<rparr>"

definition CurrentRunningEvent :: "time \<Rightarrow> inner_event \<Rightarrow> current_running_event" where
  "CurrentRunningEvent t e =
     (let cr = no_running_event\<lparr>cr_beginTime := t, cr_owner := ev_owner e,
                 cr_senderKernelThreadId := ev_senderKernelThreadId e, cr_sendTime := ev_sendTime e,
                 cr_handleTime := ev_handleTime e, cr_param := ev_param e,
                 cr_callerInfo := Caller_ToString (ev_caller e)\<rparr>
      in if HasTask e then cr\<lparr>cr_hasTask := True, cr_taskName := ev_taskName e\<rparr>
         else cr\<lparr>cr_innerEventId := ev_innerEventId e\<rparr>)"

definition new_history_event :: history_event where
  [eh_defs]: "new_history_event =
     \<lparr>h_senderKernelThreadId = 0, h_taskName = [], h_innerEventId = IdU32 0, h_hasTask = False,
      h_sendTime = 0, h_handleTime = 0, h_triggerTime = 0, h_completeTime = 0, h_priority = -1,
      h_callerInfo = []\<rparr>"

definition new_queue :: "time \<Rightarrow> event_queue_base" where
  \<comment> \<open>the constructor; \<open>idleTimeStamp_\<close> starts at the current time\<close>
  [eh_defs]: "new_queue now = event_queue.extend new_event_queue
     (event_queue_base.fields (replicate SUB_EVENT_QUEUE_NUM new_sub_queue) [] TIME_MAX now True
        no_running_event (replicate HISTORY_EVENT_NUM_POWER new_history_event) 0 False [])"

definition destroy_queue :: "event_queue_base \<Rightarrow> event_queue_base" where
  \<comment> \<open>the destructor, as far as a thread that still reads \<open>usable_\<close> can see it\<close>
  "destroy_queue q = ClearObserver (q\<lparr>q_usable := False\<rparr>)"

definition SetUsable :: "bool \<Rightarrow> event_queue_base \<Rightarrow> event_queue_base" where
  [eh_defs]: "SetUsable usable q = q\<lparr>q_usable := usable\<rparr>"

abbreviation sub :: "event_queue_base \<Rightarrow> nat \<Rightarrow> sub_event_queue" where
  "sub q i \<equiv> b_subEventQueues q ! i"

definition map_sub :: "nat \<Rightarrow> (sub_event_queue \<Rightarrow> sub_event_queue) \<Rightarrow> event_queue_base \<Rightarrow> event_queue_base" where
  [eh_defs]: "map_sub i f q = q\<lparr>b_subEventQueues := (b_subEventQueues q)[i := f (sub q i)]\<rparr>"

definition front_time :: "inner_event list \<Rightarrow> u64" where
  \<comment> \<open>the value stored in \<open>frontEventHandleTime\<close>\<close>
  [eh_defs]: "front_time es = (case es of [] \<Rightarrow> UINT64_MAX | e # _ \<Rightarrow> u64_of_time (ev_handleTime e))"

definition with_queue :: "inner_event list \<Rightarrow> sub_event_queue \<Rightarrow> sub_event_queue" where
  \<comment> \<open>change the list and refresh the cached time of its front\<close>
  [eh_defs]: "with_queue es s = s\<lparr>sq_queue := es, sq_frontEventHandleTime := front_time es\<rparr>"

section \<open>The observer\<close>

definition GC_TIME_OUT :: int where [eh_defs]: "GC_TIME_OUT = 300"

definition notify_observer :: "event_runner_stage \<Rightarrow> int \<Rightarrow> event_queue_base \<Rightarrow> event_queue_base" where
  \<comment> \<open>\<open>ExecuteObserverCallback\<close>: the call, with the sleep time it is given\<close>
  [eh_defs]: "notify_observer st sleepTime q = q\<lparr>b_notified := b_notified q @ [(st, sleepTime)]\<rparr>"

definition TryExecuteObserverCallback ::
  "time \<Rightarrow> int \<Rightarrow> time \<Rightarrow> event_runner_stage \<Rightarrow> event_queue_base \<Rightarrow> time \<times> event_queue_base" where
  "TryExecuteObserverCallback now consumer nextExpiredTime st q =
     (if stage_bits st AND ob_stages (q_observer q) \<noteq> stage_bits st then (nextExpiredTime, q)
      else if \<not> ob_notifyCb (q_observer q) then (nextExpiredTime, q)
      else case st of
        STAGE_BEFORE_WAITING \<Rightarrow>
          (let q1 = notify_observer st (NanosecondsToTimeout (TimePointToTimeOut now nextExpiredTime)) q
           in if nextExpiredTime < TIME_MAX
              then (nextExpiredTime + consumer * MS,
                    q1\<lparr>b_wakeUpTime := nextExpiredTime + consumer * MS\<rparr>)
              else (nextExpiredTime, q1))
      | STAGE_AFTER_WAITING \<Rightarrow> (nextExpiredTime, notify_observer st 0 q)
      | STAGE_VIP_EXISTED \<Rightarrow> (nextExpiredTime, notify_observer st 0 q)
      | STAGE_VIP_NONE \<Rightarrow> (nextExpiredTime, notify_observer st 0 q)
      | _ \<Rightarrow> (nextExpiredTime, q))"

definition HasVipTask :: "event_queue_base \<Rightarrow> bool" where
  "HasVipTask q \<longleftrightarrow> sq_queue (sub q (prio_index VIP)) \<noteq> []"

definition NotifyObserverVipDoneBase :: "time \<Rightarrow> int \<Rightarrow> event_queue_base \<Rightarrow> event_queue_base" where
  "NotifyObserverVipDoneBase now consumer q =
     (if sq_queue (sub q (prio_index VIP)) = []
      then (snd (TryExecuteObserverCallback now consumer now STAGE_VIP_NONE q))\<lparr>b_isExistVipTask := False\<rparr>
      else q)"

definition NotifyObserverVipDone ::
  "time \<Rightarrow> int \<Rightarrow> inner_event \<Rightarrow> event_queue_base \<Rightarrow> event_queue_base" where
  "NotifyObserverVipDone now consumer e q =
     (if ev_priority e \<noteq> prio_int VIP then q else NotifyObserverVipDoneBase now consumer q)"

section \<open>Insertion\<close>

definition IsOwnerMainRunner :: "world \<Rightarrow> inner_event \<Rightarrow> bool" where
  "IsOwnerMainRunner wd e \<longleftrightarrow>
     (case GetOwner (wd_alive wd) e of None \<Rightarrow> False | Some h \<Rightarrow> wd_mainRunner wd = wd_runner wd h)"

definition MarkBarrierTaskIfNeed ::
  "world \<Rightarrow> vsync_barrier_option \<Rightarrow> vsync_policy \<Rightarrow> inner_event \<Rightarrow> inner_event" where
  "MarkBarrierTaskIfNeed wd option policy e =
     (let needMarkBarrier =
        (case policy of
           VSYNC_FIRST_WITHOUT_DEFAULT_BARRIER \<Rightarrow>
             (option = FORCE_BARRIER \<or> ev_priority e = prio_int VIP \<or>
              (option = NEED_BARRIER \<and> wd_isAppMainThread wd \<and> ev_handleTime e = ev_sendTime e \<and>
               IsOwnerMainRunner wd e)) \<and> \<not> ev_isVsync e
         | VSYNC_FIRST_WITH_DEFAULT_BARRIER \<Rightarrow>
             wd_isAppMainThread wd \<and> ev_handleTime e = ev_sendTime e \<and>
             IsOwnerMainRunner wd e \<and> \<not> ev_isVsync e
         | DISABLE_VSYNC_FIRST \<Rightarrow> False)
      in if needMarkBarrier then e\<lparr>ev_isBarrier := True\<rparr> else e)"

definition insert_sub :: "nat \<Rightarrow> inner_event \<Rightarrow> event_insert_type \<Rightarrow> event_queue_base \<Rightarrow> event_queue_base" where
  "insert_sub i e it q =
     map_sub i (\<lambda>s. with_queue (InsertEventsLocked (sq_queue s) e it) s) q"

definition Insert ::
  "system_params \<Rightarrow> world \<Rightarrow> time \<Rightarrow> int \<Rightarrow> inner_event option \<Rightarrow> priority \<Rightarrow> event_insert_type \<Rightarrow>
     vsync_barrier_option \<Rightarrow> event_queue_base \<Rightarrow> bool \<times> event_queue_base" where
  \<comment> \<open>one reading \<open>now\<close> stands for the clock readings during the call\<close>
  "Insert sp wd now consumer event prio it option q =
     (case event of
        None \<Rightarrow> (False, q)
      | Some e0 \<Rightarrow>
          let e1 = MarkBarrierTaskIfNeed wd option (q_vsyncPolicy q) e0
          in if \<not> q_usable q then (False, q)
             else
               let e = e1\<lparr>ev_priority := prio_int prio\<rparr>;
                   (needNotify, q1) =
                     (if prio = VIP \<or> prio = IMMEDIATE \<or> prio = HIGH \<or> prio = LOW then
                        (if ev_isVsync e
                         then (True, insert_sub (prio_index prio) e it (DispatchVsyncTaskNotify now q))
                         else (ev_handleTime e < b_wakeUpTime q \<or> b_wakeUpTime q < now,
                               insert_sub (prio_index prio) e it q))
                      else if prio = IDLE
                      then (False, q\<lparr>b_idleEvents := InsertEventsLocked (b_idleEvents q) e it\<rparr>)
                      else (False, q));
                   q2 = (if needNotify then q1\<lparr>q_ioWaiter := io_NotifyOne (q_ioWaiter q1)\<rparr> else q1);
                   q3 = (if p_smart_gc sp \<and> prio = VIP \<and> \<not> b_isExistVipTask q2
                         then snd (TryExecuteObserverCallback now consumer now STAGE_VIP_EXISTED
                                     (q2\<lparr>b_isExistVipTask := True\<rparr>))
                         else q2)
               in (True, q3))"

section \<open>Removal\<close>

definition RemoveAll :: "event_queue_base \<Rightarrow> event_queue_base" where
  "RemoveAll q =
     (if \<not> q_usable q then q
      else q\<lparr>b_subEventQueues := map (with_queue []) (b_subEventQueues q), b_idleEvents := []\<rparr>)"

definition drop_events :: "(inner_event \<Rightarrow> bool) \<Rightarrow> event_queue_base \<Rightarrow> event_queue_base" where
  \<comment> \<open>the loop over the sub queues and the idle list in \<open>Remove\<close> and \<open>RemoveOrphan\<close>\<close>
  "drop_events P q =
     q\<lparr>b_subEventQueues :=
         map (\<lambda>s. with_queue (filter (\<lambda>e. \<not> P e) (sq_queue s)) s) (b_subEventQueues q),
       b_idleEvents := filter (\<lambda>e. \<not> P e) (b_idleEvents q)\<rparr>"

definition Remove_filter ::
  "system_params \<Rightarrow> time \<Rightarrow> int \<Rightarrow> (inner_event \<Rightarrow> bool) \<Rightarrow> event_queue_base \<Rightarrow> event_queue_base" where
  "Remove_filter sp now consumer P q =
     (if \<not> q_usable q then q
      else
        let result = HasVipTask q;
            q1 = drop_events P q
        in if p_smart_gc sp \<and> result then NotifyObserverVipDoneBase now consumer q1 else q1)"

definition Remove_owner ::
  "system_params \<Rightarrow> world \<Rightarrow> time \<Rightarrow> int \<Rightarrow> handler_ref option \<Rightarrow> event_queue_base \<Rightarrow> event_queue_base" where
  "Remove_owner sp wd now consumer owner q =
     (case owner of
        None \<Rightarrow> q
      | Some h \<Rightarrow> Remove_filter sp now consumer (\<lambda>p. ev_ownerId p = wd_handlerId wd h) q)"

definition Remove_id ::
  "system_params \<Rightarrow> world \<Rightarrow> time \<Rightarrow> int \<Rightarrow> handler_ref option \<Rightarrow> u32 \<Rightarrow> event_queue_base \<Rightarrow> event_queue_base" where
  "Remove_id sp wd now consumer owner innerEventId q =
     (case owner of
        None \<Rightarrow> q
      | Some h \<Rightarrow> Remove_filter sp now consumer
          (\<lambda>p. \<not> HasTask p \<and> ev_ownerId p = wd_handlerId wd h \<and> GetInnerEventId p = innerEventId) q)"

definition Remove_id_param ::
  "system_params \<Rightarrow> world \<Rightarrow> time \<Rightarrow> int \<Rightarrow> handler_ref option \<Rightarrow> u32 \<Rightarrow> int \<Rightarrow>
     event_queue_base \<Rightarrow> event_queue_base" where
  "Remove_id_param sp wd now consumer owner innerEventId param q =
     (case owner of
        None \<Rightarrow> q
      | Some h \<Rightarrow> Remove_filter sp now consumer
          (\<lambda>p. \<not> HasTask p \<and> ev_ownerId p = wd_handlerId wd h \<and> GetInnerEventId p = innerEventId \<and>
               ev_param p = param) q)"

definition queued :: "event_queue_base \<Rightarrow> inner_event list" where
  \<comment> \<open>all events, in the order in which the loops visit them\<close>
  "queued q = concat (map sq_queue (b_subEventQueues q)) @ b_idleEvents q"

definition Remove_name ::
  "system_params \<Rightarrow> world \<Rightarrow> time \<Rightarrow> int \<Rightarrow> handler_ref option \<Rightarrow> string \<Rightarrow>
     event_queue_base \<Rightarrow> bool \<times> event_queue_base" where
  \<comment> \<open>the flag \<open>removed\<close> that the filter sets: some visited event matched\<close>
  "Remove_name sp wd now consumer owner name q =
     (case owner of
        None \<Rightarrow> (False, q)
      | Some h \<Rightarrow>
          if name = [] then (False, q)
          else
            let P = (\<lambda>p. HasTask p \<and> ev_ownerId p = wd_handlerId wd h \<and> ev_taskName p = name)
            in (q_usable q \<and> (\<exists>p\<in>set (queued q). P p), Remove_filter sp now consumer P q))"

definition orphan_effect :: "world \<Rightarrow> time \<Rightarrow> inner_event \<Rightarrow> event_queue_base \<Rightarrow> event_queue_base" where
  \<comment> \<open>what the filter lambda of \<open>RemoveOrphan\<close> does to the queue for one event\<close>
  "orphan_effect wd now p q =
     (if owner_expired (wd_alive wd) p \<and> ev_isVsync p
      then (SetBarrierMode now False (HandleVsyncTaskNotify q))\<lparr>q_needEpoll := False\<rparr> else q)"

definition RemoveOrphan_filter ::
  "system_params \<Rightarrow> world \<Rightarrow> time \<Rightarrow> int \<Rightarrow> event_queue_base \<Rightarrow> event_queue_base" where
  "RemoveOrphan_filter sp wd now consumer q =
     (if \<not> q_usable q then q
      else
        let result = HasVipTask q;
            q1 = fold (orphan_effect wd now) (queued q) (drop_events (owner_expired (wd_alive wd)) q)
        in if p_smart_gc sp \<and> result then NotifyObserverVipDoneBase now consumer q1 else q1)"

definition RemoveOrphan ::
  "system_params \<Rightarrow> world \<Rightarrow> kernel \<Rightarrow> kernel \<Rightarrow> time \<Rightarrow> int \<Rightarrow>
     event_queue_base \<times> deamon_waiter \<Rightarrow> event_queue_base \<times> deamon_waiter" where
  "RemoveOrphan sp wd k kd now consumer s =
     (let q1 = RemoveOrphan_filter sp wd now consumer (fst s)
      in if \<not> q_usable q1 then (q1, snd s)
         else RemoveInvalidFileDescriptor sp wd k kd (q1, snd s))"

section \<open>Queries\<close>

definition HasInnerEvent_filter :: "(inner_event \<Rightarrow> bool) \<Rightarrow> event_queue_base \<Rightarrow> bool" where
  "HasInnerEvent_filter P q \<longleftrightarrow>
     q_usable q \<and>
     (list_ex (\<lambda>s. list_ex P (sq_queue s)) (b_subEventQueues q) \<or> list_ex P (b_idleEvents q))"

definition HasInnerEvent_id :: "world \<Rightarrow> handler_ref option \<Rightarrow> u32 \<Rightarrow> event_queue_base \<Rightarrow> bool" where
  "HasInnerEvent_id wd owner innerEventId q =
     (case owner of
        None \<Rightarrow> False
      | Some h \<Rightarrow> HasInnerEvent_filter
          (\<lambda>p. \<not> HasTask p \<and> GetOwner (wd_alive wd) p = Some h \<and> GetInnerEventId p = innerEventId) q)"

definition HasInnerEvent_param :: "world \<Rightarrow> handler_ref option \<Rightarrow> int \<Rightarrow> event_queue_base \<Rightarrow> bool" where
  "HasInnerEvent_param wd owner param q =
     (case owner of
        None \<Rightarrow> False
      | Some h \<Rightarrow> HasInnerEvent_filter
          (\<lambda>p. \<not> HasTask p \<and> GetOwner (wd_alive wd) p = Some h \<and> ev_param p = param) q)"

definition IsIdle :: "event_queue_base \<Rightarrow> bool" where
  [eh_defs]: "IsIdle q = b_isIdle q"

definition IsQueueEmpty :: "event_queue_base \<Rightarrow> bool" where
  "IsQueueEmpty q \<longleftrightarrow>
     q_usable q \<and> list_all (\<lambda>s. sq_queue s = []) (b_subEventQueues q) \<and> b_idleEvents q = []"

definition HasPreferEvent :: "int \<Rightarrow> event_queue_base \<Rightarrow> bool" where
  \<comment> \<open>for \<open>basePrio\<close> up to \<open>IDLE\<close>; beyond it the code reads past the array\<close>
  "HasPreferEvent basePrio q \<longleftrightarrow>
     list_ex (\<lambda>s. sq_queue s \<noteq> []) (take (nat basePrio) (b_subEventQueues q))"

section \<open>Listeners, start and end\<close>

definition AddFileDescriptorListener ::
  "system_params \<Rightarrow> world \<Rightarrow> init_results \<Rightarrow> init_results \<Rightarrow> kernel \<Rightarrow> kernel \<Rightarrow> int \<Rightarrow> u32 \<Rightarrow>
     listener_ref option \<Rightarrow> string \<Rightarrow> priority \<Rightarrow>
     'a event_queue_scheme \<times> deamon_waiter \<Rightarrow> err_code \<times> 'a event_queue_scheme \<times> deamon_waiter" where
  "AddFileDescriptorListener sp wd di ni k kd fd events listener taskName prio s =
     (case listener of
        None \<Rightarrow> (EVENT_HANDLER_ERR_INVALID_PARAM, s)
      | Some l \<Rightarrow>
          if fd < 0 \<or> events AND FILE_DESCRIPTOR_EVENTS_MASK = 0
          then (EVENT_HANDLER_ERR_INVALID_PARAM, s)
          else AddFileDescriptorListenerBase sp wd di ni k kd fd events l taskName prio s)"

definition RemoveFileDescriptorListener_owner ::
  "system_params \<Rightarrow> world \<Rightarrow> kernel \<Rightarrow> kernel \<Rightarrow> handler_ref option \<Rightarrow>
     'a event_queue_scheme \<times> deamon_waiter \<Rightarrow> 'a event_queue_scheme \<times> deamon_waiter" where
  "RemoveFileDescriptorListener_owner sp wd k kd owner s =
     (case owner of None \<Rightarrow> s | Some h \<Rightarrow> RemoveListenerByOwner sp wd k kd h s)"

definition RemoveFileDescriptorListener_fd ::
  "system_params \<Rightarrow> world \<Rightarrow> kernel \<Rightarrow> kernel \<Rightarrow> int \<Rightarrow>
     'a event_queue_scheme \<times> deamon_waiter \<Rightarrow> 'a event_queue_scheme \<times> deamon_waiter" where
  "RemoveFileDescriptorListener_fd sp wd k kd fd s =
     (if fd < 0 then s else RemoveListenerByFd sp wd k kd fd s)"

definition Prepare :: "event_queue_base \<Rightarrow> event_queue_base" where
  [eh_defs]: "Prepare q = PrepareBase q"

definition Finish :: "event_queue_base \<Rightarrow> event_queue_base" where
  [eh_defs]: "Finish q = FinishBase q"

end
