(* ===== verification/Queue_Invariant.thy ===== *)
theory Queue_Invariant
  imports Queue_Base
begin

text \<open>
  The invariant of the queue and what the operations of \<open>Queue_Base\<close> do to its content.
  \<open>queue_wf\<close>: four sub queues, every list sorted by handle time, every event in the list of
  its priority, and the counters of consecutive events within their bound.
  \<open>front_coherent\<close>: the cached handle time of a sub queue's front is the real one. The
  content is a multiset, \<open>content q\<close>; the list view \<open>queued q\<close> fixes an order for it.
\<close>

named_theorems keep_facts \<open>fields that an operation leaves alone\<close>

definition sub_wf :: "nat \<Rightarrow> sub_event_queue \<Rightarrow> bool" where
  "sub_wf i s \<longleftrightarrow>
     time_sorted (sq_queue s) \<and> (\<forall>e\<in>set (sq_queue s). ev_priority e = int i) \<and>
     sq_handledEventsCount s \<le> sq_maxHandledEventsCount s \<and>
     sq_maxHandledEventsCount s = DEFAULT_MAX_HANDLED_EVENT_COUNT"

definition queue_wf :: "event_queue_base \<Rightarrow> bool" where
  "queue_wf q \<longleftrightarrow>
     length (b_subEventQueues q) = SUB_EVENT_QUEUE_NUM \<and>
     (\<forall>i<SUB_EVENT_QUEUE_NUM. sub_wf i (sub q i)) \<and>
     time_sorted (b_idleEvents q) \<and> (\<forall>e\<in>set (b_idleEvents q). ev_priority e = prio_int IDLE)"

definition front_coherent :: "nat \<Rightarrow> event_queue_base \<Rightarrow> bool" where
  "front_coherent i q \<longleftrightarrow> sq_frontEventHandleTime (sub q i) = front_time (sq_queue (sub q i))"

definition content :: "event_queue_base \<Rightarrow> inner_event multiset" where
  "content q = mset (queued q)"

abbreviation same_lists :: "event_queue_base \<Rightarrow> event_queue_base \<Rightarrow> bool" where
  "same_lists q q' \<equiv> b_subEventQueues q' = b_subEventQueues q \<and> b_idleEvents q' = b_idleEvents q"

lemma SUB_EVENT_QUEUE_NUM_less: "i < SUB_EVENT_QUEUE_NUM \<longleftrightarrow> i < 4"
  by (simp add: SUB_EVENT_QUEUE_NUM_def)

lemma queue_wf_length [dest]: "queue_wf q \<Longrightarrow> length (b_subEventQueues q) = 4"
  by (simp add: queue_wf_def SUB_EVENT_QUEUE_NUM_def)

lemma queue_wf_sub: "queue_wf q \<Longrightarrow> i < 4 \<Longrightarrow> sub_wf i (sub q i)"
  by (simp add: queue_wf_def SUB_EVENT_QUEUE_NUM_less)

lemma queue_wf_sorted: "queue_wf q \<Longrightarrow> i < 4 \<Longrightarrow> time_sorted (sq_queue (sub q i))"
  by (simp add: queue_wf_def sub_wf_def SUB_EVENT_QUEUE_NUM_less)

lemma queue_wf_idle_sorted: "queue_wf q \<Longrightarrow> time_sorted (b_idleEvents q)"
  by (simp add: queue_wf_def)

lemma queue_wf_priority: "queue_wf q \<Longrightarrow> i < 4 \<Longrightarrow> e \<in> set (sq_queue (sub q i)) \<Longrightarrow> ev_priority e = int i"
  by (simp add: queue_wf_def sub_wf_def SUB_EVENT_QUEUE_NUM_less)

lemma queue_wf_idle_priority: "queue_wf q \<Longrightarrow> e \<in> set (b_idleEvents q) \<Longrightarrow> ev_priority e = 4"
  by (simp add: queue_wf_def)

lemma queue_wf_same: "same_lists q q' \<Longrightarrow> queue_wf q' \<longleftrightarrow> queue_wf q"
  by (simp add: queue_wf_def)

lemma queue_wf_sameD: "same_lists q q' \<Longrightarrow> queue_wf q \<Longrightarrow> queue_wf q'"
  by (simp add: queue_wf_def)

lemma front_coherent_same: "same_lists q q' \<Longrightarrow> front_coherent i q' \<longleftrightarrow> front_coherent i q"
  by (simp add: front_coherent_def)

lemma content_same: "same_lists q q' \<Longrightarrow> content q' = content q"
  by (simp add: content_def queued_def)

lemma queued_same: "same_lists q q' \<Longrightarrow> queued q' = queued q"
  by (simp add: queued_def)

lemma content_sum: "content q = (\<Sum>s\<leftarrow>b_subEventQueues q. mset (sq_queue s)) + mset (b_idleEvents q)"
proof -
  have "mset (concat (map sq_queue ss)) = (\<Sum>s\<leftarrow>ss. mset (sq_queue s))" for ss :: "sub_event_queue list"
    by (induction ss) auto
  then show ?thesis by (simp add: content_def queued_def)
qed

lemma queued_member:
  assumes "length (b_subEventQueues q) = 4"
  shows "e \<in> set (queued q) \<longleftrightarrow> (\<exists>i<4. e \<in> set (sq_queue (sub q i))) \<or> e \<in> set (b_idleEvents q)"
  using assms by (fastforce simp: queued_def in_set_conv_nth)

lemma new_queue_wf: "queue_wf (new_queue now)" "front_coherent i (new_queue now) \<or> 4 \<le> i"
  "content (new_queue now) = {#}"
proof -
  have subs: "b_subEventQueues (new_queue now) = replicate 4 new_sub_queue"
    "b_idleEvents (new_queue now) = []"
    by (simp_all add: new_queue_def event_queue.extend_def event_queue_base.fields_def
        new_event_queue_def SUB_EVENT_QUEUE_NUM_def)
  then show "queue_wf (new_queue now)"
    by (simp add: queue_wf_def sub_wf_def SUB_EVENT_QUEUE_NUM_def new_sub_queue_def)
  show "front_coherent i (new_queue now) \<or> 4 \<le> i"
    using subs by (auto simp: front_coherent_def new_sub_queue_def front_time_def not_le)
  show "content (new_queue now) = {#}"
    using subs by (simp add: content_def queued_def new_sub_queue_def)
qed

section \<open>Changing one sub queue\<close>

lemma map_sub_keep [simp]:
  "b_idleEvents (map_sub i f q) = b_idleEvents q"
  "length (b_subEventQueues (map_sub i f q)) = length (b_subEventQueues q)"
  "q_usable (map_sub i f q) = q_usable q"
  "q_sumOfPendingVsync (map_sub i f q) = q_sumOfPendingVsync q"
  by (simp_all add: map_sub_def)

lemma sub_map_sub:
  "i < length (b_subEventQueues q) \<Longrightarrow>
     sub (map_sub i f q) j = (if i = j then f (sub q j) else sub q j)"
  by (simp add: map_sub_def nth_list_update)

lemma queue_wf_map_sub:
  assumes "queue_wf q" "i < 4" "sub_wf i (f (sub q i))"
  shows "queue_wf (map_sub i f q)"
proof -
  have "sub_wf j (sub (map_sub i f q) j)" if "j < 4" for j
    using assms that queue_wf_length [OF assms(1)] by (auto simp: sub_map_sub queue_wf_sub)
  with assms show ?thesis by (simp add: queue_wf_def SUB_EVENT_QUEUE_NUM_def)
qed

lemma content_map_sub:
  assumes "i < length (b_subEventQueues q)"
  shows "content (map_sub i f q) + mset (sq_queue (sub q i)) =
    content q + mset (sq_queue (f (sub q i)))"
proof -
  have "(\<Sum>s\<leftarrow>ss[i := x]. mset (sq_queue s)) + mset (sq_queue (ss ! i)) =
      (\<Sum>s\<leftarrow>ss. mset (sq_queue s)) + mset (sq_queue x)" if "i < length ss"
    for ss :: "sub_event_queue list" and x
    using that
  proof (induction ss arbitrary: i)
    case (Cons s ss)
    then show ?case by (cases i) (auto simp: add_ac)
  qed simp
  from this [OF assms, of "f (sub q i)"] show ?thesis
    by (simp add: content_sum map_sub_def add_ac)
qed

lemma sub_wf_with_queue:
  "sub_wf i s \<Longrightarrow> time_sorted es \<Longrightarrow> \<forall>e\<in>set es. ev_priority e = int i \<Longrightarrow> sub_wf i (with_queue es s)"
  by (simp add: sub_wf_def with_queue_def)

lemma front_coherent_map_sub:
  assumes "i < length (b_subEventQueues q)" "front_coherent j q"
  shows "front_coherent j (map_sub i (\<lambda>s. with_queue (g s) s) q)"
  using assms by (simp add: front_coherent_def sub_map_sub with_queue_def)

section \<open>The observer changes no list\<close>

lemma TryExecuteObserverCallback_keep [simp]:
  "same_lists q (snd (TryExecuteObserverCallback now c t st q))"
  "q_usable (snd (TryExecuteObserverCallback now c t st q)) = q_usable q"
  "q_sumOfPendingVsync (snd (TryExecuteObserverCallback now c t st q)) = q_sumOfPendingVsync q"
  "q_finished (snd (TryExecuteObserverCallback now c t st q)) = q_finished q"
  "q_isBarrierMode (snd (TryExecuteObserverCallback now c t st q)) = q_isBarrierMode q"
  "q_ioWaiter (snd (TryExecuteObserverCallback now c t st q)) = q_ioWaiter q"
  "b_isExistVipTask (snd (TryExecuteObserverCallback now c t st q)) = b_isExistVipTask q"
  by (auto simp: TryExecuteObserverCallback_def notify_observer_def Let_def split: event_runner_stage.split)

lemma NotifyObserverVipDoneBase_keep [simp]:
  "same_lists q (NotifyObserverVipDoneBase now c q)"
  "q_usable (NotifyObserverVipDoneBase now c q) = q_usable q"
  "q_sumOfPendingVsync (NotifyObserverVipDoneBase now c q) = q_sumOfPendingVsync q"
  by (simp_all add: NotifyObserverVipDoneBase_def)

lemma NotifyObserverVipDone_keep [simp]:
  "same_lists q (NotifyObserverVipDone now c e q)"
  by (simp add: NotifyObserverVipDone_def)

lemma DispatchVsyncTaskNotify_keep [simp]:
  "same_lists q (DispatchVsyncTaskNotify now q)"
  by (simp add: DispatchVsyncTaskNotify_def)

section \<open>Insertion\<close>

lemma MarkBarrierTaskIfNeed_cases:
  "MarkBarrierTaskIfNeed wd op pol e = e \<or> MarkBarrierTaskIfNeed wd op pol e = e\<lparr>ev_isBarrier := True\<rparr>"
  by (simp add: MarkBarrierTaskIfNeed_def Let_def)

lemma MarkBarrierTaskIfNeed_keep [simp]:
  "ev_handleTime (MarkBarrierTaskIfNeed wd op pol e) = ev_handleTime e"
  "ev_isVsync (MarkBarrierTaskIfNeed wd op pol e) = ev_isVsync e"
  "ev_taskCallback (MarkBarrierTaskIfNeed wd op pol e) = ev_taskCallback e"
  by (simp_all add: MarkBarrierTaskIfNeed_def Let_def)

text \<open>The event as it is stored: barrier mark and priority set.\<close>

definition stored_event :: "world \<Rightarrow> vsync_barrier_option \<Rightarrow> vsync_policy \<Rightarrow> priority \<Rightarrow> inner_event \<Rightarrow> inner_event" where
  "stored_event wd op pol prio e = (MarkBarrierTaskIfNeed wd op pol e)\<lparr>ev_priority := prio_int prio\<rparr>"

definition put_event :: "priority \<Rightarrow> inner_event \<Rightarrow> event_insert_type \<Rightarrow> event_queue_base \<Rightarrow> event_queue_base" where
  \<comment> \<open>the specification of \<open>Insert\<close> on the lists alone\<close>
  "put_event prio e it q =
     (case prio of
        IDLE \<Rightarrow> q\<lparr>b_idleEvents := InsertEventsLocked (b_idleEvents q) e it\<rparr>
      | OtherPriority n \<Rightarrow> q
      | _ \<Rightarrow> insert_sub (prio_index prio) e it q)"

lemma put_event_sub: "prio \<in> {VIP, IMMEDIATE, HIGH, LOW} \<Longrightarrow> put_event prio e it q = insert_sub (prio_index prio) e it q"
  by (auto simp: put_event_def)

lemma priority_cases [case_names sub idle other]:
  obtains "prio \<in> {VIP, IMMEDIATE, HIGH, LOW}" "prio_index prio < 4" "prio_int prio = int (prio_index prio)"
  | "prio = IDLE" | n where "prio = OtherPriority n"
  by (cases prio) simp_all

lemma Insert_lists:
  "same_lists (if q_usable q then put_event prio (stored_event wd op (q_vsyncPolicy q) prio e) it q else q)
     (snd (Insert sp wd now c (Some e) prio it op q))"
proof (cases "q_usable q")
  case False
  then show ?thesis by (simp add: Insert_def Let_def)
next
  case True
  then show ?thesis
    by (cases prio) (simp_all add: Insert_def Let_def put_event_def stored_event_def
         insert_sub_def map_sub_def DispatchVsyncTaskNotify_def)
qed

lemma Insert_result:
  "fst (Insert sp wd now c event prio it op q) \<longleftrightarrow> event \<noteq> None \<and> q_usable q"
  by (cases event) (simp_all add: Insert_def Let_def case_prod_unfold)

lemma Insert_None [simp]: "Insert sp wd now c None prio it op q = (False, q)"
  by (simp add: Insert_def)

lemma InsertEventsLocked_all:
  "\<forall>t. P (e\<lparr>ev_handleTime := t\<rparr>) \<Longrightarrow> \<forall>x\<in>set xs. P x \<Longrightarrow> \<forall>x\<in>set (InsertEventsLocked xs e it). P x"
  by (blast dest: set_InsertEventsLocked)

lemma insert_sub_wf:
  assumes "queue_wf q" "i < 4" "ev_priority e = int i"
  shows "queue_wf (insert_sub i e it q)"
proof -
  have "\<forall>x\<in>set (InsertEventsLocked (sq_queue (sub q i)) e it). ev_priority x = int i"
    using assms by (intro InsertEventsLocked_all) (simp_all add: queue_wf_priority)
  then have "sub_wf i (with_queue (InsertEventsLocked (sq_queue (sub q i)) e it) (sub q i))"
    using assms by (simp add: sub_wf_with_queue queue_wf_sub queue_wf_sorted sorted_InsertEventsLocked)
  with assms show ?thesis unfolding insert_sub_def by (intro queue_wf_map_sub) auto
qed

lemma put_event_wf:
  assumes "queue_wf q" "ev_priority e = prio_int prio"
  shows "queue_wf (put_event prio e it q)"
proof (cases prio rule: priority_cases)
  case sub
  with assms show ?thesis by (simp only: put_event_sub insert_sub_wf)
next
  case idle
  then have "\<forall>x\<in>set (InsertEventsLocked (b_idleEvents q) e it). ev_priority x = 4"
    using assms by (intro InsertEventsLocked_all) (simp_all add: queue_wf_idle_priority)
  with assms idle show ?thesis
    by (simp add: put_event_def queue_wf_def sorted_InsertEventsLocked)
next
  case (other n)
  with assms show ?thesis by (simp add: put_event_def)
qed

lemma Insert_wf: "queue_wf q \<Longrightarrow> queue_wf (snd (Insert sp wd now c event prio it op q))"
proof (cases event)
  case (Some e)
  assume "queue_wf q"
  then have "queue_wf (if q_usable q then put_event prio (stored_event wd op (q_vsyncPolicy q) prio e) it q else q)"
    by (simp add: put_event_wf stored_event_def)
  then show ?thesis unfolding Some
    using queue_wf_same [OF Insert_lists] by blast
qed simp

lemma put_event_front:
  assumes "queue_wf q" "front_coherent j q"
  shows "front_coherent j (put_event prio e it q)"
proof (cases prio rule: priority_cases)
  case sub
  with assms show ?thesis
    by (simp only: put_event_sub insert_sub_def front_coherent_map_sub queue_wf_length)
qed (use assms in \<open>simp_all add: put_event_def front_coherent_def\<close>)

lemma Insert_front:
  assumes "queue_wf q" "front_coherent j q"
  shows "front_coherent j (snd (Insert sp wd now c event prio it op q))"
proof (cases event)
  case (Some e)
  have "front_coherent j (if q_usable q then put_event prio (stored_event wd op (q_vsyncPolicy q) prio e) it q else q)"
    using assms by (simp add: put_event_front)
  then show ?thesis unfolding Some
    using front_coherent_same [OF Insert_lists] by blast
qed (use assms in simp)

text \<open>Insertion adds the event, possibly with the earlier handle time of the list's head.\<close>

lemma put_event_content:
  assumes "queue_wf q" "prio \<in> {VIP, IMMEDIATE, HIGH, LOW, IDLE}"
  shows "\<exists>t\<le>ev_handleTime e. content (put_event prio e it q) = add_mset (e\<lparr>ev_handleTime := t\<rparr>) (content q)"
proof (cases prio rule: priority_cases)
  case sub
  let ?i = "prio_index prio"
  let ?es = "sq_queue (sub q ?i)"
  obtain t where t: "t \<le> ev_handleTime e"
    "mset (InsertEventsLocked ?es e it) = add_mset (e\<lparr>ev_handleTime := t\<rparr>) (mset ?es)"
    using mset_InsertEventsLocked [of ?es e it] by auto
  have "content (insert_sub ?i e it q) + mset ?es = content q + mset (InsertEventsLocked ?es e it)"
    using sub(2) queue_wf_length [OF assms(1)]
      content_map_sub [of ?i q "\<lambda>s. with_queue (InsertEventsLocked (sq_queue s) e it) s"]
    by (simp add: insert_sub_def with_queue_def)
  also have "\<dots> = add_mset (e\<lparr>ev_handleTime := t\<rparr>) (content q) + mset ?es" using t(2) by simp
  finally show ?thesis using t(1) sub(1) by (auto simp: put_event_sub)
next
  case idle
  then have "put_event prio e it q = q\<lparr>b_idleEvents := InsertEventsLocked (b_idleEvents q) e it\<rparr>"
    by (simp add: put_event_def)
  with mset_InsertEventsLocked [of "b_idleEvents q" e it] show ?thesis
    by (auto simp: content_sum)
next
  case (other n)
  with assms show ?thesis by simp
qed

section \<open>Removal\<close>

lemma drop_events_wf:
  assumes "queue_wf q"
  shows "queue_wf (drop_events P q)"
proof -
  have "sub_wf i (with_queue (filter (\<lambda>e. \<not> P e) (sq_queue (sub q i))) (sub q i))" if "i < 4" for i
    using queue_wf_sub [OF assms that] queue_wf_sorted [OF assms that] queue_wf_priority [OF assms that]
    by (intro sub_wf_with_queue) (auto simp: sorted_filter)
  with assms show ?thesis
    by (auto simp: queue_wf_def drop_events_def SUB_EVENT_QUEUE_NUM_def sorted_filter)
qed

lemma drop_events_front:
  "length (b_subEventQueues q) = 4 \<Longrightarrow> i < 4 \<Longrightarrow> front_coherent i (drop_events P q)"
  by (simp add: front_coherent_def drop_events_def with_queue_def)

lemma drop_events_queued: "queued (drop_events P q) = filter (\<lambda>e. \<not> P e) (queued q)"
  by (simp add: queued_def drop_events_def with_queue_def filter_concat comp_def)

lemma drop_events_content: "content (drop_events P q) = filter_mset (\<lambda>e. \<not> P e) (content q)"
  by (simp add: content_def drop_events_queued)

lemma Remove_filter_lists:
  "same_lists (if q_usable q then drop_events P q else q) (Remove_filter sp now c P q)"
  by (simp add: Remove_filter_def Let_def)

lemma Remove_filter_wf: "queue_wf q \<Longrightarrow> queue_wf (Remove_filter sp now c P q)"
  using queue_wf_same [OF Remove_filter_lists] drop_events_wf by (metis (full_types))

lemma Remove_filter_front:
  assumes "queue_wf q" "front_coherent i q" "i < 4"
  shows "front_coherent i (Remove_filter sp now c P q)"
proof -
  have "front_coherent i (if q_usable q then drop_events P q else q)"
    using assms by (simp add: drop_events_front queue_wf_length)
  then show ?thesis using front_coherent_same [OF Remove_filter_lists] by blast
qed

lemma Remove_filter_queued:
  "queued (Remove_filter sp now c P q) = (if q_usable q then filter (\<lambda>e. \<not> P e) (queued q) else queued q)"
  using queued_same [OF Remove_filter_lists] drop_events_queued by (metis (full_types))

lemma RemoveAll_wf: "queue_wf q \<Longrightarrow> queue_wf (RemoveAll q)"
  by (auto simp: RemoveAll_def queue_wf_def sub_wf_def SUB_EVENT_QUEUE_NUM_def with_queue_def)

lemma orphan_effect_keep [simp]:
  "same_lists q (orphan_effect wd now e q)"
  by (simp add: orphan_effect_def SetBarrierMode_def HandleVsyncTaskNotify_def)

lemma fold_orphan_keep: "same_lists q (fold (orphan_effect wd now) es q)"
  by (induction es arbitrary: q) simp_all

lemma fold_orphan_count:
  "q_sumOfPendingVsync (fold (orphan_effect wd now) es q) =
     q_sumOfPendingVsync q - of_nat (length (filter (\<lambda>e. owner_expired (wd_alive wd) e \<and> ev_isVsync e) es))"
proof (induction es arbitrary: q)
  case (Cons e es)
  then show ?case by (simp add: orphan_effect_def SetBarrierMode_def HandleVsyncTaskNotify_def)
qed simp

lemma RemoveOrphan_filter_lists:
  "same_lists (if q_usable q then drop_events (owner_expired (wd_alive wd)) q else q)
     (RemoveOrphan_filter sp wd now c q)"
  using fold_orphan_keep by (simp add: RemoveOrphan_filter_def Let_def)

lemma RemoveOrphan_filter_wf: "queue_wf q \<Longrightarrow> queue_wf (RemoveOrphan_filter sp wd now c q)"
  using queue_wf_same [OF RemoveOrphan_filter_lists] drop_events_wf by (metis (full_types))

lemma RemoveOrphan_filter_front:
  assumes "queue_wf q" "front_coherent i q" "i < 4"
  shows "front_coherent i (RemoveOrphan_filter sp wd now c q)"
proof -
  have "front_coherent i (if q_usable q then drop_events (owner_expired (wd_alive wd)) q else q)"
    using assms by (simp add: drop_events_front queue_wf_length)
  then show ?thesis using front_coherent_same [OF RemoveOrphan_filter_lists] by blast
qed

lemma HasInnerEvent_filter_queued:
  "HasInnerEvent_filter P q \<longleftrightarrow> q_usable q \<and> (\<exists>e\<in>set (queued q). P e)"
  by (auto simp: HasInnerEvent_filter_def queued_def list_ex_iff)

lemma IsQueueEmpty_content: "IsQueueEmpty q \<longleftrightarrow> q_usable q \<and> content q = {#}"
  by (auto simp: IsQueueEmpty_def content_def queued_def list_all_iff)

end
