(* ===== verification/Queue_Pick.thy ===== *)
theory Queue_Pick
  imports Queue_Invariant
begin

text \<open>
  Taking the next event: \<open>PickEventLocked\<close>, \<open>GetExpiredEventLocked\<close>, the barrier mode and
  \<open>GetEvent\<close> of \<open>event_queue_base.cpp\<close>. \<open>GetEvent\<close> is a loop that may block; one iteration
  is \<open>GetEvent_iter\<close>, and \<open>GetEvent\<close> runs it over a list of rounds, one for each turn of the
  loop, which say what time it was, what other threads did while the lock was released
  (a list of queue operations) and what the wait returned. The list ends while the caller is
  still waiting: then the result is \<open>None\<close>.
\<close>

section \<open>Definitions\<close>

definition PickFirstVsyncEventLocked :: "event_queue_base \<Rightarrow> (inner_event \<times> event_queue_base) option" where
  "PickFirstVsyncEventLocked q =
     (case pop_first ev_isVsync (sq_queue (sub q (prio_index VIP))) of
        None \<Rightarrow> None
      | Some (e, rest) \<Rightarrow> Some (e, map_sub (prio_index VIP) (\<lambda>s. s\<lparr>sq_queue := rest\<rparr>) q))"

definition check_list :: "bool \<Rightarrow> inner_event list \<Rightarrow> time \<Rightarrow> time \<Rightarrow> bool \<times> time" where
  "check_list isBarrierMode es now nextWakeUpTime =
     (if isBarrierMode then CheckBarrierTaskInListLocked es now nextWakeUpTime
      else CheckEventInListLocked es now nextWakeUpTime)"

text \<open>The \<open>for\<close> loop over the sub queues, from index \<open>i\<close>, with \<open>priorityIndex\<close> as \<open>p\<close>.\<close>

fun pick_scan ::
  "bool \<Rightarrow> time \<Rightarrow> nat list \<Rightarrow> nat \<Rightarrow> time \<Rightarrow> sub_event_queue list \<Rightarrow> nat \<times> time \<times> sub_event_queue list" where
  "pick_scan b now [] p nw subs = (p, nw, subs)"
| "pick_scan b now (i # is) p nw subs =
     (let (due, nw') = check_list b (sq_queue (subs ! i)) now nw
      in if \<not> due then pick_scan b now is p nw' subs
         else if p < SUB_EVENT_QUEUE_NUM \<and>
                 sq_handledEventsCount (subs ! p) < sq_maxHandledEventsCount (subs ! p)
         then (p, nw', subs[p := (subs ! p)\<lparr>sq_handledEventsCount := sq_handledEventsCount (subs ! p) + 1\<rparr>])
         else pick_scan b now is i nw' subs)"

definition reset_counts :: "nat \<Rightarrow> event_queue_base \<Rightarrow> event_queue_base" where
  \<comment> \<open>reset the handled event count of the sub queues in higher priority\<close>
  "reset_counts p q =
     q\<lparr>b_subEventQueues :=
         map (\<lambda>s. s\<lparr>sq_handledEventsCount := 0\<rparr>) (take p (b_subEventQueues q)) @ drop p (b_subEventQueues q)\<rparr>"

definition pop_list :: "bool \<Rightarrow> inner_event list \<Rightarrow> (inner_event \<times> inner_event list) option" where
  "pop_list isBarrierMode es =
     (if isBarrierMode then PopFrontBarrierEventFromListLocked es else PopFrontEventFromListLocked es)"

definition PickEventLocked ::
  "time \<Rightarrow> time \<Rightarrow> event_queue_base \<Rightarrow> inner_event option \<times> time \<times> event_queue_base" where
  "PickEventLocked now nextWakeUpTime q =
     (let isBarrierMode = q_isBarrierMode q;
          (p, nw, subs) = pick_scan isBarrierMode now [0..<SUB_EVENT_QUEUE_NUM] SUB_EVENT_QUEUE_NUM
                            nextWakeUpTime (b_subEventQueues q);
          q1 = q\<lparr>b_subEventQueues := subs\<rparr>
      in case (if p \<ge> prio_index HIGH \<and> q_sumOfPendingVsync q1 \<noteq> 0 \<and> \<not> q_needEpoll q1
               then PickFirstVsyncEventLocked q1 else None) of
           Some (e, q2) \<Rightarrow> (Some e, nw, q2)
         | None \<Rightarrow>
             if p \<ge> SUB_EVENT_QUEUE_NUM then (None, nw, q1)
             else
               let q2 = reset_counts p q1
               in case pop_list isBarrierMode (sq_queue (sub q2 p)) of
                    None \<Rightarrow> (None, nw, q2)
                  | Some (e, rest) \<Rightarrow> (Some e, nw, map_sub p (\<lambda>s. s\<lparr>sq_queue := rest\<rparr>) q2))"

definition GetExpiredEventLocked ::
  "time \<Rightarrow> time \<Rightarrow> event_queue_base \<Rightarrow> inner_event option \<times> time \<times> event_queue_base" where
  \<comment> \<open>returns the event, \<open>nextExpiredTime\<close> and the queue\<close>
  "GetExpiredEventLocked now nextExpiredTime q =
     (let (event, wk, q0) = PickEventLocked now TIME_MAX (q\<lparr>b_wakeUpTime := TIME_MAX\<rparr>);
          q1 = q0\<lparr>b_wakeUpTime := wk\<rparr>
      in case event of
           Some e \<Rightarrow>
             let q2 = map_sub (nat (ev_priority e))
                        (\<lambda>s. s\<lparr>sq_frontEventHandleTime := front_time (sq_queue s)\<rparr>) q1
             in (Some e, nextExpiredTime,
                 q2\<lparr>b_isIdle := False, b_currentRunningEvent := CurrentRunningEvent now e\<rparr>)
         | None \<Rightarrow>
             let q2 = (if \<not> b_isIdle q1 then q1\<lparr>b_idleTimeStamp := now, b_isIdle := True\<rparr> else q1);
                 nothing = (None, if q_sumOfPendingVsync q2 \<noteq> 0 then now else b_wakeUpTime q2,
                            q2\<lparr>b_currentRunningEvent := no_running_event\<rparr>);
                 found = (\<lambda>e rest. (Some e, nextExpiredTime,
                            q2\<lparr>b_idleEvents := rest, b_currentRunningEvent := CurrentRunningEvent now e\<rparr>))
             in case b_idleEvents q2 of
                  [] \<Rightarrow> nothing
                | idleEvent # rest \<Rightarrow>
                    if q_isBarrierMode q2 then
                      (case PopFrontBarrierEventFromListWithTimeLocked (b_idleEvents q2) (b_idleTimeStamp q2) now of
                         Some (e, rest') \<Rightarrow> found e rest'
                       | None \<Rightarrow> nothing)
                    else if ev_sendTime idleEvent \<le> b_idleTimeStamp q2 \<and> ev_handleTime idleEvent \<le> now
                    then found idleEvent rest
                    else nothing)"

definition GetExpiredEvent ::
  "time \<Rightarrow> time \<Rightarrow> event_queue_base \<Rightarrow> inner_event option \<times> time \<times> event_queue_base" where
  "GetExpiredEvent now nextExpiredTime q = GetExpiredEventLocked now nextExpiredTime q"

definition GetVsyncTaskDelayTime :: "system_params \<Rightarrow> 'a event_queue_scheme \<Rightarrow> int" where
  "GetVsyncTaskDelayTime sp q =
     (if q_vsyncPolicy q = VSYNC_FIRST_WITHOUT_DEFAULT_BARRIER
      then q_vsyncRecvTime q + q_vsyncPeriod q
      else q_vsyncRecvTime q + p_vsync_delayms_default_barrier sp * MS)"

definition CheckBarrierMode :: "system_params \<Rightarrow> time \<Rightarrow> 'a event_queue_scheme \<Rightarrow> 'a event_queue_scheme" where
  "CheckBarrierMode sp now q =
     (let q1 = (if q_vsyncFirstForceEnableEndTime q > now
                then q\<lparr>q_vsyncPolicy := VSYNC_FIRST_WITHOUT_DEFAULT_BARRIER, q_isLazyMode := False\<rparr>
                else q\<lparr>q_vsyncPolicy := q_vsyncOriginPolicy q\<rparr>)
      in if \<not> q_isLazyMode q1 \<and> \<not> q_isBarrierMode q1 \<and> q_sumOfPendingVsync q1 \<noteq> 0 then
           (if GetVsyncTaskDelayTime sp q1 < now \<and>
               q_vsyncCompleteTime q1 + p_vsync_interval_ms sp * MS < now
            then SetBarrierMode now True q1 else q1)
         else if q_isBarrierMode q1 \<and> q_needEpoll q1 \<and>
                 q_enterBarrierTime q1 + p_vsync_barrier_timeout sp * MS < now
         then (SetBarrierMode now False q1)\<lparr>q_isLazyMode := True\<rparr>
         else q1)"

subsection \<open>What other threads do to the queue\<close>

datatype queue_op =
    DoInsert time int inner_event priority event_insert_type vsync_barrier_option
  | DoRemove time int "inner_event \<Rightarrow> bool"
  | DoRemoveAll
  | DoRemoveOrphan time int
  | DoPrepare
  | DoFinish
  | DoSetUsable bool
  | DoSetVsyncLazyMode bool
  | DoSetVsyncPolicy vsync_policy
  | DoForceEnable time bool u64
  | DoUpdateVsyncCheckTime time time int
  | DoVsyncHandled time
  | DoVsyncCompletely time
  | DoAddObserver u32 bool
  | DoClearObserver
  | DoNotifyVipDone time int inner_event
  | DoListeners "(int \<times> listener_ref) list" io_waiter

fun apply_op :: "system_params \<Rightarrow> world \<Rightarrow> queue_op \<Rightarrow> event_queue_base \<Rightarrow> event_queue_base" where
  "apply_op sp wd (DoInsert now c e prio it op) q = snd (Insert sp wd now c (Some e) prio it op q)"
| "apply_op sp wd (DoRemove now c P) q = Remove_filter sp now c P q"
| "apply_op sp wd DoRemoveAll q = RemoveAll q"
| "apply_op sp wd (DoRemoveOrphan now c) q = RemoveOrphan_filter sp wd now c q"
| "apply_op sp wd DoPrepare q = Prepare q"
| "apply_op sp wd DoFinish q = Finish q"
| "apply_op sp wd (DoSetUsable u) q = SetUsable u q"
| "apply_op sp wd (DoSetVsyncLazyMode l) q = SetVsyncLazyMode l q"
| "apply_op sp wd (DoSetVsyncPolicy p) q = SetVsyncPolicy p q"
| "apply_op sp wd (DoForceEnable now en t) q = SetVsyncFirstForceEnableTime now en t q"
| "apply_op sp wd (DoUpdateVsyncCheckTime now l p) q = UpdateVsyncCheckTime now l p q"
| "apply_op sp wd (DoVsyncHandled now) q = SetBarrierMode now False (HandleVsyncTaskNotify q)"
| "apply_op sp wd (DoVsyncCompletely now) q = HandleVsyncTaskCompletely now q"
| "apply_op sp wd (DoAddObserver st cb) q = AddObserver st cb q"
| "apply_op sp wd DoClearObserver q = ClearObserver q"
| "apply_op sp wd (DoNotifyVipDone now c e) q = NotifyObserverVipDone now c e q"
| "apply_op sp wd (DoListeners ls w) q = q\<lparr>q_listeners := ls, q_ioWaiter := w\<rparr>"

definition apply_ops :: "system_params \<Rightarrow> world \<Rightarrow> queue_op list \<Rightarrow> event_queue_base \<Rightarrow> event_queue_base" where
  "apply_ops sp wd ops q = fold (apply_op sp wd) ops q"

subsection \<open>\<open>GetEvent\<close>\<close>

record round =
  r_now :: time
  r_consumerBefore :: int
  r_consumerAfter :: int
  r_others :: "queue_op list"
  r_outcome :: wait_outcome

datatype iter_result =
    Finished
  | Got inner_event
  | Again
  | Waited time "fd_callback list"

definition GetEvent_iter ::
  "system_params \<Rightarrow> world \<Rightarrow> round \<Rightarrow> event_queue_base \<Rightarrow> iter_result \<times> event_queue_base" where
  "GetEvent_iter sp wd r q =
     (if q_finished q then (Finished, q)
      else
        let q1 = CheckBarrierMode sp (r_now r) q;
            (event, next, q2) = GetExpiredEventLocked (r_now r) TIME_MAX q1
        in case event of
             Some e \<Rightarrow>
               (Got e,
                if \<not> q_isLazyMode q2 \<and> q_sumOfPendingVsync q2 = 0 \<and>
                   (q_needEpoll q2 \<or> q_vsyncCheckTime q2 < r_now r)
                then snd (TryEpollFd wd (apply_ops sp wd (r_others r)) (r_outcome r) q2) else q2)
           | None \<Rightarrow>
               if q_sumOfPendingVsync q2 \<noteq> 0 then
                 (case PickFirstVsyncEventLocked q2 of
                    Some (e, q3) \<Rightarrow> (Got e, q3)
                  | None \<Rightarrow> (Again, SetBarrierMode (r_now r) False (q2\<lparr>q_sumOfPendingVsync := 0\<rparr>)))
               else
                 let (next1, q3) = TryExecuteObserverCallback (r_now r) (r_consumerBefore r) next
                                     STAGE_BEFORE_WAITING q2;
                     (cbs, q4) = WaitUntilLocked wd (apply_ops sp wd (r_others r)) (r_outcome r) False q3;
                     q5 = q4\<lparr>q_needEpoll := False\<rparr>;
                     (next2, q6) = TryExecuteObserverCallback (r_now r) (r_consumerAfter r) next1
                                     STAGE_AFTER_WAITING q5
                 in (Waited next1 cbs, q6))"

fun GetEvent ::
  "system_params \<Rightarrow> world \<Rightarrow> round list \<Rightarrow> event_queue_base \<Rightarrow> (inner_event option \<times> event_queue_base) option" where
  "GetEvent sp wd [] q = None"
| "GetEvent sp wd (r # rs) q =
     (case GetEvent_iter sp wd r q of
        (Finished, q') \<Rightarrow> Some (None, q')
      | (Got e, q') \<Rightarrow> Some (Some e, q')
      | (Again, q') \<Rightarrow> GetEvent sp wd rs q'
      | (Waited t cbs, q') \<Rightarrow> GetEvent sp wd rs q')"

section \<open>Keeping the invariant\<close>

lemma CheckBarrierMode_keep [simp]: "same_lists q (CheckBarrierMode sp now q)"
  "q_sumOfPendingVsync (CheckBarrierMode sp now q) = q_sumOfPendingVsync q"
  "q_finished (CheckBarrierMode sp now q) = q_finished q"
  by (simp_all add: CheckBarrierMode_def SetBarrierMode_def Let_def)

fun list_op :: "queue_op \<Rightarrow> bool" where
  \<comment> \<open>the operations that change a list of events\<close>
  "list_op (DoInsert now c e prio it op) = True"
| "list_op (DoRemove now c P) = True"
| "list_op DoRemoveAll = True"
| "list_op (DoRemoveOrphan now c) = True"
| "list_op _ = False"

lemma apply_op_same: "\<not> list_op op \<Longrightarrow> same_lists q (apply_op sp wd op q)"
  by (cases op)
    (simp_all add: Prepare_def PrepareBase_def Finish_def FinishBase_def
      SetUsable_def SetVsyncLazyMode_def SetVsyncPolicy_def SetVsyncFirstForceEnableTime_def
      UpdateVsyncCheckTime_def SetBarrierMode_def HandleVsyncTaskNotify_def
      HandleVsyncTaskCompletely_def AddObserver_def ClearObserver_def Let_def)

lemma apply_op_wf:
  assumes "queue_wf q"
  shows "queue_wf (apply_op sp wd op q)"
proof (cases "list_op op")
  case True
  with assms show ?thesis
    by (cases op) (simp_all add: Insert_wf Remove_filter_wf RemoveAll_wf RemoveOrphan_filter_wf)
next
  case False
  from queue_wf_same [OF apply_op_same [OF False]] assms show ?thesis by blast
qed

lemma apply_op_front:
  assumes "queue_wf q" "front_coherent i q" "i < 4"
  shows "front_coherent i (apply_op sp wd op q)"
proof (cases "list_op op")
  case True
  have "front_coherent i (RemoveAll q)"
    using assms by (simp add: RemoveAll_def front_coherent_def with_queue_def queue_wf_length)
  with assms True show ?thesis
    by (cases op) (simp_all add: Insert_front Remove_filter_front RemoveOrphan_filter_front)
next
  case False
  from front_coherent_same [OF apply_op_same [OF False]] assms show ?thesis by blast
qed

lemma apply_ops_wf: "queue_wf q \<Longrightarrow> queue_wf (apply_ops sp wd ops q)"
  unfolding apply_ops_def by (induction ops arbitrary: q) (simp_all add: apply_op_wf)

lemma apply_ops_front:
  "queue_wf q \<Longrightarrow> front_coherent i q \<Longrightarrow> i < 4 \<Longrightarrow> front_coherent i (apply_ops sp wd ops q)"
  unfolding apply_ops_def by (induction ops arbitrary: q) (simp_all add: apply_op_wf apply_op_front)

text \<open>Waiting changes the lists only by what other threads do.\<close>

lemma WaitUntilLocked_keep:
  assumes "\<And>q'. same_lists q q' \<Longrightarrow> Q (f q')" "\<And>a b. same_lists a b \<Longrightarrow> Q a \<Longrightarrow> Q b"
    and "Q q"
  shows "Q (snd (WaitUntilLocked wd f wo v q))"
proof (cases "io_enter (q_ioWaiter q)")
  case None
  have "Q (reset_io_waiter q)" by (rule assms(2) [OF _ assms(3)]) (simp add: reset_io_waiter_def)
  with None show ?thesis by (simp add: WaitUntilLocked_def)
next
  case (Some h)
  let ?q1 = "f (q\<lparr>q_ioWaiter := h\<rparr>)"
  have q1: "Q ?q1" by (rule assms(1)) simp
  have "same_lists ?q1 (snd (WaitUntilLocked wd f wo v q))"
    using Some by (simp add: WaitUntilLocked_def Let_def case_prod_unfold reset_io_waiter_def)
  with q1 show ?thesis using assms(2) by blast
qed

lemma TryEpollFd_keep:
  assumes "\<And>q'. same_lists q q' \<Longrightarrow> Q (f q')" "\<And>a b. same_lists a b \<Longrightarrow> Q a \<Longrightarrow> Q b"
    and "Q q"
  shows "Q (snd (TryEpollFd wd f wo q))"
proof -
  let ?q1 = "snd (WaitUntilLocked wd f wo (\<not> q_needEpoll q) q)"
  have "Q ?q1" using assms by (rule WaitUntilLocked_keep)
  moreover have "same_lists ?q1 (snd (TryEpollFd wd f wo q))"
    by (simp add: TryEpollFd_def Let_def case_prod_unfold)
  ultimately show ?thesis using assms(2) by blast
qed

lemma WaitUntilLocked_wf:
  assumes "queue_wf q"
  shows "queue_wf (snd (WaitUntilLocked wd (apply_ops sp wd ops) wo v q))"
  by (rule WaitUntilLocked_keep [of q queue_wf, OF apply_ops_wf [OF queue_wf_sameD [OF _ assms]]
        queue_wf_sameD assms])

lemma TryEpollFd_wf:
  assumes "queue_wf q"
  shows "queue_wf (snd (TryEpollFd wd (apply_ops sp wd ops) wo q))"
  by (rule TryEpollFd_keep [of q queue_wf, OF apply_ops_wf [OF queue_wf_sameD [OF _ assms]]
        queue_wf_sameD assms])

end
