(* ===== verification/Queue_Schedule.thy ===== *)
theory Queue_Schedule
  imports Queue_Pick
begin

text \<open>
  What \<open>PickEventLocked\<close> and \<open>GetEvent\<close> guarantee: which sub queue the scan chooses, that an
  event handed out was due, that nothing is lost or duplicated, that a null result means that
  nothing was due and gives the right wake-up time, and that the counters of consecutive
  events bound how often a due event of a lower priority is passed over.
\<close>

section \<open>The scan over the sub queues\<close>

lemma check_list_le: "snd (check_list b es now nw) \<le> nw"
  by (simp add: check_list_def CheckEvent_le CheckBarrier_le)

definition eligible :: "bool \<Rightarrow> inner_event \<Rightarrow> bool" where
  \<comment> \<open>in barrier mode only barrier events are handed out\<close>
  [eh_defs]: "eligible b e \<longleftrightarrow> (b \<longrightarrow> ev_isBarrier e)"

lemma check_list_hit:
  assumes "fst (check_list b es now nw)"
  shows "\<exists>e rest. pop_list b es = Some (e, rest) \<and> ev_handleTime e \<le> now \<and> eligible b e \<and>
    mset es = add_mset e (mset rest) \<and> (time_sorted es \<longrightarrow> time_sorted rest) \<and>
    (\<not> b \<longrightarrow> es = e # rest)"
proof (cases b)
  case True
  with assms obtain e rest where "pop_first ev_isBarrier es = Some (e, rest)" "ev_handleTime e \<le> now"
    using PopFrontBarrier_hit [of es now nw]
    by (auto simp: check_list_def PopFrontBarrierEventFromListLocked_def)
  with True show ?thesis
    by (auto simp: pop_list_def PopFrontBarrierEventFromListLocked_def eligible_def dest: pop_facts)
next
  case False
  obtain nw' where "CheckEventInListLocked es now nw = (True, nw')"
    using assms False by (cases "CheckEventInListLocked es now nw") (simp add: check_list_def)
  from CheckEvent_hit [OF this] False show ?thesis
    by (cases es) (auto simp: pop_list_def PopFrontEventFromListLocked_def eligible_def)
qed

lemma check_list_miss:
  assumes "\<not> fst (check_list b es now nw)" "time_sorted es" "b \<or> now < nw"
    and "e \<in> set es" "eligible b e"
  shows "now < ev_handleTime e"
proof (cases b)
  case True
  with assms show ?thesis by (auto simp: check_list_def eligible_def dest: CheckBarrier_miss)
next
  case False
  from assms(4) have "es \<noteq> []" by (rule nonempty_member)
  with False assms(1,3) have "now < ev_handleTime (hd es)"
    by (auto simp: check_list_def CheckEventInListLocked_def split: list.splits if_splits)
  with sorted_hd_le [OF assms(2,4)] show ?thesis by linarith
qed

lemma check_plain_min:
  "\<not> fst (check_list False es now nw) \<Longrightarrow> now < nw \<Longrightarrow>
     snd (check_list False es now nw) = (if es = [] then nw else min nw (ev_handleTime (hd es))) \<and>
     now < snd (check_list False es now nw)"
  by (auto simp: check_list_def CheckEventInListLocked_def split: list.splits if_splits)

definition inc_count :: "nat \<Rightarrow> sub_event_queue list \<Rightarrow> sub_event_queue list" where
  "inc_count p subs =
     subs[p := (subs ! p)\<lparr>sq_handledEventsCount := sq_handledEventsCount (subs ! p) + 1\<rparr>]"

lemma pick_scan_subs:
  assumes "pick_scan b now is p nw subs = (p', nw', subs')"
  shows "subs' = subs \<or>
    (p' < 4 \<and> sq_handledEventsCount (subs ! p') < sq_maxHandledEventsCount (subs ! p') \<and>
     subs' = inc_count p' subs)"
  using assms
proof (induction "is" arbitrary: p nw)
  case (Cons i "is")
  then show ?case
    by (auto simp: Let_def case_prod_unfold SUB_EVENT_QUEUE_NUM_def inc_count_def split: if_splits)
qed simp

lemma pick_scan_chosen:
  assumes "pick_scan b now is p nw subs = (p', nw', subs')"
  shows "p' = p \<or> (p' \<in> set is \<and> (\<exists>nw0. fst (check_list b (sq_queue (subs ! p')) now nw0)))"
  using assms
proof (induction "is" arbitrary: p nw)
  case (Cons i "is")
  let ?c = "check_list b (sq_queue (subs ! i)) now nw"
  consider "\<not> fst ?c"
    | "fst ?c" "p < 4" "sq_handledEventsCount (subs ! p) < sq_maxHandledEventsCount (subs ! p)"
    | "fst ?c" "\<not> (p < 4 \<and> sq_handledEventsCount (subs ! p) < sq_maxHandledEventsCount (subs ! p))"
    by blast
  then show ?case
  proof cases
    case 1
    with Cons.prems have "pick_scan b now is p (snd ?c) subs = (p', nw', subs')"
      by (simp add: Let_def case_prod_unfold)
    then show ?thesis using Cons.IH by fastforce
  next
    case 2
    with Cons.prems show ?thesis by (simp add: Let_def case_prod_unfold SUB_EVENT_QUEUE_NUM_def)
  next
    case 3
    with Cons.prems have "pick_scan b now is i (snd ?c) subs = (p', nw', subs')"
      by (auto simp: Let_def case_prod_unfold SUB_EVENT_QUEUE_NUM_def)
    with Cons.IH 3(1) show ?thesis by fastforce
  qed
qed simp

lemma pick_scan_none:
  assumes "pick_scan b now is 4 nw subs = (4, nw', subs')"
    and "\<forall>i\<in>set is. i < 4 \<and> time_sorted (sq_queue (subs ! i))" "b \<or> now < nw"
  shows "subs' = subs \<and> nw' \<le> nw \<and>
    (\<forall>i\<in>set is. \<forall>e\<in>set (sq_queue (subs ! i)). eligible b e \<longrightarrow> now < ev_handleTime e) \<and>
    (\<not> b \<longrightarrow> now < nw' \<and>
       (\<forall>i\<in>set is. \<forall>e\<in>set (sq_queue (subs ! i)). nw' \<le> ev_handleTime e) \<and>
       (nw' = nw \<or> (\<exists>i\<in>set is. \<exists>e\<in>set (sq_queue (subs ! i)). nw' = ev_handleTime e)))"
  using assms
proof (induction "is" arbitrary: nw)
  case (Cons i "is")
  let ?es = "sq_queue (subs ! i)"
  let ?c = "check_list b ?es now nw"
  have notdue: "\<not> fst ?c"
  proof
    assume "fst ?c"
    with Cons.prems(1) have "pick_scan b now is i (snd ?c) subs = (4, nw', subs')"
      by (simp add: Let_def case_prod_unfold SUB_EVENT_QUEUE_NUM_def)
    from pick_scan_chosen [OF this] Cons.prems(2) show False by auto
  qed
  with Cons.prems(1) have rest: "pick_scan b now is 4 (snd ?c) subs = (4, nw', subs')"
    by (simp add: Let_def case_prod_unfold)
  have plain: "\<not> b \<Longrightarrow> now < snd ?c \<and> snd ?c = (if ?es = [] then nw else min nw (ev_handleTime (hd ?es)))"
    using check_plain_min [of ?es now nw] notdue Cons.prems(3) by (cases b) auto
  then have bn: "b \<or> now < snd ?c" by blast
  have IH: "subs' = subs \<and> nw' \<le> snd ?c \<and>
    (\<forall>i\<in>set is. \<forall>e\<in>set (sq_queue (subs ! i)). eligible b e \<longrightarrow> now < ev_handleTime e) \<and>
    (\<not> b \<longrightarrow> now < nw' \<and>
       (\<forall>i\<in>set is. \<forall>e\<in>set (sq_queue (subs ! i)). nw' \<le> ev_handleTime e) \<and>
       (nw' = snd ?c \<or> (\<exists>i\<in>set is. \<exists>e\<in>set (sq_queue (subs ! i)). nw' = ev_handleTime e)))"
    using Cons.prems(2) by (intro Cons.IH [OF rest _ bn]) auto
  have here: "\<forall>e\<in>set ?es. eligible b e \<longrightarrow> now < ev_handleTime e"
    using check_list_miss [OF notdue _ Cons.prems(3)] Cons.prems(2) by auto
  have hd: "\<forall>e\<in>set ?es. ev_handleTime (hd ?es) \<le> ev_handleTime e"
    using Cons.prems(2) by (auto intro: sorted_hd_le)
  have le: "snd ?c \<le> nw" by (rule check_list_le)
  have min: "\<forall>e\<in>set ?es. nw' \<le> ev_handleTime e" if "\<not> b"
    using plain [OF that] IH hd by (fastforce split: if_splits)
  have src: "snd ?c = nw \<or> (\<exists>e\<in>set ?es. snd ?c = ev_handleTime e)" if "\<not> b"
    using plain [OF that] by (cases ?es) (auto simp: min_def)
  show ?case using IH here le min src by (auto; metis)
qed auto

section \<open>One pick\<close>

text \<open>The four outcomes of \<open>PickEventLocked\<close>, from the result of the scan.\<close>

definition scan :: "time \<Rightarrow> time \<Rightarrow> event_queue_base \<Rightarrow> nat \<times> time \<times> sub_event_queue list" where
  "scan now nw q = pick_scan (q_isBarrierMode q) now [0..<4] 4 nw (b_subEventQueues q)"

definition takes_vsync :: "nat \<Rightarrow> event_queue_base \<Rightarrow> bool" where
  "takes_vsync p q \<longleftrightarrow> 2 \<le> p \<and> q_sumOfPendingVsync q \<noteq> 0 \<and> \<not> q_needEpoll q"

lemma PickEventLocked_scan:
  assumes "scan now nw q = (p, nw', subs)"
  shows "PickEventLocked now nw q =
    (case (if takes_vsync p q then PickFirstVsyncEventLocked (q\<lparr>b_subEventQueues := subs\<rparr>) else None) of
       Some (e, q2) \<Rightarrow> (Some e, nw', q2)
     | None \<Rightarrow>
         if p \<ge> 4 then (None, nw', q\<lparr>b_subEventQueues := subs\<rparr>)
         else let q2 = reset_counts p (q\<lparr>b_subEventQueues := subs\<rparr>)
              in case pop_list (q_isBarrierMode q) (sq_queue (sub q2 p)) of
                   None \<Rightarrow> (None, nw', q2)
                 | Some (e, rest) \<Rightarrow> (Some e, nw', map_sub p (\<lambda>s. s\<lparr>sq_queue := rest\<rparr>) q2))"
  using assms unfolding scan_def PickEventLocked_def takes_vsync_def SUB_EVENT_QUEUE_NUM_def prio_values
    Let_def by simp

lemma inc_count_keep [simp]:
  "length (inc_count p subs) = length subs"
  "i < length subs \<Longrightarrow> sq_queue (inc_count p subs ! i) = sq_queue (subs ! i)"
  "i < length subs \<Longrightarrow> sq_maxHandledEventsCount (inc_count p subs ! i) = sq_maxHandledEventsCount (subs ! i)"
  "i < length subs \<Longrightarrow> sq_frontEventHandleTime (inc_count p subs ! i) = sq_frontEventHandleTime (subs ! i)"
  by (cases "p = i"; simp add: inc_count_def)+

lemma scan_facts:
  assumes "scan now nw q = (p, nw', subs)" "queue_wf q"
  shows "length subs = 4" "i < 4 \<Longrightarrow> sq_queue (subs ! i) = sq_queue (sub q i)"
    "i < 4 \<Longrightarrow> sub_wf i (subs ! i)"
    "i < 4 \<Longrightarrow> sq_frontEventHandleTime (subs ! i) = sq_frontEventHandleTime (sub q i)"
    "p = 4 \<or> (p < 4 \<and> (\<exists>nw0. fst (check_list (q_isBarrierMode q) (sq_queue (sub q p)) now nw0)))"
proof -
  have len: "length (b_subEventQueues q) = 4" using assms(2) by (rule queue_wf_length)
  from pick_scan_subs [OF assms(1) [unfolded scan_def]]
  have subs: "subs = b_subEventQueues q \<or>
    (p < 4 \<and> sq_handledEventsCount (sub q p) < sq_maxHandledEventsCount (sub q p) \<and>
     subs = inc_count p (b_subEventQueues q))" .
  show "length subs = 4" using subs len by auto
  show "i < 4 \<Longrightarrow> sq_queue (subs ! i) = sq_queue (sub q i)" using subs len by auto
  show "i < 4 \<Longrightarrow> sq_frontEventHandleTime (subs ! i) = sq_frontEventHandleTime (sub q i)"
    using subs len by auto
  show "sub_wf i (subs ! i)" if "i < 4"
    using subs queue_wf_sub [OF assms(2) that] len that
    by (cases "p = i") (auto simp: sub_wf_def inc_count_def)
  show "p = 4 \<or> (p < 4 \<and> (\<exists>nw0. fst (check_list (q_isBarrierMode q) (sq_queue (sub q p)) now nw0)))"
    using pick_scan_chosen [OF assms(1) [unfolded scan_def]] by auto
qed


lemma reset_counts_sub:
  assumes "length (b_subEventQueues q) = 4" "p \<le> 4" "i < 4"
  shows "sub (reset_counts p q) i = (if i < p then (sub q i)\<lparr>sq_handledEventsCount := 0\<rparr> else sub q i)"
  using assms by (simp add: reset_counts_def nth_append)

lemma queue_wf_subs:
  assumes "queue_wf q" "length subs = 4" "\<And>i. i < 4 \<Longrightarrow> sub_wf i (subs ! i)"
  shows "queue_wf (q\<lparr>b_subEventQueues := subs\<rparr>)"
  using assms by (simp add: queue_wf_def SUB_EVENT_QUEUE_NUM_def)

lemma content_subs:
  assumes "length subs = length (b_subEventQueues q)"
    and "\<And>i. i < length subs \<Longrightarrow> sq_queue (subs ! i) = sq_queue (sub q i)"
  shows "content (q\<lparr>b_subEventQueues := subs\<rparr>) = content q"
proof -
  have "map sq_queue subs = map sq_queue (b_subEventQueues q)"
    using assms by (simp add: list_eq_iff_nth_eq)
  then show ?thesis by (simp add: content_def queued_def)
qed

lemma reset_counts_wf:
  assumes "queue_wf q" "p \<le> 4"
  shows "queue_wf (reset_counts p q)" "content (reset_counts p q) = content q"
proof -
  let ?subs = "map (\<lambda>s. s\<lparr>sq_handledEventsCount := 0\<rparr>) (take p (b_subEventQueues q)) @
    drop p (b_subEventQueues q)"
  have len: "length (b_subEventQueues q) = 4" using assms(1) by (rule queue_wf_length)
  have i: "?subs ! i = (if i < p then (sub q i)\<lparr>sq_handledEventsCount := 0\<rparr> else sub q i)" if "i < 4" for i
    using len that assms(2) by (simp add: nth_append)
  have "sub_wf i (?subs ! i)" if "i < 4" for i
    using queue_wf_sub [OF assms(1) that] unfolding i [OF that] by (simp add: sub_wf_def)
  with len show "queue_wf (reset_counts p q)" unfolding reset_counts_def
    by (intro queue_wf_subs assms) auto
  show "content (reset_counts p q) = content q" unfolding reset_counts_def
    using len i assms(2) by (intro content_subs) auto
qed

lemma pop_sub:
  assumes "queue_wf q" "i < 4" "mset (sq_queue (sub q i)) = add_mset e (mset rest)" "time_sorted rest"
  shows "queue_wf (map_sub i (\<lambda>s. s\<lparr>sq_queue := rest\<rparr>) q)"
    and "content q = add_mset e (content (map_sub i (\<lambda>s. s\<lparr>sq_queue := rest\<rparr>) q))"
    and "ev_priority e = int i"
proof -
  have set: "set (sq_queue (sub q i)) = insert e (set rest)"
    using assms(3) by (metis set_mset_add_mset_insert set_mset_mset)
  show "ev_priority e = int i" using queue_wf_priority [OF assms(1,2)] set by blast
  have "sub_wf i ((sub q i)\<lparr>sq_queue := rest\<rparr>)"
    using queue_wf_sub [OF assms(1,2)] set assms(4) by (simp add: sub_wf_def)
  then show "queue_wf (map_sub i (\<lambda>s. s\<lparr>sq_queue := rest\<rparr>) q)"
    using assms by (intro queue_wf_map_sub) auto
  have "content (map_sub i (\<lambda>s. s\<lparr>sq_queue := rest\<rparr>) q) + add_mset e (mset rest) = content q + mset rest"
    using content_map_sub [of i q "\<lambda>s. s\<lparr>sq_queue := rest\<rparr>"] assms(2,3) queue_wf_length [OF assms(1)]
    by simp
  then show "content q = add_mset e (content (map_sub i (\<lambda>s. s\<lparr>sq_queue := rest\<rparr>) q))"
    by (simp add: union_commute)
qed

lemma PickFirstVsync_Some:
  assumes "PickFirstVsyncEventLocked q = Some (e, q')" "queue_wf q"
  shows "queue_wf q'" "content q = add_mset e (content q')" "ev_isVsync e" "ev_priority e = 0"
    "\<exists>rest. q' = map_sub 0 (\<lambda>s. s\<lparr>sq_queue := rest\<rparr>) q"
proof -
  obtain rest where r: "pop_first ev_isVsync (sq_queue (sub q 0)) = Some (e, rest)"
    "q' = map_sub 0 (\<lambda>s. s\<lparr>sq_queue := rest\<rparr>) q"
    using assms(1) by (auto simp: PickFirstVsyncEventLocked_def split: option.splits)
  have m: "mset (sq_queue (sub q 0)) = add_mset e (mset rest)" "time_sorted rest"
    using r(1) queue_wf_sorted [OF assms(2), of 0] by (auto dest: pop_facts)
  show "queue_wf q'" "content q = add_mset e (content q')" "ev_priority e = 0"
    using pop_sub [OF assms(2) _ m] r(2) by auto
  show "ev_isVsync e" using r(1) by (rule pop_facts)
  show "\<exists>rest. q' = map_sub 0 (\<lambda>s. s\<lparr>sq_queue := rest\<rparr>) q" using r(2) by blast
qed

lemma PickFirstVsync_None:
  "PickFirstVsyncEventLocked q = None \<longleftrightarrow> (\<forall>e\<in>set (sq_queue (sub q 0)). \<not> ev_isVsync e)"
  using pop_first_None [of ev_isVsync "sq_queue (sub q 0)"]
  by (auto simp: PickFirstVsyncEventLocked_def split: option.splits)

definition lists_only :: "event_queue_base \<Rightarrow> event_queue_base \<Rightarrow> bool" where
  \<comment> \<open>nothing but the sub queues differs\<close>
  "lists_only q q' \<longleftrightarrow> (\<exists>subs. q' = q\<lparr>b_subEventQueues := subs\<rparr>)"

lemma lists_only_keep:
  assumes "lists_only q q'"
  shows "q_sumOfPendingVsync q' = q_sumOfPendingVsync q" "q_isBarrierMode q' = q_isBarrierMode q"
    "b_idleEvents q' = b_idleEvents q" "b_isIdle q' = b_isIdle q" "q_needEpoll q' = q_needEpoll q"
    "b_idleTimeStamp q' = b_idleTimeStamp q" "q_finished q' = q_finished q"
    "q_isLazyMode q' = q_isLazyMode q" "q_vsyncCheckTime q' = q_vsyncCheckTime q"
  using assms by (auto simp: lists_only_def)

lemma lists_only_map_sub: "lists_only q q' \<Longrightarrow> lists_only q (map_sub i f q')"
  by (auto simp: lists_only_def map_sub_def)

lemma PickEventLocked_cases [consumes 2, case_names vsync event none]:
  assumes "PickEventLocked now nw q = (ev, nw', q')" "queue_wf q"
  obtains
    p subs e where "scan now nw q = (p, nw', subs)" "takes_vsync p q" "ev = Some e" "ev_isVsync e"
      "ev_priority e = 0" "queue_wf q'" "content q = add_mset e (content q')"
      "lists_only q q'"
      "\<And>i. 0 < i \<Longrightarrow> sub q' i = subs ! i"
      "\<And>i. i < 4 \<Longrightarrow> sq_handledEventsCount (sub q' i) = sq_handledEventsCount (subs ! i)"
  | p subs e rest where "scan now nw q = (p, nw', subs)" "p < 4" "ev = Some e"
      "ev_handleTime e \<le> now" "eligible (q_isBarrierMode q) e" "ev_priority e = int p"
      "pop_list (q_isBarrierMode q) (sq_queue (sub q p)) = Some (e, rest)"
      "queue_wf q'" "content q = add_mset e (content q')" "lists_only q q'"
      "\<And>i. i < 4 \<Longrightarrow> sub q' i =
         (if i < p then (subs ! i)\<lparr>sq_handledEventsCount := 0\<rparr>
          else if i = p then (subs ! i)\<lparr>sq_queue := rest\<rparr> else subs ! i)"
  | "scan now nw q = (4, nw', b_subEventQueues q)" "ev = None" "q' = q"
      "takes_vsync 4 q \<Longrightarrow> \<forall>e\<in>set (sq_queue (sub q 0)). \<not> ev_isVsync e"
proof -
  obtain p nw1 subs where sc: "scan now nw q = (p, nw1, subs)" by (metis prod_cases3)
  note sf = scan_facts [OF sc assms(2)]
  let ?q1 = "q\<lparr>b_subEventQueues := subs\<rparr>"
  have wf1: "queue_wf ?q1" using sf(1,3) assms(2) by (intro queue_wf_subs)
  have c1: "content ?q1 = content q" using sf(1,2) queue_wf_length [OF assms(2)] by (intro content_subs) auto
  have lo1: "lists_only q ?q1" by (auto simp: lists_only_def)
  note pick = PickEventLocked_scan [OF sc]
  let ?v = "if takes_vsync p q then PickFirstVsyncEventLocked ?q1 else None"
  show ?thesis
  proof (cases ?v)
    case (Some r)
    obtain e q2 where r: "r = (e, q2)" by fastforce
    with Some have tv: "takes_vsync p q" "PickFirstVsyncEventLocked ?q1 = Some (e, q2)"
      by (auto split: if_splits)
    from pick Some r assms(1) have eqs: "ev = Some e" "nw' = nw1" "q' = q2" by auto
    from PickFirstVsync_Some [OF tv(2) wf1] obtain rest where
      v: "queue_wf q2" "content ?q1 = add_mset e (content q2)" "ev_isVsync e" "ev_priority e = 0"
      and q2: "q2 = map_sub 0 (\<lambda>s. s\<lparr>sq_queue := rest\<rparr>) ?q1" by blast
    show ?thesis
    proof (rule that(1))
      show "lists_only q q'" unfolding eqs q2 using lo1 by (rule lists_only_map_sub)
      show "sub q' i = subs ! i" if "0 < i" for i unfolding eqs q2 using that by (simp add: map_sub_def)
      show "sq_handledEventsCount (sub q' i) = sq_handledEventsCount (subs ! i)" if "i < 4" for i
        unfolding eqs q2 using that sf(1) by (cases "i = 0") (simp_all add: map_sub_def)
    qed (use sc tv eqs v c1 in auto)
  next
    case None
    show ?thesis
    proof (cases "p < 4")
      case True
      let ?q2 = "reset_counts p ?q1"
      from sf(5) True obtain nw0 where "fst (check_list (q_isBarrierMode q) (sq_queue (sub q p)) now nw0)" by auto
      from check_list_hit [OF this] obtain e rest where
        h: "pop_list (q_isBarrierMode q) (sq_queue (sub q p)) = Some (e, rest)" "ev_handleTime e \<le> now"
          "eligible (q_isBarrierMode q) e" "mset (sq_queue (sub q p)) = add_mset e (mset rest)"
          "time_sorted rest"
        using queue_wf_sorted [OF assms(2) True] by blast
      have len: "length subs = 4" by (rule sf(1))
      have wf2: "queue_wf ?q2" "content ?q2 = content q"
        using reset_counts_wf [OF wf1, of p] True c1 by auto
      have sub2: "sub ?q2 i = (if i < p then (subs ! i)\<lparr>sq_handledEventsCount := 0\<rparr> else subs ! i)"
        if "i < 4" for i using reset_counts_sub [of ?q1 p i] that True len by simp
      have qp: "sq_queue (sub ?q2 p) = sq_queue (sub q p)" using sub2 [OF True] sf(2) [OF True] by simp
      have eqs: "ev = Some e" "nw' = nw1" "q' = map_sub p (\<lambda>s. s\<lparr>sq_queue := rest\<rparr>) ?q2"
        using pick None True assms(1) qp h(1) by (auto simp: Let_def)
      have m: "mset (sq_queue (sub ?q2 p)) = add_mset e (mset rest)" using h(4) qp by simp
      note ps = pop_sub [OF wf2(1) True m h(5)]
      have len2: "length (b_subEventQueues ?q2) = 4" using wf2(1) by (rule queue_wf_length)
      show ?thesis
      proof (rule that(2))
        show "lists_only q q'" unfolding eqs
          by (rule lists_only_map_sub) (auto simp: lists_only_def reset_counts_def)
        show "sub q' i = (if i < p then (subs ! i)\<lparr>sq_handledEventsCount := 0\<rparr>
            else if i = p then (subs ! i)\<lparr>sq_queue := rest\<rparr> else subs ! i)" if "i < 4" for i
          unfolding eqs using sub2 [OF that] sub2 [OF True] that len2 True by (simp add: sub_map_sub)
      qed (use sc True eqs h ps wf2 in auto)
    next
      case False
      with sf(5) have p: "p = 4" by simp
      from sc p have ps: "pick_scan (q_isBarrierMode q) now [0..<4] 4 nw (b_subEventQueues q) = (4, nw1, subs)"
        by (simp add: scan_def)
      from pick_scan_subs [OF this] have subs: "subs = b_subEventQueues q" by simp
      with pick None p assms(1) have eqs: "ev = None" "nw' = nw1" "q' = q" by auto
      show ?thesis
      proof (rule that(3))
        show "\<forall>e\<in>set (sq_queue (sub q 0)). \<not> ev_isVsync e" if "takes_vsync 4 q"
          using None that p subs PickFirstVsync_None [of q] by simp
      qed (use sc p subs eqs in auto)
    qed
  qed
qed


section \<open>\<open>GetExpiredEventLocked\<close>\<close>

definition pending :: "event_queue_base \<Rightarrow> inner_event set" where
  \<comment> \<open>the events of the four sub queues\<close>
  "pending q = (\<Union>i<4. set (sq_queue (sub q i)))"

lemma pendingI: "i < 4 \<Longrightarrow> e \<in> set (sq_queue (sub q i)) \<Longrightarrow> e \<in> pending q"
  unfolding pending_def by blast

lemma pending_same: "same_lists q q' \<Longrightarrow> pending q' = pending q"
  by (simp add: pending_def)

definition with_idle_mark :: "time \<Rightarrow> event_queue_base \<Rightarrow> event_queue_base" where
  \<comment> \<open>enter idle mode and make a time stamp\<close>
  "with_idle_mark now q = (if \<not> b_isIdle q then q\<lparr>b_idleTimeStamp := now, b_isIdle := True\<rparr> else q)"

definition take_idle :: "time \<Rightarrow> event_queue_base \<Rightarrow> (inner_event \<times> inner_event list) option" where
  \<comment> \<open>the idle event that is handed out when no sub queue has one\<close>
  "take_idle now q =
     (if q_isBarrierMode q
      then PopFrontBarrierEventFromListWithTimeLocked (b_idleEvents q) (b_idleTimeStamp q) now
      else case b_idleEvents q of
             [] \<Rightarrow> None
           | e # rest \<Rightarrow> if ev_sendTime e \<le> b_idleTimeStamp q \<and> ev_handleTime e \<le> now
                         then Some (e, rest) else None)"

lemma take_idle_Some:
  assumes "take_idle now q = Some (e, rest)" "queue_wf q"
  shows "ev_handleTime e \<le> now" "ev_sendTime e \<le> b_idleTimeStamp q" "eligible (q_isBarrierMode q) e"
    "mset (b_idleEvents q) = add_mset e (mset rest)" "ev_priority e = 4"
    "queue_wf (q\<lparr>b_idleEvents := rest\<rparr>)" "content q = add_mset e (content (q\<lparr>b_idleEvents := rest\<rparr>))"
proof -
  have h: "ev_handleTime e \<le> now \<and> ev_sendTime e \<le> b_idleTimeStamp q \<and> eligible (q_isBarrierMode q) e \<and>
      mset (b_idleEvents q) = add_mset e (mset rest) \<and> time_sorted rest"
  proof (cases "q_isBarrierMode q")
    case True
    then have "pop_first (\<lambda>p. ev_isBarrier p \<and> ev_sendTime p \<le> b_idleTimeStamp q \<and> ev_handleTime p \<le> now)
        (b_idleEvents q) = Some (e, rest)"
      using assms(1) by (simp add: take_idle_def PopFrontBarrierEventFromListWithTimeLocked_def)
    with queue_wf_idle_sorted [OF assms(2)] True show ?thesis
      by (auto simp: eligible_def dest: pop_first_sat pop_first_mset pop_first_sorted)
  next
    case False
    with assms(1) queue_wf_idle_sorted [OF assms(2)] show ?thesis
      by (auto simp: take_idle_def eligible_def split: list.splits if_splits)
  qed
  then show "ev_handleTime e \<le> now" "ev_sendTime e \<le> b_idleTimeStamp q" "eligible (q_isBarrierMode q) e"
    "mset (b_idleEvents q) = add_mset e (mset rest)" by auto
  have set: "set (b_idleEvents q) = insert e (set rest)"
    using h by (metis set_mset_add_mset_insert set_mset_mset)
  show "ev_priority e = 4" using queue_wf_idle_priority [OF assms(2)] set by blast
  show "queue_wf (q\<lparr>b_idleEvents := rest\<rparr>)" using assms(2) h set by (simp add: queue_wf_def)
  show "content q = add_mset e (content (q\<lparr>b_idleEvents := rest\<rparr>))" using h by (simp add: content_sum)
qed

definition refresh_front :: "nat \<Rightarrow> event_queue_base \<Rightarrow> event_queue_base" where
  "refresh_front i q = map_sub i (\<lambda>s. s\<lparr>sq_frontEventHandleTime := front_time (sq_queue s)\<rparr>) q"

lemma GetExpiredEventLocked_unfold:
  assumes "PickEventLocked now TIME_MAX (q\<lparr>b_wakeUpTime := TIME_MAX\<rparr>) = (ev, wk, q0)"
  shows "GetExpiredEventLocked now nx q =
    (case ev of
       Some e \<Rightarrow> (Some e, nx, (refresh_front (nat (ev_priority e)) (q0\<lparr>b_wakeUpTime := wk\<rparr>))
                    \<lparr>b_isIdle := False, b_currentRunningEvent := CurrentRunningEvent now e\<rparr>)
     | None \<Rightarrow>
         let q2 = with_idle_mark now (q0\<lparr>b_wakeUpTime := wk\<rparr>)
         in case take_idle now q2 of
              Some (e, rest) \<Rightarrow> (Some e, nx,
                q2\<lparr>b_idleEvents := rest, b_currentRunningEvent := CurrentRunningEvent now e\<rparr>)
            | None \<Rightarrow> (None, if q_sumOfPendingVsync q2 \<noteq> 0 then now else b_wakeUpTime q2,
                       q2\<lparr>b_currentRunningEvent := no_running_event\<rparr>))"
proof (cases ev)
  case (Some e)
  with assms show ?thesis by (simp add: GetExpiredEventLocked_def refresh_front_def)
next
  case None
  have idle: "PopFrontBarrierEventFromListWithTimeLocked [] t now = None" for t
    by (simp add: PopFrontBarrierEventFromListWithTimeLocked_def)
  show ?thesis
    using assms None unfolding GetExpiredEventLocked_def Let_def with_idle_mark_def take_idle_def
    by (cases "b_idleEvents q0") (simp_all add: idle split: option.split)
qed

lemma refresh_front_facts:
  assumes "queue_wf q" "i < 4"
  shows "queue_wf (refresh_front i q)" "content (refresh_front i q) = content q"
    "front_coherent i (refresh_front i q)"
    "j \<noteq> i \<Longrightarrow> front_coherent j (refresh_front i q) \<longleftrightarrow> front_coherent j q"
    "sq_queue (sub (refresh_front i q) j) = sq_queue (sub q j)"
    "sq_handledEventsCount (sub (refresh_front i q) j) = sq_handledEventsCount (sub q j)"
    "b_idleEvents (refresh_front i q) = b_idleEvents q"
proof -
  have len: "i < length (b_subEventQueues q)" using assms by (simp add: queue_wf_length)
  show "queue_wf (refresh_front i q)" unfolding refresh_front_def
    using assms queue_wf_sub [OF assms] by (intro queue_wf_map_sub) (auto simp: sub_wf_def)
  show q: "sq_queue (sub (refresh_front i q) j) = sq_queue (sub q j)" for j
    using len by (simp add: refresh_front_def sub_map_sub)
  show "sq_handledEventsCount (sub (refresh_front i q) j) = sq_handledEventsCount (sub q j)"
    using len by (simp add: refresh_front_def sub_map_sub)
  show "content (refresh_front i q) = content q"
    using content_map_sub [OF len, of "\<lambda>s. s\<lparr>sq_frontEventHandleTime := front_time (sq_queue s)\<rparr>"]
    by (simp add: refresh_front_def)
  show "front_coherent i (refresh_front i q)"
    using len by (simp add: front_coherent_def refresh_front_def sub_map_sub)
  show "j \<noteq> i \<Longrightarrow> front_coherent j (refresh_front i q) \<longleftrightarrow> front_coherent j q"
    using len by (simp add: front_coherent_def refresh_front_def sub_map_sub)
  show "b_idleEvents (refresh_front i q) = b_idleEvents q" by (simp add: refresh_front_def)
qed

lemma same_wf_content:
  "same_lists q q' \<Longrightarrow> queue_wf q' = queue_wf q \<and> content q' = content q"
  by (simp add: queue_wf_def content_sum)

lemma with_idle_mark_keep [simp]:
  "same_lists q (with_idle_mark now q)" "q_isBarrierMode (with_idle_mark now q) = q_isBarrierMode q"
  "q_sumOfPendingVsync (with_idle_mark now q) = q_sumOfPendingVsync q"
  "q_finished (with_idle_mark now q) = q_finished q"
  "b_wakeUpTime (with_idle_mark now q) = b_wakeUpTime q"
  by (simp_all add: with_idle_mark_def)

text \<open>
  The three ways \<open>GetExpiredEventLocked\<close> ends. An event comes from a sub queue (it is due,
  or it is a pending vsync event), or from the idle list when the scan found nothing.
\<close>

lemma GetExpired_cases [consumes 2, case_names sub idle none]:
  assumes "GetExpiredEventLocked now nx q = (r, t, q')" "queue_wf q"
  obtains
    e q0 wk where "PickEventLocked now TIME_MAX (q\<lparr>b_wakeUpTime := TIME_MAX\<rparr>) = (Some e, wk, q0)"
      "r = Some e" "t = nx" "nat (ev_priority e) < 4"
      "q' = (refresh_front (nat (ev_priority e)) (q0\<lparr>b_wakeUpTime := wk\<rparr>))
              \<lparr>b_isIdle := False, b_currentRunningEvent := CurrentRunningEvent now e\<rparr>"
  | e rest wk q2 where "scan now TIME_MAX (q\<lparr>b_wakeUpTime := TIME_MAX\<rparr>) = (4, wk, b_subEventQueues q)"
      "q2 = with_idle_mark now (q\<lparr>b_wakeUpTime := wk\<rparr>)" "take_idle now q2 = Some (e, rest)"
      "r = Some e" "t = nx"
      "q' = q2\<lparr>b_idleEvents := rest, b_currentRunningEvent := CurrentRunningEvent now e\<rparr>"
  | wk q2 where "scan now TIME_MAX (q\<lparr>b_wakeUpTime := TIME_MAX\<rparr>) = (4, wk, b_subEventQueues q)"
      "q2 = with_idle_mark now (q\<lparr>b_wakeUpTime := wk\<rparr>)" "take_idle now q2 = None" "r = None"
      "t = (if q_sumOfPendingVsync q \<noteq> 0 then now else wk)"
      "q' = q2\<lparr>b_currentRunningEvent := no_running_event\<rparr>"
      "takes_vsync 4 q \<Longrightarrow> \<forall>e\<in>set (sq_queue (sub q 0)). \<not> ev_isVsync e"
proof -
  let ?qw = "q\<lparr>b_wakeUpTime := TIME_MAX\<rparr>"
  have wfw: "queue_wf ?qw" using assms(2) by (simp add: queue_wf_def)
  obtain ev wk q0 where pick: "PickEventLocked now TIME_MAX ?qw = (ev, wk, q0)" by (metis prod_cases3)
  note u = GetExpiredEventLocked_unfold [OF pick, of nx]
  show ?thesis
  proof (cases ev)
    case (Some e)
    from pick wfw have "nat (ev_priority e) < 4"
      using Some by (cases rule: PickEventLocked_cases) auto
    with Some pick u assms(1) show ?thesis by (intro that(1) [of e wk q0]) auto
  next
    case None
    from pick wfw have sc: "scan now TIME_MAX ?qw = (4, wk, b_subEventQueues q)" "q0 = ?qw"
      "takes_vsync 4 ?qw \<Longrightarrow> \<forall>e\<in>set (sq_queue (sub q 0)). \<not> ev_isVsync e"
      using None by (cases rule: PickEventLocked_cases; auto)+
    let ?q2 = "with_idle_mark now (q\<lparr>b_wakeUpTime := wk\<rparr>)"
    have u: "GetExpiredEventLocked now nx q =
      (case take_idle now ?q2 of
         Some (e, rest) \<Rightarrow> (Some e, nx,
           ?q2\<lparr>b_idleEvents := rest, b_currentRunningEvent := CurrentRunningEvent now e\<rparr>)
       | None \<Rightarrow> (None, if q_sumOfPendingVsync q \<noteq> 0 then now else wk,
                  ?q2\<lparr>b_currentRunningEvent := no_running_event\<rparr>))"
      unfolding u using None sc(2) by (simp add: Let_def split: option.split)
    show ?thesis
    proof (cases "take_idle now ?q2")
      case None
      have tv: "takes_vsync 4 q \<Longrightarrow> takes_vsync 4 ?qw" by (simp add: takes_vsync_def)
      show ?thesis
        by (rule that(3) [of wk ?q2]) (use None u sc assms(1) tv in auto)
    next
      case (Some er)
      obtain e rest where "er = (e, rest)" by fastforce
      with Some u sc assms(1) show ?thesis by (intro that(2) [of wk ?q2 e rest]) auto
    qed
  qed
qed


definition handed_out_ok :: "time \<Rightarrow> event_queue_base \<Rightarrow> inner_event \<Rightarrow> bool" where
  \<comment> \<open>why an event may be handed out at time \<open>now\<close>\<close>
  "handed_out_ok now q e \<longleftrightarrow>
     (ev_handleTime e \<le> now \<and> eligible (q_isBarrierMode q) e) \<or>
     (ev_isVsync e \<and> ev_priority e = 0 \<and> q_sumOfPendingVsync q \<noteq> 0)"

definition expired_post :: "event_queue_base \<Rightarrow> inner_event \<Rightarrow> event_queue_base \<Rightarrow> bool" where
  "expired_post q e q' \<longleftrightarrow>
     queue_wf q' \<and> content q = add_mset e (content q') \<and>
     (\<forall>i<4. front_coherent i q \<longrightarrow> front_coherent i q') \<and>
     q_sumOfPendingVsync q' = q_sumOfPendingVsync q \<and> q_isBarrierMode q' = q_isBarrierMode q \<and>
     q_needEpoll q' = q_needEpoll q \<and> q_finished q' = q_finished q"

lemma scan_wake: "scan now t (q\<lparr>b_wakeUpTime := w\<rparr>) = scan now t q"
  by (simp add: scan_def)

lemma Pick_front:
  assumes "PickEventLocked now nw q = (Some e, nw', q')" "queue_wf q" "front_coherent i q" "i < 4"
    "i \<noteq> nat (ev_priority e)"
  shows "front_coherent i q'"
  using assms(1,2)
proof (cases rule: PickEventLocked_cases)
  case (vsync p subs e')
  have "i \<noteq> 0" using vsync(3,5) assms(5) by simp
  then have "sub q' i = subs ! i" by (intro vsync(9)) simp
  with scan_facts [OF vsync(1) assms(2)] assms(3,4) show ?thesis by (simp add: front_coherent_def)
next
  case (event p subs e' rest)
  have "i \<noteq> p" using event(3,6) assms(5) by simp
  with event(11) [OF assms(4)] have "sub q' i = (if i < p then (subs ! i)\<lparr>sq_handledEventsCount := 0\<rparr> else subs ! i)"
    by simp
  with scan_facts [OF event(1) assms(2)] assms(3,4) show ?thesis by (simp add: front_coherent_def)
next
  case none
  then show ?thesis by simp
qed

lemma Pick_Some:
  assumes "PickEventLocked now nw q = (Some e, nw', q')" "queue_wf q"
  shows "handed_out_ok now q e \<and> queue_wf q' \<and> content q = add_mset e (content q') \<and> lists_only q q'"
  using assms
proof (cases rule: PickEventLocked_cases)
  case (vsync p subs e')
  then show ?thesis by (simp add: handed_out_ok_def takes_vsync_def)
next
  case (event p subs e' rest)
  then show ?thesis by (simp add: handed_out_ok_def)
qed simp

lemma GetExpired_Some:
  assumes "GetExpiredEventLocked now nx q = (Some e, t, q')" "queue_wf q"
  shows "handed_out_ok now q e \<and> expired_post q e q' \<and> t = nx"
  using assms
proof (cases rule: GetExpired_cases)
  case (sub e' q0 wk)
  let ?qw = "q\<lparr>b_wakeUpTime := TIME_MAX\<rparr>"
  let ?n = "nat (ev_priority e)"
  let ?q1 = "q0\<lparr>b_wakeUpTime := wk\<rparr>"
  have e: "e' = e" using sub(2) by simp
  have wfw: "queue_wf ?qw" and cw: "content ?qw = content q" and fw: "front_coherent i ?qw = front_coherent i q" for i
    using same_wf_content [of ?qw q] assms(2) by (simp_all add: front_coherent_def)
  from Pick_Some [OF sub(1) wfw] e have p: "handed_out_ok now ?qw e" "queue_wf q0"
    "content q = add_mset e (content q0)" "lists_only ?qw q0" using cw by auto
  have wf1: "queue_wf ?q1" and c1: "content ?q1 = content q0" and f1: "front_coherent i ?q1 = front_coherent i q0" for i
    using same_wf_content [of ?q1 q0] p(2) by (simp_all add: front_coherent_def)
  have n: "?n < 4" using sub(4) e by simp
  let ?q2 = "refresh_front ?n ?q1"
  note rf = refresh_front_facts [OF wf1 n]
  have q': "q' = ?q2\<lparr>b_isIdle := False, b_currentRunningEvent := CurrentRunningEvent now e\<rparr>"
    using sub(5) e by simp
  have s: "same_lists ?q2 q'" by (simp add: q')
  have "front_coherent i q'" if "i < 4" "front_coherent i q" for i
  proof (cases "i = ?n")
    case True
    with rf(3) front_coherent_same [OF s] show ?thesis by simp
  next
    case False
    with Pick_front [OF sub(1) wfw] that e fw f1 rf(4) front_coherent_same [OF s] show ?thesis by simp
  qed
  moreover have "queue_wf q'" "content q' = content q0"
    using same_wf_content [OF s] rf(1,2) c1 by simp_all
  moreover have "q_sumOfPendingVsync q' = q_sumOfPendingVsync q" "q_isBarrierMode q' = q_isBarrierMode q"
    "q_needEpoll q' = q_needEpoll q" "q_finished q' = q_finished q"
    using lists_only_keep [OF p(4)] by (simp_all add: q' refresh_front_def map_sub_def)
  ultimately show ?thesis
    using p sub(3) by (simp add: expired_post_def handed_out_ok_def)
next
  case (idle e' rest wk q2)
  have e: "e' = e" using idle(4) by simp
  have s: "same_lists q q2" and b: "q_isBarrierMode q2 = q_isBarrierMode q" "q_sumOfPendingVsync q2 = q_sumOfPendingVsync q"
    "q_finished q2 = q_finished q" "q_needEpoll q2 = q_needEpoll q"
    unfolding idle(2) by (simp_all add: with_idle_mark_def)
  have wf2: "queue_wf q2" and c2: "content q2 = content q" using same_wf_content [OF s] assms(2) by simp_all
  note ti = take_idle_Some [OF idle(3) wf2]
  let ?q3 = "q2\<lparr>b_idleEvents := rest\<rparr>"
  have s3: "same_lists ?q3 q'" by (simp add: idle(6))
  have "queue_wf q'" "content q' = content ?q3" using same_wf_content [OF s3] ti(6) by simp_all
  moreover have "front_coherent i q' = front_coherent i q" for i
    using s by (simp add: front_coherent_def idle(6))
  ultimately show ?thesis
    using ti e idle(5,6) b c2 by (simp add: expired_post_def handed_out_ok_def)
qed simp

lemma GetExpired_None_keep:
  assumes "GetExpiredEventLocked now nx q = (None, t, q')" "queue_wf q"
  shows "same_lists q q' \<and> q_sumOfPendingVsync q' = q_sumOfPendingVsync q \<and>
    (\<forall>i. front_coherent i q' = front_coherent i q) \<and> q_observer q' = q_observer q \<and>
    q_ioWaiter q' = q_ioWaiter q \<and> q_finished q' = q_finished q \<and> q_isBarrierMode q' = q_isBarrierMode q"
  using assms
proof (cases rule: GetExpired_cases)
  case (none wk q2)
  then show ?thesis by (simp add: with_idle_mark_def front_coherent_def)
qed auto

text \<open>A null result: nothing is lost, nothing is due, and the wake-up time is the earliest one.\<close>

lemma GetExpired_None:
  assumes "GetExpiredEventLocked now nx q = (None, t, q')" "queue_wf q" "now < TIME_MAX"
  shows "same_lists q q'" "q_sumOfPendingVsync q' = q_sumOfPendingVsync q"
    "e \<in> pending q \<Longrightarrow> eligible (q_isBarrierMode q) e \<Longrightarrow> now < ev_handleTime e"
    "q_sumOfPendingVsync q = 0 \<Longrightarrow> \<not> q_isBarrierMode q \<Longrightarrow>
       now < t \<and> (\<forall>e\<in>pending q. t \<le> ev_handleTime e) \<and>
       (t = TIME_MAX \<or> (\<exists>e\<in>pending q. t = ev_handleTime e)) \<and> b_wakeUpTime q' = t"
    "q_sumOfPendingVsync q \<noteq> 0 \<Longrightarrow> t = now"
    "b_isIdle q'" "q_finished q' = q_finished q" "q_isBarrierMode q' = q_isBarrierMode q"
    "q_ioWaiter q' = q_ioWaiter q"
proof -
  have "same_lists q q' \<and> q_sumOfPendingVsync q' = q_sumOfPendingVsync q \<and>
    (\<forall>e\<in>pending q. eligible (q_isBarrierMode q) e \<longrightarrow> now < ev_handleTime e) \<and>
    (q_sumOfPendingVsync q = 0 \<longrightarrow> \<not> q_isBarrierMode q \<longrightarrow>
       now < t \<and> (\<forall>e\<in>pending q. t \<le> ev_handleTime e) \<and>
       (t = TIME_MAX \<or> (\<exists>e\<in>pending q. t = ev_handleTime e)) \<and> b_wakeUpTime q' = t) \<and>
    (q_sumOfPendingVsync q \<noteq> 0 \<longrightarrow> t = now) \<and> b_isIdle q' \<and> q_finished q' = q_finished q \<and>
    q_isBarrierMode q' = q_isBarrierMode q \<and> q_ioWaiter q' = q_ioWaiter q"
    using assms(1,2)
  proof (cases rule: GetExpired_cases)
    case (none wk q2)
    have "pick_scan (q_isBarrierMode q) now [0..<4] 4 TIME_MAX (b_subEventQueues q) =
        (4, wk, b_subEventQueues q)"
      using none(1) unfolding scan_wake by (simp add: scan_def)
    from pick_scan_none [OF this] queue_wf_sorted [OF assms(2)] assms(3)
    have f: "(\<forall>i<4. \<forall>e\<in>set (sq_queue (sub q i)). eligible (q_isBarrierMode q) e \<longrightarrow> now < ev_handleTime e) \<and>
      (\<not> q_isBarrierMode q \<longrightarrow> now < wk \<and> (\<forall>i<4. \<forall>e\<in>set (sq_queue (sub q i)). wk \<le> ev_handleTime e) \<and>
         (wk = TIME_MAX \<or> (\<exists>i<4. \<exists>e\<in>set (sq_queue (sub q i)). wk = ev_handleTime e)))"
      by auto
    have q': "same_lists q q'" "q_sumOfPendingVsync q' = q_sumOfPendingVsync q" "b_wakeUpTime q' = wk"
      "b_isIdle q'" "q_finished q' = q_finished q" "q_isBarrierMode q' = q_isBarrierMode q"
      "q_ioWaiter q' = q_ioWaiter q"
      unfolding none(6) none(2) by (simp_all add: with_idle_mark_def)
    show ?thesis using f none(5) q' unfolding pending_def by auto
  qed auto
  then show "same_lists q q'" "q_sumOfPendingVsync q' = q_sumOfPendingVsync q"
    "e \<in> pending q \<Longrightarrow> eligible (q_isBarrierMode q) e \<Longrightarrow> now < ev_handleTime e"
    "q_sumOfPendingVsync q = 0 \<Longrightarrow> \<not> q_isBarrierMode q \<Longrightarrow>
       now < t \<and> (\<forall>e\<in>pending q. t \<le> ev_handleTime e) \<and>
       (t = TIME_MAX \<or> (\<exists>e\<in>pending q. t = ev_handleTime e)) \<and> b_wakeUpTime q' = t"
    "q_sumOfPendingVsync q \<noteq> 0 \<Longrightarrow> t = now"
    "b_isIdle q'" "q_finished q' = q_finished q" "q_isBarrierMode q' = q_isBarrierMode q"
    "q_ioWaiter q' = q_ioWaiter q" by blast+
qed

section \<open>When nothing is due\<close>

text \<open>
  A null result, exactly: the next wake-up time is the earliest handle time of the sub queues in either mode,
  and the conditions under which nothing is handed out are those of the three stages of the function.
\<close>

definition earliest :: "event_queue_base \<Rightarrow> time" where
  "earliest q = Min (insert TIME_MAX (ev_handleTime ` pending q))"

definition vsync_due :: "event_queue_base \<Rightarrow> bool" where
  \<comment> \<open>a pending vsync event is taken before its time, as nothing of the priorities VIP and IMMEDIATE is due\<close>
  "vsync_due q \<longleftrightarrow> q_sumOfPendingVsync q \<noteq> 0 \<and> \<not> q_needEpoll q \<and> (\<exists>e\<in>set (sq_queue (sub q 0)). ev_isVsync e)"

definition idle_due :: "time \<Rightarrow> event_queue_base \<Rightarrow> bool" where
  \<comment> \<open>the first idle event, in barrier mode any barrier event of the idle list, has reached its time and was sent
     before the queue became idle\<close>
  "idle_due now q \<longleftrightarrow>
     (\<exists>e\<in>set (if q_isBarrierMode q then filter ev_isBarrier (b_idleEvents q) else take 1 (b_idleEvents q)).
        ev_handleTime e \<le> now \<and> ev_sendTime e \<le> (if b_isIdle q then b_idleTimeStamp q else now))"

definition nothing_due :: "time \<Rightarrow> event_queue_base \<Rightarrow> bool" where
  "nothing_due now q \<longleftrightarrow>
     (\<forall>e\<in>pending q. eligible (q_isBarrierMode q) e \<longrightarrow> now < ev_handleTime e) \<and> \<not> vsync_due q \<and> \<not> idle_due now q"

lemma finite_pending [simp]: "finite (pending q)"
  by (simp add: pending_def)

lemma earliest_le: "earliest q \<le> TIME_MAX" "e \<in> pending q \<Longrightarrow> earliest q \<le> ev_handleTime e"
  by (simp_all add: earliest_def)

lemma earliest_cases: "earliest q = TIME_MAX \<or> (\<exists>e\<in>pending q. earliest q = ev_handleTime e)"
proof -
  have "earliest q \<in> insert TIME_MAX (ev_handleTime ` pending q)" unfolding earliest_def by (rule Min_in) simp_all
  then show ?thesis by (elim insertE imageE) blast+
qed

lemma earliest_eqI:
  assumes "t \<le> TIME_MAX" "\<And>e. e \<in> pending q \<Longrightarrow> t \<le> ev_handleTime e"
    and "t = TIME_MAX \<or> (\<exists>e\<in>pending q. t = ev_handleTime e)"
  shows "earliest q = t"
  unfolding earliest_def using assms by (intro Min_eqI) auto

lemma earliest_same: "same_lists q q' \<Longrightarrow> earliest q' = earliest q"
  using pending_same [of q q'] by (simp add: earliest_def)

lemma CheckBarrier_min:
  "time_sorted es \<Longrightarrow> snd (CheckBarrierTaskInListLocked es now nw) =
     (if es = [] then nw else min nw (ev_handleTime (hd es)))"
proof (induction es now nw rule: CheckBarrierTaskInListLocked.induct)
  case (2 e events now nw)
  then show ?case by (cases events) (auto simp: Let_def min_def)
qed simp

lemma check_list_min:
  assumes "time_sorted es"
  shows "snd (check_list b es now nw) = (if es = [] then nw else min nw (ev_handleTime (hd es)))"
  using CheckBarrier_min [OF assms]
  by (auto simp: check_list_def CheckEventInListLocked_def min_def split: list.splits)

lemma pick_scan_wake:
  assumes "pick_scan b now is 4 nw subs = (4, nw', subs')"
    and "\<forall>i\<in>set is. i < 4 \<and> time_sorted (sq_queue (subs ! i))"
  shows "nw' \<le> nw \<and> (\<forall>i\<in>set is. \<forall>e\<in>set (sq_queue (subs ! i)). nw' \<le> ev_handleTime e) \<and>
    (nw' = nw \<or> (\<exists>i\<in>set is. \<exists>e\<in>set (sq_queue (subs ! i)). nw' = ev_handleTime e))"
  using assms
proof (induction "is" arbitrary: nw)
  case (Cons i "is")
  let ?es = "sq_queue (subs ! i)"
  let ?c = "check_list b ?es now nw"
  have "\<not> fst ?c"
  proof
    assume "fst ?c"
    with Cons.prems(1) have "pick_scan b now is i (snd ?c) subs = (4, nw', subs')"
      by (simp add: Let_def case_prod_unfold SUB_EVENT_QUEUE_NUM_def)
    from pick_scan_chosen [OF this] Cons.prems(2) show False by auto
  qed
  with Cons.prems(1) have rest: "pick_scan b now is 4 (snd ?c) subs = (4, nw', subs')"
    by (simp add: Let_def case_prod_unfold)
  have IH: "nw' \<le> snd ?c \<and> (\<forall>i\<in>set is. \<forall>e\<in>set (sq_queue (subs ! i)). nw' \<le> ev_handleTime e) \<and>
    (nw' = snd ?c \<or> (\<exists>i\<in>set is. \<exists>e\<in>set (sq_queue (subs ! i)). nw' = ev_handleTime e))"
    using Cons.prems(2) by (intro Cons.IH [OF rest]) auto
  have sorted: "time_sorted ?es" using Cons.prems(2) by simp
  note m = check_list_min [OF sorted, of b now nw]
  have hd: "\<forall>e\<in>set ?es. ev_handleTime (hd ?es) \<le> ev_handleTime e" using sorted by (auto intro: sorted_hd_le)
  have "\<forall>e\<in>set ?es. nw' \<le> ev_handleTime e" using IH m hd by (fastforce split: if_splits)
  moreover have "snd ?c = nw \<or> (\<exists>e\<in>set ?es. snd ?c = ev_handleTime e)"
    using m by (cases ?es) (auto simp: min_def)
  moreover have "snd ?c \<le> nw" using m by simp
  ultimately show ?case using IH by (auto; metis)
qed auto

lemma scan_earliest:
  assumes "scan now TIME_MAX q = (4, wk, subs)" "queue_wf q"
  shows "wk = earliest q"
proof -
  have p: "pick_scan (q_isBarrierMode q) now [0..<4] 4 TIME_MAX (b_subEventQueues q) = (4, wk, subs)"
    using assms(1) by (simp add: scan_def)
  from pick_scan_wake [OF this] queue_wf_sorted [OF assms(2)]
  have "wk \<le> TIME_MAX \<and> (\<forall>i<4. \<forall>e\<in>set (sq_queue (sub q i)). wk \<le> ev_handleTime e) \<and>
    (wk = TIME_MAX \<or> (\<exists>i<4. \<exists>e\<in>set (sq_queue (sub q i)). wk = ev_handleTime e))" by auto
  then have "earliest q = wk" by (intro earliest_eqI) (auto simp: pending_def)
  then show ?thesis ..
qed

lemma take_idle_due:
  assumes "q2 = with_idle_mark now (q\<lparr>b_wakeUpTime := wk\<rparr>)"
  shows "take_idle now q2 = None \<longleftrightarrow> \<not> idle_due now q"
proof -
  have f: "b_idleEvents q2 = b_idleEvents q" "q_isBarrierMode q2 = q_isBarrierMode q"
    "b_idleTimeStamp q2 = (if b_isIdle q then b_idleTimeStamp q else now)"
    by (simp_all add: assms with_idle_mark_def)
  show ?thesis
  proof (cases "q_isBarrierMode q")
    case True
    then show ?thesis unfolding take_idle_def idle_due_def PopFrontBarrierEventFromListWithTimeLocked_def f
      by (auto simp: pop_first_None)
  next
    case False
    then show ?thesis unfolding take_idle_def idle_due_def f by (cases "b_idleEvents q") auto
  qed
qed

lemma queued_by_priority:
  assumes "e \<in># content q" "queue_wf q" "ev_priority e = int i" "i < 4"
  shows "e \<in> set (sq_queue (sub q i))"
proof -
  have "e \<in> set (queued q)" using assms(1) by (simp add: content_def)
  then have "e \<in> set (concat (map sq_queue (b_subEventQueues q)))"
    using queue_wf_idle_priority [OF assms(2), of e] assms(3,4) by (auto simp: queued_def)
  then obtain j where j: "j < length (b_subEventQueues q)" "e \<in> set (sq_queue (sub q j))"
    by (metis (no_types, lifting) UN_E in_set_conv_nth set_concat image_set list.set_map imageE)
  then have "ev_priority e = int j" using queue_wf_priority [OF assms(2)] queue_wf_length [OF assms(2)] by simp
  with assms(3) j(2) show ?thesis by simp
qed

lemma GetExpired_null_iff:
  assumes "GetExpiredEventLocked now nx q = (r, t, q')" "queue_wf q" "now < TIME_MAX"
  shows "r = None \<longleftrightarrow> nothing_due now q"
  using assms(1,2)
proof (cases rule: GetExpired_cases)
  case (sub e q0 wk)
  let ?qw = "q\<lparr>b_wakeUpTime := TIME_MAX\<rparr>"
  have wfw: "queue_wf ?qw" using same_wf_content [of ?qw q] assms(2) by simp
  from sub(1) wfw have "\<not> nothing_due now q"
  proof (cases rule: PickEventLocked_cases)
    case (vsync p subs e')
    then have "e \<in># content q" "e' = e" using same_wf_content [of ?qw q] by auto
    with queued_by_priority [OF _ assms(2), of e 0] vsync(5) have "e \<in> set (sq_queue (sub q 0))" by simp
    then have "vsync_due q" using vsync(2,4) \<open>e' = e\<close> by (auto simp: vsync_due_def takes_vsync_def)
    then show ?thesis by (simp add: nothing_due_def)
  next
    case (event p subs e' rest)
    have "e \<in> set (sq_queue (sub q p))"
      using event(3,7) by (auto simp: pop_list_def PopFrontBarrierEventFromListLocked_def PopFrontEventFromListLocked_def
          dest: pop_first_in split: if_splits list.splits)
    then show ?thesis using event(2-5) pendingI [of p e q] by (fastforce simp: nothing_due_def)
  qed simp
  with sub(2) show ?thesis by simp
next
  case (idle e rest wk q2)
  then have "idle_due now q" using take_idle_due [OF idle(2)] by simp
  with idle(4) show ?thesis by (simp add: nothing_due_def)
next
  case (none wk q2)
  have "\<not> vsync_due q" using none(7) by (auto simp: vsync_due_def takes_vsync_def)
  moreover have "\<not> idle_due now q" using take_idle_due [OF none(2)] none(3) by simp
  ultimately have "nothing_due now q"
    using GetExpired_None(3) [OF assms(1) [unfolded none(4)] assms(2,3)] by (simp add: nothing_due_def)
  with none(4) show ?thesis by simp
qed

lemma GetExpired_null_state:
  assumes "GetExpiredEventLocked now nx q = (None, t, q')" "queue_wf q"
  shows "t = (if q_sumOfPendingVsync q \<noteq> 0 then now else earliest q)" "b_wakeUpTime q' = earliest q"
    "b_isIdle q'" "b_idleTimeStamp q' = (if b_isIdle q then b_idleTimeStamp q else now)" "q_needEpoll q' = q_needEpoll q"
proof -
  have "t = (if q_sumOfPendingVsync q \<noteq> 0 then now else earliest q) \<and> b_wakeUpTime q' = earliest q \<and> b_isIdle q' \<and>
    b_idleTimeStamp q' = (if b_isIdle q then b_idleTimeStamp q else now) \<and> q_needEpoll q' = q_needEpoll q"
    using assms
  proof (cases rule: GetExpired_cases)
    case (none wk q2)
    have "wk = earliest q" using scan_earliest [OF _ assms(2)] none(1) unfolding scan_wake by blast
    then show ?thesis using none(5) unfolding none(6) none(2) by (simp add: with_idle_mark_def)
  qed auto
  then show "t = (if q_sumOfPendingVsync q \<noteq> 0 then now else earliest q)" "b_wakeUpTime q' = earliest q"
    "b_isIdle q'" "b_idleTimeStamp q' = (if b_isIdle q then b_idleTimeStamp q else now)" "q_needEpoll q' = q_needEpoll q"
    by auto
qed

lemma nothing_due_after:
  assumes "GetExpiredEventLocked now nx q = (None, t, q')" "queue_wf q" "now < TIME_MAX"
  shows "nothing_due now q'"
proof -
  have "nothing_due now q" using GetExpired_null_iff [OF assms] by simp
  moreover have "same_lists q q'" "q_sumOfPendingVsync q' = q_sumOfPendingVsync q" "q_isBarrierMode q' = q_isBarrierMode q"
    using GetExpired_None_keep [OF assms(1,2)] by simp_all
  ultimately show ?thesis using GetExpired_null_state [OF assms(1,2)]
    by (simp add: nothing_due_def vsync_due_def idle_due_def pending_def)
qed

end
