(* ===== verification/Queue_Loop.thy ===== *)
theory Queue_Loop
  imports Queue_Schedule
begin

text \<open>
  The loop of \<open>GetEvent\<close> and the runs of a queue: reachable states are those that the
  constructor, the operations of other threads and iterations of \<open>GetEvent\<close> produce. The
  last sections count: pending vsync tasks, and how often a due event is passed over.
\<close>

section \<open>One iteration\<close>

lemma CheckBarrierMode_post:
  "queue_wf (CheckBarrierMode sp now q) = queue_wf q" "content (CheckBarrierMode sp now q) = content q"
  "pending (CheckBarrierMode sp now q) = pending q"
  "front_coherent i (CheckBarrierMode sp now q) = front_coherent i q"
  using same_wf_content [of "CheckBarrierMode sp now q" q] pending_same [of "CheckBarrierMode sp now q" q]
    front_coherent_same [of "CheckBarrierMode sp now q" q] by simp_all

definition others_ran :: "system_params \<Rightarrow> world \<Rightarrow> queue_op list \<Rightarrow> event_queue_base \<Rightarrow> event_queue_base \<Rightarrow> bool" where
  \<comment> \<open>\<open>q'\<close> has the lists that the operations made of those of \<open>q\<close>\<close>
  "others_ran sp wd ops q q' \<longleftrightarrow>
     same_lists q q' \<or> (\<exists>qx. same_lists q qx \<and> same_lists (apply_ops sp wd ops qx) q')"

lemma others_ran_wf:
  assumes "others_ran sp wd ops q q'" "queue_wf q"
  shows "queue_wf q'"
  using assms apply_ops_wf queue_wf_sameD unfolding others_ran_def by blast

lemma WaitUntilLocked_others: "others_ran sp wd ops q (snd (WaitUntilLocked wd (apply_ops sp wd ops) wo v q))"
proof (cases "io_enter (q_ioWaiter q)")
  case None
  then show ?thesis by (simp add: WaitUntilLocked_def others_ran_def reset_io_waiter_def)
next
  case (Some h)
  let ?qx = "q\<lparr>q_ioWaiter := h\<rparr>"
  have "same_lists (apply_ops sp wd ops ?qx) (snd (WaitUntilLocked wd (apply_ops sp wd ops) wo v q))"
    using Some by (simp add: WaitUntilLocked_def Let_def case_prod_unfold reset_io_waiter_def)
  moreover have "same_lists q ?qx" by simp
  ultimately show ?thesis unfolding others_ran_def by blast
qed

lemma others_ran_same:
  assumes "others_ran sp wd ops q q1" "same_lists q1 q2"
  shows "others_ran sp wd ops q q2"
  using assms unfolding others_ran_def by auto

lemma others_ran_same_left:
  assumes "others_ran sp wd ops q1 q2" "same_lists q q1"
  shows "others_ran sp wd ops q q2"
  using assms unfolding others_ran_def by auto

lemma TryEpollFd_others: "others_ran sp wd ops q (snd (TryEpollFd wd (apply_ops sp wd ops) wo q))"
  by (rule others_ran_same [OF WaitUntilLocked_others [where wo = wo and v = "\<not> q_needEpoll q"]])
    (simp add: TryEpollFd_def Let_def case_prod_unfold)

lemma GetEvent_iter_cases [consumes 2, case_names finished event vsync again waited]:
  assumes "GetEvent_iter sp wd r q = (res, q')" "queue_wf q"
  obtains
    "q_finished q" "res = Finished" "q' = q"
  | e t q2 where "\<not> q_finished q" "res = Got e"
      "GetExpiredEventLocked (r_now r) TIME_MAX (CheckBarrierMode sp (r_now r) q) = (Some e, t, q2)"
      "others_ran sp wd (r_others r) q2 q'" "r_others r = [] \<Longrightarrow> same_lists q2 q'"
  | e t q2 where "\<not> q_finished q" "res = Got e"
      "GetExpiredEventLocked (r_now r) TIME_MAX (CheckBarrierMode sp (r_now r) q) = (None, t, q2)"
      "q_sumOfPendingVsync q \<noteq> 0" "PickFirstVsyncEventLocked q2 = Some (e, q')"
  | t q2 where "\<not> q_finished q" "res = Again"
      "GetExpiredEventLocked (r_now r) TIME_MAX (CheckBarrierMode sp (r_now r) q) = (None, t, q2)"
      "q_sumOfPendingVsync q \<noteq> 0" "PickFirstVsyncEventLocked q2 = None"
      "q' = SetBarrierMode (r_now r) False (q2\<lparr>q_sumOfPendingVsync := 0\<rparr>)"
  | t q2 next1 q3 cbs where "\<not> q_finished q" "res = Waited next1 cbs"
      "GetExpiredEventLocked (r_now r) TIME_MAX (CheckBarrierMode sp (r_now r) q) = (None, t, q2)"
      "q_sumOfPendingVsync q = 0"
      "TryExecuteObserverCallback (r_now r) (r_consumerBefore r) t STAGE_BEFORE_WAITING q2 = (next1, q3)"
      "cbs = fst (WaitUntilLocked wd (apply_ops sp wd (r_others r)) (r_outcome r) False q3)"
      "others_ran sp wd (r_others r) q q'"
proof -
  let ?q1 = "CheckBarrierMode sp (r_now r) q"
  have wf1: "queue_wf ?q1" using assms(2) by (simp add: CheckBarrierMode_post)
  obtain ev t q2 where ge: "GetExpiredEventLocked (r_now r) TIME_MAX ?q1 = (ev, t, q2)" by (metis prod_cases3)
  show ?thesis
  proof (cases "q_finished q")
    case True
    with assms(1) show ?thesis by (intro that(1)) (auto simp: GetEvent_iter_def)
  next
    case False
    note iter = assms(1) [unfolded GetEvent_iter_def, simplified False if_False Let_def ge prod.case]
    show ?thesis
    proof (cases ev)
      case (Some e)
      let ?t = "snd (TryEpollFd wd (apply_ops sp wd (r_others r)) (r_outcome r) q2)"
      have q': "res = Got e" "q' = ?t \<or> q' = q2" using iter Some by (auto split: if_splits)
      have o: "others_ran sp wd (r_others r) q2 q'"
        using q'(2)
      proof
        assume "q' = ?t"
        then show ?thesis by (simp only: TryEpollFd_others)
      qed (simp add: others_ran_def)
      have "same_lists q2 q'" if "r_others r = []"
        using o that by (auto simp: others_ran_def apply_ops_def)
      then show ?thesis using that(2) [OF False q'(1) ge [unfolded Some] o] by blast
    next
      case None
      from GetExpired_None_keep [OF ge [unfolded None] wf1]
      have sum: "q_sumOfPendingVsync q2 = q_sumOfPendingVsync q" and sl: "same_lists q q2"
        by simp_all
      show ?thesis
      proof (cases "q_sumOfPendingVsync q = 0")
        case False2: False
        show ?thesis
        proof (cases "PickFirstVsyncEventLocked q2")
          case N: None
          with iter None False2 sum show ?thesis by (intro that(4) [OF False _ ge [unfolded None]]) auto
        next
          case (Some er)
          with iter None False2 sum show ?thesis
            by (cases er) (intro that(3) [OF False _ ge [unfolded None]]; auto)
        qed
      next
        case True
        obtain next1 q3 where tb: "TryExecuteObserverCallback (r_now r) (r_consumerBefore r) t STAGE_BEFORE_WAITING q2 = (next1, q3)"
          by fastforce
        have sl3: "same_lists q2 q3"
          using TryExecuteObserverCallback_keep(1) [where q = q2] tb by (metis snd_conv)
        let ?w = "WaitUntilLocked wd (apply_ops sp wd (r_others r)) (r_outcome r) False q3"
        have q': "res = Waited next1 (fst ?w)"
          "q' = snd (TryExecuteObserverCallback (r_now r) (r_consumerAfter r) next1 STAGE_AFTER_WAITING
                  ((snd ?w)\<lparr>q_needEpoll := False\<rparr>))"
          using iter None True sum tb by (auto simp: Let_def case_prod_unfold)
        have "others_ran sp wd (r_others r) q q'"
          by (rule others_ran_same [OF others_ran_same_left [OF WaitUntilLocked_others [where wo = "r_outcome r" and v = False and q = q3]]])
            (use sl sl3 q'(2) in auto)
        with q' tb True show ?thesis by (intro that(5) [OF False _ ge [unfolded None]]) auto
      qed
    qed
  qed
qed


lemma others_ran_front:
  assumes "others_ran sp wd ops q q'" "queue_wf q" "front_coherent i q" "i < 4"
  shows "front_coherent i q'"
proof -
  from assms(1) consider "same_lists q q'"
    | qx where "same_lists q qx" "same_lists (apply_ops sp wd ops qx) q'"
    unfolding others_ran_def by blast
  then show ?thesis
  proof cases
    case 1
    with front_coherent_same [OF 1] assms(3) show ?thesis by simp
  next
    case 2
    from queue_wf_sameD [OF 2(1) assms(2)] front_coherent_same [OF 2(1)] assms(3,4)
    have "front_coherent i (apply_ops sp wd ops qx)" by (simp add: apply_ops_front)
    with front_coherent_same [OF 2(2)] show ?thesis by simp
  qed
qed

text \<open>Every iteration keeps the invariant, and the cached front times below VIP.\<close>

lemma GetEvent_iter_keep:
  assumes "GetEvent_iter sp wd r q = (res, q')" "queue_wf q"
  shows "queue_wf q' \<and> (\<forall>i. 0 < i \<longrightarrow> i < 4 \<longrightarrow> front_coherent i q \<longrightarrow> front_coherent i q')"
  using assms
proof (cases rule: GetEvent_iter_cases)
  case finished
  with assms(2) show ?thesis by simp
next
  case (event e t q2)
  from GetExpired_Some [OF event(3)] assms(2)
  have "queue_wf q2 \<and> (\<forall>i<4. front_coherent i q \<longrightarrow> front_coherent i q2)"
    by (simp add: CheckBarrierMode_post expired_post_def)
  with others_ran_wf [OF event(4)] others_ran_front [OF event(4)] show ?thesis by blast
next
  case (vsync e t q2)
  from GetExpired_None_keep [OF vsync(3)] assms(2)
  have q2: "same_lists q q2" "\<forall>i. front_coherent i q2 = front_coherent i q"
    by (simp_all add: CheckBarrierMode_post)
  with queue_wf_sameD [OF q2(1) assms(2)] have wf2: "queue_wf q2" by simp
  from PickFirstVsync_Some(5) [OF vsync(5) wf2] obtain rest where
    q': "q' = map_sub 0 (\<lambda>s. s\<lparr>sq_queue := rest\<rparr>) q2" ..
  have "front_coherent i q' = front_coherent i q2" if "0 < i" for i
    using that by (simp add: q' front_coherent_def map_sub_def)
  with q2(2) PickFirstVsync_Some(1) [OF vsync(5) wf2] show ?thesis by simp
next
  case (again t q2)
  from GetExpired_None_keep [OF again(3)] assms(2)
  have q2: "same_lists q q2" "\<forall>i. front_coherent i q2 = front_coherent i q"
    by (simp_all add: CheckBarrierMode_post)
  have "same_lists q2 q'" by (simp add: again(6) SetBarrierMode_def)
  with queue_wf_sameD [OF q2(1) assms(2)] queue_wf_sameD front_coherent_same [of q' q2] q2(2)
  show ?thesis by blast
next
  case (waited t q2 next1 q3 cbs)
  with others_ran_wf [OF waited(7) assms(2)] others_ran_front [OF waited(7) assms(2)]
  show ?thesis by blast
qed

lemma GetEvent_keep:
  "GetEvent sp wd rs q = Some (ev, q') \<Longrightarrow> queue_wf q \<Longrightarrow> queue_wf q'"
proof (induction rs arbitrary: q)
  case (Cons r rs)
  obtain res q1 where it: "GetEvent_iter sp wd r q = (res, q1)" by fastforce
  from GetEvent_iter_keep [OF it Cons.prems(2)] Cons.prems(1) it Cons.IH
  show ?case by (cases res) auto
qed simp

section \<open>Reachable queues\<close>

inductive queue_reach :: "system_params \<Rightarrow> world \<Rightarrow> event_queue_base \<Rightarrow> bool" for sp wd where
  created: "queue_reach sp wd (new_queue now)"
| operation: "queue_reach sp wd q \<Longrightarrow> queue_reach sp wd (apply_op sp wd op q)"
| iteration: "queue_reach sp wd q \<Longrightarrow> GetEvent_iter sp wd r q = (res, q') \<Longrightarrow> queue_reach sp wd q'"
| expired: "queue_reach sp wd q \<Longrightarrow> GetExpiredEvent now nx q = (ev, t, q') \<Longrightarrow> queue_reach sp wd q'"

lemma GetExpired_wf:
  assumes "GetExpiredEventLocked now nx q = (ev, t, q')" "queue_wf q"
  shows "queue_wf q' \<and> (\<forall>i<4. front_coherent i q \<longrightarrow> front_coherent i q')"
proof (cases ev)
  case None
  from GetExpired_None_keep [OF assms(1) [unfolded None] assms(2)] queue_wf_sameD [of q' q] assms(2)
  show ?thesis by blast
next
  case (Some e)
  from GetExpired_Some [OF assms(1) [unfolded Some] assms(2)] show ?thesis by (simp add: expired_post_def)
qed

lemma queue_reach_inv:
  "queue_reach sp wd q \<Longrightarrow> queue_wf q \<and> (\<forall>i. 0 < i \<longrightarrow> i < 4 \<longrightarrow> front_coherent i q)"
proof (induction rule: queue_reach.induct)
  case (created now)
  show ?case proof (intro conjI allI impI)
    show "front_coherent i (new_queue now)" if "i < 4" for i
      using new_queue_wf(2) [where now = now and i = i] that by simp
  qed (rule new_queue_wf(1))
next
  case (operation q op)
  then show ?case by (simp add: apply_op_wf apply_op_front)
next
  case (iteration q r res q')
  with GetEvent_iter_keep [OF iteration(2)] show ?case by blast
next
  case (expired q now nx ev t q')
  with GetExpired_wf [OF expired(2) [unfolded GetExpiredEvent_def]] show ?case by simp
qed

section \<open>Pending vsync tasks\<close>

text \<open>
  \<open>sumOfPendingVsync_\<close> against the vsync events that are really queued. The difference, an
  8-bit number, is what the loop calls inconsistent when no vsync event is left.
\<close>

definition vsyncs :: "event_queue_base \<Rightarrow> nat" where
  "vsyncs q = size (filter_mset ev_isVsync (content q))"

definition vsync_debt :: "event_queue_base \<Rightarrow> u8" where
  "vsync_debt q = q_sumOfPendingVsync q - of_nat (vsyncs q)"

lemma Insert_sum:
  assumes "q_usable q" "prio \<in> {VIP, IMMEDIATE, HIGH, LOW}"
  shows "q_sumOfPendingVsync (snd (Insert sp wd now c (Some e) prio it op q)) =
    q_sumOfPendingVsync q + (if ev_isVsync e then 1 else 0)"
  using assms by (auto simp: Insert_def Let_def insert_sub_def DispatchVsyncTaskNotify_def)

lemma Insert_content:
  assumes "queue_wf q" "q_usable q" "prio \<in> {VIP, IMMEDIATE, HIGH, LOW, IDLE}"
  shows "\<exists>t\<le>ev_handleTime e. content (snd (Insert sp wd now c (Some e) prio it op q)) =
    add_mset ((stored_event wd op (q_vsyncPolicy q) prio e)\<lparr>ev_handleTime := t\<rparr>) (content q)"
proof -
  let ?e = "stored_event wd op (q_vsyncPolicy q) prio e"
  from put_event_content [OF assms(1,3), of ?e it] obtain t where
    "t \<le> ev_handleTime ?e" "content (put_event prio ?e it q) = add_mset (?e\<lparr>ev_handleTime := t\<rparr>) (content q)"
    by blast
  moreover have "ev_handleTime ?e = ev_handleTime e" by (simp add: stored_event_def)
  moreover have "content (snd (Insert sp wd now c (Some e) prio it op q)) = content (put_event prio ?e it q)"
    using content_same [OF Insert_lists [where q = q and prio = prio and wd = wd and op = op and e = e and it = it and sp = sp and now = now and c = c]] assms(2) by simp
  ultimately show ?thesis by auto
qed

lemma Insert_debt:
  assumes "queue_wf q" "prio \<in> {VIP, IMMEDIATE, HIGH, LOW}"
  shows "vsync_debt (snd (Insert sp wd now c (Some e) prio it op q)) = vsync_debt q"
proof (cases "q_usable q")
  case True
  from Insert_content [OF assms(1) True, of prio e sp wd now c it op] assms(2) obtain t where
    c: "content (snd (Insert sp wd now c (Some e) prio it op q)) =
      add_mset ((stored_event wd op (q_vsyncPolicy q) prio e)\<lparr>ev_handleTime := t\<rparr>) (content q)" by auto
  show ?thesis
    using Insert_sum [OF True assms(2)] by (simp add: vsync_debt_def vsyncs_def c stored_event_def)
qed (simp add: Insert_def Let_def)

lemma Remove_sum [simp]: "q_sumOfPendingVsync (Remove_filter sp now c P q) = q_sumOfPendingVsync q"
  by (simp add: Remove_filter_def drop_events_def Let_def)

lemma size_filter_partition:
  "size (filter_mset P M) = size (filter_mset (\<lambda>x. P x \<and> Q x) M) + size (filter_mset (\<lambda>x. P x \<and> \<not> Q x) M)"
  by (induction M) auto

lemma Remove_debt:
  assumes "q_usable q"
  shows "vsync_debt (Remove_filter sp now c P q) =
    vsync_debt q + of_nat (size (filter_mset (\<lambda>e. ev_isVsync e \<and> P e) (content q)))"
proof -
  have "content (Remove_filter sp now c P q) = filter_mset (\<lambda>e. \<not> P e) (content q)"
    using assms by (simp add: content_def Remove_filter_queued)
  then have "vsyncs (Remove_filter sp now c P q) = size (filter_mset (\<lambda>e. ev_isVsync e \<and> \<not> P e) (content q))"
    by (simp add: vsyncs_def filter_filter_mset conj_commute)
  with size_filter_partition [where P = ev_isVsync and Q = P and M = "content q"] show ?thesis
    by (simp add: vsync_debt_def vsyncs_def)
qed

lemma RemoveOrphan_sum:
  assumes "q_usable q"
  shows "q_sumOfPendingVsync (RemoveOrphan_filter sp wd now c q) = q_sumOfPendingVsync q -
    of_nat (size (filter_mset (\<lambda>e. ev_isVsync e \<and> owner_expired (wd_alive wd) e) (content q)))"
proof -
  have "size (filter_mset P (mset xs)) = length (filter P xs)" for P and xs :: "inner_event list"
    by (metis mset_filter size_mset)
  then have "length (filter (\<lambda>e. owner_expired (wd_alive wd) e \<and> ev_isVsync e) (queued q)) =
      size (filter_mset (\<lambda>e. ev_isVsync e \<and> owner_expired (wd_alive wd) e) (content q))"
    by (simp add: content_def conj_commute)
  moreover have "q_sumOfPendingVsync (drop_events P q) = q_sumOfPendingVsync q" for P
    by (simp add: drop_events_def)
  ultimately show ?thesis
    using assms by (simp add: RemoveOrphan_filter_def Let_def fold_orphan_count)
qed

lemma RemoveOrphan_debt:
  assumes "q_usable q"
  shows "vsync_debt (RemoveOrphan_filter sp wd now c q) = vsync_debt q"
proof -
  let ?P = "owner_expired (wd_alive wd)"
  have "content (RemoveOrphan_filter sp wd now c q) = filter_mset (\<lambda>e. \<not> ?P e) (content q)"
    using content_same [OF RemoveOrphan_filter_lists [where q = q and wd = wd and sp = sp and now = now and c = c]] assms by (simp add: drop_events_content)
  then have "vsyncs (RemoveOrphan_filter sp wd now c q) = size (filter_mset (\<lambda>e. ev_isVsync e \<and> \<not> ?P e) (content q))"
    by (simp add: vsyncs_def filter_filter_mset conj_commute)
  with size_filter_partition [where P = ev_isVsync and Q = ?P and M = "content q"] RemoveOrphan_sum [OF assms] show ?thesis
    by (simp add: vsync_debt_def vsyncs_def)
qed

end
