(* ===== verification/Queue_Fairness.thy ===== *)
theory Queue_Fairness
  imports Queue_Loop
begin

text \<open>
  No starvation of the lower priorities: after \<open>maxHandledEventsCount\<close> (five) consecutive
  events of one sub queue the scan goes on to the next due one. The counters of the sub queues
  above \<open>j\<close>, read as a number in base six, grow with every pick that passes over a due event
  of \<open>j\<close>, because a pick from \<open>p\<close> adds one to digit \<open>p\<close> and clears the digits below it.
\<close>

definition handled :: "event_queue_base \<Rightarrow> nat \<Rightarrow> nat" where
  "handled q i = sq_handledEventsCount (sub q i)"

definition rank :: "nat \<Rightarrow> event_queue_base \<Rightarrow> nat" where
  "rank j q = (\<Sum>i<j. handled q i * 6 ^ i)"

lemma queue_wf_handled: "queue_wf q \<Longrightarrow> i < 4 \<Longrightarrow> handled q i \<le> 5"
  using queue_wf_sub [of q i] by (simp add: handled_def sub_wf_def DEFAULT_MAX_HANDLED_EVENT_COUNT_def)

lemma digits_less: "\<forall>i<p. c i \<le> (5::nat) \<Longrightarrow> (\<Sum>i<p. c i * 6 ^ i) < 6 ^ p"
proof (induction p)
  case (Suc p)
  then have "(\<Sum>i<p. c i * 6 ^ i) < 6 ^ p" "c p \<le> 5" by auto
  moreover from this(2) have "c p * 6 ^ p \<le> 5 * 6 ^ p" by simp
  ultimately show ?case by (simp only: sum.lessThan_Suc power_Suc)
qed simp

lemma digits_grow:
  assumes "\<forall>i<j. c i \<le> (5::nat)" "p < j" "c' p = c p + 1" "\<forall>i<p. c' i = 0" "\<forall>i. p < i \<longrightarrow> i < j \<longrightarrow> c' i = c i"
  shows "(\<Sum>i<j. c i * 6 ^ i) < (\<Sum>i<j. c' i * 6 ^ i)"
  using assms
proof (induction j)
  case (Suc j)
  show ?case
  proof (cases "p = j")
    case True
    have "(\<Sum>i<j. c i * 6 ^ i) < 6 ^ j" using Suc.prems(1) by (intro digits_less) simp
    moreover have "(\<Sum>i<j. c' i * 6 ^ i) = 0" using Suc.prems(4) True by simp
    ultimately show ?thesis using True Suc.prems(3) by (simp add: add_mult_distrib)
  next
    case False
    with Suc have "(\<Sum>i<j. c i * 6 ^ i) < (\<Sum>i<j. c' i * 6 ^ i)" by auto
    moreover have "c' j = c j" using Suc.prems(2,5) False by auto
    ultimately show ?thesis by simp
  qed
qed simp

definition hungry :: "nat \<Rightarrow> time \<Rightarrow> event_queue_base \<Rightarrow> bool" where
  \<comment> \<open>the front of sub queue \<open>j\<close> is due and earlier than the fronts of the higher priorities\<close>
  "hungry j now q \<longleftrightarrow>
     \<not> q_isBarrierMode q \<and> q_sumOfPendingVsync q = 0 \<and>
     sq_queue (sub q j) \<noteq> [] \<and> ev_handleTime (hd (sq_queue (sub q j))) \<le> now \<and>
     ev_handleTime (hd (sq_queue (sub q j))) < TIME_MAX \<and>
     (\<forall>i<j. sq_queue (sub q i) \<noteq> [] \<longrightarrow>
        ev_handleTime (hd (sq_queue (sub q j))) < ev_handleTime (hd (sq_queue (sub q i))))"

lemma CheckEvent_above:
  assumes "t < nw" "es \<noteq> [] \<longrightarrow> t < ev_handleTime (hd es)"
  shows "t < snd (check_list False es now nw)"
  using assms by (auto simp: check_list_def CheckEventInListLocked_def split: list.split)

lemma scan_bypass:
  assumes "pick_scan False now is p nw subs = (p', nw', subs')" "p' < j" "sorted_wrt (<) is" "j \<in> set is"
    and "sq_queue (subs ! j) \<noteq> []" "ev_handleTime (hd (sq_queue (subs ! j))) \<le> now"
    and "ev_handleTime (hd (sq_queue (subs ! j))) < nw"
    and "\<forall>i\<in>set is. i < j \<longrightarrow> sq_queue (subs ! i) \<noteq> [] \<longrightarrow>
      ev_handleTime (hd (sq_queue (subs ! j))) < ev_handleTime (hd (sq_queue (subs ! i)))"
  shows "subs' = inc_count p' subs \<and> sq_handledEventsCount (subs ! p') < sq_maxHandledEventsCount (subs ! p')"
  using assms
proof (induction "is" arbitrary: p nw)
  case (Cons i "is")
  let ?tj = "ev_handleTime (hd (sq_queue (subs ! j)))"
  let ?c = "check_list False (sq_queue (subs ! i)) now nw"
  let ?brk = "p < 4 \<and> sq_handledEventsCount (subs ! p) < sq_maxHandledEventsCount (subs ! p)"
  have scan: "pick_scan False now (i # is) p nw subs =
      (if \<not> fst ?c then pick_scan False now is p (snd ?c) subs
       else if ?brk then (p, snd ?c, inc_count p subs) else pick_scan False now is i (snd ?c) subs)"
    by (simp add: Let_def case_prod_unfold SUB_EVENT_QUEUE_NUM_def inc_count_def)
  show ?case
  proof (cases "i = j")
    case True
    have due: "fst ?c"
      using Cons.prems(5-7) True
      by (cases "sq_queue (subs ! j)") (simp_all add: check_list_def CheckEventInListLocked_def)
    show ?thesis
    proof (cases ?brk)
      case True
      with due scan Cons.prems(1) show ?thesis by auto
    next
      case False
      with due scan Cons.prems(1) have "pick_scan False now is i (snd ?c) subs = (p', nw', subs')" by auto
      from pick_scan_chosen [OF this] True Cons.prems(2,3) show ?thesis by auto
    qed
  next
    case False
    with Cons.prems(4) have j: "j \<in> set is" by simp
    with Cons.prems(3) have ij: "i < j" by simp
    have above: "?tj < snd ?c" using Cons.prems(7,8) ij by (intro CheckEvent_above) auto
    have rest: "subs' = inc_count p' subs \<and> sq_handledEventsCount (subs ! p') < sq_maxHandledEventsCount (subs ! p')"
      if "pick_scan False now is q (snd ?c) subs = (p', nw', subs')" for q
      using Cons.IH [OF that Cons.prems(2) _ j Cons.prems(5,6) above] Cons.prems(3,8) by auto
    show ?thesis
      using scan Cons.prems(1) rest by (cases "fst ?c"; cases ?brk) auto
  qed
qed simp

text \<open>
  A pick of a higher priority \<open>p\<close> while \<open>j\<close> is hungry raises the rank, of \<open>j\<close> and of every
  other sub queue below \<open>p\<close>.
\<close>

lemma pick_raises_rank:
  assumes "PickEventLocked now TIME_MAX q = (Some e, nw', q')" "queue_wf q" "hungry j now q" "j < 4"
    and "ev_priority e < int j" "ev_priority e < int m" "m \<le> 4"
  shows "rank m q < rank m q'"
  using assms(1,2)
proof (cases rule: PickEventLocked_cases)
  case (vsync p subs e')
  with assms(3) show ?thesis by (simp add: hungry_def takes_vsync_def)
next
  case (event p subs e' rest)
  have pj: "p < j" and pm: "p < m" using event(3,6) assms(5,6) by simp_all
  have h: "hungry j now q" by (rule assms(3))
  then have sc: "pick_scan False now [0..<4] 4 TIME_MAX (b_subEventQueues q) = (p, nw', subs)"
    using event(1) by (simp add: scan_def hungry_def)
  have inc: "subs = inc_count p (b_subEventQueues q)"
    using scan_bypass [OF sc pj] h assms(4) by (auto simp: hungry_def sorted_wrt_upt)
  have len: "length (b_subEventQueues q) = 4" using assms(2) by (rule queue_wf_length)
  have p4: "p < 4" by (rule event(2))
  have digits: "\<forall>i<m. handled q i \<le> 5"
    using queue_wf_handled [OF assms(2)] assms(7) by simp
  have "handled q' p = handled q p + 1"
    using event(11) [OF p4] len p4 by (simp add: handled_def inc inc_count_def)
  moreover have "\<forall>i<p. handled q' i = 0"
    using event(11) p4 by (simp add: handled_def)
  moreover have "\<forall>i. p < i \<longrightarrow> i < m \<longrightarrow> handled q' i = handled q i"
    using event(11) assms(7) len by (auto simp: handled_def inc inc_count_def)
  ultimately show ?thesis unfolding rank_def using digits_grow [OF digits pm] by blast
qed simp

lemma rank_bound: "queue_wf q \<Longrightarrow> j \<le> 4 \<Longrightarrow> rank j q < 6 ^ j"
  unfolding rank_def
  by (rule digits_less) (simp add: queue_wf_handled)

text \<open>The operations of other threads leave the counters alone.\<close>

lemma map_sub_handled:
  "(\<And>s. sq_handledEventsCount (f s) = sq_handledEventsCount s) \<Longrightarrow>
     i < length (b_subEventQueues q) \<Longrightarrow> handled (map_sub k f q) i = handled q i"
  by (cases "i = k") (simp_all add: handled_def map_sub_def)

lemma drop_events_handled:
  "i < length (b_subEventQueues q) \<Longrightarrow> handled (drop_events P q) i = handled q i"
  by (simp add: handled_def drop_events_def with_queue_def)

lemma handled_idle [simp]: "handled (q\<lparr>b_idleEvents := es\<rparr>) i = handled q i"
  by (simp add: handled_def)

lemma insert_sub_handled:
  "i < length (b_subEventQueues q) \<Longrightarrow> handled (insert_sub k e it q) i = handled q i"
  by (simp add: insert_sub_def map_sub_handled with_queue_def)

lemma handled_same: "same_lists q q' \<Longrightarrow> handled q' i = handled q i"
  by (simp add: handled_def)

lemma apply_op_handled:
  assumes "queue_wf q" "i < 4"
  shows "handled (apply_op sp wd op q) i = handled q i"
proof -
  have len: "i < length (b_subEventQueues q)" using assms by (simp add: queue_wf_length)
  have put: "handled (put_event prio e it q) i = handled q i" for prio e it
    using insert_sub_handled [OF len] by (cases prio) (simp_all add: put_event_def)
  show ?thesis
  proof (cases op)
    case (DoInsert now c e prio it opt)
    with put handled_same [OF Insert_lists [where q = q and prio = prio and wd = wd and op = opt and e = e and it = it and sp = sp and now = now and c = c]] show ?thesis by auto
  next
    case (DoRemove now c P)
    with handled_same [OF Remove_filter_lists [where q = q and P = P and sp = sp and now = now and c = c]] drop_events_handled [OF len]
    show ?thesis by auto
  next
    case DoRemoveAll
    with len show ?thesis by (simp add: RemoveAll_def handled_def with_queue_def)
  next
    case (DoRemoveOrphan now c)
    with handled_same [OF RemoveOrphan_filter_lists [where q = q and wd = wd and sp = sp and now = now and c = c]] drop_events_handled [OF len]
    show ?thesis by auto
  qed (use handled_same [OF apply_op_same [of op]] in simp_all)
qed

section \<open>Runs that pass over a due event\<close>

text \<open>
  \<open>n\<close> events of higher priorities are handed out, each while the front of sub queue \<open>j\<close> is
  due and earlier than theirs; other threads change the queue in between.
\<close>

inductive bypass_run :: "system_params \<Rightarrow> world \<Rightarrow> nat \<Rightarrow> event_queue_base \<Rightarrow> nat \<Rightarrow> event_queue_base \<Rightarrow> bool"
  for sp wd j q where
  start: "bypass_run sp wd j q 0 q"
| operation: "bypass_run sp wd j q n q1 \<Longrightarrow> bypass_run sp wd j q n (apply_op sp wd op q1)"
| pass_over: "bypass_run sp wd j q n q1 \<Longrightarrow> hungry j now q1 \<Longrightarrow>
     GetExpiredEventLocked now nx q1 = (Some e, t, q2) \<Longrightarrow> ev_priority e < int j \<Longrightarrow>
     bypass_run sp wd j q (Suc n) q2"

lemma expired_raises_rank:
  assumes "GetExpiredEventLocked now nx q = (Some e, t, q')" "queue_wf q" "hungry j now q" "j < 4"
    and "ev_priority e < int j" "ev_priority e < int m" "m \<le> 4"
  shows "rank m q < rank m q'"
  using assms(1,2)
proof (cases rule: GetExpired_cases)
  case (sub e' q0 wk)
  let ?qw = "q\<lparr>b_wakeUpTime := TIME_MAX\<rparr>"
  have wfw: "queue_wf ?qw" and h: "hungry j now ?qw" and r: "rank m ?qw = rank m q"
    using assms(2,3) by (simp_all add: queue_wf_def hungry_def rank_def handled_def)
  have e: "e' = e" using sub(2) by simp
  from Pick_Some [OF sub(1) wfw] have wf0: "queue_wf q0" by simp
  let ?q1 = "q0\<lparr>b_wakeUpTime := wk\<rparr>"
  have wf1: "queue_wf ?q1" using wf0 by (simp add: queue_wf_def)
  have "handled q' i = handled q0 i" for i
    using refresh_front_facts(6) [OF wf1 sub(4)] by (simp add: handled_def sub(5))
  then have "rank m q' = rank m q0" by (simp add: rank_def)
  with pick_raises_rank [OF sub(1) wfw h assms(4) _ _ assms(7)] e assms(5,6) r show ?thesis by simp
next
  case (idle e' rest wk q2)
  have "queue_wf q2" unfolding idle(2)
    using assms(2) by (simp add: queue_wf_def)
  from take_idle_Some(5) [OF idle(3) this] idle(4) assms(4,5) show ?thesis by simp
qed simp

lemma bypass_run_rank:
  assumes "bypass_run sp wd j q n q'" "queue_wf q" "j < 4"
  shows "queue_wf q' \<and> rank j q + n \<le> rank j q'"
  using assms
proof (induction rule: bypass_run.induct)
  case (operation n q1 op)
  then have "rank j (apply_op sp wd op q1) = rank j q1"
    by (simp add: rank_def apply_op_handled)
  with operation show ?case by (simp add: apply_op_wf)
next
  case (pass_over n q1 now nx e t q2)
  then have wf: "queue_wf q1" by simp
  from expired_raises_rank [OF pass_over(3) wf pass_over(2) pass_over.prems(2) pass_over(4) pass_over(4)]
    GetExpired_wf [OF pass_over(3) wf] pass_over show ?case by simp
qed simp

end
