(* ===== verification/Queue_Properties.thy ===== *)
theory Queue_Properties
  imports Queue_Fairness
begin

text \<open>
  The properties of the event queue, each a theorem over the definitions of \<open>Queue_Base\<close>,
  \<open>Queue_Pick\<close> and \<open>Event_Queue\<close>, with a concrete run that shows its hypotheses can hold.
\<close>

section \<open>Concrete data for the witnesses\<close>

definition task_at :: "time \<Rightarrow> inner_event" where
  [eh_defs]: "task_at t = new_event\<lparr>ev_owner := Some 1, ev_ownerId := ''1'', ev_handleTime := t, ev_sendTime := t,
     ev_taskCallback := Some (UserTask 0), ev_taskName := ''t''\<rparr>"

definition vsync_at :: "time \<Rightarrow> inner_event" where
  [eh_defs]: "vsync_at t = (task_at t)\<lparr>ev_isVsync := True\<rparr>"

definition quiet_round :: "time \<Rightarrow> round" where
  [eh_defs]: "quiet_round t = \<lparr>r_now = t, r_consumerBefore = 0, r_consumerAfter = 0, r_others = [],
     r_outcome = \<lparr>wo_retVal = 0, wo_fatal = False, wo_events = []\<rparr>\<rparr>"

definition queue_with :: "(priority \<times> inner_event) list \<Rightarrow> event_queue_base" where
  \<comment> \<open>a prepared queue into which the events were inserted at time 10\<close>
  [eh_defs]: "queue_with pes =
     fold (\<lambda>pe q. snd (Insert default_params small_world 10 0 (Some (snd pe)) (fst pe) AT_END NO_BARRIER q))
       pes (Prepare (new_queue 0))"

lemma queue_with_reach: "queue_reach default_params small_world (queue_with pes)"
proof -
  have "queue_reach default_params small_world
      (fold (\<lambda>pe q. snd (Insert default_params small_world 10 0 (Some (snd pe)) (fst pe) AT_END NO_BARRIER q)) pes q)"
    if "queue_reach default_params small_world q" for q
    using that
  proof (induction pes arbitrary: q)
    case (Cons pe pes)
    then show ?case
      using queue_reach.operation [of default_params small_world q "DoInsert 10 0 (snd pe) (fst pe) AT_END NO_BARRIER"]
      by simp
  qed simp
  moreover have "queue_reach default_params small_world (Prepare (new_queue 0))"
    using queue_reach.operation [OF queue_reach.created, of default_params small_world DoPrepare 0] by simp
  ultimately show ?thesis by (simp add: queue_with_def)
qed

lemma queue_with_wf: "queue_wf (queue_with pes)"
  using queue_reach_inv [OF queue_with_reach] by blast

section \<open>The invariant\<close>

text \<open>
  C3. In every reachable state of a queue the four sub queues and the idle list are sorted by
  handle time, every event is in the list of its own priority, no counter of consecutive
  events exceeds five, and the cached front times of the priorities below VIP are right.
\<close>

theorem reachable_queue_well_formed:
  assumes "queue_reach sp wd q"
  shows "queue_wf q \<and> front_coherent 1 q \<and> front_coherent 2 q \<and> front_coherent 3 q"
  using queue_reach_inv [OF assms] by simp

theorem reachable_queue_well_formed_witness:
  "queue_wf (queue_with [(HIGH, task_at 10), (HIGH, task_at 5)]) \<and>
   front_coherent 1 (queue_with [(HIGH, task_at 10), (HIGH, task_at 5)]) \<and>
   front_coherent 2 (queue_with [(HIGH, task_at 10), (HIGH, task_at 5)]) \<and>
   front_coherent 3 (queue_with [(HIGH, task_at 10), (HIGH, task_at 5)])"
  by (rule reachable_queue_well_formed [OF queue_with_reach])

section \<open>Getting events\<close>

lemma GetEvent_iter_quiet:
  assumes "GetEvent_iter sp wd r q = (res, q')" "queue_wf q" "r_others r = []"
  shows "case res of
     Got e \<Rightarrow> content q = add_mset e (content q') \<and> (ev_handleTime e \<le> r_now r \<or> ev_isVsync e)
   | _ \<Rightarrow> content q' = content q"
  using assms(1,2)
proof (cases rule: GetEvent_iter_cases)
  case finished
  then show ?thesis by simp
next
  case (event e t q2)
  from GetExpired_Some [OF event(3)] assms(2)
  have "handed_out_ok (r_now r) (CheckBarrierMode sp (r_now r) q) e" "content q = add_mset e (content q2)"
    by (simp_all add: CheckBarrierMode_post expired_post_def)
  moreover have "content q' = content q2" using content_same [OF event(5) [OF assms(3)]] .
  ultimately show ?thesis using event(2) unfolding handed_out_ok_def by simp blast
next
  case (vsync e t q2)
  from GetExpired_None_keep [OF vsync(3)] assms(2) have s: "same_lists q q2" by (simp add: CheckBarrierMode_post)
  have "content q2 = content q" by (rule content_same [OF s])
  moreover from PickFirstVsync_Some(2,3) [OF vsync(5) queue_wf_sameD [OF s assms(2)]]
  have "content q2 = add_mset e (content q')" "ev_isVsync e" by auto
  ultimately show ?thesis using vsync(2) by simp
next
  case (again t q2)
  from GetExpired_None_keep [OF again(3)] assms(2) have s: "same_lists q q2" by (simp add: CheckBarrierMode_post)
  have "same_lists q q'" using s by (simp add: again(6) SetBarrierMode_def)
  from content_same [OF this] again(2) show ?thesis by simp
next
  case (waited t q2 next1 q3 cbs)
  have "same_lists q q'" using waited(7) assms(3) by (auto simp: others_ran_def apply_ops_def)
  from content_same [OF this] waited(2) show ?thesis by simp
qed

lemma GetEvent_quiet:
  assumes "queue_wf q" "\<forall>r\<in>set rs. r_others r = []" "GetEvent sp wd rs q = Some (Some e, q')"
  shows "content q = add_mset e (content q') \<and> (\<exists>r\<in>set rs. ev_handleTime e \<le> r_now r \<or> ev_isVsync e)"
  using assms
proof (induction rs arbitrary: q)
  case (Cons r rs)
  obtain res q1 where it: "GetEvent_iter sp wd r q = (res, q1)" by fastforce
  have quiet: "r_others r = []" using Cons.prems(2) by simp
  note i = GetEvent_iter_quiet [OF it Cons.prems(1) quiet]
  have wf1: "queue_wf q1" using GetEvent_iter_keep [OF it Cons.prems(1)] by blast
  show ?case using i Cons.prems it Cons.IH [OF wf1] by (cases res) auto
qed simp

text \<open>
  C4. \<open>GetEvent\<close> hands out exactly one event of the queue and loses none: when no other thread
  interferes, the content before is the content after plus that event, and the event was due
  at the time of the iteration that returned it, or is a pending vsync event.
\<close>

theorem GetEvent_takes_one_due_event:
  assumes "queue_reach sp wd q" "\<forall>r\<in>set rs. r_others r = []"
    and "GetEvent sp wd rs q = Some (Some e, q')"
  shows "content q = add_mset e (content q') \<and> (\<exists>r\<in>set rs. ev_handleTime e \<le> r_now r \<or> ev_isVsync e)"
  using GetEvent_quiet [OF _ assms(2,3)] queue_reach_inv [OF assms(1)] by blast

theorem GetEvent_takes_one_due_event_witness:
  "\<exists>q'. content (queue_with [(HIGH, task_at 10), (LOW, task_at 5)]) =
     add_mset ((task_at 5)\<lparr>ev_priority := 3\<rparr>) (content q')"
proof -
  let ?q = "queue_with [(HIGH, task_at 10), (LOW, task_at 5)]"
  have "fst (the (GetEvent default_params small_world [quiet_round 7] ?q)) = Some ((task_at 5)\<lparr>ev_priority := 3\<rparr>)"
    "GetEvent default_params small_world [quiet_round 7] ?q \<noteq> None" by code_simp+
  then obtain q' where g: "GetEvent default_params small_world [quiet_round 7] ?q =
      Some (Some ((task_at 5)\<lparr>ev_priority := 3\<rparr>), q')" by auto
  have "\<forall>r\<in>set [quiet_round 7]. r_others r = []" by (simp add: quiet_round_def)
  from GetEvent_takes_one_due_event [OF queue_with_reach this g] show ?thesis by blast
qed

lemma no_due_means_wait:
  assumes "GetExpiredEventLocked now nx (CheckBarrierMode sp now q) = (None, t, q')" "queue_wf q" "now < TIME_MAX"
    and "q_sumOfPendingVsync q = 0" "\<not> q_isBarrierMode q" "e \<in> pending q"
  shows "now < ev_handleTime e"
proof -
  let ?q1 = "CheckBarrierMode sp now q"
  have "\<not> q_isBarrierMode ?q1" using assms(4,5) by (simp add: CheckBarrierMode_def Let_def)
  moreover have "queue_wf ?q1" "e \<in> pending ?q1" using assms(2,6) by (simp_all add: CheckBarrierMode_post)
  ultimately show ?thesis
    using GetExpired_None(3) [OF assms(1) _ assms(3), of e] by (simp add: eligible_def)
qed

text \<open>
  A due event is delivered without waiting: if some event of the sub queues is due, two
  iterations of \<open>GetEvent\<close> suffice to return an event (the first may only repair the count of
  pending vsync tasks), whatever barrier mode and vsync state the queue is in.
\<close>

lemma due_event_delivered:
  assumes wf: "queue_wf q" and "\<not> q_finished q" "e \<in> pending q" "ev_handleTime e \<le> r_now r1"
    and "r_now r1 \<le> r_now r2" "r_now r2 < TIME_MAX" "q_isBarrierMode q \<longrightarrow> q_sumOfPendingVsync q \<noteq> 0"
  shows "\<exists>e' q'. GetEvent sp wd (r1 # r2 # rs) q = Some (Some e', q')"
proof -
  obtain res q1 where it: "GetEvent_iter sp wd r1 q = (res, q1)" by fastforce
  from it wf show ?thesis
  proof (cases rule: GetEvent_iter_cases)
    case (again t q2)
    from GetExpired_None_keep [OF again(3)] wf have s: "same_lists q q2" by (simp add: CheckBarrierMode_post)
    have q1: "same_lists q q1" "q_sumOfPendingVsync q1 = 0" "\<not> q_isBarrierMode q1"
      using s by (simp_all add: again(6) SetBarrierMode_def)
    have wf1: "queue_wf q1" by (rule queue_wf_sameD [OF q1(1) wf])
    have e1: "e \<in> pending q1" using assms(3) pending_same [OF q1(1)] by simp
    have nf: "\<not> q_finished q1"
      using GetExpired_None_keep [OF again(3)] wf assms(2) by (simp add: again(6) SetBarrierMode_def CheckBarrierMode_post)
    obtain res2 q4 where it2: "GetEvent_iter sp wd r2 q1 = (res2, q4)" by fastforce
    from it2 wf1 have "\<exists>e'. res2 = Got e'"
    proof (cases rule: GetEvent_iter_cases)
      case (waited t' q2' next1 q3 cbs)
      from no_due_means_wait [OF waited(3) wf1 assms(6) q1(2,3) e1] assms(4,5) show ?thesis by simp
    qed (use nf q1(2) in auto)
    with it it2 again(2) show ?thesis by auto
  next
    case (waited t q2 next1 q3 cbs)
    have "\<not> q_isBarrierMode q" using waited(4) assms(7) by blast
    from no_due_means_wait [OF waited(3) wf _ waited(4) this assms(3)] assms(4-6) show ?thesis by simp
  qed (use it assms(2) in auto)
qed

section \<open>Sleeping\<close>

text \<open>
  C9. A null result of \<open>GetExpiredEvent\<close>, exactly. It is null if and only if nothing is due: no event
  of the sub queues that may be handed out (in barrier mode only barrier events may) has reached its handle time,
  no pending vsync event is to be taken before its time, and no idle event is ready: outside barrier mode the first of
  the idle list, in barrier mode every barrier event of it, is not due or was sent after the queue became idle.
  Then no list changes, and the returned time is the earliest handle time in the sub queues (the
  largest time point when they are empty), or the current time when vsync events are pending. So a due event
  can stay behind a null result, if it is an idle event behind such a first one or one that the barrier holds back.
\<close>

theorem null_result_means_nothing_due:
  assumes "queue_reach sp wd q" "GetExpiredEvent now nx q = (r, t, q')" "now < TIME_MAX"
  shows "(r = None \<longleftrightarrow> nothing_due now q) \<and>
    (r = None \<longrightarrow> b_subEventQueues q' = b_subEventQueues q \<and> b_idleEvents q' = b_idleEvents q \<and>
       t = (if q_sumOfPendingVsync q \<noteq> 0 then now else earliest q) \<and> b_wakeUpTime q' = earliest q)"
proof -
  have wf: "queue_wf q" using queue_reach_inv [OF assms(1)] by blast
  note g = assms(2) [unfolded GetExpiredEvent_def]
  note iff = GetExpired_null_iff [OF g wf assms(3)]
  show ?thesis
  proof (cases r)
    case None
    with iff GetExpired_null_state(1,2) [OF g [unfolded None] wf] GetExpired_None_keep [OF g [unfolded None] wf]
    show ?thesis by simp
  qed (use iff in simp)
qed

theorem null_result_means_nothing_due_witness:
  "\<exists>q' q''. GetExpiredEvent 20 0 (queue_with [(LOW, task_at 30), (HIGH, task_at 25)]) = (None, 25, q') \<and>
     b_wakeUpTime q' = 25 \<and>
     nothing_due 20 (queue_with [(IDLE, task_at 30)]) \<and>
     GetExpiredEvent 20 0 (queue_with [(IDLE, task_at 30)]) = (None, TIME_MAX, q'')"
proof -
  let ?q = "queue_with [(LOW, task_at 30), (HIGH, task_at 25)]" and ?i = "queue_with [(IDLE, task_at 30)]"
  have f: "fst (GetExpiredEvent 20 0 ?q) = None" "fst (snd (GetExpiredEvent 20 0 ?q)) = 25" "q_sumOfPendingVsync ?q = 0"
    "fst (GetExpiredEvent 20 0 ?i) = None" "fst (snd (GetExpiredEvent 20 0 ?i)) = TIME_MAX" by code_simp+
  obtain q' q'' where g: "GetExpiredEvent 20 0 ?q = (None, 25, q')" "GetExpiredEvent 20 0 ?i = (None, TIME_MAX, q'')"
    using f by (metis prod.collapse)
  have "(20 :: time) < TIME_MAX" by (simp add: TIME_MAX_def)
  note n = null_result_means_nothing_due [OF queue_with_reach g(1) this] null_result_means_nothing_due [OF queue_with_reach g(2) this]
  show ?thesis using g n f(3) by auto
qed

lemma NanosecondsToTimeout_exact:
  assumes "0 \<le> ns"
  shows "if INT32_MAX * MS < ns then NanosecondsToTimeout ns = INT32_MAX
    else ns \<le> NanosecondsToTimeout ns * MS \<and> (NanosecondsToTimeout ns - 1) * MS < ns"
proof (cases "INT32_MAX * MS < ns")
  case True
  have "INT32_MAX * MS div MS \<le> ns div MS" using True by (intro zdiv_mono1) (simp_all add: MS_def)
  then have "INT32_MAX \<le> ns div MS" by (simp add: MS_def)
  then show ?thesis using True assms by (auto simp: NanosecondsToTimeout_def Let_def)
next
  case False
  with NanosecondsToTimeout_ceiling [of ns] assms show ?thesis by (simp add: left_diff_distrib)
qed

lemma waited_time:
  assumes "GetEvent_iter sp wd r q = (Waited next1 cbs, q')" "queue_wf q" "r_now r < TIME_MAX" "\<not> q_isBarrierMode q"
  shows "\<exists>t. r_now r < t \<and> (\<forall>e\<in>pending q. t \<le> ev_handleTime e) \<and>
    (t = TIME_MAX \<or> (\<exists>e\<in>pending q. t = ev_handleTime e)) \<and>
    next1 = (if stage_bits STAGE_BEFORE_WAITING AND ob_stages (q_observer q) = stage_bits STAGE_BEFORE_WAITING \<and>
                ob_notifyCb (q_observer q) \<and> t < TIME_MAX
             then t + r_consumerBefore r * MS else t)"
  using assms(1,2)
proof (cases rule: GetEvent_iter_cases)
  case (waited t q2 next1' q3 cbs')
  let ?q1 = "CheckBarrierMode sp (r_now r) q"
  have b: "\<not> q_isBarrierMode ?q1" using waited(4) assms(4) by (simp add: CheckBarrierMode_def Let_def)
  have ob: "q_observer ?q1 = q_observer q" by (simp add: CheckBarrierMode_def SetBarrierMode_def Let_def)
  have wf1: "queue_wf ?q1" using assms(2) by (simp add: CheckBarrierMode_post)
  have ob2: "q_observer q2 = q_observer q" using GetExpired_None_keep [OF waited(3) wf1] ob by simp
  have "r_now r < t \<and> (\<forall>e\<in>pending q. t \<le> ev_handleTime e) \<and>
      (t = TIME_MAX \<or> (\<exists>e\<in>pending q. t = ev_handleTime e))"
    using GetExpired_None(4) [OF waited(3) wf1 assms(3)] b waited(4) by (simp add: CheckBarrierMode_post)
  moreover have "next1 = (if stage_bits STAGE_BEFORE_WAITING AND ob_stages (q_observer q) = stage_bits STAGE_BEFORE_WAITING \<and>
      ob_notifyCb (q_observer q) \<and> t < TIME_MAX then t + r_consumerBefore r * MS else t)"
    using waited(2,5) ob2 by (auto simp: TryExecuteObserverCallback_def Let_def split: if_splits)
  ultimately show ?thesis by blast
qed auto

lemma waited_until_earliest:
  assumes "GetEvent_iter sp wd r q = (Waited next1 cbs, q')" "queue_wf q"
  shows "next1 = (if stage_bits STAGE_BEFORE_WAITING AND ob_stages (q_observer q) = stage_bits STAGE_BEFORE_WAITING \<and>
                ob_notifyCb (q_observer q) \<and> earliest q < TIME_MAX
             then earliest q + r_consumerBefore r * MS else earliest q)"
  using assms
proof (cases rule: GetEvent_iter_cases)
  case (waited t q2 next1' q3 cbs')
  let ?q1 = "CheckBarrierMode sp (r_now r) q"
  have s: "same_lists q ?q1" "q_observer ?q1 = q_observer q"
    by (simp_all add: CheckBarrierMode_def SetBarrierMode_def Let_def)
  have wf1: "queue_wf ?q1" using assms(2) by (simp add: CheckBarrierMode_post)
  have k: "q_observer q2 = q_observer q" "q_sumOfPendingVsync ?q1 = 0"
    using GetExpired_None_keep [OF waited(3) wf1] s(2) waited(4) by (simp_all add: CheckBarrierMode_post)
  have "t = earliest q" using GetExpired_null_state(1) [OF waited(3) wf1] k(2) earliest_same [OF s(1)] by simp
  then show ?thesis using waited(2,5) k(1) by (auto simp: TryExecuteObserverCallback_def Let_def split: if_splits)
qed auto

text \<open>
  C11. The time out \<open>GetEvent\<close> gives to \<open>epoll_wait\<close> is the time to the earliest event of the sub queues, rounded up
  to a millisecond: the least number of milliseconds that reaches the event, limited to \<open>INT32_MAX\<close>. It is 0 when
  that event is due already and only the barrier mode keeps it in the queue. No observer of
  \<open>STAGE_BEFORE_WAITING\<close> may be registered, whose call postpones the wait by its duration. Idle events do not count.
\<close>

theorem wait_ends_in_time:
  assumes "queue_reach sp wd q" "GetEvent_iter sp wd r q = (Waited next1 cbs, q')" "\<not> ob_notifyCb (q_observer q)"
  shows "\<exists>T. WaitUntil_request (r_now r) next1 (EpollWaiter w) = WaitEpollMs T \<and>
    (if earliest q \<le> r_now r then T = 0
     else if INT32_MAX * MS < earliest q - r_now r then T = INT32_MAX
     else earliest q - r_now r \<le> T * MS \<and> (T - 1) * MS < earliest q - r_now r)"
proof -
  have wf: "queue_wf q" using queue_reach_inv [OF assms(1)] by blast
  have n: "next1 = earliest q" using waited_until_earliest [OF assms(2) wf] assms(3) by simp
  show ?thesis
  proof (cases "earliest q \<le> r_now r")
    case True
    then show ?thesis by (simp add: n WaitUntil_request_def TimePointToTimeOut_def NanosecondsToTimeout_def INT32_MAX_def)
  next
    case False
    then show ?thesis using NanosecondsToTimeout_exact [of "earliest q - r_now r"]
      by (simp add: n WaitUntil_request_def TimePointToTimeOut_def)
  qed
qed

theorem wait_ends_in_time_witness:
  "\<exists>next1 T. WaitUntil_request 20 next1 (EpollWaiter new_epoll) = WaitEpollMs T \<and> T = 1 \<and>
     earliest (queue_with [(LOW, task_at 30)]) = 30"
proof -
  let ?q = "queue_with [(LOW, task_at 30)]"
  have i: "fst (GetEvent_iter default_params small_world (quiet_round 20) ?q) = Waited 30 []"
    and e: "earliest ?q = 30" by code_simp+
  obtain next1 cbs q' where g: "GetEvent_iter default_params small_world (quiet_round 20) ?q = (Waited next1 cbs, q')"
    using i by (metis prod.collapse)
  have r: "r_now (quiet_round 20) = 20" by (simp add: quiet_round_def)
  have "\<not> ob_notifyCb (q_observer ?q)" by code_simp
  from wait_ends_in_time [OF queue_with_reach g this, of new_epoll] obtain T where
    "WaitUntil_request 20 next1 (EpollWaiter new_epoll) = WaitEpollMs T" "10 \<le> T * MS" "(T - 1) * MS < 10"
    unfolding r e by (auto simp: INT32_MAX_def MS_def)
  moreover from this(2,3) have "T = 1" by (simp add: MS_def)
  ultimately show ?thesis using e by blast
qed

end
