(* ===== verification/Queue_Updates.thy ===== *)
theory Queue_Updates
  imports Queue_Properties
begin

text \<open>
  Properties of the queue, continued: fairness between priorities, the vsync bookkeeping and the
  barrier mode.
\<close>

section \<open>Fairness\<close>

text \<open>
  No starvation: while the front of sub queue \<open>j\<close> is due and earlier than the fronts of
  all higher priorities, fewer than \<open>6 ^ j\<close> events of higher priorities are handed out before
  it, whatever other threads insert, remove or configure in between.
\<close>

lemma due_event_is_passed_over_finitely:
  assumes "queue_reach sp wd q" "bypass_run sp wd j q n q'" "j < 4"
  shows "n < 6 ^ j"
proof -
  have "queue_wf q" using queue_reach_inv [OF assms(1)] by blast
  from bypass_run_rank [OF assms(2) this assms(3)] rank_bound [of q' j] assms(3) show ?thesis by simp
qed

section \<open>Vsync bookkeeping\<close>

definition inconsistent_example :: event_queue_base where
  \<comment> \<open>a vsync event was inserted and removed by a filter\<close>
  "inconsistent_example =
     apply_op default_params small_world (DoRemove 10 0 ev_isVsync) (queue_with [(VIP, vsync_at 10)])"

text \<open>
  The loop does not spin on an inconsistent count of pending vsync tasks: after an
  iteration that found the count wrong, the count is zero, barrier mode is off, the content
  is unchanged, and the next iteration does not repeat the repair.
\<close>

lemma inconsistent_vsync_count_is_reset:
  assumes "queue_reach sp wd q" "GetEvent_iter sp wd r1 q = (Again, q1)"
    and "GetEvent_iter sp wd r2 q1 = (res, q2)"
  shows "q_sumOfPendingVsync q1 = 0 \<and> \<not> q_isBarrierMode q1 \<and> content q1 = content q \<and> res \<noteq> Again"
proof -
  have wf: "queue_wf q" using queue_reach_inv [OF assms(1)] by blast
  from assms(2) wf have "q_sumOfPendingVsync q1 = 0 \<and> \<not> q_isBarrierMode q1 \<and> content q1 = content q"
  proof (cases rule: GetEvent_iter_cases)
    case (again t q2')
    from GetExpired_None_keep [OF again(3)] wf have "same_lists q q2'" by (simp add: CheckBarrierMode_post)
    then have "same_lists q q1" by (simp add: again(6) SetBarrierMode_def)
    from content_same [OF this] show ?thesis by (simp add: again(6) SetBarrierMode_def)
  qed auto
  moreover have "res \<noteq> Again" if "q_sumOfPendingVsync q1 = 0"
  proof -
    have "queue_wf q1" using GetEvent_iter_keep [OF assms(2) wf] by blast
    with assms(3) show ?thesis using that by (cases rule: GetEvent_iter_cases) auto
  qed
  ultimately show ?thesis by blast
qed

text \<open>
  C24. How the count of pending vsync tasks follows the queue: inserting into a sub queue and
  removing orphans keep it in step with the vsync events in the queue, but removing events by
  owner, id or name does not lower it, so it is left too high by the removed vsync events.
\<close>

theorem vsync_count_balance:
  assumes "queue_reach sp wd q" "q_usable q" "prio \<in> {VIP, IMMEDIATE, HIGH, LOW}"
  shows "vsync_debt (snd (Insert sp wd now c (Some e) prio it op q)) = vsync_debt q \<and>
    vsync_debt (RemoveOrphan_filter sp wd now c q) = vsync_debt q \<and>
    vsync_debt (Remove_filter sp now c P q) =
      vsync_debt q + of_nat (size (filter_mset (\<lambda>e. ev_isVsync e \<and> P e) (content q)))"
  using queue_reach_inv [OF assms(1)] assms(2,3) by (simp add: Insert_debt RemoveOrphan_debt Remove_debt)

theorem vsync_count_balance_witness:
  "vsync_debt (Remove_filter default_params 10 0 ev_isVsync (queue_with [(VIP, vsync_at 10)])) =
     vsync_debt (queue_with [(VIP, vsync_at 10)]) +
     of_nat (size (filter_mset (\<lambda>e. ev_isVsync e \<and> ev_isVsync e) (content (queue_with [(VIP, vsync_at 10)]))))"
proof -
  have "q_usable (queue_with [(VIP, vsync_at 10)])" by code_simp
  from vsync_count_balance [OF queue_with_reach this, of VIP 10 0 _ AT_END NO_BARRIER ev_isVsync]
  show ?thesis by simp
qed

text \<open>
  The cached front time of the VIP queue can be stale: a reachable queue has an empty VIP
  list but a cached front time that is not the empty mark, because the branch of \<open>GetEvent\<close>
  that takes a pending vsync event does not refresh the cache.
\<close>

lemma vip_front_time_can_be_stale:
  "\<exists>q. queue_reach default_params small_world q \<and> sq_queue (sub q 0) = [] \<and>
     sq_frontEventHandleTime (sub q 0) \<noteq> UINT64_MAX"
proof -
  let ?q = "queue_with [(VIP, vsync_at 50)]"
  let ?r = "GetEvent_iter default_params small_world (quiet_round 20) ?q"
  have f: "sq_queue (sub (snd ?r) 0) = []" "sq_frontEventHandleTime (sub (snd ?r) 0) \<noteq> UINT64_MAX"
    by code_simp+
  have "queue_reach default_params small_world (snd ?r)"
    by (rule queue_reach.iteration [OF queue_with_reach prod.collapse [symmetric]])
  with f show ?thesis by blast
qed

section \<open>Barrier mode\<close>

text \<open>
  When barrier mode starts and ends. It starts only for a pending vsync task in a queue
  that is not lazy, after the delay and the interval since the last vsync task have passed;
  \<open>CheckBarrierMode\<close> ends it only after the time out, and then the queue is lazy.
\<close>

lemma barrier_mode_transitions:
  "let q1 = CheckBarrierMode sp now q
   in (\<not> q_isBarrierMode q \<and> q_isBarrierMode q1 \<longleftrightarrow>
      \<not> q_isBarrierMode q \<and> q_sumOfPendingVsync q \<noteq> 0 \<and>
      (now < q_vsyncFirstForceEnableEndTime q \<or> \<not> q_isLazyMode q) \<and>
      GetVsyncTaskDelayTime sp q1 < now \<and>
      q_vsyncCompleteTime q + p_vsync_interval_ms sp * MS < now) \<and>
    (q_isBarrierMode q \<and> \<not> q_isBarrierMode q1 \<longleftrightarrow>
      q_isBarrierMode q \<and> q_needEpoll q \<and>
      q_enterBarrierTime q + p_vsync_barrier_timeout sp * MS < now) \<and>
    (q_isBarrierMode q \<and> \<not> q_isBarrierMode q1 \<longrightarrow> q_isLazyMode q1)"
  unfolding CheckBarrierMode_def Let_def
  by (auto simp: SetBarrierMode_def GetVsyncTaskDelayTime_def)

text \<open>
  C25. In barrier mode only barrier tasks and pending vsync tasks leave the queue.
\<close>

theorem barrier_mode_holds_back:
  assumes "queue_reach sp wd q" "q_isBarrierMode q" "GetExpiredEvent now nx q = (Some e, t, q')"
  shows "(ev_isBarrier e \<and> ev_handleTime e \<le> now) \<or> (ev_isVsync e \<and> q_sumOfPendingVsync q \<noteq> 0)"
proof -
  have wf: "queue_wf q" using queue_reach_inv [OF assms(1)] by blast
  from GetExpired_Some [OF assms(3) [unfolded GetExpiredEvent_def] wf] assms(2) show ?thesis
    by (auto simp: handed_out_ok_def eligible_def)
qed

definition barrier_example :: event_queue_base where
  \<comment> \<open>barrier mode was entered for a pending vsync task; a plain and a barrier task are left\<close>
  "barrier_example = snd (GetEvent_iter default_params small_world (quiet_round 60000000)
     (fold (apply_op default_params small_world)
       [DoInsert 10 0 ((task_at 12)\<lparr>ev_isBarrier := True\<rparr>) LOW AT_END NO_BARRIER,
        DoInsert 10 0 ((task_at 13)\<lparr>ev_isBarrier := True\<rparr>) LOW AT_END NO_BARRIER,
        DoSetVsyncLazyMode False]
       (queue_with [(VIP, vsync_at 9000000000), (HIGH, task_at 11)])))"

lemma barrier_example_reach: "queue_reach default_params small_world barrier_example"
  unfolding barrier_example_def fold.simps comp_def id_apply
  by (rule queue_reach.iteration [OF _ prod.collapse [symmetric]])
    (intro queue_reach.operation queue_with_reach)

theorem barrier_mode_holds_back_witness:
  "\<exists>e. fst (GetExpiredEvent 60000001 0 barrier_example) = Some e \<and> ev_isBarrier e \<and> ev_handleTime e = 13"
proof -
  have f: "q_isBarrierMode barrier_example"
    "fst (GetExpiredEvent 60000001 0 barrier_example) = Some ((task_at 13)\<lparr>ev_isBarrier := True, ev_priority := 3\<rparr>)"
    "\<not> ev_isVsync ((task_at 13)\<lparr>ev_isBarrier := True, ev_priority := 3\<rparr>)"
    "ev_handleTime ((task_at 13)\<lparr>ev_isBarrier := True, ev_priority := 3\<rparr>) = 13"
    by code_simp+
  obtain a t q' where g: "GetExpiredEvent 60000001 0 barrier_example = (a, t, q')" by (metis prod_cases3)
  with f(2) have "GetExpiredEvent 60000001 0 barrier_example =
      (Some ((task_at 13)\<lparr>ev_isBarrier := True, ev_priority := 3\<rparr>), t, q')" by simp
  from barrier_mode_holds_back [OF barrier_example_reach f(1) this] f show ?thesis by blast
qed

text \<open>
  \<open>UpdateVsyncCheckTime\<close> schedules the next vsync check in phase with the frames: between
  one delay and one delay plus a period from now, a delay after a multiple of the period
  from the last frame.
\<close>

lemma vsync_check_is_in_phase:
  assumes "0 < period"
  shows "let c = q_vsyncCheckTime (UpdateVsyncCheckTime now lastFrameTime period q)
    in now + CHECK_VSYNC_DELAY_NS \<le> c \<and> c \<le> now + CHECK_VSYNC_DELAY_NS + period \<and>
       (c - CHECK_VSYNC_DELAY_NS - lastFrameTime) mod period = 0"
proof (cases "lastFrameTime > now")
  case True
  let ?d = "lastFrameTime - now"
  have "(now + ?d mod period - lastFrameTime) mod period = (?d mod period - ?d) mod period" by (simp add: algebra_simps)
  also have "\<dots> = 0" by (simp add: mod_simps)
  finally show ?thesis
    using True assms pos_mod_bound [OF assms, of ?d] by (simp add: UpdateVsyncCheckTime_def Let_def less_imp_le)
next
  case False
  let ?d = "now - lastFrameTime"
  have "(now + period - ?d mod period - lastFrameTime) mod period = (period + (?d - ?d mod period)) mod period"
    by (simp add: algebra_simps)
  also have "\<dots> = 0" by (simp add: mod_simps minus_mod_eq_mult_div)
  finally show ?thesis
    using False assms pos_mod_bound [OF assms, of ?d] pos_mod_sign [OF assms, of ?d]
    by (simp add: UpdateVsyncCheckTime_def Let_def algebra_simps)
qed

end
