(* ===== verification/Queue_Contents.thy ===== *)
theory Queue_Contents
  imports Queue_Updates
begin

text \<open>
  Properties of insertion and removal, and of what wakes the consumer of a queue.
\<close>

section \<open>Insertion\<close>

text \<open>
  Insertion at the end is stable: the event goes behind all events of its priority that
  are not later and before all later ones, and no other list changes.
\<close>

lemma insert_is_stable:
  assumes "queue_reach sp wd q" "q_usable q" "prio \<in> {VIP, IMMEDIATE, HIGH, LOW}"
    and "Insert sp wd now c (Some e) prio AT_END op q = (ok, q')"
  shows "ok \<and>
    sq_queue (sub q' (prio_index prio)) =
      insert_stable (sq_queue (sub q (prio_index prio))) (stored_event wd op (q_vsyncPolicy q) prio e) \<and>
    (\<forall>i. i \<noteq> prio_index prio \<longrightarrow> sq_queue (sub q' i) = sq_queue (sub q i)) \<and>
    b_idleEvents q' = b_idleEvents q"
proof -
  have wf: "queue_wf q" using queue_reach_inv [OF assms(1)] by blast
  let ?e = "stored_event wd op (q_vsyncPolicy q) prio e"
  let ?i = "prio_index prio"
  have i: "?i < 4" using assms(3) by auto
  have len: "?i < length (b_subEventQueues q)" using i wf by (simp add: queue_wf_length)
  have ok: ok using Insert_result [of sp wd now c "Some e" prio AT_END op q] assms(2,4) by simp
  have "same_lists (put_event prio ?e AT_END q) q'"
    using Insert_lists [where q = q and prio = prio and wd = wd and op = op and e = e and it = AT_END
        and sp = sp and now = now and c = c] assms(2,4) by simp
  then have q': "same_lists (insert_sub ?i ?e AT_END q) q'" using put_event_sub [OF assms(3)] by simp
  have "sq_queue (sub (insert_sub ?i ?e AT_END q) ?i) = InsertEventsLocked (sq_queue (sub q ?i)) ?e AT_END"
    using len by (simp add: insert_sub_def sub_map_sub with_queue_def)
  also have "\<dots> = insert_stable (sq_queue (sub q ?i)) ?e"
    using queue_wf_sorted [OF wf i] by (simp add: InsertEventsLocked_def insert_walk_stable)
  finally have "sq_queue (sub q' ?i) = insert_stable (sq_queue (sub q ?i)) ?e" using q' by simp
  moreover have "sq_queue (sub q' j) = sq_queue (sub q j)" if "j \<noteq> ?i" for j
    using q' that len by (simp add: insert_sub_def sub_map_sub)
  moreover have "b_idleEvents q' = b_idleEvents q" using q' by (simp add: insert_sub_def)
  ultimately show ?thesis using ok by blast
qed

text \<open>
  A number that is no priority makes \<open>Insert\<close> drop the event: it still returns true, but
  the content of the queue is the same, so the event is lost without an error.
\<close>

lemma insert_with_unknown_priority_loses_event:
  assumes "q_usable q" "4 < n"
    and "Insert sp wd now c (Some e) (prio_cast n) it op q = (ok, q')"
  shows "ok \<and> content q' = content q"
proof -
  have "prio_cast n = OtherPriority n" using assms(2) by (auto simp: prio_cast_def)
  with Insert_lists [where q = q and prio = "prio_cast n" and wd = wd and op = op and e = e and it = it
      and sp = sp and now = now and c = c] assms(1,3)
  have "same_lists q q'" by (simp add: put_event_def)
  from content_same [OF this] show ?thesis
    using Insert_result [of sp wd now c "Some e" "prio_cast n" it op q] assms(1,3) by simp
qed

text \<open>
  C26. What wakes the consumer: inserting into a sub queue notifies the IO waiter exactly when
  the event is earlier than the time the consumer sleeps until, when that time has passed, or
  when it is a vsync task; inserting an idle event never notifies.
\<close>

theorem insert_wakes_consumer:
  assumes "q_usable q" "Insert sp wd now c (Some e) prio it op q = (ok, q')"
    and "prio \<in> {VIP, IMMEDIATE, HIGH, LOW, IDLE}"
  shows "q_ioWaiter q' =
    (if prio \<noteq> IDLE \<and> (ev_isVsync e \<or> ev_handleTime e < b_wakeUpTime q \<or> b_wakeUpTime q < now)
     then io_NotifyOne (q_ioWaiter q) else q_ioWaiter q)"
proof -
  have t: "q_ioWaiter (snd (TryExecuteObserverCallback n c' t st x)) = q_ioWaiter x" for n c' t st x
    by (auto simp: TryExecuteObserverCallback_def notify_observer_def Let_def split: event_runner_stage.split)
  have "q_ioWaiter q' = q_ioWaiter (snd (Insert sp wd now c (Some e) prio it op q))" using assms(2) by simp
  then show ?thesis using assms(1,3)
    by (elim insertE) (simp_all add: Insert_def Let_def insert_sub_def map_sub_def
        DispatchVsyncTaskNotify_def t case_prod_unfold)
qed

theorem insert_wakes_consumer_witness:
  "q_ioWaiter (snd (Insert default_params small_world 10 0 (Some (task_at 10)) HIGH AT_END NO_BARRIER (queue_with []))) =
     io_NotifyOne (q_ioWaiter (queue_with []))"
proof -
  obtain ok q' where g: "Insert default_params small_world 10 0 (Some (task_at 10)) HIGH AT_END NO_BARRIER
      (queue_with []) = (ok, q')" by fastforce
  have "q_usable (queue_with [])" "ev_handleTime (task_at 10) < b_wakeUpTime (queue_with [])" by code_simp+
  with insert_wakes_consumer [OF _ g] g show ?thesis by simp
qed

section \<open>Removal\<close>

text \<open>
  C28. Removing by owner, by id, by id and parameter and by name takes out exactly the
  matching events of the owner's handler id and keeps the others in order; removing by name
  also returns whether an event matched.
\<close>

theorem remove_is_exact:
  assumes "q_usable q" "name \<noteq> []"
  shows "queued (Remove_owner sp wd now c (Some h) q) =
      filter (\<lambda>p. ev_ownerId p \<noteq> wd_handlerId wd h) (queued q) \<and>
    queued (Remove_id sp wd now c (Some h) i q) =
      filter (\<lambda>p. HasTask p \<or> ev_ownerId p \<noteq> wd_handlerId wd h \<or> GetInnerEventId p \<noteq> i) (queued q) \<and>
    queued (Remove_id_param sp wd now c (Some h) i param q) =
      filter (\<lambda>p. HasTask p \<or> ev_ownerId p \<noteq> wd_handlerId wd h \<or> GetInnerEventId p \<noteq> i \<or> ev_param p \<noteq> param) (queued q) \<and>
    queued (snd (Remove_name sp wd now c (Some h) name q)) =
      filter (\<lambda>p. \<not> HasTask p \<or> ev_ownerId p \<noteq> wd_handlerId wd h \<or> ev_taskName p \<noteq> name) (queued q) \<and>
    (fst (Remove_name sp wd now c (Some h) name q) \<longleftrightarrow>
      queued (snd (Remove_name sp wd now c (Some h) name q)) \<noteq> queued q)"
proof -
  have q: "queued (Remove_filter sp now c P q) = filter (\<lambda>e. \<not> P e) (queued q)" for P
    using assms(1) by (simp add: Remove_filter_queued)
  let ?P = "\<lambda>p. HasTask p \<and> ev_ownerId p = wd_handlerId wd h \<and> ev_taskName p = name"
  have "(\<exists>p\<in>set (queued q). ?P p) \<longleftrightarrow> filter (\<lambda>e. \<not> ?P e) (queued q) \<noteq> queued q"
    by (auto simp: filter_id_conv)
  then show ?thesis
    using assms unfolding Remove_owner_def Remove_id_def Remove_id_param_def Remove_name_def
    by (simp add: q Let_def)
qed

theorem remove_is_exact_witness:
  "fst (Remove_name default_params small_world 10 0 (Some 1) ''t'' (queue_with [(HIGH, task_at 10)])) \<and>
   queued (snd (Remove_name default_params small_world 10 0 (Some 1) ''t'' (queue_with [(HIGH, task_at 10)]))) = []"
proof -
  let ?q = "queue_with [(HIGH, task_at 10)]"
  have u: "q_usable ?q"
    and f: "filter (\<lambda>p. \<not> HasTask p \<or> ev_ownerId p \<noteq> wd_handlerId small_world 1 \<or> ev_taskName p \<noteq> ''t'') (queued ?q) = []"
      "queued ?q \<noteq> []" by code_simp+
  have n: "''t'' \<noteq> []" by simp
  from remove_is_exact [OF u n, of default_params small_world 10 0 1] f show ?thesis by simp
qed

lemma RemoveFileDescriptorListenerLocked_filter:
  "fst (RemoveFileDescriptorListenerLocked sp wd k kd f u ls w d) = filter (\<lambda>e. \<not> f (snd e)) ls"
proof (induction ls arbitrary: w d)
  case (Cons e ls)
  then show ?case by (cases e) (simp add: Let_def case_prod_unfold)
qed simp

text \<open>
  C29. \<open>RemoveOrphan\<close> leaves no orphan: afterwards every event in the queue has a live owner,
  no other event was removed, and every listener that is left has a live owner.
\<close>

theorem remove_orphan_leaves_no_orphan:
  assumes "q_usable q" "RemoveOrphan sp wd k kd now c (q, d) = (q', d')"
  shows "content q' = filter_mset (\<lambda>e. GetOwner (wd_alive wd) e \<noteq> None) (content q) \<and>
    q_listeners q' = filter (\<lambda>l. Listener_GetOwner (wd_alive wd) (wd_listeners wd (snd l)) \<noteq> None) (q_listeners q)"
proof -
  let ?q1 = "RemoveOrphan_filter sp wd now c q"
  have c: "content ?q1 = filter_mset (\<lambda>e. \<not> owner_expired (wd_alive wd) e) (content q)"
    using content_same [OF RemoveOrphan_filter_lists [where q = q and wd = wd and sp = sp and now = now and c = c]]
      assms(1) by (simp add: drop_events_content)
  have l: "q_listeners (fold (orphan_effect wd now) es q0) = q_listeners q0 \<and>
      q_usable (fold (orphan_effect wd now) es q0) = q_usable q0" for es q0
    by (induction es arbitrary: q0) (simp_all add: orphan_effect_def SetBarrierMode_def HandleVsyncTaskNotify_def)
  have t: "q_listeners (snd (TryExecuteObserverCallback n' c' t st x)) = q_listeners x" for n' c' t st x
    by (auto simp: TryExecuteObserverCallback_def notify_observer_def Let_def split: event_runner_stage.split)
  have n: "q_listeners (NotifyObserverVipDoneBase now c q0) = q_listeners q0" for q0
    by (simp add: NotifyObserverVipDoneBase_def t)
  have q1: "q_listeners ?q1 = q_listeners q" "q_usable ?q1"
    using assms(1) l by (simp_all add: RemoveOrphan_filter_def Let_def n drop_events_def)
  from assms(2) q1 have "q' = fst (RemoveInvalidFileDescriptor sp wd k kd (?q1, d))"
    by (simp add: RemoveOrphan_def)
  then have "same_lists ?q1 q'" "q_listeners q' =
      filter (\<lambda>l. Listener_GetOwner (wd_alive wd) (wd_listeners wd (snd l)) \<noteq> None) (q_listeners ?q1)"
    by (simp_all add: RemoveInvalidFileDescriptor_def remove_listeners_def Let_def case_prod_unfold
        RemoveFileDescriptorListenerLocked_filter)
  with content_same [of q' ?q1] c q1 show ?thesis by (simp add: owner_expired_def)
qed

theorem remove_orphan_leaves_no_orphan_witness:
  "content (fst (RemoveOrphan default_params (small_world\<lparr>wd_alive := \<lambda>_. False\<rparr>) good_kernel good_kernel 10 0
      (queue_with [(HIGH, task_at 10)], new_deamon))) = {#}"
proof -
  let ?wd = "small_world\<lparr>wd_alive := \<lambda>_. False\<rparr>"
  obtain q' d' where g: "RemoveOrphan default_params ?wd good_kernel good_kernel 10 0
      (queue_with [(HIGH, task_at 10)], new_deamon) = (q', d')"
    by fastforce
  have u: "q_usable (queue_with [(HIGH, task_at 10)])"
    and f: "filter (\<lambda>e. GetOwner (wd_alive ?wd) e \<noteq> None) (queued (queue_with [(HIGH, task_at 10)])) = []"
    by code_simp+
  from f have "filter_mset (\<lambda>e. GetOwner (wd_alive ?wd) e \<noteq> None) (content (queue_with [(HIGH, task_at 10)])) = {#}"
    unfolding content_def by (metis mset_filter mset_zero_iff)
  with remove_orphan_leaves_no_orphan [OF u g] g show ?thesis by simp
qed

section \<open>Idle events and the observer\<close>

text \<open>
  A delayed idle event alone never wakes its thread: when the sub queues are empty and no
  observer of \<open>STAGE_BEFORE_WAITING\<close> is registered, \<open>GetEvent\<close> waits until the largest time
  point, whatever the handle times of the events in the idle list are.
\<close>

lemma idle_event_does_not_wake:
  assumes "queue_reach sp wd q" "GetEvent_iter sp wd r q = (Waited next1 cbs, q')"
    and "r_now r < TIME_MAX" "\<not> q_isBarrierMode q" "\<not> ob_notifyCb (q_observer q)" "pending q = {}"
  shows "next1 = TIME_MAX"
proof -
  have wf: "queue_wf q" using queue_reach_inv [OF assms(1)] by blast
  from waited_time [OF assms(2) wf assms(3,4)] assms(5,6) show ?thesis by auto
qed

text \<open>
  An observer of \<open>STAGE_BEFORE_WAITING\<close> makes events late: the time its callback took is
  added to the absolute wake-up time, so the thread sleeps until that much after the handle
  time of the earliest event.
\<close>

lemma observer_call_postpones_wakeup:
  assumes "queue_reach sp wd q" "GetEvent_iter sp wd r q = (Waited next1 cbs, q')"
    and "r_now r < TIME_MAX" "\<not> q_isBarrierMode q" "ob_notifyCb (q_observer q)"
    and "stage_bits STAGE_BEFORE_WAITING AND ob_stages (q_observer q) = stage_bits STAGE_BEFORE_WAITING"
    and "e0 \<in> pending q" "ev_handleTime e0 < TIME_MAX"
  shows "\<exists>e\<in>pending q. (\<forall>e'\<in>pending q. ev_handleTime e \<le> ev_handleTime e') \<and>
    next1 = ev_handleTime e + r_consumerBefore r * MS"
proof -
  have wf: "queue_wf q" using queue_reach_inv [OF assms(1)] by blast
  from waited_time [OF assms(2) wf assms(3,4)] obtain t where
    t: "\<forall>e\<in>pending q. t \<le> ev_handleTime e" "t = TIME_MAX \<or> (\<exists>e\<in>pending q. t = ev_handleTime e)"
      "next1 = (if t < TIME_MAX then t + r_consumerBefore r * MS else t)" using assms(5,6) by auto
  have "t < TIME_MAX" using t(1) assms(7,8) by fastforce
  with t show ?thesis by auto
qed

end
