(* ===== verification/Queue_History.thy ===== *)
theory Queue_History
  imports Queue_Contents
begin

text \<open>
  The parts of \<open>event_queue_base.cpp\<close> that report on the queue: the ring of the last
  \<open>HISTORY_EVENT_NUM_POWER\<close> distributed events, the dumps, \<open>QueryPendingTaskInfo\<close> and
  \<open>GetQueueFirstEventHandleTime\<close>. A \<open>Dumper\<close> is its tag, and a dump is the list of the strings
  that are handed to it; \<open>fmt\<close> stands for \<open>DumpTimeToString\<close>.
\<close>

section \<open>The ring of distributed events\<close>

definition PushHistoryQueueBeforeDistribute ::
  "time \<Rightarrow> time \<Rightarrow> inner_event option \<Rightarrow> event_queue_base \<Rightarrow> event_queue_base" where
  \<comment> \<open>the two clock readings of the function\<close>
  "PushHistoryQueueBeforeDistribute now1 now2 event q =
     (case event of
        None \<Rightarrow> q
      | Some e \<Rightarrow>
          let i = unat (b_historyEventIndex q);
              h = (b_historyEvents q ! i)\<lparr>h_senderKernelThreadId := ev_senderKernelThreadId e,
                    h_sendTime := ev_sendTime e, h_handleTime := ev_handleTime e,
                    h_triggerTime := now1, h_priority := ev_priority e, h_completeTime := TIME_MAX,
                    h_callerInfo := Caller_ToString (ev_caller e)\<rparr>;
              h' = (if HasTask e then h\<lparr>h_hasTask := True, h_taskName := ev_taskName e\<rparr>
                    else h\<lparr>h_innerEventId := ev_innerEventId e\<rparr>)
          in q\<lparr>b_historyEvents := (b_historyEvents q)[i := h'],
               b_currentRunningEvent := (b_currentRunningEvent q)\<lparr>cr_triggerTime := now2\<rparr>\<rparr>)"

definition PushHistoryQueueAfterDistribute :: "time \<Rightarrow> event_queue_base \<Rightarrow> event_queue_base" where
  "PushHistoryQueueAfterDistribute now q =
     (let i = unat (b_historyEventIndex q)
      in q\<lparr>b_historyEvents := (b_historyEvents q)[i := (b_historyEvents q ! i)\<lparr>h_completeTime := now\<rparr>],
           b_historyEventIndex := (b_historyEventIndex q + 1) AND (word_of_nat HISTORY_EVENT_NUM_POWER - 1)\<rparr>)"

definition ring_wf :: "event_queue_base \<Rightarrow> bool" where
  "ring_wf q \<longleftrightarrow> length (b_historyEvents q) = HISTORY_EVENT_NUM_POWER \<and>
     unat (b_historyEventIndex q) < HISTORY_EVENT_NUM_POWER"

lemma ring_index_step:
  assumes "unat (i :: u8) < 32"
  shows "unat ((i + 1) AND 31) = (unat i + 1) mod 32"
proof -
  have "unat ((i + 1) AND mask 5) = unat (i + 1) mod 2 ^ 5"
    by (simp only: unsigned_take_bit_eq take_bit_eq_mask [symmetric]) (simp add: take_bit_eq_mod)
  moreover have "unat (i + 1) = unat i + 1"
    using assms by (simp add: unat_word_ariths)
  moreover have "(mask 5 :: u8) = 31" by (simp add: mask_eq_exp_minus_1)
  ultimately show ?thesis by simp
qed

lemma HISTORY_mask: "(word_of_nat HISTORY_EVENT_NUM_POWER :: u8) - 1 = 31"
  by (simp add: HISTORY_EVENT_NUM_POWER_def)

text \<open>What one event leaves in a slot whose old value is \<open>h\<close>, and the ring after a whole event.\<close>

definition history_of :: "time \<Rightarrow> time \<Rightarrow> inner_event \<Rightarrow> history_event \<Rightarrow> history_event" where
  "history_of trigger complete e h =
     \<lparr>h_senderKernelThreadId = ev_senderKernelThreadId e,
      h_taskName = (if HasTask e then ev_taskName e else h_taskName h),
      h_innerEventId = (if HasTask e then h_innerEventId h else ev_innerEventId e),
      h_hasTask = (HasTask e \<or> h_hasTask h), h_sendTime = ev_sendTime e,
      h_handleTime = ev_handleTime e, h_triggerTime = trigger, h_completeTime = complete,
      h_priority = ev_priority e, h_callerInfo = Caller_ToString (ev_caller e)\<rparr>"

definition distributed :: "time \<times> time \<times> inner_event \<Rightarrow> event_queue_base \<Rightarrow> event_queue_base" where
  \<comment> \<open>the two calls around the distribution of one event\<close>
  "distributed x q = (case x of (t, c, e) \<Rightarrow>
     PushHistoryQueueAfterDistribute c (PushHistoryQueueBeforeDistribute t t (Some e) q))"

lemma distributed_ring:
  assumes "ring_wf q"
  shows "b_historyEvents (distributed (t, c, e) q) =
      (b_historyEvents q)[unat (b_historyEventIndex q) :=
         history_of t c e (b_historyEvents q ! unat (b_historyEventIndex q))]"
    and "unat (b_historyEventIndex (distributed (t, c, e) q)) = (unat (b_historyEventIndex q) + 1) mod 32"
    and "ring_wf (distributed (t, c, e) q)"
proof -
  let ?i = "unat (b_historyEventIndex q)"
  have i: "?i < length (b_historyEvents q)" "?i < 32" "length (b_historyEvents q) = 32"
    using assms by (simp_all add: ring_wf_def HISTORY_EVENT_NUM_POWER_def)
  show 1: "b_historyEvents (distributed (t, c, e) q) =
      (b_historyEvents q)[?i := history_of t c e (b_historyEvents q ! ?i)]"
    using i by (cases "b_historyEvents q ! ?i") (simp add: distributed_def
        PushHistoryQueueAfterDistribute_def PushHistoryQueueBeforeDistribute_def Let_def history_of_def)
  show 2: "unat (b_historyEventIndex (distributed (t, c, e) q)) = (?i + 1) mod 32"
    using i by (simp add: distributed_def PushHistoryQueueAfterDistribute_def
        PushHistoryQueueBeforeDistribute_def Let_def HISTORY_mask ring_index_step)
  from 1 2 i show "ring_wf (distributed (t, c, e) q)"
    by (simp add: ring_wf_def HISTORY_EVENT_NUM_POWER_def)
qed

lemma distributed_fold:
  "ring_wf q \<Longrightarrow> ring_wf (fold distributed xs q) \<and>
     unat (b_historyEventIndex (fold distributed xs q)) = (unat (b_historyEventIndex q) + length xs) mod 32"
proof (induction xs arbitrary: q)
  case Nil
  then show ?case by (simp add: ring_wf_def HISTORY_EVENT_NUM_POWER_def)
next
  case (Cons x xs)
  obtain t c e where x: "x = (t, c, e)" by (cases x)
  from Cons.IH [OF distributed_ring(3) [OF Cons.prems, of t c e]] distributed_ring(2) [OF Cons.prems, of t c e]
  show ?case unfolding x by (simp add: mod_simps)
qed

lemma distributed_keeps_slot:
  "ring_wf q \<Longrightarrow> k < 32 \<Longrightarrow> (\<forall>j<length xs. k \<noteq> (unat (b_historyEventIndex q) + j) mod 32) \<Longrightarrow>
     b_historyEvents (fold distributed xs q) ! k = b_historyEvents q ! k"
proof (induction xs arbitrary: q)
  case Nil
  then show ?case by simp
next
  case (Cons x xs)
  obtain t c e where x: "x = (t, c, e)" by (cases x)
  let ?q = "distributed (t, c, e) q"
  have i: "unat (b_historyEventIndex q) < 32" using Cons.prems(1) by (simp add: ring_wf_def HISTORY_EVENT_NUM_POWER_def)
  have k: "k \<noteq> unat (b_historyEventIndex q)" using spec [OF Cons.prems(3), of 0] i by simp
  have "k \<noteq> (unat (b_historyEventIndex ?q) + j) mod 32" if "j < length xs" for j
    using spec [OF Cons.prems(3), of "Suc j"] that distributed_ring(2) [OF Cons.prems(1), of t c e]
    by (simp add: mod_simps)
  with Cons.IH [OF distributed_ring(3) [OF Cons.prems(1), of t c e] Cons.prems(2)]
  have "b_historyEvents (fold distributed xs ?q) ! k = b_historyEvents ?q ! k" by blast
  with k show ?case by (simp add: x distributed_ring(1) [OF Cons.prems(1)])
qed

section \<open>Dumps\<close>

definition DumpCurrentRunningEventId :: "event_id \<Rightarrow> string \<Rightarrow> string" where
  [eh_defs]: "DumpCurrentRunningEventId ident c = c @ '', id = '' @ event_id_string ident"

definition HistoryQueueDump :: "(time \<Rightarrow> string) \<Rightarrow> history_event \<Rightarrow> string" where
  "HistoryQueueDump fmt h =
     (let prioritys = [''VIP'', ''Immediate'', ''High'', ''Low'', ''IDEL''];
          content = ''Event { '' @ ''send thread = '' @ to_string_nat (unat (h_senderKernelThreadId h)) @
            '', send time = '' @ fmt (h_sendTime h) @ '', handle time = '' @ fmt (h_handleTime h) @
            '', trigger time = '' @ fmt (h_triggerTime h) @
            (if h_completeTime h = TIME_MAX then '', completeTime time = ''
             else '', completeTime time = '' @ fmt (h_completeTime h)) @
            (if h_priority h \<ge> 0 \<and> h_priority h < int (length prioritys)
             then '', priority = '' @ prioritys ! nat (h_priority h)
             else '', priority = '');
          content = (if h_hasTask h then content @ '', task name = '' @ h_taskName h
                     else DumpCurrentRunningEventId (h_innerEventId h) content)
      in content @ '', caller = '' @ h_callerInfo h @ '' }'' @ LINE_SEPARATOR)"

definition DumpCurrentRunning ::
  "(time \<Rightarrow> string) \<Rightarrow> (handler_ref \<Rightarrow> bool) \<Rightarrow> event_queue_base \<Rightarrow> string" where
  "DumpCurrentRunning fmt alive q =
     (let cr = b_currentRunningEvent q
      in if cr_beginTime cr = TIME_MAX then ''{}''
         else ''start at '' @ fmt (cr_beginTime cr) @ '', '' @ ''Event { '' @
           (if (case cr_owner cr of None \<Rightarrow> False | Some h \<Rightarrow> alive h) then
              (let content = ''send thread = '' @ to_string_nat (unat (cr_senderKernelThreadId cr)) @
                 '', send time = '' @ fmt (cr_sendTime cr) @ '', handle time = '' @ fmt (cr_handleTime cr) @
                 '', trigger time = '' @ fmt (cr_triggerTime cr);
                   content = (if cr_hasTask cr then content @ '', task name = '' @ cr_taskName cr
                              else DumpCurrentRunningEventId (cr_innerEventId cr) content)
               in content @ (if cr_param cr \<noteq> 0 then '', param = '' @ to_string_int (cr_param cr) else []) @
                  '', caller = '' @ cr_callerInfo cr)
            else ''No handler'') @ '' }'')"

definition priority_names :: "string list" where
  [eh_defs]: "priority_names = [''VIP'', ''Immediate'', ''High'', ''Low'']"

fun dump_events :: "string \<Rightarrow> (inner_event \<Rightarrow> string) \<Rightarrow> u32 \<Rightarrow> nat \<Rightarrow> u32 \<Rightarrow> inner_event list \<Rightarrow> string list \<times> u32" where
  \<comment> \<open>one of the inner loops of \<open>DumpCurentQueueInfo\<close>: \<open>n\<close> and \<open>total\<close> are its counters\<close>
  "dump_events tag dump dumpMaxSize n tot [] = ([], tot)"
| "dump_events tag dump dumpMaxSize n tot (e # es) =
     (let line = tag @ '' No.'' @ to_string_nat (Suc n) @ '' : '' @ dump e;
          (rest, tot') = dump_events tag dump dumpMaxSize (Suc n) (tot + 1) es
      in (if tot < dumpMaxSize then line # rest else rest, tot'))"

fun dump_subs :: "string \<Rightarrow> (inner_event \<Rightarrow> string) \<Rightarrow> u32 \<Rightarrow> u32 \<Rightarrow> (string \<times> inner_event list) list \<Rightarrow> string list \<times> u32" where
  "dump_subs tag dump dumpMaxSize tot [] = ([], tot)"
| "dump_subs tag dump dumpMaxSize tot ((name, es) # subs) =
     (let (lines, tot') = dump_events tag dump dumpMaxSize 0 tot es;
          (rest, tot'') = dump_subs tag dump dumpMaxSize tot' subs
      in ([tag @ '' '' @ name @ '' priority event queue information:'' @ LINE_SEPARATOR] @ lines @
          [tag @ '' Total size of '' @ name @ '' events : '' @ to_string_nat (length es) @ LINE_SEPARATOR] @ rest,
          tot''))"

definition DumpCurentQueueInfo ::
  "(time \<Rightarrow> string) \<Rightarrow> (handler_ref \<Rightarrow> bool) \<Rightarrow> string \<Rightarrow> u32 \<Rightarrow> event_queue_base \<Rightarrow> string list" where
  \<comment> \<open>a sub queue holds fewer than \<open>2 ^ 31\<close> events, so its own counter \<open>n\<close> does not wrap\<close>
  "DumpCurentQueueInfo fmt alive tag dumpMaxSize q =
     (let dump = InnerEvent_Dump fmt alive;
          (lines, tot) = dump_subs tag dump dumpMaxSize 0 (zip priority_names (map sq_queue (b_subEventQueues q)));
          (idle, tot') = dump_events tag dump dumpMaxSize 0 tot (b_idleEvents q)
      in lines @ [tag @ '' Idle priority event queue information:'' @ LINE_SEPARATOR] @ idle @
         [tag @ '' Total size of Idle events : '' @ to_string_nat (length (b_idleEvents q)) @ LINE_SEPARATOR,
          tag @ '' Total event size : '' @ to_string_nat (unat tot') @ LINE_SEPARATOR])"

definition MAX_DUMP_SIZE :: u32 where [eh_defs]: "MAX_DUMP_SIZE = 500"

definition history_lines :: "(time \<Rightarrow> string) \<Rightarrow> string \<Rightarrow> event_queue_base \<Rightarrow> string list" where
  \<comment> \<open>the loop of \<open>Dump\<close> over the ring, without the slots that were never used\<close>
  "history_lines fmt tag q =
     concat (map (\<lambda>i. if h_senderKernelThreadId (b_historyEvents q ! i) = 0 then []
                       else [tag @ '' No. '' @ to_string_nat i @ '' : '' @ HistoryQueueDump fmt (b_historyEvents q ! i)])
       [0..<HISTORY_EVENT_NUM_POWER])"

definition Dump ::
  "(time \<Rightarrow> string) \<Rightarrow> (handler_ref \<Rightarrow> bool) \<Rightarrow> string \<Rightarrow> event_queue_base \<Rightarrow> string list" where
  "Dump fmt alive tag q =
     (if \<not> q_usable q then []
      else
        let hist = history_lines fmt tag q
        in [tag @ '' Current Running: '' @ DumpCurrentRunning fmt alive q @ LINE_SEPARATOR,
            tag @ '' History event queue information:'' @ LINE_SEPARATOR] @ hist @
           DumpCurentQueueInfo fmt alive tag (MAX_DUMP_SIZE - word_of_nat (length hist)) q)"

fun queue_info_events :: "(inner_event \<Rightarrow> string) \<Rightarrow> nat \<Rightarrow> inner_event list \<Rightarrow> string" where
  "queue_info_events dump n [] = []"
| "queue_info_events dump n (e # es) =
     ''            No.'' @ to_string_nat (Suc n) @ '' : '' @ dump e @ queue_info_events dump (Suc n) es"

fun queue_info_subs :: "(inner_event \<Rightarrow> string) \<Rightarrow> (string \<times> inner_event list) list \<Rightarrow> string" where
  "queue_info_subs dump [] = []"
| "queue_info_subs dump ((name, es) # subs) =
     ''            '' @ name @ '' priority event queue:'' @ LINE_SEPARATOR @ queue_info_events dump 0 es @
     ''              Total size of '' @ name @ '' events : '' @ to_string_nat (length es) @ LINE_SEPARATOR @
     queue_info_subs dump subs"

definition DumpQueueInfo ::
  "(time \<Rightarrow> string) \<Rightarrow> (handler_ref \<Rightarrow> bool) \<Rightarrow> event_queue_base \<Rightarrow> string \<Rightarrow> string" where
  \<comment> \<open>\<open>total\<close> is a \<open>uint32_t\<close> that counts every event\<close>
  "DumpQueueInfo fmt alive q queueInfo =
     (if \<not> q_usable q then queueInfo
      else
        let dump = InnerEvent_Dump fmt alive;
            tot = word_of_nat (length (queued q)) :: u32
        in queueInfo @ queue_info_subs dump (zip priority_names (map sq_queue (b_subEventQueues q))) @
           ''            Idle priority event queue:'' @ LINE_SEPARATOR @ queue_info_events dump 0 (b_idleEvents q) @
           ''              Total size of Idle events : '' @ to_string_nat (length (b_idleEvents q)) @ LINE_SEPARATOR @
           ''            Total event size : '' @ to_string_nat (unat tot))"

definition DumpCurrentQueueSize :: "event_queue_base \<Rightarrow> string" where
  "DumpCurrentQueueSize q =
     (let size_of = (\<lambda>p. to_string_nat (length (sq_queue (sub q (prio_index p)))))
      in ''Current queue size: VIP = '' @ size_of VIP @ '', IMMEDIATE = '' @ size_of IMMEDIATE @
         '', HIGH = '' @ size_of HIGH @ '', LOW = '' @ size_of LOW @
         '', IDLE = '' @ to_string_nat (length (b_idleEvents q)) @ '' ; '')"

definition GetObserverTypeName :: "bool \<Rightarrow> string" where
  \<comment> \<open>whether the observer is \<open>Observer::ARKTS_GC\<close>\<close>
  [eh_defs]: "GetObserverTypeName gc = (if gc then ''ARKTS_GC'' else ''UNKNOWN_TYPE'')"

section \<open>Pending tasks and the first handle time\<close>

record pending_task_info =
  pt_MaxPendingTime :: int
  pt_taskCount :: int

definition new_pending_task_info :: pending_task_info where
  [eh_defs]: "new_pending_task_info = \<lparr>pt_MaxPendingTime = 0, pt_taskCount = 0\<rparr>"

fun pending_info :: "time \<Rightarrow> string \<Rightarrow> inner_event list \<Rightarrow> pending_task_info \<Rightarrow> pending_task_info" where
  \<comment> \<open>the loop of \<open>QueryPendingTaskInfo\<close>\<close>
  "pending_info now name [] info = info"
| "pending_info now name (e # es) info =
     (if ev_taskName e = name then
        let info1 = info\<lparr>pt_taskCount := pt_taskCount info + 1\<rparr>
        in if ev_handleTime e \<ge> now then pending_info now name es info1
           else
             let duration = (now - ev_handleTime e) div MS
             in pending_info now name es
                  (if duration > pt_MaxPendingTime info1
                   then info1\<lparr>pt_MaxPendingTime := sint (word_of_int duration :: u32)\<rparr> else info1)
      else pending_info now name es info)"

definition QueryPendingTaskInfo ::
  "time \<Rightarrow> int \<Rightarrow> event_queue_base \<Rightarrow> deamon_waiter \<Rightarrow> pending_task_info option \<times> pending_task_info" where
  \<comment> \<open>what is written to the log, and the value returned\<close>
  "QueryPendingTaskInfo now fd q d =
     (case (if q_useDeamonIoWaiter q then Deamon_GetFileDescriptorMap fd d
            else io_GetFileDescriptorMap fd (q_ioWaiter q)) of
        None \<Rightarrow> (None, new_pending_task_info)
      | Some info \<Rightarrow>
          if \<not> q_usable q then (None, new_pending_task_info)
          else (Some (pending_info now (fi_taskName info) (sq_queue (sub q 0)) new_pending_task_info),
                new_pending_task_info))"

definition VSYNC_TASK_INTERVAL :: "system_params \<Rightarrow> int" where
  [eh_defs]: "VSYNC_TASK_INTERVAL sp = p_vsync_interval_ms sp * MS"

definition GetQueueFirstEventHandleTime ::
  "system_params \<Rightarrow> u64 \<Rightarrow> nat \<Rightarrow> bool \<Rightarrow> event_queue_base \<Rightarrow> u64" where
  \<comment> \<open>for a priority with a sub queue; times are compared as \<open>uint64_t\<close>\<close>
  "GetQueueFirstEventHandleTime sp now prio onlyCheckVsync q =
     (let invalidation =
        (if onlyCheckVsync
         then q_vsyncPolicy q \<noteq> VSYNC_FIRST_WITHOUT_DEFAULT_BARRIER \<or> q_isLazyMode q \<or> q_isBarrierMode q
         else q_isBarrierMode q)
      in if invalidation then UINT64_MAX
         else
           let t = (if onlyCheckVsync then UINT64_MAX else sq_frontEventHandleTime (sub q prio))
           in if prio = prio_index VIP then
                (let vsyncCheckTime = u64_of_time (q_vsyncCheckTime q)
                 in if q_sumOfPendingVsync q \<noteq> 0 then
                      (let vsyncDelayTime = u64_of_time (GetVsyncTaskDelayTime sp q);
                           vsyncIntervalTime = u64_of_time (q_vsyncCompleteTime q + VSYNC_TASK_INTERVAL sp);
                           vsyncTime = (if vsyncDelayTime < vsyncIntervalTime then vsyncIntervalTime else vsyncDelayTime)
                       in if t < vsyncTime then t else vsyncTime)
                    else if vsyncCheckTime < now
                    then (if t < vsyncCheckTime then t else vsyncCheckTime)
                    else t)
              else t)"

section \<open>Properties\<close>

lemma ring_distinct: "m < 31 \<Longrightarrow> k < 32 \<Longrightarrow> (k + 1 + m) mod 32 \<noteq> (k :: nat)"
  by (cases "k + 1 + m < 32") (auto simp: le_mod_geq)

lemma distributed_slot:
  assumes "ring_wf q" "j < length xs" "length xs \<le> j + 32" "xs ! j = (t, c, e)"
  shows "\<exists>h. b_historyEvents (fold distributed xs q) ! ((unat (b_historyEventIndex q) + j) mod 32) = history_of t c e h"
proof -
  let ?k = "(unat (b_historyEventIndex q) + j) mod 32"
  let ?q1 = "fold distributed (take j xs) q"
  let ?q2 = "distributed (t, c, e) ?q1"
  let ?r = "drop (Suc j) xs"
  have xs: "fold distributed xs q = fold distributed ?r ?q2"
    using assms(2,4) by (subst id_take_nth_drop [OF assms(2)]) simp
  have q1: "ring_wf ?q1" "unat (b_historyEventIndex ?q1) = ?k"
    using distributed_fold [OF assms(1), of "take j xs"] assms(2) by simp_all
  have l: "?k < length (b_historyEvents ?q1)"
    using q1(1) by (simp add: ring_wf_def HISTORY_EVENT_NUM_POWER_def)
  have "?k \<noteq> (unat (b_historyEventIndex ?q2) + m) mod 32" if "m < length ?r" for m
  proof -
    have "m < 31" using that assms(2,3) by simp
    then have "(?k + 1 + m) mod 32 \<noteq> ?k" by (intro ring_distinct) simp_all
    moreover have "(unat (b_historyEventIndex ?q2) + m) mod 32 = (?k + 1 + m) mod 32"
      unfolding distributed_ring(2) [OF q1(1)] q1(2) by (rule mod_add_left_eq)
    ultimately show ?thesis by (simp only: not_sym)
  qed
  then have "b_historyEvents (fold distributed ?r ?q2) ! ?k = b_historyEvents ?q2 ! ?k"
    by (intro distributed_keeps_slot [OF distributed_ring(3) [OF q1(1)]]) simp_all
  moreover have "b_historyEvents ?q2 ! ?k = history_of t c e (b_historyEvents ?q1 ! ?k)"
    using l by (simp add: distributed_ring(1) [OF q1(1)] q1(2))
  ultimately show ?thesis unfolding xs by metis
qed

text \<open>
  C30. The history ring holds the last 32 distributed events: after any number of distributions
  the slot that the \<open>j\<close>-th one was written to still describes that event, unless 32 further
  events have followed, and the index, computed in 8 bits with a mask, stays in the ring.
\<close>

theorem history_ring_holds_last_events:
  assumes "ring_wf q" "j < length xs" "length xs \<le> j + 32" "xs ! j = (t, c, e)"
  shows "ring_wf (fold distributed xs q) \<and>
    (let h = b_historyEvents (fold distributed xs q) ! ((unat (b_historyEventIndex q) + j) mod 32)
     in h_handleTime h = ev_handleTime e \<and> h_triggerTime h = t \<and> h_completeTime h = c \<and>
        h_priority h = ev_priority e \<and> (HasTask e \<longrightarrow> h_hasTask h \<and> h_taskName h = ev_taskName e) \<and>
        (\<not> HasTask e \<longrightarrow> h_innerEventId h = ev_innerEventId e))"
proof -
  from distributed_slot [OF assms] obtain h where
    "b_historyEvents (fold distributed xs q) ! ((unat (b_historyEventIndex q) + j) mod 32) = history_of t c e h" ..
  with distributed_fold [OF assms(1), of xs] show ?thesis by (simp add: history_of_def Let_def)
qed

lemma new_queue_ring: "ring_wf (new_queue now)"
  by (simp add: ring_wf_def new_queue_def event_queue.defs event_queue_base.defs new_event_queue_def
      HISTORY_EVENT_NUM_POWER_def)

theorem history_ring_holds_last_events_witness:
  "h_triggerTime (b_historyEvents (fold distributed (replicate 33 (7, 9, task_at 5)) (new_queue 0)) ! 0) = 7"
proof -
  let ?xs = "replicate 33 (7, 9, task_at 5)"
  have "unat (b_historyEventIndex (new_queue 0)) = 0" by code_simp
  with history_ring_holds_last_events [OF new_queue_ring, of 32 ?xs 7 9 "task_at 5" 0]
  show ?thesis by (simp add: Let_def)
qed

lemma HistoryQueueDump_task:
  "h_hasTask h \<Longrightarrow> HistoryQueueDump fmt (h\<lparr>h_innerEventId := i\<rparr>) = HistoryQueueDump fmt h"
  unfolding HistoryQueueDump_def Let_def by simp

text \<open>
  A reused slot keeps the task of its previous user: \<open>hasTask\<close> is never cleared, so for an
  event without a task the dump still shows the old task name and never the event id.
\<close>

lemma history_slot_keeps_old_task:
  assumes "ring_wf q" "h_hasTask (b_historyEvents q ! unat (b_historyEventIndex q))" "\<not> HasTask e"
  shows "let h = b_historyEvents q ! unat (b_historyEventIndex q);
             h' = b_historyEvents (distributed (t, c, e) q) ! unat (b_historyEventIndex q)
         in h_hasTask h' \<and> h_taskName h' = h_taskName h \<and>
            (\<forall>i. HistoryQueueDump fmt (h'\<lparr>h_innerEventId := i\<rparr>) = HistoryQueueDump fmt h')"
proof -
  have l: "unat (b_historyEventIndex q) < length (b_historyEvents q)"
    using assms(1) by (simp add: ring_wf_def)
  then have "b_historyEvents (distributed (t, c, e) q) ! unat (b_historyEventIndex q) =
      history_of t c e (b_historyEvents q ! unat (b_historyEventIndex q))"
    by (simp add: distributed_ring(1) [OF assms(1)])
  moreover have "h_hasTask (history_of t c e (b_historyEvents q ! unat (b_historyEventIndex q)))"
    "h_taskName (history_of t c e (b_historyEvents q ! unat (b_historyEventIndex q))) =
       h_taskName (b_historyEvents q ! unat (b_historyEventIndex q))"
    using assms(2,3) by (simp_all add: history_of_def)
  ultimately show ?thesis unfolding Let_def using HistoryQueueDump_task by metis
qed

lemma dump_events_length:
  "unat tot + length es < 2 ^ 32 \<Longrightarrow>
     snd (dump_events tag dump mx n tot es) = tot + word_of_nat (length es) \<and>
     length (fst (dump_events tag dump mx n tot es)) + min (unat mx) (unat tot) =
       min (unat mx) (unat tot + length es)"
proof (induction es arbitrary: n tot)
  case Nil
  then show ?case by simp
next
  case (Cons e es)
  have u: "unat (tot + 1) = unat tot + 1" using Cons.prems by (simp add: unat_word_ariths)
  have "unat (tot + 1) + length es < 2 ^ 32" using Cons.prems u by simp
  note ih = Cons.IH [OF this, of "Suc n"]
  let ?l = "length (fst (dump_events tag dump mx (Suc n) (tot + 1) es))"
  from ih u have "?l + min (unat mx) (unat tot + 1) = min (unat mx) (unat tot + 1 + length es)" by simp
  then have "(if unat tot < unat mx then Suc ?l else ?l) + min (unat mx) (unat tot) =
      min (unat mx) (unat tot + length (e # es))" by (cases "unat tot < unat mx") auto
  moreover have "length (fst (dump_events tag dump mx n tot (e # es))) = (if unat tot < unat mx then Suc ?l else ?l)"
    by (simp add: Let_def case_prod_unfold word_less_nat_alt)
  moreover have "snd (dump_events tag dump mx n tot (e # es)) = tot + word_of_nat (length (e # es))"
    using ih by (simp add: Let_def case_prod_unfold)
  ultimately show ?case by (simp only: simp_thms)
qed

lemma dump_subs_length:
  "unat tot + length (concat (map snd subs)) < 2 ^ 32 \<Longrightarrow>
     snd (dump_subs tag dump mx tot subs) = tot + word_of_nat (length (concat (map snd subs))) \<and>
     length (fst (dump_subs tag dump mx tot subs)) + min (unat mx) (unat tot) =
       min (unat mx) (unat tot + length (concat (map snd subs))) + 2 * length subs"
proof (induction subs arbitrary: tot)
  case Nil
  then show ?case by simp
next
  case (Cons s subs)
  obtain name es where s: "s = (name, es)" by (cases s)
  let ?tot = "tot + word_of_nat (length es)"
  have es: "unat tot + length es < 2 ^ 32" using Cons.prems s by simp
  have u: "unat ?tot = unat tot + length es"
    using es by (simp add: unat_word_ariths unat_of_nat)
  have "unat ?tot + length (concat (map snd subs)) < 2 ^ 32" using Cons.prems u s by simp
  from Cons.IH [OF this] dump_events_length [OF es, of tag dump mx 0] u show ?case
    by (auto simp: s Let_def case_prod_unfold algebra_simps)
qed

lemma DumpCurentQueueInfo_length:
  assumes "queue_wf q" "length (queued q) < 2 ^ 32"
  shows "length (DumpCurentQueueInfo fmt alive tag mx q) = min (unat mx) (length (queued q)) + 11"
proof -
  let ?subs = "zip priority_names (map sq_queue (b_subEventQueues q))"
  let ?d = "dump_subs tag (InnerEvent_Dump fmt alive) mx 0 ?subs"
  have l: "length (b_subEventQueues q) = 4" using assms(1) by blast
  have m: "map snd ?subs = map sq_queue (b_subEventQueues q)" "length ?subs = 4"
    using l by (simp_all add: priority_names_def)
  have n: "length (queued q) = length (concat (map snd ?subs)) + length (b_idleEvents q)"
    unfolding m by (simp add: queued_def)
  have d: "snd ?d = word_of_nat (length (concat (map snd ?subs)))"
    "length (fst ?d) = min (unat mx) (length (concat (map snd ?subs))) + 8"
    using dump_subs_length [of 0 ?subs] n assms(2) m(2) by simp_all
  have u: "unat (snd ?d) = length (concat (map snd ?subs))"
    using n assms(2) by (simp only: d(1)) (simp add: unat_of_nat)
  have "length (fst (dump_events tag (InnerEvent_Dump fmt alive) mx 0 (snd ?d) (b_idleEvents q))) +
      min (unat mx) (length (concat (map snd ?subs))) = min (unat mx) (length (queued q))"
    using dump_events_length [of "snd ?d" "b_idleEvents q"] n assms(2) u by simp
  with d(2) show ?thesis by (simp add: DumpCurentQueueInfo_def Let_def case_prod_unfold)
qed

lemma history_lines_length: "length (history_lines fmt tag q) \<le> 32"
proof -
  have "length (concat (map (\<lambda>i. if P i then [] else [f i]) xs)) \<le> length xs" for P xs and f :: "nat \<Rightarrow> string"
    by (induction xs) auto
  from this [of _ _ "[0..<32]"] show ?thesis
    by (simp add: history_lines_def HISTORY_EVENT_NUM_POWER_def)
qed

text \<open>
  The dump of a queue is bounded: it has 13 lines of headings and totals, and at most
  \<open>MAX_DUMP_SIZE\<close> lines that describe an event, of which the history comes first; no waiting
  event is left out unless that bound is reached.
\<close>

lemma dump_is_bounded:
  assumes "queue_reach sp wd q" "q_usable q" "length (queued q) < 2 ^ 32"
  shows "length (Dump fmt alive tag q) =
      13 + length (history_lines fmt tag q) + min (500 - length (history_lines fmt tag q)) (length (queued q)) \<and>
    length (Dump fmt alive tag q) \<le> 513"
proof -
  let ?h = "length (history_lines fmt tag q)"
  have wf: "queue_wf q" using queue_reach_inv [OF assms(1)] by blast
  have h: "?h \<le> 32" by (rule history_lines_length)
  have "word_of_nat ?h \<le> (500 :: u32)" using h by (simp add: word_le_nat_alt unat_of_nat)
  then have "unat (MAX_DUMP_SIZE - word_of_nat ?h) = 500 - ?h"
    using h by (simp add: MAX_DUMP_SIZE_def unat_sub unat_of_nat)
  with DumpCurentQueueInfo_length [OF wf assms(3), of fmt alive tag "MAX_DUMP_SIZE - word_of_nat ?h"] assms(2) h
  show ?thesis by (simp add: Dump_def Let_def)
qed

text \<open>
  What \<open>HasPendingHigherEvent\<close> reads for a sub queue below the VIP one is the truth:
  \<open>GetQueueFirstEventHandleTime\<close> returns the handle time of the event at the front, and
  \<open>UINT64_MAX\<close> exactly when the sub queue is empty or the queue is in barrier mode.
\<close>

lemma first_handle_time_is_true:
  assumes "queue_reach sp wd q" "0 < i" "i < 4"
    and "\<forall>e\<in>set (sq_queue (sub q i)). 0 \<le> ev_handleTime e \<and> ev_handleTime e \<le> TIME_MAX"
  shows "GetQueueFirstEventHandleTime sp now i False q =
      (if q_isBarrierMode q then UINT64_MAX else front_time (sq_queue (sub q i))) \<and>
    (GetQueueFirstEventHandleTime sp now i False q = UINT64_MAX \<longleftrightarrow>
      q_isBarrierMode q \<or> sq_queue (sub q i) = []) \<and>
    GetQueueFirstEventHandleTime sp now i True q = UINT64_MAX"
proof -
  have "front_coherent i q" using queue_reach_inv [OF assms(1)] assms(2,3) by simp
  moreover have "front_time (sq_queue (sub q i)) = UINT64_MAX \<longleftrightarrow> sq_queue (sub q i) = []"
    using assms(4) u64_of_time_ne_max by (auto simp: front_time_def split: list.split)
  ultimately show ?thesis
    using assms(2) by (simp add: GetQueueFirstEventHandleTime_def front_coherent_def Let_def)
qed

lemma pending_info_count:
  "pt_taskCount (pending_info now name es info) =
     pt_taskCount info + int (length (filter (\<lambda>e. ev_taskName e = name) es))"
  by (induction now name es info rule: pending_info.induct) (simp_all add: Let_def)

text \<open>
  \<open>QueryPendingTaskInfo\<close> throws its answer away: it counts the waiting VIP tasks that carry
  the task name of the descriptor and writes the count to the log, but the value it returns is
  always the empty one.
\<close>

lemma pending_task_info_is_dropped:
  assumes "QueryPendingTaskInfo now fd q d = (logged, info)"
  shows "info = \<lparr>pt_MaxPendingTime = 0, pt_taskCount = 0\<rparr> \<and>
    (\<forall>l. logged = Some l \<longrightarrow> (\<exists>name. pt_taskCount l =
       int (length (filter (\<lambda>e. ev_taskName e = name) (sq_queue (sub q (prio_index VIP)))))))"
  using assms by (auto simp: QueryPendingTaskInfo_def new_pending_task_info_def pending_info_count
      split: option.splits if_splits)

end
