(* ===== verification/Ffrt_Queue.thy ===== *)
theory Ffrt_Queue
  imports Queue_History
begin

text \<open>
  \<open>frameworks/eventhandler/src/event_queue_ffrt.cpp\<close>: the queue of a runner in the thread mode
  \<open>FFRT\<close>. It keeps no list of its own and hands every event to a queue of the FFRT library as a
  named task. The library is not part of the repository: what is asked of it is recorded in
  \<open>fq_calls\<close>, and \<open>ffrt_lib\<close> holds the answers of its queries. A task is named
  \<open>handler id | has task | inner event id | param | task name\<close>, and events are found again by
  regular expressions over these names.
\<close>

section \<open>State and calls of the library\<close>

datatype ffrt_priority = FFRT_VIP | FFRT_IMMEDIATE | FFRT_HIGH | FFRT_LOW | FFRT_IDLE

fun TransferInnerPriority :: "priority \<Rightarrow> ffrt_priority" where
  "TransferInnerPriority VIP = FFRT_VIP"
| "TransferInnerPriority IMMEDIATE = FFRT_IMMEDIATE"
| "TransferInnerPriority HIGH = FFRT_HIGH"
| "TransferInnerPriority LOW = FFRT_LOW"
| "TransferInnerPriority IDLE = FFRT_IDLE"
| "TransferInnerPriority (OtherPriority n) = FFRT_LOW"

record ffrt_submission =
  fs_front :: bool
  fs_wait :: bool
  fs_name :: string
  fs_delay :: u64
  fs_priority :: ffrt_priority
  fs_event :: inner_event

datatype ffrt_call =
    Submit ffrt_submission
  | CancelByName string
  | CancelAll
  | CancelAndWait

record ffrt_queue = event_queue +
  fq_queue :: bool
  fq_calls :: "ffrt_call list"

record ffrt_lib =
  fl_cancel_by_name :: "string \<Rightarrow> int"
  fl_has_task :: "string \<Rightarrow> bool"
  fl_is_idle :: bool
  fl_size :: "ffrt_priority \<Rightarrow> int"
  fl_dump :: "string \<Rightarrow> bool \<Rightarrow> int \<times> string"

definition new_ffrt_queue :: ffrt_queue where
  [eh_defs]: "new_ffrt_queue = event_queue.extend new_event_queue (ffrt_queue.fields True [])"

definition destroy_ffrt_queue :: "ffrt_queue \<Rightarrow> ffrt_queue" where
  \<comment> \<open>the IO waiter is released with the queue\<close>
  "destroy_ffrt_queue q = q\<lparr>q_usable := False\<rparr>"

definition record_call :: "ffrt_call \<Rightarrow> ffrt_queue \<Rightarrow> ffrt_queue" where
  [eh_defs]: "record_call c q = q\<lparr>fq_calls := fq_calls q @ [c]\<rparr>"

section \<open>Insertion\<close>

definition MILLI_TO_MICRO :: u64 where [eh_defs]: "MILLI_TO_MICRO = 1000"

definition ffrt_task_name :: "inner_event \<Rightarrow> string" where
  "ffrt_task_name e =
     ev_ownerId e @ ''|'' @ (if HasTask e then ''1'' else ''0'') @ ''|'' @
     to_string_nat (unat (GetInnerEventId e)) @ ''|'' @ to_string_int (ev_param e) @ ''|'' @ ev_taskName e"

definition SubmitEventAtEnd ::
  "inner_event \<Rightarrow> priority \<Rightarrow> bool \<Rightarrow> string \<Rightarrow> ffrt_queue \<Rightarrow> bool \<times> ffrt_queue" where
  \<comment> \<open>\<open>uint64_t time = event->GetDelayTime()\<close>\<close>
  "SubmitEventAtEnd e prio syncWait taskName q =
     (let delay = u64_of_time (ev_delayTime e) * MILLI_TO_MICRO
      in (True, record_call (Submit \<lparr>fs_front = False, fs_wait = syncWait, fs_name = taskName,
                  fs_delay = delay, fs_priority = TransferInnerPriority prio, fs_event = e\<rparr>) q))"

definition SubmitEventAtFront ::
  "inner_event \<Rightarrow> priority \<Rightarrow> bool \<Rightarrow> string \<Rightarrow> ffrt_queue \<Rightarrow> bool \<times> ffrt_queue" where
  "SubmitEventAtFront e prio syncWait taskName q =
     (let delay = u64_of_time (ev_delayTime e) * MILLI_TO_MICRO
      in if \<not> fq_queue q then (False, q)
         else (True, record_call (Submit \<lparr>fs_front = True, fs_wait = syncWait, fs_name = taskName,
                  fs_delay = delay, fs_priority = TransferInnerPriority prio, fs_event = e\<rparr>) q))"

definition Ffrt_InsertEvent ::
  "inner_event option \<Rightarrow> priority \<Rightarrow> bool \<Rightarrow> event_insert_type \<Rightarrow> ffrt_queue \<Rightarrow> bool \<times> ffrt_queue" where
  "Ffrt_InsertEvent event prio syncWait it q =
     (case event of
        None \<Rightarrow> (False, q)
      | Some e \<Rightarrow>
          if \<not> q_usable q then (False, q)
          else if it = AT_FRONT then SubmitEventAtFront e prio syncWait (ffrt_task_name e) q
          else SubmitEventAtEnd e prio syncWait (ffrt_task_name e) q)"

definition Ffrt_Insert ::
  "inner_event option \<Rightarrow> priority \<Rightarrow> event_insert_type \<Rightarrow> vsync_barrier_option \<Rightarrow> ffrt_queue \<Rightarrow> bool \<times> ffrt_queue" where
  "Ffrt_Insert event prio it option q = Ffrt_InsertEvent event prio False it q"

definition Ffrt_InsertSyncEvent ::
  "inner_event option \<Rightarrow> priority \<Rightarrow> event_insert_type \<Rightarrow> ffrt_queue \<Rightarrow> bool \<times> ffrt_queue" where
  "Ffrt_InsertSyncEvent event prio it q = Ffrt_InsertEvent event prio True it q"

text \<open>What the submitted task does when the library runs it.\<close>

datatype ffrt_step = SetEventHandler runner_ref "handler_ref option" | DistributeOn handler_ref inner_event

definition ffrt_task ::
  "world \<Rightarrow> (runner_ref \<Rightarrow> bool) \<Rightarrow> inner_event \<Rightarrow> ffrt_step list option" where
  \<comment> \<open>\<open>isFfrt r\<close>: the queue of runner \<open>r\<close> is an FFRT queue; \<open>None\<close> is the null dereference of a
     handler without a runner\<close>
  "ffrt_task wd isFfrt e =
     (case GetOwner (wd_alive wd) e of
        None \<Rightarrow> Some []
      | Some h \<Rightarrow>
          (case wd_runner wd h of
             None \<Rightarrow> None
           | Some r \<Rightarrow>
               if isFfrt r
               then Some [SetEventHandler r (Some h), DistributeOn h e, SetEventHandler r None]
               else Some [DistributeOn h e]))"

section \<open>Removal and queries\<close>

definition owner_pattern :: "string \<Rightarrow> string" where
  [eh_defs]: "owner_pattern hid = hid @ [CHR 0x5C] @ ''|.*''"

definition id_pattern :: "string \<Rightarrow> u32 \<Rightarrow> string" where
  [eh_defs]: "id_pattern hid i =
     hid @ [CHR 0x5C] @ ''|0'' @ [CHR 0x5C] @ ''|'' @ to_string_nat (unat i) @ [CHR 0x5C] @ ''|.*''"

definition id_param_pattern :: "string \<Rightarrow> u32 \<Rightarrow> int \<Rightarrow> string" where
  [eh_defs]: "id_param_pattern hid i param =
     hid @ [CHR 0x5C] @ ''|0'' @ [CHR 0x5C] @ ''|'' @ to_string_nat (unat i) @ [CHR 0x5C] @ ''|'' @
     to_string_int param @ [CHR 0x5C] @ ''|.*''"

definition name_pattern :: "string \<Rightarrow> string \<Rightarrow> string" where
  [eh_defs]: "name_pattern hid name =
     hid @ [CHR 0x5C] @ ''|1'' @ [CHR 0x5C] @ ''|'' @ ''.*'' @ [CHR 0x5C] @ ''|'' @ name"

definition param_pattern :: "string \<Rightarrow> int \<Rightarrow> string" where
  [eh_defs]: "param_pattern hid param =
     hid @ [CHR 0x5C] @ ''|0'' @ [CHR 0x5C] @ ''|.*'' @ to_string_int param @ [CHR 0x5C] @ ''|.*''"

definition cancel_by_name :: "string \<Rightarrow> ffrt_queue \<Rightarrow> ffrt_queue" where
  \<comment> \<open>the common part of the functions that remove by a pattern\<close>
  [eh_defs]: "cancel_by_name p q =
     (if \<not> q_usable q then q else if \<not> fq_queue q then q else record_call (CancelByName p) q)"

definition RemoveOrphanByHandlerId ::
  "system_params \<Rightarrow> world \<Rightarrow> kernel \<Rightarrow> kernel \<Rightarrow> string \<Rightarrow>
     ffrt_queue \<times> deamon_waiter \<Rightarrow> ffrt_queue \<times> deamon_waiter" where
  \<comment> \<open>here the cancellation comes before the test of \<open>usable_\<close>\<close>
  "RemoveOrphanByHandlerId sp wd k kd hid s =
     (if \<not> fq_queue (fst s) then s
      else
        let q1 = record_call (CancelByName (owner_pattern hid)) (fst s)
        in if \<not> q_usable q1 then (q1, snd s)
           else RemoveInvalidFileDescriptor sp wd k kd (q1, snd s))"

definition Ffrt_RemoveAll :: "ffrt_queue \<Rightarrow> ffrt_queue" where
  "Ffrt_RemoveAll q = (if \<not> q_usable q then q else if \<not> fq_queue q then q else record_call CancelAll q)"

definition Ffrt_Remove_owner :: "world \<Rightarrow> handler_ref option \<Rightarrow> ffrt_queue \<Rightarrow> ffrt_queue" where
  "Ffrt_Remove_owner wd owner q =
     (case owner of None \<Rightarrow> q | Some h \<Rightarrow> cancel_by_name (owner_pattern (wd_handlerId wd h)) q)"

definition Ffrt_Remove_id :: "world \<Rightarrow> handler_ref option \<Rightarrow> u32 \<Rightarrow> ffrt_queue \<Rightarrow> ffrt_queue" where
  "Ffrt_Remove_id wd owner i q =
     (case owner of None \<Rightarrow> q | Some h \<Rightarrow> cancel_by_name (id_pattern (wd_handlerId wd h) i) q)"

definition Ffrt_Remove_id_param ::
  "world \<Rightarrow> handler_ref option \<Rightarrow> u32 \<Rightarrow> int \<Rightarrow> ffrt_queue \<Rightarrow> ffrt_queue" where
  "Ffrt_Remove_id_param wd owner i param q =
     (case owner of None \<Rightarrow> q | Some h \<Rightarrow> cancel_by_name (id_param_pattern (wd_handlerId wd h) i param) q)"

definition FFRT_REMOVE_SUCC :: int where [eh_defs]: "FFRT_REMOVE_SUCC = 0"

definition Ffrt_Remove_name ::
  "ffrt_lib \<Rightarrow> world \<Rightarrow> handler_ref option \<Rightarrow> string \<Rightarrow> ffrt_queue \<Rightarrow> bool \<times> ffrt_queue" where
  "Ffrt_Remove_name lib wd owner name q =
     (case owner of
        None \<Rightarrow> (False, q)
      | Some h \<Rightarrow>
          if \<not> q_usable q then (False, q)
          else if \<not> fq_queue q then (False, q)
          else
            let p = name_pattern (wd_handlerId wd h) name
            in (fl_cancel_by_name lib p = FFRT_REMOVE_SUCC, record_call (CancelByName p) q))"

definition Ffrt_HasInnerEvent_id :: "ffrt_lib \<Rightarrow> world \<Rightarrow> handler_ref option \<Rightarrow> u32 \<Rightarrow> ffrt_queue \<Rightarrow> bool" where
  "Ffrt_HasInnerEvent_id lib wd owner i q =
     (case owner of
        None \<Rightarrow> False
      | Some h \<Rightarrow> if \<not> q_usable q then False else if \<not> fq_queue q then False
                  else fl_has_task lib (id_pattern (wd_handlerId wd h) i))"

definition Ffrt_HasInnerEvent_param :: "ffrt_lib \<Rightarrow> world \<Rightarrow> handler_ref option \<Rightarrow> int \<Rightarrow> ffrt_queue \<Rightarrow> bool" where
  "Ffrt_HasInnerEvent_param lib wd owner param q =
     (case owner of
        None \<Rightarrow> False
      | Some h \<Rightarrow> if \<not> q_usable q then False else if \<not> fq_queue q then False
                  else fl_has_task lib (param_pattern (wd_handlerId wd h) param))"

definition Ffrt_Dump :: "ffrt_lib \<Rightarrow> string \<Rightarrow> ffrt_queue \<Rightarrow> string list" where
  "Ffrt_Dump lib tag q =
     (if \<not> q_usable q then [] else if \<not> fq_queue q then []
      else let (ret, chars) = fl_dump lib tag True in if ret > 0 then [chars] else [])"

definition Ffrt_DumpQueueInfo :: "ffrt_lib \<Rightarrow> string \<Rightarrow> ffrt_queue \<Rightarrow> string" where
  "Ffrt_DumpQueueInfo lib queueInfo q =
     (if \<not> q_usable q then queueInfo else if \<not> fq_queue q then queueInfo
      else let (ret, chars) = fl_dump lib [] False in if ret > 0 then queueInfo @ chars else queueInfo)"

definition Ffrt_IsIdle :: "ffrt_lib \<Rightarrow> ffrt_queue \<Rightarrow> bool" where
  "Ffrt_IsIdle lib q = (if \<not> q_usable q then False else if \<not> fq_queue q then False else fl_is_idle lib)"

definition sub_priorities :: "priority list" where
  \<comment> \<open>\<open>static_cast<Priority>(i)\<close> for \<open>i < static_cast<uint32_t>(Priority::IDLE)\<close>\<close>
  [eh_defs]: "sub_priorities = map (\<lambda>i. prio_cast (word_of_nat i)) [0..<prio_index IDLE]"

definition Ffrt_IsQueueEmpty :: "ffrt_lib \<Rightarrow> ffrt_queue \<Rightarrow> bool" where
  "Ffrt_IsQueueEmpty lib q =
     (if \<not> q_usable q then False else if \<not> fq_queue q then False
      else \<not> list_ex (\<lambda>p. fl_size lib (TransferInnerPriority p) > 0) sub_priorities)"

definition Ffrt_DumpCurrentQueueSize :: "ffrt_lib \<Rightarrow> ffrt_queue \<Rightarrow> string" where
  "Ffrt_DumpCurrentQueueSize lib q =
     (if \<not> fq_queue q then []
      else ''Current queue size: '' @
        concat (map (\<lambda>(name, p). name @ to_string_int (fl_size lib (TransferInnerPriority p)))
          (zip [''VIP = '', '', IMMEDIATE = '', '', HIGH ='', '', LOW = '', '', IDLE = ''] sub_priorities)) @ '' ; '')"

definition Ffrt_HasPreferEvent :: "int \<Rightarrow> ffrt_queue \<Rightarrow> bool" where
  [eh_defs]: "Ffrt_HasPreferEvent basePrio q = False"

definition Ffrt_QueryPendingTaskInfo :: "int \<Rightarrow> ffrt_queue \<Rightarrow> pending_task_info" where
  [eh_defs]: "Ffrt_QueryPendingTaskInfo fd q = new_pending_task_info"

definition CancelAndWait_op :: "ffrt_queue \<Rightarrow> ffrt_queue" where
  \<comment> \<open>\<open>EventQueueFFRT::CancelAndWait\<close>\<close>
  "CancelAndWait_op q = (if \<not> q_usable q then q else if \<not> fq_queue q then q else record_call CancelAndWait q)"

definition Ffrt_GetQueueFirstEventHandleTime :: "u64 \<Rightarrow> int \<Rightarrow> bool \<Rightarrow> ffrt_queue \<Rightarrow> u64" where
  [eh_defs]: "Ffrt_GetQueueFirstEventHandleTime now prio onlyCheckVsync q = UINT64_MAX"

text \<open>
  The functions for listeners, \<open>Prepare\<close> and \<open>Finish\<close> call those of the base class under the lock
  of this class.
\<close>

definition Ffrt_AddFileDescriptorListener ::
  "system_params \<Rightarrow> world \<Rightarrow> init_results \<Rightarrow> init_results \<Rightarrow> kernel \<Rightarrow> kernel \<Rightarrow> int \<Rightarrow> u32 \<Rightarrow>
     listener_ref option \<Rightarrow> string \<Rightarrow> priority \<Rightarrow>
     ffrt_queue \<times> deamon_waiter \<Rightarrow> err_code \<times> ffrt_queue \<times> deamon_waiter" where
  [eh_defs]: "Ffrt_AddFileDescriptorListener sp wd di ni k kd fd events listener taskName prio s =
     (case listener of
        None \<Rightarrow> (EVENT_HANDLER_ERR_INVALID_PARAM, s)
      | Some l \<Rightarrow>
          if fd < 0 \<or> events AND FILE_DESCRIPTOR_EVENTS_MASK = 0
          then (EVENT_HANDLER_ERR_INVALID_PARAM, s)
          else AddFileDescriptorListenerBase sp wd di ni k kd fd events l taskName prio s)"

definition Ffrt_RemoveFileDescriptorListener_owner ::
  "system_params \<Rightarrow> world \<Rightarrow> kernel \<Rightarrow> kernel \<Rightarrow> handler_ref option \<Rightarrow>
     ffrt_queue \<times> deamon_waiter \<Rightarrow> ffrt_queue \<times> deamon_waiter" where
  [eh_defs]: "Ffrt_RemoveFileDescriptorListener_owner sp wd k kd owner s =
     (case owner of None \<Rightarrow> s | Some h \<Rightarrow> RemoveListenerByOwner sp wd k kd h s)"

definition Ffrt_RemoveFileDescriptorListener_fd ::
  "system_params \<Rightarrow> world \<Rightarrow> kernel \<Rightarrow> kernel \<Rightarrow> int \<Rightarrow>
     ffrt_queue \<times> deamon_waiter \<Rightarrow> ffrt_queue \<times> deamon_waiter" where
  [eh_defs]: "Ffrt_RemoveFileDescriptorListener_fd sp wd k kd fd s =
     (if fd < 0 then s else RemoveListenerByFd sp wd k kd fd s)"

definition Ffrt_Prepare :: "ffrt_queue \<Rightarrow> ffrt_queue" where
  [eh_defs]: "Ffrt_Prepare q = PrepareBase q"

definition Ffrt_Finish :: "ffrt_queue \<Rightarrow> ffrt_queue" where
  [eh_defs]: "Ffrt_Finish q = FinishBase q"

definition Ffrt_SetUsable :: "bool \<Rightarrow> ffrt_queue \<Rightarrow> ffrt_queue" where
  [eh_defs]: "Ffrt_SetUsable usable q = q\<lparr>q_usable := usable\<rparr>"

section \<open>Listeners that FFRT registers\<close>


definition ConvertEvents :: "u32 \<Rightarrow> u32" where
  "ConvertEvents events =
     (let epollEvents = 0;
          epollEvents = (if events AND EPOLLIN \<noteq> 0 then epollEvents OR FILE_DESCRIPTOR_INPUT_EVENT else epollEvents)
      in if events AND EPOLLOUT \<noteq> 0 then epollEvents OR FILE_DESCRIPTOR_OUTPUT_EVENT else epollEvents)"

definition InvokePollCb :: "bool \<Rightarrow> u32 \<Rightarrow> u32 list" where
  \<comment> \<open>the calls of \<open>cb_\<close>, when it is set\<close>
  [eh_defs]: "InvokePollCb cb events = (if cb then [events] else [])"

definition Ffrt_OnReadable :: "bool \<Rightarrow> int \<Rightarrow> u32 list" where
  [eh_defs]: "Ffrt_OnReadable cb fd = (if fd < 0 then [] else InvokePollCb cb EPOLLIN)"

definition Ffrt_OnWritable :: "bool \<Rightarrow> int \<Rightarrow> u32 list" where
  [eh_defs]: "Ffrt_OnWritable cb fd = (if fd < 0 then [] else InvokePollCb cb EPOLLOUT)"

definition Ffrt_OnShutdown :: "bool \<Rightarrow> int \<Rightarrow> u32 list" where
  [eh_defs]: "Ffrt_OnShutdown cb fd = (if fd < 0 then [] else InvokePollCb cb EPOLLHUP)"

definition Ffrt_OnException :: "bool \<Rightarrow> int \<Rightarrow> u32 list" where
  [eh_defs]: "Ffrt_OnException cb fd = (if fd < 0 then [] else InvokePollCb cb EPOLLERR)"

end
