(* ===== verification/Ffrt_Names.thy ===== *)
theory Ffrt_Names
  imports Ffrt_Queue
begin

text \<open>
  What the patterns of the FFRT queue select. The library is documented to cancel and to find
  the tasks whose name matches a regular expression; \<open>regex_names\<close> states that for the part of
  the syntax that the queue uses: literal characters, an escaped character, the dot and a
  starred dot. A string is
  \<open>plain\<close> when no character of it has a meaning in that syntax.
\<close>

section \<open>The regular expressions in use\<close>

datatype rx = Lit char | AnyOne | AnyStar

fun rx_parse :: "string \<Rightarrow> rx list" where
  "rx_parse [] = []"
| "rx_parse (c # d # s) =
     (if c = CHR 0x5C then Lit d # rx_parse s
      else if c = CHR ''.'' \<and> d = CHR ''*'' then AnyStar # rx_parse s
      else if c = CHR ''.'' then AnyOne # rx_parse (d # s)
      else Lit c # rx_parse (d # s))"
| "rx_parse [c] = (if c = CHR ''.'' then [AnyOne] else [Lit c])"

fun rx_match :: "rx list \<Rightarrow> string \<Rightarrow> bool" where
  "rx_match [] s \<longleftrightarrow> s = []"
| "rx_match (Lit c # r) s = (case s of [] \<Rightarrow> False | d # t \<Rightarrow> c = d \<and> rx_match r t)"
| "rx_match (AnyOne # r) s = (case s of [] \<Rightarrow> False | d # t \<Rightarrow> d \<noteq> CHR 0x0A \<and> rx_match r t)"
| "rx_match (AnyStar # r) [] = rx_match r []"
| "rx_match (AnyStar # r) (d # t) = (rx_match r (d # t) \<or> (d \<noteq> CHR 0x0A \<and> rx_match (AnyStar # r) t))"

definition metachars :: "char set" where
  "metachars = set ''.*+?()[]{}|^$'' \<union> {CHR 0x5C}"

definition plain :: "string \<Rightarrow> bool" where
  "plain s \<longleftrightarrow> set s \<inter> metachars = {}"

fun rx_ok :: "string \<Rightarrow> bool" where
  "rx_ok [] = True"
| "rx_ok [c] \<longleftrightarrow> c = CHR ''.'' \<or> c \<notin> metachars"
| "rx_ok (c # d # s) \<longleftrightarrow>
     (if c = CHR 0x5C then d \<in> metachars \<and> rx_ok s
      else if c = CHR ''.'' \<and> d = CHR ''*'' then rx_ok s
      else (c = CHR ''.'' \<or> c \<notin> metachars) \<and> rx_ok (d # s))"

definition regex_names :: "(string \<Rightarrow> string \<Rightarrow> bool) \<Rightarrow> bool" where
  \<comment> \<open>\<open>nm p s\<close>: the library takes the task name \<open>s\<close> as a match of the pattern \<open>p\<close>\<close>
  "regex_names nm \<longleftrightarrow> (\<forall>p s. rx_ok p \<longrightarrow> nm p s = rx_match (rx_parse p) s)"

section \<open>Lemmas\<close>

lemma not_meta: "c \<notin> metachars \<Longrightarrow> c \<noteq> CHR 0x5C \<and> c \<noteq> CHR ''.''"
  by (auto simp: metachars_def)

lemma plain_Cons [simp]: "plain (c # s) \<longleftrightarrow> c \<notin> metachars \<and> plain s"
  by (auto simp: plain_def)

lemma plain_append [simp]: "plain (s @ t) \<longleftrightarrow> plain s \<and> plain t"
  by (auto simp: plain_def)

lemma plain_Nil [simp]: "plain []"
  by (simp add: plain_def)

lemma plain_no_bar: "plain s \<Longrightarrow> CHR ''|'' \<notin> set s"
  by (auto simp: plain_def metachars_def)

lemma digit_not_meta:
  assumes "48 \<le> (of_char c :: nat)" "(of_char c :: nat) \<le> 57"
  shows "c \<notin> metachars"
  using assms by (auto simp: metachars_def)

lemma plain_nat [simp]: "plain (to_string_nat n)"
  using to_string_nat_digits digit_not_meta unfolding plain_def by blast

lemma plain_int [simp]: "plain (to_string_int i)"
  by (simp add: to_string_int_def metachars_def)

lemma nat_no_newline: "CHR 0x0A \<notin> set (to_string_nat n)"
  by (rule to_string_nat_no_char) simp

lemma int_no_newline: "CHR 0x0A \<notin> set (to_string_int i)"
  by (simp add: to_string_int_def nat_no_newline)

lemma plain_parse: "plain s \<Longrightarrow> t = [] \<or> hd t \<noteq> CHR ''*'' \<Longrightarrow> rx_parse (s @ t) = map Lit s @ rx_parse t"
proof (induction s)
  case Nil
  then show ?case by simp
next
  case (Cons c s)
  have c: "c \<noteq> CHR 0x5C" "c \<noteq> CHR ''.''" using Cons.prems(1) not_meta by auto
  have IH: "rx_parse (s @ t) = map Lit s @ rx_parse t" using Cons by simp
  show ?case
  proof (cases "s @ t")
    case Nil
    with c show ?thesis by simp
  next
    case (Cons d u)
    with c IH show ?thesis by simp
  qed
qed

lemma plain_ok: "plain s \<Longrightarrow> rx_ok t \<Longrightarrow> rx_ok (s @ t)"
proof (induction s)
  case Nil
  then show ?case by simp
next
  case (Cons c s)
  have c: "c \<noteq> CHR 0x5C" "c \<noteq> CHR ''.''" "c \<notin> metachars" using Cons.prems(1) not_meta by auto
  have IH: "rx_ok (s @ t)" using Cons by simp
  show ?case
  proof (cases "s @ t")
    case Nil
    with c show ?thesis by simp
  next
    case (Cons d u)
    with c IH show ?thesis by simp
  qed
qed

lemma rx_match_lits: "rx_match (map Lit s @ r) u \<longleftrightarrow> (\<exists>t. u = s @ t \<and> rx_match r t)"
  by (induction s arbitrary: u) (auto split: list.split)

lemma rx_match_star: "rx_match [AnyStar] t \<longleftrightarrow> CHR 0x0A \<notin> set t"
  by (induction t) auto

lemma rx_match_star_skip: "CHR 0x0A \<notin> set t \<Longrightarrow> rx_match r u \<Longrightarrow> rx_match (AnyStar # r) (t @ u)"
proof (induction t)
  case Nil
  then show ?case by (cases u) auto
qed auto

lemma bar_split:
  assumes "c \<notin> set a" "c \<notin> set b"
  shows "a @ c # s = b @ c # t \<longleftrightarrow> a = b \<and> s = t"
proof -
  have "takeWhile (\<lambda>x. x \<noteq> c) (a @ c # s) = a" "takeWhile (\<lambda>x. x \<noteq> c) (b @ c # t) = b"
    using assms by (auto simp: takeWhile_append)
  then show ?thesis by (metis append_same_eq list.inject same_append_eq)
qed

lemma parse_bar: "rx_parse (CHR 0x5C # CHR ''|'' # s) = Lit (CHR ''|'') # rx_parse s"
  by simp

lemma ok_bar: "rx_ok s \<Longrightarrow> rx_ok (CHR 0x5C # CHR ''|'' # s)"
  by (simp add: metachars_def)

lemma ok_star [simp]: "rx_ok ''.*''"
  by simp

lemma rx_match_field:
  \<comment> \<open>one field of a task name against one literal field of a pattern\<close>
  assumes "CHR ''|'' \<notin> set a" "CHR ''|'' \<notin> set b"
  shows "rx_match (map Lit a @ Lit (CHR ''|'') # r) (b @ CHR ''|'' # t) \<longleftrightarrow> a = b \<and> rx_match r t"
proof -
  have e: "map Lit a @ Lit (CHR ''|'') # r = map Lit (a @ ''|'') @ r" by simp
  have "rx_match (map Lit a @ Lit (CHR ''|'') # r) (b @ CHR ''|'' # t) \<longleftrightarrow>
      (\<exists>u. b @ CHR ''|'' # t = (a @ ''|'') @ u \<and> rx_match r u)"
    unfolding e by (rule rx_match_lits)
  then show ?thesis using bar_split [OF assms(2,1)] by auto
qed

definition task_fields :: "inner_event \<Rightarrow> bool" where
  \<comment> \<open>the owner id and the task name cannot be mistaken for a separator or a line end\<close>
  "task_fields e \<longleftrightarrow> plain (ev_ownerId e) \<and> CHR 0x0A \<notin> set (ev_taskName e)"

definition rest_name :: "inner_event \<Rightarrow> string" where
  \<comment> \<open>the part of the task name after the owner\<close>
  "rest_name e =
     (if HasTask e then ''1'' else ''0'') @ ''|'' @ to_string_nat (unat (GetInnerEventId e)) @ ''|'' @
     to_string_int (ev_param e) @ ''|'' @ ev_taskName e"

lemma ffrt_task_name_rest: "ffrt_task_name e = ev_ownerId e @ CHR ''|'' # rest_name e"
  by (simp add: ffrt_task_name_def rest_name_def)

lemmas no_newline = nat_no_newline int_no_newline
lemmas no_bar = plain_no_bar [OF plain_nat] plain_no_bar [OF plain_int]

lemma rx_field_parse:
  \<comment> \<open>a literal field of a pattern and the escaped separator after it\<close>
  assumes "plain a"
  shows "rx_parse (a @ CHR 0x5C # CHR ''|'' # p) = map Lit a @ Lit (CHR ''|'') # rx_parse p"
    and "rx_ok p \<Longrightarrow> rx_ok (a @ CHR 0x5C # CHR ''|'' # p)"
  using plain_parse [OF assms, of "CHR 0x5C # CHR ''|'' # p"] plain_ok [OF assms, of "CHR 0x5C # CHR ''|'' # p"]
  by (simp_all add: metachars_def)

lemma rx_field:
  assumes "plain a" "plain b"
  shows "rx_match (rx_parse (a @ CHR 0x5C # CHR ''|'' # p)) (b @ CHR ''|'' # t) \<longleftrightarrow>
    a = b \<and> rx_match (rx_parse p) t"
  unfolding rx_field_parse(1) [OF assms(1)]
  by (rule rx_match_field [OF plain_no_bar [OF assms(1)] plain_no_bar [OF assms(2)]])

lemma rx_star: "rx_match (rx_parse ''.*'') t \<longleftrightarrow> CHR 0x0A \<notin> set t"
  by (simp add: rx_match_star)

lemma flag_field: "plain (if b then ''1'' else ''0'')" "plain ''0''" "plain ''1''"
  by (simp_all add: metachars_def)

lemma rest_no_newline: "task_fields e \<Longrightarrow> CHR 0x0A \<notin> set (rest_name e)"
  by (auto simp: task_fields_def rest_name_def no_newline)

lemma regex_namesD: "regex_names nm \<Longrightarrow> rx_ok p \<Longrightarrow> nm p s = rx_match (rx_parse p) s"
  by (simp add: regex_names_def)

lemmas ffrt_pattern_defs = owner_pattern_def id_pattern_def id_param_pattern_def name_pattern_def param_pattern_def

end
