(* ===== verification/Ffrt_Properties.thy ===== *)
theory Ffrt_Properties
  imports Ffrt_Names
begin

text \<open>
  Properties of the FFRT queue: which tasks its patterns select, compared with the events that
  \<open>event_queue_base.cpp\<close> removes or finds, and what becomes of delays and of idle events.
\<close>

lemma name_fields:
  "ffrt_task_name e = ev_ownerId e @ CHR ''|'' # (if HasTask e then ''1'' else ''0'') @ CHR ''|'' #
     to_string_nat (unat (GetInnerEventId e)) @ CHR ''|'' # to_string_int (ev_param e) @ CHR ''|'' # ev_taskName e"
  by (simp add: ffrt_task_name_def)





text \<open>
  \<open>HasInnerEvent\<close> with a parameter finds too much in an FFRT queue: its pattern has a
  starred dot before the parameter, so an event is reported whose parameter only ends with the
  digits asked for.
\<close>

lemma ffrt_has_inner_event_finds_too_much:
  assumes "regex_names nm" "plain (wd_handlerId wd h)" "task_fields e"
    and "ev_ownerId e = wd_handlerId wd h" "\<not> HasTask e"
    and "to_string_int (ev_param e) = ds @ to_string_int param"
  shows "nm (param_pattern (wd_handlerId wd h) param) (ffrt_task_name e)"
proof -
  let ?h = "wd_handlerId wd h"
  let ?p = "to_string_int param @ CHR 0x5C # CHR ''|'' # ''.*''"
  let ?i = "to_string_nat (unat (GetInnerEventId e)) @ CHR ''|'' # ds"
  let ?s = "to_string_int param @ CHR ''|'' # ev_taskName e"
  have 1: "param_pattern ?h param = ?h @ CHR 0x5C # CHR ''|'' # ''0'' @ CHR 0x5C # CHR ''|'' # ''.*'' @ ?p"
    by (simp add: ffrt_pattern_defs)
  have p: "rx_ok ?p" using rx_field_parse(2) [OF plain_int, of "''.*''"] by simp
  then have ok: "rx_ok (''.*'' @ ?p)" by simp
  have "CHR 0x0A \<notin> set (to_string_int (ev_param e))" by (rule int_no_newline)
  then have n: "CHR 0x0A \<notin> set ?i" unfolding assms(6) by (simp add: no_newline)
  have "rx_match (rx_parse ?p) ?s"
    unfolding rx_field [OF plain_int plain_int] rx_star using assms(3) by (simp add: task_fields_def)
  then have "rx_match (rx_parse (''.*'' @ ?p)) (?i @ ?s)"
    using rx_match_star_skip [OF n] by simp
  moreover have "ffrt_task_name e = ?h @ CHR ''|'' # ''0'' @ CHR ''|'' # ?i @ ?s"
    unfolding name_fields assms(6) using assms(4,5) by simp
  ultimately show ?thesis
    unfolding 1 regex_namesD [OF assms(1) rx_field_parse(2) [OF assms(2) rx_field_parse(2) [OF flag_field(2) ok]]]
    by (simp only: rx_field [OF assms(2) assms(2)] rx_field [OF flag_field(2) flag_field(2)])
qed

text \<open>
  \<open>RemoveTask\<close> on an FFRT queue removes too much: besides the tasks with the given name it
  cancels every task whose name ends with a separator and that name.
\<close>

lemma ffrt_remove_task_removes_too_much:
  assumes "regex_names nm" "plain (wd_handlerId wd h)" "task_fields e" "plain name"
    and "ev_ownerId e = wd_handlerId wd h" "HasTask e"
    and "ev_taskName e = name \<or> (\<exists>us. ev_taskName e = us @ CHR ''|'' # name)"
  shows "nm (name_pattern (wd_handlerId wd h) name) (ffrt_task_name e)"
proof -
  let ?h = "wd_handlerId wd h"
  let ?p = "CHR 0x5C # CHR ''|'' # name"
  have 1: "name_pattern ?h name = ?h @ CHR 0x5C # CHR ''|'' # ''1'' @ CHR 0x5C # CHR ''|'' # ''.*'' @ ?p"
    by (simp add: ffrt_pattern_defs)
  have "rx_ok name" using plain_ok [OF assms(4), of "[]"] by simp
  then have ok: "rx_ok (''.*'' @ ?p)" by (simp add: metachars_def)
  have parse: "rx_parse (''.*'' @ ?p) = AnyStar # Lit (CHR ''|'') # map Lit name"
    using plain_parse [OF assms(4), of "[]"] by simp
  have "rx_match (Lit (CHR ''|'') # map Lit name) (CHR ''|'' # name)" using rx_match_lits [of name "[]" name] by simp
  note skip = rx_match_star_skip [OF _ this]
  obtain us where us: "to_string_nat (unat (GetInnerEventId e)) @ CHR ''|'' # to_string_int (ev_param e) @
      CHR ''|'' # ev_taskName e = us @ CHR ''|'' # name" "CHR 0x0A \<notin> set us"
  proof (cases "ev_taskName e = name")
    case True
    then show ?thesis
      by (intro that [of "to_string_nat (unat (GetInnerEventId e)) @ CHR ''|'' # to_string_int (ev_param e)"])
        (simp_all add: no_newline)
  next
    case False
    with assms(7) obtain vs where vs: "ev_taskName e = vs @ CHR ''|'' # name" by blast
    with assms(3) have "CHR 0x0A \<notin> set vs" by (simp add: task_fields_def)
    with vs show ?thesis
      by (intro that [of "to_string_nat (unat (GetInnerEventId e)) @ CHR ''|'' # to_string_int (ev_param e) @
          CHR ''|'' # vs"]) (simp_all add: no_newline)
  qed
  have "ffrt_task_name e = ?h @ CHR ''|'' # ''1'' @ CHR ''|'' # us @ CHR ''|'' # name"
    unfolding name_fields us(1) using assms(5,6) by simp
  moreover have "rx_match (rx_parse (''.*'' @ ?p)) (us @ CHR ''|'' # name)"
    unfolding parse by (rule skip [OF us(2)])
  ultimately show ?thesis
    unfolding 1 regex_namesD [OF assms(1) rx_field_parse(2) [OF assms(2) rx_field_parse(2) [OF flag_field(3) ok]]]
    by (simp only: rx_field [OF assms(2) assms(2)] rx_field [OF flag_field(3) flag_field(3)])
qed

text \<open>
  A negative delay postpones an event by more than 290000 years in an FFRT queue: it is
  converted to an unsigned number, so the delay in microseconds is at least \<open>2 ^ 63\<close>. The base
  queue treats the same delay as none.
\<close>

lemma ffrt_negative_delay_postpones:
  assumes "q_usable q" "ev_delayTime e < 0" "- 9223372036854775 \<le> ev_delayTime e"
    and "Ffrt_Insert (Some e) prio AT_END op q = (ok, q')"
  shows "ok \<and> (\<exists>s. fq_calls q' = fq_calls q @ [Submit s] \<and> fs_event s = e \<and>
    uint (fs_delay s) = 2 ^ 64 + 1000 * ev_delayTime e \<and> 2 ^ 63 \<le> uint (fs_delay s))"
proof -
  let ?d = "ev_delayTime e"
  have "uint (u64_of_time ?d * MILLI_TO_MICRO) = (?d * 1000) mod 2 ^ 64"
    unfolding u64_of_time_def MILLI_TO_MICRO_def
    by (simp add: uint_word_ariths unsigned_of_int take_bit_eq_mod mod_mult_left_eq)
  also have "(?d * 1000) mod 2 ^ 64 = (2 ^ 64 + 1000 * ?d) mod 2 ^ 64" by (simp add: mult.commute)
  also have "\<dots> = 2 ^ 64 + 1000 * ?d" using assms(2,3) by (intro mod_pos_pos_trivial) simp_all
  finally have "uint (u64_of_time ?d * MILLI_TO_MICRO) = 2 ^ 64 + 1000 * ?d" .
  moreover have "(2 :: int) ^ 63 \<le> 2 ^ 64 + 1000 * ?d" using assms(3) by simp
  ultimately show ?thesis
    using assms(1,4) by (auto simp: Ffrt_Insert_def Ffrt_InsertEvent_def SubmitEventAtEnd_def record_call_def Let_def)
qed

text \<open>
  \<open>IsQueueEmpty\<close> of an FFRT queue does not look at the idle events: with only idle events
  waiting, it says that the queue is empty.
\<close>

lemma ffrt_empty_ignores_idle:
  assumes "q_usable q" "fq_queue q"
  shows "Ffrt_IsQueueEmpty lib q \<longleftrightarrow>
    (\<forall>p\<in>{FFRT_VIP, FFRT_IMMEDIATE, FFRT_HIGH, FFRT_LOW}. fl_size lib p \<le> 0)"
proof -
  have s: "sub_priorities = [VIP, IMMEDIATE, HIGH, LOW]" by code_simp
  show ?thesis using assms by (simp add: Ffrt_IsQueueEmpty_def s not_less)
qed

end
