(* ===== verification/Queue_Refinement.thy ===== *)
theory Queue_Refinement
  imports Queue_Contents
begin

text \<open>
  The base queue against two reference definitions: its lists against the library's stable sort,
  and the queue with all its operations against five plain lists of events.
\<close>

section \<open>Insertion at the end is a stable sort\<close>

lemma insert_stable_filter:
  assumes "time_sorted xs"
  shows "filter (\<lambda>p. ev_handleTime p = t) (insert_stable xs e) =
    filter (\<lambda>p. ev_handleTime p = t) xs @ (if ev_handleTime e = t then [e] else [])"
  using assms
proof (induction xs)
  case (Cons x xs)
  show ?case
  proof (cases "ev_handleTime x \<le> ev_handleTime e")
    case True
    with Cons show ?thesis by (auto simp: insert_stable_def)
  next
    case False
    then have "filter (\<lambda>p. ev_handleTime p = ev_handleTime e) (x # xs) = []"
      using Cons.prems by (auto simp: filter_empty_conv)
    with False show ?thesis by (auto simp: insert_stable_def)
  qed
qed (simp add: insert_stable_def)

lemma insert_at_end_fold:
  "time_sorted ys \<Longrightarrow> time_sorted (fold (\<lambda>e es. InsertEventsLocked es e AT_END) xs ys) \<and>
     mset (fold (\<lambda>e es. InsertEventsLocked es e AT_END) xs ys) = mset ys + mset xs \<and>
     filter (\<lambda>p. ev_handleTime p = t) (fold (\<lambda>e es. InsertEventsLocked es e AT_END) xs ys) =
       filter (\<lambda>p. ev_handleTime p = t) ys @ filter (\<lambda>p. ev_handleTime p = t) xs"
proof (induction xs arbitrary: ys)
  case (Cons x xs)
  have i: "InsertEventsLocked ys x AT_END = insert_stable ys x"
    using insert_walk_stable [OF Cons.prems] by (simp add: InsertEventsLocked_def)
  have m: "mset (insert_stable ys x) = add_mset x (mset ys)"
    unfolding i [symmetric] by (simp add: InsertEventsLocked_def)
  from Cons.IH [OF sorted_insert_stable [OF Cons.prems], of x] m insert_stable_filter [OF Cons.prems] show ?case
    by (simp add: i)
qed simp

text \<open>
  C12. A list that is filled by insertion at the end is the library's stable sort of the inserted
  events by handle time, in whatever order they came.
\<close>

theorem insertion_is_stable_sort:
  "fold (\<lambda>e es. InsertEventsLocked es e AT_END) xs [] = sort_key ev_handleTime xs"
proof -
  let ?f = "fold (\<lambda>e es. InsertEventsLocked es e AT_END) xs []"
  have "sort_key ev_handleTime xs = ?f"
    by (rule properties_for_sort_key) (use insert_at_end_fold [of "[]" xs] in \<open>auto simp: eq_commute\<close>)
  then show ?thesis ..
qed

section \<open>The queue as five lists\<close>

definition abs_lists :: "event_queue_base \<Rightarrow> inner_event list list" where
  "abs_lists q = map sq_queue (b_subEventQueues q) @ [b_idleEvents q]"

definition spec_place :: "event_insert_type \<Rightarrow> inner_event list \<Rightarrow> inner_event \<Rightarrow> inner_event list" where
  \<comment> \<open>behind the events that are not later, or in front with a time that is not later than the first\<close>
  "spec_place it xs e =
     (case it of
        AT_END \<Rightarrow> insert_stable xs e
      | AT_FRONT \<Rightarrow> (case xs of [] \<Rightarrow> [e]
          | y # ys \<Rightarrow> e\<lparr>ev_handleTime := min (ev_handleTime y) (ev_handleTime e)\<rparr> # y # ys))"

definition spec_insert :: "priority \<Rightarrow> inner_event \<Rightarrow> event_insert_type \<Rightarrow> inner_event list list \<Rightarrow> inner_event list list" where
  "spec_insert prio e it L =
     (case prio of
        OtherPriority n \<Rightarrow> L
      | _ \<Rightarrow> L[prio_index prio := spec_place it (L ! prio_index prio) e])"

fun spec_op :: "world \<Rightarrow> vsync_policy \<Rightarrow> queue_op \<Rightarrow> inner_event list list \<Rightarrow> inner_event list list" where
  "spec_op wd pol (DoInsert now c e prio it op) L = spec_insert prio (stored_event wd op pol prio e) it L"
| "spec_op wd pol (DoRemove now c P) L = map (filter (\<lambda>e. \<not> P e)) L"
| "spec_op wd pol DoRemoveAll L = map (\<lambda>_. []) L"
| "spec_op wd pol (DoRemoveOrphan now c) L = map (filter (\<lambda>e. \<not> owner_expired (wd_alive wd) e)) L"
| "spec_op wd pol _ L = L"

lemma abs_lists_same: "same_lists q q' \<Longrightarrow> abs_lists q' = abs_lists q"
  by (simp add: abs_lists_def)

lemma InsertEventsLocked_place: "time_sorted xs \<Longrightarrow> InsertEventsLocked xs e it = spec_place it xs e"
  using insert_walk_stable [of xs e]
  by (cases it; cases xs) (auto simp: InsertEventsLocked_def spec_place_def min_def)

lemma put_event_refines:
  assumes "queue_wf q"
  shows "abs_lists (put_event prio e it q) = spec_insert prio e it (abs_lists q)"
proof (cases prio rule: priority_cases)
  case sub
  let ?i = "prio_index prio"
  have l: "length (b_subEventQueues q) = 4" using queue_wf_length [OF assms] .
  then have n: "abs_lists q ! ?i = sq_queue (sub q ?i)" using sub(2) by (simp add: abs_lists_def nth_append)
  have "abs_lists (put_event prio e it q) = (abs_lists q)[?i := InsertEventsLocked (sq_queue (sub q ?i)) e it]"
    using sub l by (simp add: put_event_sub insert_sub_def abs_lists_def map_sub_def map_update list_update_append with_queue_def)
  also have "\<dots> = (abs_lists q)[?i := spec_place it (abs_lists q ! ?i) e]"
    using InsertEventsLocked_place [OF queue_wf_sorted [OF assms sub(2)]] n by simp
  also have "\<dots> = spec_insert prio e it (abs_lists q)" using sub(1) by (cases prio) (simp_all add: spec_insert_def)
  finally show ?thesis .
next
  case idle
  have l: "length (b_subEventQueues q) = 4" using queue_wf_length [OF assms] .
  with InsertEventsLocked_place [OF queue_wf_idle_sorted [OF assms], of e it] idle show ?thesis
    by (simp add: put_event_def spec_insert_def abs_lists_def list_update_append nth_append)
next
  case (other n)
  then show ?thesis by (simp add: put_event_def spec_insert_def)
qed

lemma drop_events_refines: "abs_lists (drop_events P q) = map (filter (\<lambda>e. \<not> P e)) (abs_lists q)"
  by (simp add: abs_lists_def drop_events_def with_queue_def comp_def)

text \<open>
  C8. On a usable queue every operation of the base queue is the corresponding operation on five
  plain lists (the four sub queues and the idle list): insertion puts the event behind those that
  are not later, or in front with a time not after the first; removals filter; all other
  operations leave the lists alone. On a queue that is not usable no operation changes them.
\<close>

theorem queue_refines_lists:
  assumes "queue_reach sp wd q"
  shows "abs_lists (apply_op sp wd op q) =
    (if q_usable q then spec_op wd (q_vsyncPolicy q) op (abs_lists q) else abs_lists q)"
proof -
  have wf: "queue_wf q" using queue_reach_inv [OF assms] by blast
  show ?thesis
  proof (cases "list_op op")
    case False
    then have "spec_op wd (q_vsyncPolicy q) op L = L" for L by (cases op) simp_all
    then show ?thesis using abs_lists_same [OF apply_op_same [OF False]] by simp
  next
    case True
    then show ?thesis
    proof (cases op)
      case (DoInsert now c e prio it vb)
      show ?thesis
        using abs_lists_same [OF Insert_lists [where q = q and prio = prio and wd = wd and op = vb and e = e and it = it and sp = sp and now = now and c = c]] put_event_refines [OF wf]
        by (simp add: DoInsert)
    next
      case (DoRemove now c P)
      show ?thesis
        using abs_lists_same [OF Remove_filter_lists [where q = q and P = P and sp = sp and now = now and c = c]] by (simp add: DoRemove drop_events_refines)
    next
      case DoRemoveAll
      then show ?thesis by (simp add: RemoveAll_def abs_lists_def with_queue_def comp_def)
    next
      case (DoRemoveOrphan now c)
      show ?thesis
        using abs_lists_same [OF RemoveOrphan_filter_lists [where q = q and wd = wd and sp = sp and now = now and c = c]]
        by (simp add: DoRemoveOrphan drop_events_refines)
    qed simp_all
  qed
qed

theorem queue_refines_lists_witness:
  "map (map ev_handleTime) (abs_lists (apply_op default_params small_world (DoInsert 10 0 (task_at 20) LOW AT_FRONT NO_BARRIER)
     (queue_with [(LOW, task_at 15), (HIGH, task_at 30)]))) = [[], [], [30], [15, 15], []]"
proof -
  let ?q = "queue_with [(LOW, task_at 15), (HIGH, task_at 30)]"
  let ?op = "DoInsert 10 0 (task_at 20) LOW AT_FRONT NO_BARRIER"
  have "q_usable ?q" "map (map ev_handleTime) (spec_op small_world (q_vsyncPolicy ?q) ?op (abs_lists ?q)) = [[], [], [30], [15, 15], []]"
    by code_simp+
  with queue_refines_lists [OF queue_with_reach, of ?op "[(LOW, task_at 15), (HIGH, task_at 30)]"] show ?thesis
    by (simp only: if_True)
qed

end
