(* ===== verification/Runner_State.thy ===== *)
theory Runner_State
  imports Ffrt_Queue
begin

text \<open>
  What a handler sees of its runner: the members of \<open>EventRunner\<close> (\<open>event_runner.h\<close>), the virtual
  calls of \<open>EventQueue\<close> dispatched over the two kinds of queue, and the record \<open>system\<close> that
  holds the runners, their queues, the daemon waiter and the surroundings. \<open>call_env\<close> is what one
  call takes from outside: clock, thread, kernel, system parameters and the FFRT library. The
  build is the one with FFRT.
\<close>

section \<open>Runners and queues\<close>

datatype runner_mode = MODE_DEFAULT | MODE_NO_WAIT
datatype thread_mode = NEW_THREAD | THREAD_FFRT

datatype runner_queue = BaseQueue event_queue_base | FfrtQueue ffrt_queue

record event_runner =
  rn_deliveryTimeout :: int
  rn_distributeTimeout :: int
  rn_timeout :: int
  rn_deposit :: bool
  rn_running :: bool
  rn_runningMode :: runner_mode
  rn_threadMode :: thread_mode
  rn_runnerId :: string
  rn_env :: bool
  rn_threadName :: string
  rn_threadId :: "nat option"
  rn_kernelThreadId :: int

definition new_runner :: "bool \<Rightarrow> runner_mode \<Rightarrow> time \<Rightarrow> event_runner" where
  \<comment> \<open>\<open>EventRunner(deposit, runningMode)\<close>; \<open>now\<close> is \<open>GetTimeStamp()\<close>\<close>
  [eh_defs]: "new_runner deposit mode now =
     \<lparr>rn_deliveryTimeout = 0, rn_distributeTimeout = 0, rn_timeout = 0, rn_deposit = deposit,
      rn_running = False, rn_runningMode = mode, rn_threadMode = NEW_THREAD,
      rn_runnerId = to_string_int now, rn_env = False, rn_threadName = [], rn_threadId = None,
      rn_kernelThreadId = 0\<rparr>"

definition IsRunning :: "event_runner \<Rightarrow> bool" where
  [eh_defs]: "IsRunning r \<longleftrightarrow> (rn_deposit r \<and> rn_runningMode r = MODE_DEFAULT) \<or> rn_running r"

record system =
  sy_world :: world
  sy_runner :: "runner_ref \<Rightarrow> event_runner"
  sy_queue :: "runner_ref \<Rightarrow> runner_queue"
  sy_deamon :: deamon_waiter

record call_env =
  ca_sp :: system_params
  ca_lib :: ffrt_lib
  ca_kernel :: kernel
  ca_deamonKernel :: kernel
  ca_deamonInit :: init_results
  ca_epollInit :: init_results
  ca_now :: time
  ca_tid :: u64
  ca_stackId :: u64
  ca_consumer :: int
  ca_current :: "runner_ref option"
  ca_ffrtTask :: bool

definition set_queue :: "runner_ref \<Rightarrow> runner_queue \<Rightarrow> system \<Rightarrow> system" where
  [eh_defs]: "set_queue r q sy = sy\<lparr>sy_queue := (sy_queue sy)(r := q)\<rparr>"

section \<open>Virtual calls of the queue\<close>

definition rq_Insert ::
  "call_env \<Rightarrow> world \<Rightarrow> inner_event option \<Rightarrow> priority \<Rightarrow> event_insert_type \<Rightarrow> vsync_barrier_option \<Rightarrow>
     runner_queue \<Rightarrow> bool \<times> runner_queue" where
  [eh_defs]: "rq_Insert c wd event prio it option q =
     (case q of
        BaseQueue b \<Rightarrow> apsnd BaseQueue (Insert (ca_sp c) wd (ca_now c) (ca_consumer c) event prio it option b)
      | FfrtQueue f \<Rightarrow> apsnd FfrtQueue (Ffrt_Insert event prio it option f))"

definition rq_InsertSyncEvent ::
  "inner_event option \<Rightarrow> priority \<Rightarrow> event_insert_type \<Rightarrow> runner_queue \<Rightarrow> bool \<times> runner_queue" where
  [eh_defs]: "rq_InsertSyncEvent event prio it q =
     (case q of
        BaseQueue b \<Rightarrow> (True, BaseQueue b)
      | FfrtQueue f \<Rightarrow> apsnd FfrtQueue (Ffrt_InsertSyncEvent event prio it f))"

definition rq_Remove_owner :: "call_env \<Rightarrow> world \<Rightarrow> handler_ref option \<Rightarrow> runner_queue \<Rightarrow> runner_queue" where
  [eh_defs]: "rq_Remove_owner c wd owner q =
     (case q of
        BaseQueue b \<Rightarrow> BaseQueue (Remove_owner (ca_sp c) wd (ca_now c) (ca_consumer c) owner b)
      | FfrtQueue f \<Rightarrow> FfrtQueue (Ffrt_Remove_owner wd owner f))"

definition rq_Remove_id :: "call_env \<Rightarrow> world \<Rightarrow> handler_ref option \<Rightarrow> u32 \<Rightarrow> runner_queue \<Rightarrow> runner_queue" where
  [eh_defs]: "rq_Remove_id c wd owner i q =
     (case q of
        BaseQueue b \<Rightarrow> BaseQueue (Remove_id (ca_sp c) wd (ca_now c) (ca_consumer c) owner i b)
      | FfrtQueue f \<Rightarrow> FfrtQueue (Ffrt_Remove_id wd owner i f))"

definition rq_Remove_id_param ::
  "call_env \<Rightarrow> world \<Rightarrow> handler_ref option \<Rightarrow> u32 \<Rightarrow> int \<Rightarrow> runner_queue \<Rightarrow> runner_queue" where
  [eh_defs]: "rq_Remove_id_param c wd owner i param q =
     (case q of
        BaseQueue b \<Rightarrow> BaseQueue (Remove_id_param (ca_sp c) wd (ca_now c) (ca_consumer c) owner i param b)
      | FfrtQueue f \<Rightarrow> FfrtQueue (Ffrt_Remove_id_param wd owner i param f))"

definition rq_Remove_name ::
  "call_env \<Rightarrow> world \<Rightarrow> handler_ref option \<Rightarrow> string \<Rightarrow> runner_queue \<Rightarrow> bool \<times> runner_queue" where
  [eh_defs]: "rq_Remove_name c wd owner name q =
     (case q of
        BaseQueue b \<Rightarrow> apsnd BaseQueue (Remove_name (ca_sp c) wd (ca_now c) (ca_consumer c) owner name b)
      | FfrtQueue f \<Rightarrow> apsnd FfrtQueue (Ffrt_Remove_name (ca_lib c) wd owner name f))"

definition rq_HasInnerEvent_id :: "call_env \<Rightarrow> world \<Rightarrow> handler_ref option \<Rightarrow> u32 \<Rightarrow> runner_queue \<Rightarrow> bool" where
  [eh_defs]: "rq_HasInnerEvent_id c wd owner i q =
     (case q of BaseQueue b \<Rightarrow> HasInnerEvent_id wd owner i b
              | FfrtQueue f \<Rightarrow> Ffrt_HasInnerEvent_id (ca_lib c) wd owner i f)"

definition rq_HasInnerEvent_param :: "call_env \<Rightarrow> world \<Rightarrow> handler_ref option \<Rightarrow> int \<Rightarrow> runner_queue \<Rightarrow> bool" where
  [eh_defs]: "rq_HasInnerEvent_param c wd owner param q =
     (case q of BaseQueue b \<Rightarrow> HasInnerEvent_param wd owner param b
              | FfrtQueue f \<Rightarrow> Ffrt_HasInnerEvent_param (ca_lib c) wd owner param f)"

definition rq_IsIdle :: "call_env \<Rightarrow> runner_queue \<Rightarrow> bool" where
  [eh_defs]: "rq_IsIdle c q = (case q of BaseQueue b \<Rightarrow> IsIdle b | FfrtQueue f \<Rightarrow> Ffrt_IsIdle (ca_lib c) f)"

definition rq_HasPreferEvent :: "int \<Rightarrow> runner_queue \<Rightarrow> bool" where
  [eh_defs]: "rq_HasPreferEvent basePrio q =
     (case q of BaseQueue b \<Rightarrow> HasPreferEvent basePrio b | FfrtQueue f \<Rightarrow> Ffrt_HasPreferEvent basePrio f)"

definition rq_QueryPendingTaskInfo :: "call_env \<Rightarrow> int \<Rightarrow> deamon_waiter \<Rightarrow> runner_queue \<Rightarrow> pending_task_info" where
  [eh_defs]: "rq_QueryPendingTaskInfo c fd d q =
     (case q of BaseQueue b \<Rightarrow> snd (QueryPendingTaskInfo (ca_now c) fd b d)
              | FfrtQueue f \<Rightarrow> Ffrt_QueryPendingTaskInfo fd f)"

definition rq_GetQueueFirstEventHandleTime :: "system_params \<Rightarrow> u64 \<Rightarrow> nat \<Rightarrow> bool \<Rightarrow> runner_queue \<Rightarrow> u64" where
  [eh_defs]: "rq_GetQueueFirstEventHandleTime sp now i onlyCheckVsync q =
     (case q of BaseQueue b \<Rightarrow> GetQueueFirstEventHandleTime sp now i onlyCheckVsync b
              | FfrtQueue f \<Rightarrow> Ffrt_GetQueueFirstEventHandleTime now (int i) onlyCheckVsync f)"

definition rq_CancelAndWait :: "runner_queue \<Rightarrow> runner_queue" where
  \<comment> \<open>\<open>EventQueueBase::CancelAndWait\<close> does nothing\<close>
  [eh_defs]: "rq_CancelAndWait q = (case q of BaseQueue b \<Rightarrow> BaseQueue b | FfrtQueue f \<Rightarrow> FfrtQueue (CancelAndWait_op f))"

definition rq_RemoveOrphan :: "call_env \<Rightarrow> world \<Rightarrow> runner_queue \<times> deamon_waiter \<Rightarrow> runner_queue \<times> deamon_waiter" where
  \<comment> \<open>only the base queue overrides \<open>RemoveOrphan()\<close>\<close>
  [eh_defs]: "rq_RemoveOrphan c wd s =
     (case fst s of
        BaseQueue b \<Rightarrow>
          apfst BaseQueue (RemoveOrphan (ca_sp c) wd (ca_kernel c) (ca_deamonKernel c) (ca_now c) (ca_consumer c) (b, snd s))
      | FfrtQueue f \<Rightarrow> s)"

definition rq_RemoveOrphanByHandlerId ::
  "call_env \<Rightarrow> world \<Rightarrow> string \<Rightarrow> runner_queue \<times> deamon_waiter \<Rightarrow> runner_queue \<times> deamon_waiter" where
  \<comment> \<open>only the FFRT queue overrides \<open>RemoveOrphanByHandlerId\<close>\<close>
  [eh_defs]: "rq_RemoveOrphanByHandlerId c wd hid s =
     (case fst s of
        BaseQueue b \<Rightarrow> s
      | FfrtQueue f \<Rightarrow>
          apfst FfrtQueue (RemoveOrphanByHandlerId (ca_sp c) wd (ca_kernel c) (ca_deamonKernel c) hid (f, snd s)))"

definition rq_AddFileDescriptorListener ::
  "call_env \<Rightarrow> world \<Rightarrow> int \<Rightarrow> u32 \<Rightarrow> listener_ref option \<Rightarrow> string \<Rightarrow> priority \<Rightarrow>
     runner_queue \<times> deamon_waiter \<Rightarrow> err_code \<times> runner_queue \<times> deamon_waiter" where
  [eh_defs]: "rq_AddFileDescriptorListener c wd fd events l taskName prio s =
     (case fst s of
        BaseQueue b \<Rightarrow> apsnd (apfst BaseQueue) (AddFileDescriptorListener (ca_sp c) wd (ca_deamonInit c)
            (ca_epollInit c) (ca_kernel c) (ca_deamonKernel c) fd events l taskName prio (b, snd s))
      | FfrtQueue f \<Rightarrow> apsnd (apfst FfrtQueue) (Ffrt_AddFileDescriptorListener (ca_sp c) wd (ca_deamonInit c)
            (ca_epollInit c) (ca_kernel c) (ca_deamonKernel c) fd events l taskName prio (f, snd s)))"

definition rq_RemoveFileDescriptorListener_owner ::
  "call_env \<Rightarrow> world \<Rightarrow> handler_ref option \<Rightarrow> runner_queue \<times> deamon_waiter \<Rightarrow> runner_queue \<times> deamon_waiter" where
  [eh_defs]: "rq_RemoveFileDescriptorListener_owner c wd owner s =
     (case fst s of
        BaseQueue b \<Rightarrow> apfst BaseQueue (RemoveFileDescriptorListener_owner (ca_sp c) wd (ca_kernel c)
            (ca_deamonKernel c) owner (b, snd s))
      | FfrtQueue f \<Rightarrow> apfst FfrtQueue (Ffrt_RemoveFileDescriptorListener_owner (ca_sp c) wd (ca_kernel c)
            (ca_deamonKernel c) owner (f, snd s)))"

definition rq_RemoveFileDescriptorListener_fd ::
  "call_env \<Rightarrow> world \<Rightarrow> int \<Rightarrow> runner_queue \<times> deamon_waiter \<Rightarrow> runner_queue \<times> deamon_waiter" where
  [eh_defs]: "rq_RemoveFileDescriptorListener_fd c wd fd s =
     (case fst s of
        BaseQueue b \<Rightarrow> apfst BaseQueue (RemoveFileDescriptorListener_fd (ca_sp c) wd (ca_kernel c)
            (ca_deamonKernel c) fd (b, snd s))
      | FfrtQueue f \<Rightarrow> apfst FfrtQueue (Ffrt_RemoveFileDescriptorListener_fd (ca_sp c) wd (ca_kernel c)
            (ca_deamonKernel c) fd (f, snd s)))"

definition with_queue_deamon ::
  "runner_ref \<Rightarrow> (runner_queue \<times> deamon_waiter \<Rightarrow> runner_queue \<times> deamon_waiter) \<Rightarrow> system \<Rightarrow> system" where
  [eh_defs]: "with_queue_deamon r f sy =
     (let (q, d) = f (sy_queue sy r, sy_deamon sy)
      in (set_queue r q sy)\<lparr>sy_deamon := d\<rparr>)"

end
