(* ===== verification/Handler.thy ===== *)
theory Handler
  imports Runner_State
begin

text \<open>
  \<open>class EventHandler\<close>: \<open>interfaces/inner_api/event_handler.h\<close> and
  \<open>frameworks/eventhandler/src/event_handler.cpp\<close>. A handler is a reference whose id and runner
  are in the world of the system (\<open>handlerId_\<close>, \<open>eventRunner_\<close>). Each operation takes the
  surroundings of the call and returns the new system. HiTrace and log output are left out. The
  distribution of an event is in \<open>Distribution\<close>.
\<close>

section \<open>Creation and destruction\<close>

definition EventHandler_ctor :: "u64 \<Rightarrow> time \<Rightarrow> string \<times> u64" where
  \<comment> \<open>\<open>handlerId_\<close> and the new value of the static \<open>handlerCount\<close>\<close>
  "EventHandler_ctor handlerCount now =
     (to_string_nat (unat handlerCount) @ ''_'' @ to_string_int now, handlerCount + 1)"

definition EventHandler_dtor :: "call_env \<Rightarrow> handler_ref \<Rightarrow> system \<Rightarrow> system" where
  \<comment> \<open>weak references to the handler have expired when its destructor runs\<close>
  "EventHandler_dtor c h sy =
     (let wd = (sy_world sy)\<lparr>wd_alive := (wd_alive (sy_world sy))(h := False)\<rparr>;
          sy1 = sy\<lparr>sy_world := wd\<rparr>
      in case wd_runner wd h of
           None \<Rightarrow> sy1
         | Some r \<Rightarrow>
             if rn_threadMode (sy_runner sy1 r) = THREAD_FFRT
             then with_queue_deamon r (rq_RemoveOrphanByHandlerId c wd (wd_handlerId wd h)) sy1
             else with_queue_deamon r (rq_RemoveOrphan c wd) sy1)"

section \<open>Sending events\<close>

definition SendEvent ::
  "call_env \<Rightarrow> handler_ref \<Rightarrow> inner_event option \<Rightarrow> int \<Rightarrow> priority \<Rightarrow> system \<Rightarrow> bool \<times> system" where
  "SendEvent c h event delayTime prio sy =
     (case event of
        None \<Rightarrow> (False, sy)
      | Some e0 \<Rightarrow>
          (case wd_runner (sy_world sy) h of
             None \<Rightarrow> (False, sy)
           | Some r \<Rightarrow>
               let now = ca_now c;
                   e1 = SetEventUniqueId now
                     (e0\<lparr>ev_sendTime := now, ev_senderKernelThreadId := ca_tid c\<rparr>);
                   e2 = e1\<lparr>ev_handleTime := (if delayTime > 0 then now + delayTime * MS else now),
                           ev_ownerId := wd_handlerId (sy_world sy) h, ev_delayTime := delayTime,
                           ev_owner := Some h\<rparr>;
                   e3 = (if rn_threadMode (sy_runner sy r) \<noteq> THREAD_FFRT
                         then fst (SetStackId (ca_stackId c) e2) else e2);
                   (ret, q) = rq_Insert c (sy_world sy) (Some e3) prio AT_END NO_BARRIER (sy_queue sy r)
               in (ret, set_queue r q sy)))"

definition CreateTask ::
  "call_env \<Rightarrow> bool \<Rightarrow> handler_ref \<Rightarrow> callback option \<Rightarrow> string \<Rightarrow> caller \<Rightarrow> system \<Rightarrow> inner_event option" where
  \<comment> \<open>\<open>alloc\<close>: the allocation of the event succeeds\<close>
  "CreateTask c alloc h cb name cl sy =
     (case wd_runner (sy_world sy) h of
        None \<Rightarrow> None
      | Some r \<Rightarrow>
          (case Get_task alloc cb name cl of
             None \<Rightarrow> None
           | Some e \<Rightarrow>
               Some (SetEventUniqueId (ca_now c)
                 (e\<lparr>ev_delayTime := 0, ev_ownerId := wd_handlerId (sy_world sy) h,
                    ev_sendTime := ca_now c, ev_handleTime := ca_now c,
                    ev_senderKernelThreadId := ca_tid c, ev_owner := Some h\<rparr>))))"

definition insert_task ::
  "call_env \<Rightarrow> handler_ref \<Rightarrow> inner_event option \<Rightarrow> priority \<Rightarrow> event_insert_type \<Rightarrow>
     vsync_barrier_option \<Rightarrow> system \<Rightarrow> bool \<times> system" where
  \<comment> \<open>the part that \<open>PostTaskAtFront\<close> and \<open>PostTaskAtTail\<close> have in common\<close>
  "insert_task c h task prio it option sy =
     (case (task, wd_runner (sy_world sy) h) of
        (Some e, Some r) \<Rightarrow>
          (let (ret, q) = rq_Insert c (sy_world sy) (Some e) prio it option (sy_queue sy r)
           in (ret, set_queue r q sy))
      | _ \<Rightarrow> (False, sy))"

definition PostTaskAtFront ::
  "call_env \<Rightarrow> bool \<Rightarrow> handler_ref \<Rightarrow> callback option \<Rightarrow> string \<Rightarrow> priority \<Rightarrow> caller \<Rightarrow>
     vsync_barrier_option \<Rightarrow> system \<Rightarrow> bool \<times> system" where
  "PostTaskAtFront c alloc h cb name prio cl option sy =
     insert_task c h (CreateTask c alloc h cb name cl sy) prio AT_FRONT option sy"

definition PostTaskAtTail ::
  "call_env \<Rightarrow> bool \<Rightarrow> handler_ref \<Rightarrow> callback option \<Rightarrow> string \<Rightarrow> priority \<Rightarrow> caller \<Rightarrow>
     vsync_barrier_option \<Rightarrow> system \<Rightarrow> bool \<times> system" where
  "PostTaskAtTail c alloc h cb name prio cl option sy =
     insert_task c h (CreateTask c alloc h cb name cl sy) prio AT_END option sy"

definition SendTimingEvent ::
  "call_env \<Rightarrow> handler_ref \<Rightarrow> inner_event option \<Rightarrow> int \<Rightarrow> priority \<Rightarrow> system \<Rightarrow> bool \<times> system" where
  \<comment> \<open>time points are not negative, so the truncating conversion to milliseconds is \<open>div\<close>\<close>
  "SendTimingEvent c h event taskTime prio sy =
     (let nowSysTime = ca_now c div MS;
          delayTime = taskTime - nowSysTime
      in if delayTime < 0 then SendEvent c h event 0 prio sy
         else SendEvent c h event delayTime prio sy)"

datatype sync_result =
    Refused
  | DistributeHere inner_event
  | BlockOn waiter_ref
  | FfrtWaited bool

definition SendSyncEvent ::
  "call_env \<Rightarrow> waiter_ref \<Rightarrow> handler_ref \<Rightarrow> inner_event option \<Rightarrow> priority \<Rightarrow> bool \<Rightarrow> system \<Rightarrow>
     sync_result \<times> system" where
  \<comment> \<open>\<open>w\<close> is the waiter that \<open>CreateWaiter\<close> allocates; \<open>DistributeHere\<close> and \<open>BlockOn\<close> return true
     after the distribution and after the wait\<close>
  "SendSyncEvent c w h event prio sameRunnerOnly sy =
     (case event of
        None \<Rightarrow> (Refused, sy)
      | Some e \<Rightarrow>
          if prio = IDLE then (Refused, sy)
          else
            case wd_runner (sy_world sy) h of
              None \<Rightarrow> (Refused, sy)
            | Some r \<Rightarrow>
                let ffrt = rn_threadMode (sy_runner sy r) = THREAD_FFRT
                in if \<not> IsRunning (sy_runner sy r) then (Refused, sy)
                   else if (if sameRunnerOnly then ca_current c = Some r
                            else (ca_ffrtTask c \<and> ffrt) \<or> ca_current c = Some r)
                   then (DistributeHere e, sy)
                   else if ffrt then
                     let e1 = SetEventUniqueId (ca_now c) (e\<lparr>ev_sendTime := ca_now c\<rparr>);
                         e2 = e1\<lparr>ev_handleTime := ca_now c, ev_ownerId := wd_handlerId (sy_world sy) h,
                                 ev_delayTime := 0, ev_owner := Some h\<rparr>;
                         (ret, q) = rq_InsertSyncEvent (Some e2) prio AT_END (sy_queue sy r)
                     in (FfrtWaited ret, set_queue r q sy)
                   else
                     let (ret, sy1) = SendEvent c h (Some (CreateWaiter w e)) 0 prio sy
                     in if \<not> ret then (Refused, sy1) else (BlockOn w, sy1))"

definition sync_returns :: "sync_result \<Rightarrow> bool" where
  \<comment> \<open>the value \<open>SendSyncEvent\<close> returns\<close>
  [eh_defs]: "sync_returns res = (case res of Refused \<Rightarrow> False | FfrtWaited b \<Rightarrow> b | _ \<Rightarrow> True)"

subsection \<open>The inline variants of the header\<close>

definition SendEvent_prio where
  [eh_defs]: "SendEvent_prio c h event prio sy = SendEvent c h event 0 prio sy"

definition SendEvent_id_param where
  [eh_defs]: "SendEvent_id_param c alloc h ident param delayTime cl sy =
     SendEvent c h (Get_id alloc ident param cl) delayTime LOW sy"

definition SendEvent_id where
  [eh_defs]: "SendEvent_id c alloc h ident delayTime prio cl sy =
     SendEvent c h (Get_id alloc ident 0 cl) delayTime prio sy"

definition SendEvent_id_prio where
  [eh_defs]: "SendEvent_id_prio c alloc h ident prio cl sy = SendEvent c h (Get_id alloc ident 0 cl) 0 prio sy"

definition SendEvent_shared where
  \<comment> \<open>\<open>sp\<close> says which kind of pointer \<open>object\<close> is\<close>
  [eh_defs]: "SendEvent_shared c h ident sp obj delayTime cl sy =
     SendEvent c h (Some (Get_shared (IdU32 ident) sp obj 0 cl)) delayTime LOW sy"

definition SendEvent_unique where
  [eh_defs]: "SendEvent_unique c h ident sp obj delayTime cl sy =
     SendEvent c h (Some (Get_unique (IdU32 ident) sp obj 0 cl)) delayTime LOW sy"

definition SendImmediateEvent where
  [eh_defs]: "SendImmediateEvent c h event sy = SendEvent c h event 0 IMMEDIATE sy"

definition SendImmediateEvent_id where
  [eh_defs]: "SendImmediateEvent_id c alloc h ident param cl sy =
     SendImmediateEvent c h (Get_id alloc ident param cl) sy"

definition SendImmediateEvent_shared where
  [eh_defs]: "SendImmediateEvent_shared c h ident sp obj cl sy =
     SendImmediateEvent c h (Some (Get_shared (IdU32 ident) sp obj 0 cl)) sy"

definition SendImmediateEvent_unique where
  [eh_defs]: "SendImmediateEvent_unique c h ident sp obj cl sy =
     SendImmediateEvent c h (Some (Get_unique (IdU32 ident) sp obj 0 cl)) sy"

definition SendHighPriorityEvent where
  [eh_defs]: "SendHighPriorityEvent c h event delayTime sy = SendEvent c h event delayTime HIGH sy"

definition SendHighPriorityEvent_id where
  [eh_defs]: "SendHighPriorityEvent_id c alloc h ident param delayTime cl sy =
     SendHighPriorityEvent c h (Get_id alloc ident param cl) delayTime sy"

definition SendHighPriorityEvent_shared where
  [eh_defs]: "SendHighPriorityEvent_shared c h ident sp obj delayTime cl sy =
     SendHighPriorityEvent c h (Some (Get_shared (IdU32 ident) sp obj 0 cl)) delayTime sy"

definition SendHighPriorityEvent_unique where
  [eh_defs]: "SendHighPriorityEvent_unique c h ident sp obj delayTime cl sy =
     SendHighPriorityEvent c h (Some (Get_unique (IdU32 ident) sp obj 0 cl)) delayTime sy"

definition PostTask where
  [eh_defs]: "PostTask c alloc h cb name delayTime prio cl sy =
     SendEvent c h (Get_task alloc cb name cl) delayTime prio sy"

definition PostTask_prio where
  [eh_defs]: "PostTask_prio c alloc h cb prio cl sy = PostTask c alloc h cb [] 0 prio cl sy"

definition PostTask_delay where
  [eh_defs]: "PostTask_delay c alloc h cb delayTime prio cl sy = PostTask c alloc h cb [] delayTime prio cl sy"

definition PostImmediateTask where
  [eh_defs]: "PostImmediateTask c alloc h cb name cl sy =
     SendEvent c h (Get_task alloc cb name cl) 0 IMMEDIATE sy"

definition PostHighPriorityTask where
  [eh_defs]: "PostHighPriorityTask c alloc h cb name delayTime cl sy =
     PostTask c alloc h cb name delayTime HIGH cl sy"

definition PostHighPriorityTask_delay where
  [eh_defs]: "PostHighPriorityTask_delay c alloc h cb delayTime cl sy =
     PostHighPriorityTask c alloc h cb [] delayTime cl sy"

definition PostIdleTask where
  [eh_defs]: "PostIdleTask c alloc h cb name delayTime cl sy =
     PostTask c alloc h cb name delayTime IDLE cl sy"

definition PostIdleTask_delay where
  [eh_defs]: "PostIdleTask_delay c alloc h cb delayTime cl sy = PostIdleTask c alloc h cb [] delayTime cl sy"

definition SendSyncEvent_id where
  [eh_defs]: "SendSyncEvent_id c w alloc h ident param prio cl sy =
     SendSyncEvent c w h (Get_id alloc ident param cl) prio False sy"

definition SendSyncEvent_id_prio where
  [eh_defs]: "SendSyncEvent_id_prio c w alloc h ident prio cl sy =
     SendSyncEvent c w h (Get_id alloc ident 0 cl) prio False sy"

definition SendSyncEvent_shared where
  [eh_defs]: "SendSyncEvent_shared c w h ident sp obj prio cl sy =
     SendSyncEvent c w h (Some (Get_shared (IdU32 ident) sp obj 0 cl)) prio False sy"

definition SendSyncEvent_unique where
  [eh_defs]: "SendSyncEvent_unique c w h ident sp obj prio cl sy =
     SendSyncEvent c w h (Some (Get_unique (IdU32 ident) sp obj 0 cl)) prio False sy"

definition PostSyncTask where
  [eh_defs]: "PostSyncTask c w alloc h cb name prio cl sy =
     SendSyncEvent c w h (Get_task alloc cb name cl) prio False sy"

definition PostSyncTask_prio where
  [eh_defs]: "PostSyncTask_prio c w alloc h cb prio cl sy = PostSyncTask c w alloc h cb [] prio cl sy"

definition PostSyncTask_same where
  [eh_defs]: "PostSyncTask_same c w alloc h cb name prio cl sameRunnerOnly sy =
     SendSyncEvent c w h (Get_task alloc cb name cl) prio sameRunnerOnly sy"

definition SendTimingEvent_id where
  [eh_defs]: "SendTimingEvent_id c alloc h ident taskTime param cl sy =
     SendTimingEvent c h (Get_id alloc ident param cl) taskTime LOW sy"

definition SendTimingEvent_id_prio where
  [eh_defs]: "SendTimingEvent_id_prio c alloc h ident taskTime prio cl sy =
     SendTimingEvent c h (Get_id alloc ident 0 cl) taskTime prio sy"

definition SendTimingEvent_low where
  [eh_defs]: "SendTimingEvent_low c alloc h ident taskTime cl sy =
     SendTimingEvent c h (Get_id alloc ident 0 cl) taskTime LOW sy"

definition SendTimingEvent_shared where
  [eh_defs]: "SendTimingEvent_shared c h ident sp obj taskTime prio cl sy =
     SendTimingEvent c h (Some (Get_shared (IdU32 ident) sp obj 0 cl)) taskTime prio sy"

definition SendTimingEvent_unique where
  [eh_defs]: "SendTimingEvent_unique c h ident sp obj taskTime prio cl sy =
     SendTimingEvent c h (Some (Get_unique (IdU32 ident) sp obj 0 cl)) taskTime prio sy"

definition PostTimingTask where
  [eh_defs]: "PostTimingTask c alloc h cb taskTime name prio cl sy =
     SendTimingEvent c h (Get_task alloc cb name cl) taskTime prio sy"

definition PostTimingTask_prio where
  [eh_defs]: "PostTimingTask_prio c alloc h cb taskTime prio cl sy =
     PostTimingTask c alloc h cb taskTime [] prio cl sy"

section \<open>Removal\<close>

definition on_runner :: "handler_ref \<Rightarrow> (runner_queue \<Rightarrow> runner_queue) \<Rightarrow> system \<Rightarrow> system" where
  \<comment> \<open>apply an operation to the queue of the handler's runner, if it has one\<close>
  [eh_defs]: "on_runner h f sy =
     (case wd_runner (sy_world sy) h of
        None \<Rightarrow> sy
      | Some r \<Rightarrow> set_queue r (f (sy_queue sy r)) sy)"

definition RemoveAllEvents :: "call_env \<Rightarrow> handler_ref \<Rightarrow> system \<Rightarrow> system" where
  "RemoveAllEvents c h sy = on_runner h (rq_Remove_owner c (sy_world sy) (Some h)) sy"

definition RemoveEvent :: "call_env \<Rightarrow> handler_ref \<Rightarrow> u32 \<Rightarrow> system \<Rightarrow> system" where
  "RemoveEvent c h i sy = on_runner h (rq_Remove_id c (sy_world sy) (Some h) i) sy"

definition RemoveEvent_param :: "call_env \<Rightarrow> handler_ref \<Rightarrow> u32 \<Rightarrow> int \<Rightarrow> system \<Rightarrow> system" where
  "RemoveEvent_param c h i param sy = on_runner h (rq_Remove_id_param c (sy_world sy) (Some h) i param) sy"

definition RemoveTask :: "call_env \<Rightarrow> handler_ref \<Rightarrow> string \<Rightarrow> system \<Rightarrow> system" where
  "RemoveTask c h name sy = on_runner h (\<lambda>q. snd (rq_Remove_name c (sy_world sy) (Some h) name q)) sy"

definition FFRT_SUCCESS :: int where [eh_defs]: "FFRT_SUCCESS = 0"
definition FFRT_ERROR :: int where [eh_defs]: "FFRT_ERROR = -1"
definition FFRT_TASK_REMOVE_FAIL :: int where [eh_defs]: "FFRT_TASK_REMOVE_FAIL = 1"

definition RemoveTaskWithRet :: "call_env \<Rightarrow> handler_ref \<Rightarrow> string \<Rightarrow> system \<Rightarrow> int \<times> system" where
  "RemoveTaskWithRet c h name sy =
     (case wd_runner (sy_world sy) h of
        None \<Rightarrow> (FFRT_TASK_REMOVE_FAIL, sy)
      | Some r \<Rightarrow>
          let (ret, q) = rq_Remove_name c (sy_world sy) (Some h) name (sy_queue sy r)
          in (if ret then FFRT_SUCCESS else FFRT_TASK_REMOVE_FAIL, set_queue r q sy))"

section \<open>File descriptor listeners\<close>

definition Handler_AddFileDescriptorListener ::
  "call_env \<Rightarrow> handler_ref \<Rightarrow> int \<Rightarrow> u32 \<Rightarrow> listener_ref option \<Rightarrow> string \<Rightarrow> priority \<Rightarrow> system \<Rightarrow>
     err_code \<times> system" where
  "Handler_AddFileDescriptorListener c h fd events listener taskName prio sy =
     (case listener of
        None \<Rightarrow> (EVENT_HANDLER_ERR_INVALID_PARAM, sy)
      | Some l \<Rightarrow>
          if fd < 0 \<or> events AND FILE_DESCRIPTOR_EVENTS_MASK = 0 then (EVENT_HANDLER_ERR_INVALID_PARAM, sy)
          else
            case wd_runner (sy_world sy) h of
              None \<Rightarrow> (EVENT_HANDLER_ERR_NO_EVENT_RUNNER, sy)
            | Some r \<Rightarrow>
                let wd = (sy_world sy)\<lparr>wd_listeners := Listener_SetOwner l h (wd_listeners (sy_world sy))\<rparr>;
                    sy1 = sy\<lparr>sy_world := wd\<rparr>;
                    (err, q, d) = rq_AddFileDescriptorListener c wd fd events (Some l) taskName prio
                                    (sy_queue sy1 r, sy_deamon sy1)
                in (err, (set_queue r q sy1)\<lparr>sy_deamon := d\<rparr>))"

definition Handler_AddFileDescriptorListener_high where
  [eh_defs]: "Handler_AddFileDescriptorListener_high c h fd events listener taskName sy =
     Handler_AddFileDescriptorListener c h fd events listener taskName HIGH sy"

definition RemoveAllFileDescriptorListeners :: "call_env \<Rightarrow> handler_ref \<Rightarrow> system \<Rightarrow> system" where
  "RemoveAllFileDescriptorListeners c h sy =
     (case wd_runner (sy_world sy) h of
        None \<Rightarrow> sy
      | Some r \<Rightarrow> with_queue_deamon r (rq_RemoveFileDescriptorListener_owner c (sy_world sy) (Some h)) sy)"

definition Handler_RemoveFileDescriptorListener :: "call_env \<Rightarrow> handler_ref \<Rightarrow> int \<Rightarrow> system \<Rightarrow> system" where
  "Handler_RemoveFileDescriptorListener c h fd sy =
     (if fd < 0 then sy
      else
        case wd_runner (sy_world sy) h of
          None \<Rightarrow> sy
        | Some r \<Rightarrow> with_queue_deamon r (rq_RemoveFileDescriptorListener_fd c (sy_world sy) fd) sy)"

definition SetEventRunner :: "call_env \<Rightarrow> handler_ref \<Rightarrow> runner_ref option \<Rightarrow> system \<Rightarrow> system" where
  "SetEventRunner c h runner sy =
     (if wd_runner (sy_world sy) h = runner then sy
      else
        let sy1 = (case wd_runner (sy_world sy) h of
                     None \<Rightarrow> sy
                   | Some r \<Rightarrow> RemoveAllFileDescriptorListeners c h (RemoveAllEvents c h sy))
        in sy1\<lparr>sy_world := (sy_world sy1)\<lparr>wd_runner := (wd_runner (sy_world sy1))(h := runner)\<rparr>\<rparr>)"

section \<open>Queries\<close>

definition GetEventName :: "inner_event option \<Rightarrow> string" where
  "GetEventName event =
     (case event of
        None \<Rightarrow> []
      | Some e \<Rightarrow> if HasTask e then ev_taskName e else event_id_string (ev_innerEventId e))"

definition Handler_HasInnerEvent_id :: "call_env \<Rightarrow> handler_ref \<Rightarrow> u32 \<Rightarrow> system \<Rightarrow> bool" where
  "Handler_HasInnerEvent_id c h i sy =
     (case wd_runner (sy_world sy) h of
        None \<Rightarrow> False
      | Some r \<Rightarrow> rq_HasInnerEvent_id c (sy_world sy) (Some h) i (sy_queue sy r))"

definition Handler_HasInnerEvent_param :: "call_env \<Rightarrow> handler_ref \<Rightarrow> int \<Rightarrow> system \<Rightarrow> bool" where
  "Handler_HasInnerEvent_param c h param sy =
     (case wd_runner (sy_world sy) h of
        None \<Rightarrow> False
      | Some r \<Rightarrow> rq_HasInnerEvent_param c (sy_world sy) (Some h) param (sy_queue sy r))"

definition Handler_IsIdle :: "call_env \<Rightarrow> handler_ref \<Rightarrow> system \<Rightarrow> bool option" where
  \<comment> \<open>\<open>None\<close>: the runner is dereferenced without a test\<close>
  "Handler_IsIdle c h sy = map_option (\<lambda>r. rq_IsIdle c (sy_queue sy r)) (wd_runner (sy_world sy) h)"

definition Handler_HasPreferEvent :: "handler_ref \<Rightarrow> int \<Rightarrow> system \<Rightarrow> bool option" where
  "Handler_HasPreferEvent h basePrio sy =
     map_option (\<lambda>r. rq_HasPreferEvent basePrio (sy_queue sy r)) (wd_runner (sy_world sy) h)"

definition Handler_QueryPendingTaskInfo :: "call_env \<Rightarrow> handler_ref \<Rightarrow> int \<Rightarrow> system \<Rightarrow> pending_task_info" where
  "Handler_QueryPendingTaskInfo c h fd sy =
     (case wd_runner (sy_world sy) h of
        None \<Rightarrow> new_pending_task_info
      | Some r \<Rightarrow> rq_QueryPendingTaskInfo c fd (sy_deamon sy) (sy_queue sy r))"

definition TaskCancelAndWait :: "handler_ref \<Rightarrow> system \<Rightarrow> system" where
  "TaskCancelAndWait h sy =
     (case wd_runner (sy_world sy) h of
        None \<Rightarrow> sy
      | Some r \<Rightarrow> if rn_threadMode (sy_runner sy r) = THREAD_FFRT
                  then set_queue r (rq_CancelAndWait (sy_queue sy r)) sy else sy)"

definition PENDING_JOB_TIMEOUT :: "system_params \<Rightarrow> u64 list" where
  [eh_defs]: "PENDING_JOB_TIMEOUT sp =
     map u64_of_time [p_pending_vip sp, p_pending_immediate sp, p_pending_high sp]"

fun pending_loop ::
  "system_params \<Rightarrow> u64 \<Rightarrow> bool \<Rightarrow> bool \<Rightarrow> runner_queue \<Rightarrow> nat \<Rightarrow> bool" where
  \<comment> \<open>the loop from \<open>i - 1\<close> down to \<open>VIP\<close>; \<open>isIdle\<close>: the priority asked about is \<open>IDLE\<close>\<close>
  "pending_loop sp now isIdle onlyCheckVsync q 0 = False"
| "pending_loop sp now isIdle onlyCheckVsync q (Suc i) =
     (let eventHandleTime = rq_GetQueueFirstEventHandleTime sp now i onlyCheckVsync q
      in if eventHandleTime = UINT64_MAX then pending_loop sp now isIdle onlyCheckVsync q i
         else if isIdle then True
         else if eventHandleTime + PENDING_JOB_TIMEOUT sp ! i * u64_of_time MS \<le> now then True
         else pending_loop sp now isIdle onlyCheckVsync q i)"

definition HasPendingHigherEvent :: "call_env \<Rightarrow> int \<Rightarrow> handler_ref \<Rightarrow> int \<Rightarrow> bool \<Rightarrow> system \<Rightarrow> bool" where
  \<comment> \<open>\<open>cur\<close> is the thread's \<open>currentEventPriority\<close>\<close>
  "HasPendingHigherEvent c cur h priority onlyCheckVsync sy =
     (case wd_runner (sy_world sy) h of
        None \<Rightarrow> False
      | Some r \<Rightarrow>
          let priority = (if priority < prio_int VIP \<or> priority > prio_int IDLE then cur else priority)
          in if priority \<le> prio_int VIP then False
             else pending_loop (ca_sp c) (u64_of_time (ca_now c)) (priority = prio_int IDLE)
                    onlyCheckVsync (sy_queue sy r) (nat priority))"

section \<open>Calls from FFRT\<close>

record task_options =
  to_dfxName :: string
  to_delayTime :: int
  to_priority :: priority
  to_taskId :: u64

definition PostTaskByFFRT where
  \<comment> \<open>\<open>handler\<close> is the pointer argument, \<open>None\<close> when it is null\<close>
  "PostTaskByFFRT c alloc handler cb task sy =
     (case handler of
        None \<Rightarrow> (False, sy)
      | Some h \<Rightarrow> PostTask c alloc h cb (to_string_nat (unat (to_taskId task))) (to_delayTime task)
                    (to_priority task) (no_caller\<lparr>c_dfxName := to_dfxName task\<rparr>) sy)"

definition PostSyncTaskByFFRT where
  "PostSyncTaskByFFRT c w alloc handler cb name prio sy =
     (case handler of None \<Rightarrow> (Refused, sy) | Some h \<Rightarrow> PostSyncTask c w alloc h cb name prio no_caller sy)"

definition RemoveTaskForFFRT :: "call_env \<Rightarrow> handler_ref option \<Rightarrow> u64 \<Rightarrow> system \<Rightarrow> int \<times> system" where
  "RemoveTaskForFFRT c handler taskId sy =
     (case handler of
        None \<Rightarrow> (FFRT_TASK_REMOVE_FAIL, sy)
      | Some h \<Rightarrow> RemoveTaskWithRet c h (to_string_nat (unat taskId)) sy)"

definition RemoveAllTaskForFFRT :: "call_env \<Rightarrow> handler_ref option \<Rightarrow> system \<Rightarrow> system" where
  "RemoveAllTaskForFFRT c handler sy = (case handler of None \<Rightarrow> sy | Some h \<Rightarrow> RemoveAllEvents c h sy)"

definition AddFdListenerByFFRT ::
  "call_env \<Rightarrow> handler_ref option \<Rightarrow> u32 \<Rightarrow> u32 \<Rightarrow> listener_ref \<Rightarrow> system \<Rightarrow> int \<times> system" where
  \<comment> \<open>\<open>l\<close> is the new \<open>FfrtDescriptorListener\<close>; the descriptor is converted to \<open>int32_t\<close>\<close>
  "AddFdListenerByFFRT c handler fd event l sy =
     (case handler of
        None \<Rightarrow> (FFRT_ERROR, sy)
      | Some h \<Rightarrow>
          let innerEvent = ConvertEvents event;
              taskName = ''FFRT_FD_'' @ to_string_nat (unat fd);
              (result, sy1) = Handler_AddFileDescriptorListener_high c h (sint fd) innerEvent (Some l) taskName sy
          in (if result = ERR_OK then FFRT_SUCCESS else FFRT_ERROR, sy1))"

definition RemoveFdListenerByFFRT :: "call_env \<Rightarrow> handler_ref option \<Rightarrow> u32 \<Rightarrow> system \<Rightarrow> int \<times> system" where
  "RemoveFdListenerByFFRT c handler fd sy =
     (case handler of
        None \<Rightarrow> (FFRT_ERROR, sy)
      | Some h \<Rightarrow> (FFRT_SUCCESS, Handler_RemoveFileDescriptorListener c h (sint fd) sy))"

section \<open>Static calls on the main runner\<close>

definition on_main_queue :: "(event_queue_base \<Rightarrow> event_queue_base) \<Rightarrow> (ffrt_queue \<Rightarrow> ffrt_queue) \<Rightarrow> system \<Rightarrow> system" where
  [eh_defs]: "on_main_queue f g sy =
     (case wd_mainRunner (sy_world sy) of
        None \<Rightarrow> sy
      | Some r \<Rightarrow> set_queue r (case sy_queue sy r of BaseQueue b \<Rightarrow> BaseQueue (f b) | FfrtQueue q \<Rightarrow> FfrtQueue (g q)) sy)"

definition Handler_SetVsyncFirstForceEnableTime :: "time \<Rightarrow> bool \<Rightarrow> u64 \<Rightarrow> system \<Rightarrow> system" where
  "Handler_SetVsyncFirstForceEnableTime now enable timeout sy =
     on_main_queue (SetVsyncFirstForceEnableTime now enable timeout) (SetVsyncFirstForceEnableTime now enable timeout) sy"

definition Handler_SetVsyncLazyMode :: "bool \<Rightarrow> system \<Rightarrow> system" where
  "Handler_SetVsyncLazyMode isLazy sy = on_main_queue (SetVsyncLazyMode isLazy) (SetVsyncLazyMode isLazy) sy"

definition vsync_policy_cast :: "u32 \<Rightarrow> vsync_policy option" where
  [eh_defs]: "vsync_policy_cast n =
     (if n = 0 then Some DISABLE_VSYNC_FIRST else if n = 1 then Some VSYNC_FIRST_WITH_DEFAULT_BARRIER
      else if n = 2 then Some VSYNC_FIRST_WITHOUT_DEFAULT_BARRIER else None)"

definition Handler_SetVsyncPolicy :: "u32 \<Rightarrow> system \<Rightarrow> system" where
  "Handler_SetVsyncPolicy policy sy =
     (case vsync_policy_cast policy of
        None \<Rightarrow> sy
      | Some p \<Rightarrow> on_main_queue (SetVsyncPolicy p) (SetVsyncPolicy p) sy)"

definition RequestVsyncNotification :: "time \<Rightarrow> handler_ref \<Rightarrow> time \<Rightarrow> int \<Rightarrow> system \<Rightarrow> system option" where
  "RequestVsyncNotification now h lastFrameTime period sy =
     map_option (\<lambda>r. set_queue r (case sy_queue sy r of
         BaseQueue b \<Rightarrow> BaseQueue (UpdateVsyncCheckTime now lastFrameTime period b)
       | FfrtQueue q \<Rightarrow> FfrtQueue (UpdateVsyncCheckTime now lastFrameTime period q)) sy)
       (wd_runner (sy_world sy) h)"

end
