(* ===== verification/Distribution.thy ===== *)
theory Distribution
  imports Handler
begin

text \<open>
  The distribution of an event, \<open>EventHandler::DistributeEvent\<close> of \<open>event_handler.cpp\<close>, and the
  event loops of \<open>EventRunnerImpl\<close> in \<open>event_runner.cpp\<close>. What they do outside the queue (the
  task or \<open>ProcessEvent\<close>, the callbacks of the main looper's watcher, the stack id of the thread,
  reports of slow events) is recorded as a list of actions. The clock readings of one event are
  in \<open>exec_env\<close>, as is what the handler code and other threads did to the queue while the event
  was being handled.
\<close>

section \<open>Thread data, watchers and actions\<close>

record thread_locals =
  tl_handler :: "handler_ref option"
  tl_priority :: int
  tl_runner :: "runner_ref option"
  tl_caller :: caller
  tl_name :: string

definition new_thread_locals :: thread_locals where
  [eh_defs]: "new_thread_locals =
     \<lparr>tl_handler = None, tl_priority = -1, tl_runner = None, tl_caller = no_caller, tl_name = []\<rparr>"

datatype action =
    LooperBegin string
  | LooperEnd string time
  | TimeoutReport int
  | ThreadStackId u64
  | CallTask callback
  | ProcessEvent inner_event
  | SlowEvent string
  | DeliveryTimeoutCallback
  | DistributeTimeoutCallback
  | OpenLocalHandle
  | CloseLocalHandle
  | LogDispatch string
  | Recycle clear_effect

record watch =
  wa_begin :: "(string \<Rightarrow> time) option"
  wa_end :: bool
  wa_report :: bool
  wa_mainTimeout :: int
  wa_isAppMainThread :: bool
  wa_checkSlow :: bool
  wa_seconds :: "int \<Rightarrow> string"
  wa_deliveryCallback :: bool
  wa_distributeCallback :: bool
  wa_threadId :: int
  wa_logger :: bool
  wa_localHandle :: "bool \<times> bool"

text \<open>
  \<open>wa_begin\<close> and \<open>wa_end\<close> are \<open>EventRunner::distributeBegin_\<close> and \<open>distributeEnd_\<close>,
  \<open>wa_report\<close> is \<open>distributeCallback_\<close>, \<open>wa_mainTimeout\<close> the time out of the main runner,
  \<open>wa_checkSlow\<close> the answer of HiChecker, and \<open>wa_seconds\<close> the rendering of a
  \<open>duration<double>\<close>.
\<close>

definition SetMainLooperWatcher :: "(string \<Rightarrow> time) option \<Rightarrow> bool \<Rightarrow> watch \<Rightarrow> watch" where
  "SetMainLooperWatcher begin end_cb w =
     (if (begin \<noteq> None \<and> end_cb) \<or> (begin = None \<and> \<not> end_cb) then w\<lparr>wa_begin := begin, wa_end := end_cb\<rparr> else w)"

section \<open>\<open>DistributeEvent\<close>\<close>

definition DeliveryTimeAction :: "watch \<Rightarrow> event_runner \<Rightarrow> time \<Rightarrow> inner_event \<Rightarrow> action list" where
  "DeliveryTimeAction w r nowStart e =
     (if \<not> wa_checkSlow w then []
      else
        let deliveryTimeout = rn_deliveryTimeout r
        in if deliveryTimeout > 0 then
             (let handOutTag = ''threadId: '' @ to_string_int (wa_threadId w) @ '','' @ ''threadName: '' @
                rn_threadName r @ '','' @ ''eventName: '' @ GetEventName (Some e) @ '','' @ ''deliveryTime: '' @
                wa_seconds w (nowStart - ev_sendTime e) @ '','' @ ''deliveryTimeout: '' @ to_string_int deliveryTimeout
              in if nowStart - deliveryTimeout * MS > ev_handleTime e
                 then SlowEvent handOutTag # (if wa_deliveryCallback w then [DeliveryTimeoutCallback] else [])
                 else [])
           else [])"

definition DistributeTimeAction :: "watch \<Rightarrow> event_runner \<Rightarrow> time \<Rightarrow> time \<Rightarrow> inner_event \<Rightarrow> action list" where
  "DistributeTimeAction w r nowStart nowEnd e =
     (if \<not> wa_checkSlow w then []
      else
        let distributeTimeout = rn_distributeTimeout r
        in if distributeTimeout > 0 then
             (let executeTag = ''threadId: '' @ to_string_int (wa_threadId w) @ '','' @ ''threadName: '' @
                rn_threadName r @ '','' @ ''eventName: '' @ GetEventName (Some e) @ '','' @ ''distributeTime: '' @
                wa_seconds w (nowEnd - nowStart) @ '','' @ ''distributeTimeout: '' @ to_string_int distributeTimeout
              in if nowEnd - distributeTimeout * MS > nowStart
                 then SlowEvent executeTag # (if wa_distributeCallback w then [DistributeTimeoutCallback] else [])
                 else [])
           else [])"

definition DistributeTimeoutHandler :: "watch \<Rightarrow> time \<Rightarrow> time \<Rightarrow> action list" where
  \<comment> \<open>\<open>endTime\<close> is the clock reading of the function; the difference is not negative where it is reported\<close>
  "DistributeTimeoutHandler w endTime beginTime =
     (let distributeTimeout = wa_mainTimeout w
      in if distributeTimeout > 0 then
           (if endTime - distributeTimeout * MS > beginTime \<and> wa_report w
            then [TimeoutReport ((endTime - beginTime) div MS)] else [])
         else [])"

definition DistributeEvent ::
  "watch \<Rightarrow> event_runner option \<Rightarrow> time \<Rightarrow> time \<Rightarrow> handler_ref \<Rightarrow> inner_event option \<Rightarrow>
     thread_locals \<Rightarrow> (action list \<times> thread_locals) option" where
  \<comment> \<open>\<open>r\<close>: the handler's runner; \<open>None\<close> as result: HiChecker makes the code dereference a missing runner\<close>
  "DistributeEvent w r nowStart nowEnd h event loc =
     (case event of
        None \<Rightarrow> Some ([], loc)
      | Some e \<Rightarrow>
          if wa_checkSlow w \<and> r = None then None
          else
            let delivery = (case r of None \<Rightarrow> [] | Some rn \<Rightarrow> DeliveryTimeAction w rn nowStart e);
                eventName = GetEventName (Some e);
                watched = (wa_begin w \<noteq> None \<and> wa_isAppMainThread w);
                begin_acts = (if watched then [LooperBegin eventName] else []);
                beginTime = (case wa_begin w of None \<Rightarrow> 0 | Some f \<Rightarrow> f eventName);
                stack = (case r of None \<Rightarrow> False | Some rn \<Rightarrow> rn_threadMode rn \<noteq> THREAD_FFRT);
                run = (case ev_taskCallback e of Some cb \<Rightarrow> CallTask cb | None \<Rightarrow> ProcessEvent e);
                end_acts = (if watched \<and> wa_end w
                            then LooperEnd eventName beginTime # DistributeTimeoutHandler w nowEnd beginTime else []);
                slow = (case r of None \<Rightarrow> [] | Some rn \<Rightarrow> DistributeTimeAction w rn nowStart nowEnd e)
            in Some (delivery @ begin_acts @ (if stack then [ThreadStackId (ev_stackId e)] else []) @ [run] @
                     (if stack then [ThreadStackId 0] else []) @ end_acts @ slow,
                     loc\<lparr>tl_handler := Some h, tl_priority := ev_priority e\<rparr>))"

section \<open>The loops of a runner\<close>

record exec_env =
  xe_before :: time
  xe_before2 :: time
  xe_start :: time
  xe_end :: time
  xe_after :: time
  xe_vipDone :: time
  xe_consumer :: int
  xe_during :: "queue_op list"

record loop_state =
  ls_queue :: event_queue_base
  ls_actions :: "action list"
  ls_locals :: thread_locals
  ls_executed :: "(time \<times> time \<times> inner_event) list"

text \<open>
  \<open>ls_executed\<close> is no member of the code: it lists the events that were distributed, with the
  times that the history records for them.
\<close>

definition RecordDispatchEventId :: "watch \<Rightarrow> inner_event \<Rightarrow> action list" where
  "RecordDispatchEventId w e =
     (if wa_logger w then
        [LogDispatch (if \<not> HasTask e then ''Dispatching to handler event id = '' @ event_id_string (ev_innerEventId e)
                      else ''Dispatching to handler event task name = '' @ ev_taskName e)]
      else [])"

definition SetCurrentEventInfo :: "inner_event \<Rightarrow> thread_locals \<Rightarrow> thread_locals" where
  "SetCurrentEventInfo e loc =
     loc\<lparr>tl_caller := ev_caller e,
        tl_name := (if HasTask e then ev_taskName e else event_id_string (ev_innerEventId e))\<rparr>"

definition ClearCurrentEventInfo :: "thread_locals \<Rightarrow> thread_locals" where
  "ClearCurrentEventInfo loc = loc\<lparr>tl_caller := no_caller, tl_name := []\<rparr>"

definition CRASH_BUF_MIN_LEN :: nat where [eh_defs]: "CRASH_BUF_MIN_LEN = 2"

definition g_crashEmptyDumpInfo :: string where
  [eh_defs]: "g_crashEmptyDumpInfo = ''Current Event Caller is empty. Nothing to dump''"

datatype crash_write = NoWrite | Formatted nat string | CopyMessage nat

definition CrashCallback :: "thread_locals \<Rightarrow> nat \<Rightarrow> crash_write" where
  \<comment> \<open>what is asked of the secure C library after the buffer of \<open>len\<close> bytes was zeroed: print a
     text with a limit of characters, or copy a number of bytes of \<open>g_crashEmptyDumpInfo\<close>\<close>
  "CrashCallback loc len =
     (if len < CRASH_BUF_MIN_LEN then NoWrite
      else if tl_name loc \<noteq> [] then
        Formatted (len - 1) (''Current Event Caller info: ['' @ c_file (tl_caller loc) @ ''('' @
          c_func (tl_caller loc) @ '':'' @ to_string_int (c_line (tl_caller loc)) @ '')]. EventName is '' @
          [CHR 0x27] @ tl_name loc @ [CHR 0x27])
      else CopyMessage (len - 1))"

definition ExecuteEventHandler ::
  "system_params \<Rightarrow> world \<Rightarrow> watch \<Rightarrow> (handler_ref \<Rightarrow> event_runner option) \<Rightarrow> exec_env \<Rightarrow>
     inner_event \<Rightarrow> loop_state \<Rightarrow> loop_state option" where
  \<comment> \<open>the event is recycled at the end, whether it was distributed or not\<close>
  "ExecuteEventHandler sp wd w runner_of x e s =
     (let recycle = map Recycle (snd (ClearEvent e))
      in case GetOwner (wd_alive wd) e of
           None \<Rightarrow> Some (s\<lparr>ls_actions := ls_actions s @ recycle\<rparr>)
         | Some h \<Rightarrow>
             let loc1 = SetCurrentEventInfo e (ls_locals s);
                 q1 = PushHistoryQueueBeforeDistribute (xe_before x) (xe_before2 x) (Some e) (ls_queue s)
             in case DistributeEvent w (runner_of h) (xe_start x) (xe_end x) h (Some e) loc1 of
                  None \<Rightarrow> None
                | Some (acts, loc2) \<Rightarrow>
                    let q2 = apply_ops sp wd (xe_during x) q1;
                        q3 = PushHistoryQueueAfterDistribute (xe_after x) q2;
                        q4 = (if p_smart_gc sp then NotifyObserverVipDone (xe_vipDone x) (xe_consumer x) e q3 else q3)
                    in Some \<lparr>ls_queue = q4,
                             ls_actions = ls_actions s @ RecordDispatchEventId w e @ acts @ recycle,
                             ls_locals = ClearCurrentEventInfo loc2,
                             ls_executed = ls_executed s @ [(xe_before x, xe_after x, e)]\<rparr>)"

datatype loop_end = Stopped loop_state | Crashed | OutOfRounds loop_state

fun DefaultModeLoop ::
  "system_params \<Rightarrow> world \<Rightarrow> watch \<Rightarrow> (handler_ref \<Rightarrow> event_runner option) \<Rightarrow> bool \<Rightarrow>
     (round list \<times> exec_env) list \<Rightarrow> loop_state \<Rightarrow> loop_end" where
  \<comment> \<open>each pass has the rounds of its \<open>GetEvent\<close>; \<open>mainRunner\<close> is \<open>mainRunnerFlag_\<close>\<close>
  "DefaultModeLoop sp wd w runner_of mainRunner [] s = OutOfRounds s"
| "DefaultModeLoop sp wd w runner_of mainRunner ((rs, x) # passes) s =
     (case GetEvent sp wd rs (ls_queue s) of
        None \<Rightarrow> OutOfRounds s
      | Some (None, q) \<Rightarrow> Stopped (s\<lparr>ls_queue := q\<rparr>)
      | Some (Some e, q) \<Rightarrow>
          let s1 = s\<lparr>ls_queue := q,
                     ls_actions := ls_actions s @ (if mainRunner \<and> fst (wa_localHandle w) then [OpenLocalHandle] else [])\<rparr>
          in case ExecuteEventHandler sp wd w runner_of x e s1 of
               None \<Rightarrow> Crashed
             | Some s2 \<Rightarrow>
                 DefaultModeLoop sp wd w runner_of mainRunner passes
                   (s2\<lparr>ls_actions := ls_actions s2 @ (if mainRunner \<and> snd (wa_localHandle w) then [CloseLocalHandle] else [])\<rparr>))"

fun expired_loop ::
  "system_params \<Rightarrow> world \<Rightarrow> watch \<Rightarrow> (handler_ref \<Rightarrow> event_runner option) \<Rightarrow>
     (time \<times> exec_env) list \<Rightarrow> loop_state \<Rightarrow> loop_end" where
  \<comment> \<open>one of the two \<open>for\<close> loops of \<open>NoWaitModeLoop\<close>\<close>
  "expired_loop sp wd w runner_of [] s = OutOfRounds s"
| "expired_loop sp wd w runner_of ((now, x) # passes) s =
     (case GetExpiredEvent now TIME_MAX (ls_queue s) of
        (None, t, q) \<Rightarrow> Stopped (s\<lparr>ls_queue := q\<rparr>)
      | (Some e, t, q) \<Rightarrow>
          (case ExecuteEventHandler sp wd w runner_of x e (s\<lparr>ls_queue := q\<rparr>) of
             None \<Rightarrow> Crashed
           | Some s1 \<Rightarrow> expired_loop sp wd w runner_of passes s1))"

definition NoWaitModeLoop ::
  "system_params \<Rightarrow> world \<Rightarrow> watch \<Rightarrow> (handler_ref \<Rightarrow> event_runner option) \<Rightarrow>
     (time \<times> exec_env) list \<Rightarrow> queue_op list \<Rightarrow> wait_outcome \<Rightarrow> (time \<times> exec_env) list \<Rightarrow>
     loop_state \<Rightarrow> loop_end" where
  "NoWaitModeLoop sp wd w runner_of passes others wo passes' s =
     (case expired_loop sp wd w runner_of passes s of
        Stopped s1 \<Rightarrow>
          (let (cbs, q) = CheckFileDescriptorEvent wd (apply_ops sp wd others) wo (ls_queue s1)
           in expired_loop sp wd w runner_of passes' (s1\<lparr>ls_queue := q\<rparr>))
      | stop \<Rightarrow> stop)"

end
