(* ===== verification/Runner.thy ===== *)
theory Runner
  imports Distribution
begin

text \<open>
  \<open>EventRunner\<close> and the collector of finished threads in \<open>event_runner.cpp\<close>: creation, the entry
  and exit of the loop, \<open>Run\<close> and \<open>Stop\<close> as steps of several threads, the thread of a deposited
  runner, and \<open>ThreadCollector\<close>. Starting, joining and naming of threads by the system is left
  out; what is kept is the state that decides who runs and who is joined.
\<close>

section \<open>Creation\<close>

definition SetThreadName :: "nat \<Rightarrow> string \<Rightarrow> string \<times> nat" where
  \<comment> \<open>the name and the next value of the static \<open>idGenerator\<close>\<close>
  "SetThreadName idGenerator threadName =
     (if threadName = [] then (''EventRunner#'' @ to_string_nat idGenerator, idGenerator + 1)
      else (threadName, idGenerator))"

record creation =
  cn_runner :: event_runner
  cn_queue :: runner_queue
  cn_thread :: bool
  cn_idGenerator :: nat

definition base_queue :: "time \<Rightarrow> runner_queue" where
  \<comment> \<open>the queue of a new \<open>EventRunnerImpl\<close>, after \<open>SetIoWaiter(false)\<close>\<close>
  [eh_defs]: "base_queue now = BaseQueue ((new_queue now)\<lparr>q_useDeamonIoWaiter := False\<rparr>)"

definition Create_named :: "time \<Rightarrow> nat \<Rightarrow> string \<Rightarrow> runner_mode \<Rightarrow> thread_mode \<Rightarrow> creation" where
  \<comment> \<open>\<open>cn_thread\<close>: a thread is started for the runner\<close>
  "Create_named now gen threadName mode threadMode =
     (let (name, gen1) = SetThreadName gen threadName;
          sp = (new_runner True mode now)\<lparr>rn_threadName := name\<rparr>;
          (sp1, q) =
            (if threadMode = THREAD_FFRT \<and> mode = MODE_DEFAULT
             then (sp\<lparr>rn_threadMode := THREAD_FFRT\<rparr>, FfrtQueue (new_ffrt_queue\<lparr>q_useDeamonIoWaiter := True\<rparr>))
             else (sp\<lparr>rn_threadMode := NEW_THREAD\<rparr>, base_queue now))
      in \<lparr>cn_runner = sp1, cn_queue = q,
          cn_thread = (\<not> (threadMode = THREAD_FFRT \<or> mode = MODE_NO_WAIT)), cn_idGenerator = gen1\<rparr>)"

definition Create_mode :: "time \<Rightarrow> nat \<Rightarrow> bool \<Rightarrow> runner_mode \<Rightarrow> creation" where
  "Create_mode now gen inNewThread mode =
     (if inNewThread then Create_named now gen [] mode NEW_THREAD
      else \<lparr>cn_runner = (new_runner False mode now)\<lparr>rn_threadMode := NEW_THREAD\<rparr>,
            cn_queue = base_queue now, cn_thread = False, cn_idGenerator = gen\<rparr>)"

definition Create_threadMode :: "time \<Rightarrow> nat \<Rightarrow> bool \<Rightarrow> thread_mode \<Rightarrow> creation" where
  "Create_threadMode now gen inNewThread threadMode =
     (if inNewThread then Create_named now gen [] MODE_DEFAULT threadMode
      else \<lparr>cn_runner = (new_runner False MODE_DEFAULT now)\<lparr>rn_threadMode := NEW_THREAD\<rparr>,
            cn_queue = base_queue now, cn_thread = False, cn_idGenerator = gen\<rparr>)"

definition GetMainEventRunner :: "time \<Rightarrow> nat \<Rightarrow> creation option \<Rightarrow> creation" where
  \<comment> \<open>\<open>mainRunner_\<close> is created on the first call\<close>
  "GetMainEventRunner now gen mainRunner =
     (case mainRunner of None \<Rightarrow> Create_mode now gen False MODE_DEFAULT | Some r \<Rightarrow> r)"

section \<open>Queries\<close>

definition Runner_Current :: "bool \<Rightarrow> (handler_ref \<times> world) option \<Rightarrow> runner_ref option \<Rightarrow> runner_ref option" where
  \<comment> \<open>in an FFRT task the runner of the handler that the library stores for the task, else the
     thread's \<open>currentEventRunner\<close> when it is alive\<close>
  "Runner_Current ffrtTask ffrtHandler current =
     (if ffrtTask then (case ffrtHandler of None \<Rightarrow> None | Some (h, wd) \<Rightarrow> wd_runner wd h) else current)"

definition GetCurrentEventQueue :: "bool \<Rightarrow> (handler_ref \<times> world) option \<Rightarrow> runner_ref option \<Rightarrow> system \<Rightarrow> runner_queue option" where
  "GetCurrentEventQueue ffrtTask ffrtHandler current sy =
     map_option (sy_queue sy) (Runner_Current ffrtTask ffrtHandler current)"

definition IsCurrentRunnerThread :: "bool \<Rightarrow> (handler_ref \<times> world) option \<Rightarrow> nat \<Rightarrow> runner_ref \<Rightarrow> event_runner \<Rightarrow> bool" where
  \<comment> \<open>in an FFRT task: the queues are the same object, so the runners are; else \<open>thread\<close> is the
     caller's thread id\<close>
  "IsCurrentRunnerThread ffrtTask ffrtHandler thread r rn =
     (if ffrtTask then (case ffrtHandler of None \<Rightarrow> False | Some (h, wd) \<Rightarrow> wd_runner wd h = Some r)
      else rn_threadId rn = Some thread)"

definition Handler_Current :: "bool \<Rightarrow> handler_ref option \<Rightarrow> (handler_ref \<Rightarrow> bool) \<Rightarrow> thread_locals \<Rightarrow> handler_ref option" where
  \<comment> \<open>\<open>EventHandler::Current\<close>: the library's handler of the task, or the thread's weak pointer\<close>
  "Handler_Current ffrtTask ffrtHandler alive loc =
     (if ffrtTask then ffrtHandler
      else (case tl_handler loc of None \<Rightarrow> None | Some h \<Rightarrow> if alive h then Some h else None))"

definition IsAppMainThread :: "int \<Rightarrow> int \<Rightarrow> int \<Rightarrow> bool" where
  \<comment> \<open>process id, thread id and user id; \<open>MIN_APP_UID\<close> is 20000\<close>
  [eh_defs]: "IsAppMainThread pid tid uid \<longleftrightarrow> pid = tid \<and> uid \<ge> 20000"

definition rq_Dump ::
  "(time \<Rightarrow> string) \<Rightarrow> (handler_ref \<Rightarrow> bool) \<Rightarrow> ffrt_lib \<Rightarrow> string \<Rightarrow> runner_queue \<Rightarrow> string list" where
  [eh_defs]: "rq_Dump fmt alive lib tag q =
     (case q of BaseQueue b \<Rightarrow> Dump fmt alive tag b | FfrtQueue f \<Rightarrow> Ffrt_Dump lib tag f)"

definition Runner_Dump ::
  "(time \<Rightarrow> string) \<Rightarrow> (handler_ref \<Rightarrow> bool) \<Rightarrow> ffrt_lib \<Rightarrow> string \<Rightarrow> event_runner \<Rightarrow> runner_queue option \<Rightarrow> string list" where
  "Runner_Dump fmt alive lib tag rn queue =
     (if \<not> IsRunning rn then [tag @ '' Event runner is not running'' @ LINE_SEPARATOR]
      else
        case queue of
          None \<Rightarrow> [tag @ '' Queue is nullLINE_SEPARATOR'' @ LINE_SEPARATOR]
        | Some q \<Rightarrow>
            (tag @ '' Event runner ('' @ ''Thread name = '' @ rn_threadName rn @ '', Thread ID = '' @
              to_string_nat (unat (u64_of_time (rn_kernelThreadId rn))) @ '') is running'' @ LINE_SEPARATOR) #
            rq_Dump fmt alive lib tag q)"

definition DumpRunnerInfo ::
  "(time \<Rightarrow> string) \<Rightarrow> (handler_ref \<Rightarrow> bool) \<Rightarrow> ffrt_lib \<Rightarrow> event_runner \<Rightarrow> runner_queue option \<Rightarrow> string \<Rightarrow> string" where
  \<comment> \<open>the first test does not return\<close>
  "DumpRunnerInfo fmt alive lib rn queue runnerInfo =
     (let info = (if \<not> IsRunning rn then ''        Event runner is not running'' @ LINE_SEPARATOR else runnerInfo)
      in case queue of
           None \<Rightarrow> ''        Queue is null'' @ LINE_SEPARATOR
         | Some q \<Rightarrow> info @ (case q of BaseQueue b \<Rightarrow> DumpQueueInfo fmt alive b []
                                     | FfrtQueue f \<Rightarrow> Ffrt_DumpQueueInfo lib [] f))"

definition Handler_Dump ::
  "(time \<Rightarrow> string) \<Rightarrow> string \<Rightarrow> (handler_ref \<Rightarrow> bool) \<Rightarrow> ffrt_lib \<Rightarrow> string \<Rightarrow> handler_ref \<Rightarrow> system \<Rightarrow> string list" where
  \<comment> \<open>\<open>EventHandler::Dump\<close>; \<open>curTime\<close> is the rendered time of the system clock\<close>
  "Handler_Dump fmt curTime alive lib tag h sy =
     (tag @ '' EventHandler dump begin curTime: '' @ curTime @ LINE_SEPARATOR) #
     (case wd_runner (sy_world sy) h of
        None \<Rightarrow> [tag @ '' event runner uninitialized!'' @ LINE_SEPARATOR]
      | Some r \<Rightarrow> Runner_Dump fmt alive lib tag (sy_runner sy r) (Some (sy_queue sy r)))"

section \<open>The loop of a runner\<close>

record loop_env =
  le_passes :: "(round list \<times> exec_env) list"
  le_first :: "(time \<times> exec_env) list"
  le_others :: "queue_op list"
  le_outcome :: wait_outcome
  le_second :: "(time \<times> exec_env) list"

definition set_loop_runner :: "runner_ref option \<Rightarrow> loop_state \<Rightarrow> loop_state" where
  [eh_defs]: "set_loop_runner r s = s\<lparr>ls_locals := (ls_locals s)\<lparr>tl_runner := r\<rparr>\<rparr>"

fun restore_runner :: "runner_ref option \<Rightarrow> loop_end \<Rightarrow> loop_end" where
  "restore_runner old (Stopped s) = Stopped (set_loop_runner old s)"
| "restore_runner old stop = stop"

definition EventRunnerImpl_Run ::
  "system_params \<Rightarrow> world \<Rightarrow> watch \<Rightarrow> (handler_ref \<Rightarrow> event_runner option) \<Rightarrow> bool \<Rightarrow> runner_ref \<Rightarrow> nat \<Rightarrow> int \<Rightarrow>
     loop_env \<Rightarrow> event_runner \<Rightarrow> loop_state \<Rightarrow> event_runner \<times> loop_end" where
  \<comment> \<open>\<open>owner_alive\<close>: \<open>owner_\<close> has not expired; \<open>thread\<close> and \<open>proc\<close> are the ids of the thread\<close>
  "EventRunnerImpl_Run sp wd w runner_of owner_alive r thread proc env rn s =
     (let s1 = s\<lparr>ls_queue := Prepare (ls_queue s)\<rparr>
      in if \<not> owner_alive then (rn, Stopped s1)
         else
           let mainRunnerFlag = (wd_mainRunner wd = Some r);
               rn1 = rn\<lparr>rn_threadId := Some thread, rn_kernelThreadId := proc\<rparr>;
               oldRunner = tl_runner (ls_locals s1);
               s2 = set_loop_runner (Some r) s1;
               stop = (if rn_runningMode rn = MODE_NO_WAIT
                       then NoWaitModeLoop sp wd w runner_of (le_first env) (le_others env) (le_outcome env) (le_second env) s2
                       else DefaultModeLoop sp wd w runner_of mainRunnerFlag (le_passes env) s2)
           in (rn1, restore_runner oldRunner stop))"

section \<open>\<open>Run\<close> and \<open>Stop\<close>\<close>

text \<open>
  Several threads may call \<open>Run\<close> and \<open>Stop\<close> of one runner. \<open>Run\<close> is the exchange of \<open>running_\<close>,
  \<open>queue_->Prepare()\<close>, the loop, and \<open>running_.store(false)\<close>; the steps of threads interleave
  between them.
\<close>

datatype run_point = Outside | Entered | Looping | Leaving

record run_state =
  st_running :: bool
  st_finished :: bool
  st_point :: "nat \<Rightarrow> run_point"

definition Run_enter :: "bool \<Rightarrow> runner_mode \<Rightarrow> nat \<Rightarrow> run_state \<Rightarrow> err_code \<times> run_state" where
  \<comment> \<open>the tests and the exchange at the start of \<open>EventRunner::Run\<close> by thread \<open>i\<close>; \<open>ERR_OK\<close>: go on\<close>
  "Run_enter deposit mode i s =
     (if deposit \<and> mode = MODE_DEFAULT then (EVENT_HANDLER_ERR_RUNNER_NO_PERMIT, s)
      else if st_running s then (EVENT_HANDLER_ERR_RUNNER_ALREADY, s)
      else (ERR_OK, s\<lparr>st_running := True, st_point := (st_point s)(i := Entered)\<rparr>))"

definition Run_prepare :: "nat \<Rightarrow> run_state \<Rightarrow> run_state" where
  \<comment> \<open>\<open>queue_->Prepare()\<close> on a usable queue\<close>
  "Run_prepare i s = s\<lparr>st_finished := False, st_point := (st_point s)(i := Looping)\<rparr>"

definition Run_loop_exit :: "nat \<Rightarrow> run_state \<Rightarrow> run_state" where
  \<comment> \<open>\<open>GetEvent\<close> returned nothing\<close>
  "Run_loop_exit i s = s\<lparr>st_point := (st_point s)(i := Leaving)\<rparr>"

definition Run_leave :: "nat \<Rightarrow> run_state \<Rightarrow> run_state" where
  "Run_leave i s = s\<lparr>st_running := False, st_point := (st_point s)(i := Outside)\<rparr>"

definition Runner_Stop :: "bool \<Rightarrow> run_state \<Rightarrow> err_code \<times> run_state" where
  \<comment> \<open>\<open>EventRunner::Stop\<close>; \<open>Finish\<close> sets \<open>finished_\<close> and wakes the loop\<close>
  "Runner_Stop deposit s =
     (if deposit then (EVENT_HANDLER_ERR_RUNNER_NO_PERMIT, s)
      else if st_running s then (ERR_OK, s\<lparr>st_finished := True\<rparr>)
      else (ERR_OK, s))"

definition Run_no_wait :: "nat \<Rightarrow> run_state \<Rightarrow> err_code \<times> nat \<times> run_state" where
  \<comment> \<open>\<open>EventRunner::Run\<close> of a deposited runner in the mode \<open>NO_WAIT\<close>, called by thread \<open>i\<close>: the number
     of threads it starts; it does not wait for them\<close>
  "Run_no_wait i s =
     (case Run_enter True MODE_NO_WAIT i s of
        (ERR_OK, s1) \<Rightarrow> (ERR_OK, 1, Run_leave i s1)
      | (err, s1) \<Rightarrow> (err, 0, s1))"

definition not_run :: run_state where
  [eh_defs]: "not_run = \<lparr>st_running = False, st_finished = True, st_point = (\<lambda>_. Outside)\<rparr>"

inductive run_step :: "run_state \<Rightarrow> run_state \<Rightarrow> bool" where
  enter: "st_point s i = Outside \<Longrightarrow> run_step s (snd (Run_enter False MODE_DEFAULT i s))"
| prepare: "st_point s i = Entered \<Longrightarrow> run_step s (Run_prepare i s)"
| loop_exit: "st_point s i = Looping \<Longrightarrow> st_finished s \<Longrightarrow> run_step s (Run_loop_exit i s)"
| leave: "st_point s i = Leaving \<Longrightarrow> run_step s (Run_leave i s)"
| stop: "run_step s (snd (Runner_Stop False s))"

inductive run_reach :: "run_state \<Rightarrow> bool" where
  start: "run_reach not_run"
| step: "run_reach s \<Longrightarrow> run_step s s' \<Longrightarrow> run_reach s'"

inductive_cases run_stepE: "run_step s s'"

definition run_inv :: "run_state \<Rightarrow> bool" where
  "run_inv s \<longleftrightarrow> (\<forall>i j. st_point s i \<noteq> Outside \<longrightarrow> st_point s j \<noteq> Outside \<longrightarrow> i = j) \<and>
     (\<forall>i. st_point s i \<noteq> Outside \<longrightarrow> st_running s)"

lemma run_step_inv: "run_step s s' \<Longrightarrow> run_inv s \<Longrightarrow> run_inv s'"
  by (erule run_stepE)
    (auto simp: run_inv_def Run_enter_def Run_prepare_def Run_loop_exit_def Run_leave_def Runner_Stop_def
      split: if_splits)

lemma run_reach_inv: "run_reach s \<Longrightarrow> run_inv s"
proof (induction rule: run_reach.induct)
  case start
  show ?case by (simp add: run_inv_def not_run_def)
next
  case (step s s')
  then show ?case using run_step_inv by blast
qed

section \<open>The thread of a deposited runner\<close>

text \<open>
  A deposited runner owns a thread that runs \<open>ThreadMain\<close>, and \<open>~EventRunner\<close> stops it. The thread
  prepares the queue and then tests whether the runner still exists; the runner's destructor
  runs after weak references to it have expired.
\<close>

datatype deposit_point = Starting | Prepared | InLoop | Ended

record deposit_state =
  dp_alive :: bool
  dp_stopped :: bool
  dp_finished :: bool
  dp_point :: deposit_point

definition deposit_start :: deposit_state where
  [eh_defs]: "deposit_start = \<lparr>dp_alive = True, dp_stopped = False, dp_finished = True, dp_point = Starting\<rparr>"

definition thread_prepare :: "deposit_state \<Rightarrow> deposit_state" where
  [eh_defs]: "thread_prepare s = s\<lparr>dp_finished := False, dp_point := Prepared\<rparr>"

definition thread_check_owner :: "deposit_state \<Rightarrow> deposit_state" where
  [eh_defs]: "thread_check_owner s = s\<lparr>dp_point := (if \<not> dp_alive s then Ended else InLoop)\<rparr>"

definition thread_exit :: "deposit_state \<Rightarrow> deposit_state" where
  [eh_defs]: "thread_exit s = s\<lparr>dp_point := Ended\<rparr>"

definition runner_expires :: "deposit_state \<Rightarrow> deposit_state" where
  [eh_defs]: "runner_expires s = s\<lparr>dp_alive := False\<rparr>"

definition runner_destroyed :: "deposit_state \<Rightarrow> deposit_state" where
  \<comment> \<open>\<open>~EventRunner\<close>: \<open>innerRunner_->Stop()\<close>\<close>
  [eh_defs]: "runner_destroyed s = s\<lparr>dp_finished := True, dp_stopped := True\<rparr>"

definition thread_next :: "deposit_state \<Rightarrow> deposit_state" where
  \<comment> \<open>the next step of the thread; in the loop it goes on unless the queue is finished\<close>
  "thread_next s =
     (case dp_point s of
        Starting \<Rightarrow> thread_prepare s
      | Prepared \<Rightarrow> thread_check_owner s
      | InLoop \<Rightarrow> if dp_finished s then thread_exit s else s
      | Ended \<Rightarrow> s)"

inductive deposit_step :: "deposit_state \<Rightarrow> deposit_state \<Rightarrow> bool" where
  thread: "deposit_step s (thread_next s)"
| expire: "dp_alive s \<Longrightarrow> deposit_step s (runner_expires s)"
| destroy: "\<not> dp_alive s \<Longrightarrow> \<not> dp_stopped s \<Longrightarrow> deposit_step s (runner_destroyed s)"

inductive deposit_reach :: "deposit_state \<Rightarrow> bool" where
  start: "deposit_reach deposit_start"
| step: "deposit_reach s \<Longrightarrow> deposit_step s s' \<Longrightarrow> deposit_reach s'"

inductive_cases deposit_stepE: "deposit_step s s'"

definition deposit_inv :: "deposit_state \<Rightarrow> bool" where
  "deposit_inv s \<longleftrightarrow> (dp_stopped s \<longrightarrow> \<not> dp_alive s) \<and> (dp_stopped s \<longrightarrow> dp_point s = InLoop \<longrightarrow> dp_finished s)"

lemma deposit_step_inv: "deposit_step s s' \<Longrightarrow> deposit_inv s \<Longrightarrow> deposit_inv s'"
  by (erule deposit_stepE)
    (auto simp: deposit_inv_def thread_next_def thread_prepare_def thread_check_owner_def thread_exit_def
      runner_expires_def runner_destroyed_def split: deposit_point.splits)

lemma deposit_reach_inv: "deposit_reach s \<Longrightarrow> deposit_inv s"
proof (induction rule: deposit_reach.induct)
  case start
  show ?case by (simp add: deposit_inv_def deposit_start_def)
next
  case (step s s')
  then show ?case using deposit_step_inv by blast
qed

section \<open>The thread collector\<close>

record collector =
  tc_isWaiting :: bool
  tc_destroying :: bool
  tc_reclaims :: "nat list"
  tc_depositMap :: "nat list"
  tc_thread :: bool
  tc_needCreateThread :: bool
  tc_joined :: "nat list"
  tc_exitCalls :: "nat list"

text \<open>
  Threads are numbers. \<open>depositMap_\<close> is the list of its keys, the last two fields list the
  threads that were joined and those whose \<open>threadExit\<close> was called. Each operation is the part
  of the function under \<open>collectorLock_\<close>.
\<close>

definition new_collector :: collector where
  [eh_defs]: "new_collector =
     \<lparr>tc_isWaiting = False, tc_destroying = False, tc_reclaims = [], tc_depositMap = [],
      tc_thread = False, tc_needCreateThread = True, tc_joined = [], tc_exitCalls = []\<rparr>"

definition ReclaimCurrentThread :: "bool \<Rightarrow> nat \<Rightarrow> collector \<Rightarrow> collector" where
  \<comment> \<open>\<open>locked\<close>: \<open>threadLock_.try_lock()\<close> succeeds\<close>
  "ReclaimCurrentThread locked t c =
     (if tc_destroying c then c
      else
        let c1 = c\<lparr>tc_reclaims := tc_reclaims c @ [t]\<rparr>
        in if locked then (if \<not> tc_thread c1 \<and> tc_needCreateThread c1 then c1\<lparr>tc_thread := True\<rparr> else c1)
           else c1)"

definition Deposit :: "bool \<Rightarrow> nat \<Rightarrow> collector \<Rightarrow> bool \<times> collector" where
  \<comment> \<open>\<open>valid\<close>: the thread is joinable and has an exit callback\<close>
  "Deposit valid t c =
     (if \<not> valid then (False, c)
      else if tc_destroying c then (False, c)
      else (True, if t \<in> set (tc_depositMap c) then c else c\<lparr>tc_depositMap := tc_depositMap c @ [t]\<rparr>))"

definition DoReclaimLocked :: "nat \<Rightarrow> bool \<Rightarrow> collector \<Rightarrow> collector" where
  "DoReclaimLocked t needCallExit c =
     (if t \<notin> set (tc_depositMap c) then c
      else c\<lparr>tc_depositMap := removeAll t (tc_depositMap c),
             tc_exitCalls := tc_exitCalls c @ (if needCallExit then [t] else []),
             tc_joined := tc_joined c @ [t]\<rparr>)"

definition Run_reclaim_one :: "collector \<Rightarrow> collector" where
  \<comment> \<open>one pass of the inner loop of \<open>ThreadCollector::Run\<close>: the last of \<open>reclaims_\<close>\<close>
  "Run_reclaim_one c =
     (if tc_reclaims c = [] then c
      else DoReclaimLocked (last (tc_reclaims c)) False (c\<lparr>tc_reclaims := butlast (tc_reclaims c)\<rparr>))"

fun Run_reclaims :: "nat \<Rightarrow> collector \<Rightarrow> collector" where
  \<comment> \<open>the inner loop without interruption, \<open>n\<close> passes\<close>
  "Run_reclaims 0 c = c"
| "Run_reclaims (Suc n) c = Run_reclaims n (Run_reclaim_one c)"

definition Collector_Stop_request :: "collector \<Rightarrow> collector" where
  [eh_defs]: "Collector_Stop_request c = c\<lparr>tc_destroying := True\<rparr>"

definition Collector_Stop_joined :: "collector \<Rightarrow> collector" where
  \<comment> \<open>after the collector thread was joined\<close>
  [eh_defs]: "Collector_Stop_joined c = c\<lparr>tc_thread := False, tc_needCreateThread := False\<rparr>"

definition ReclaimAll :: "collector \<Rightarrow> collector" where
  \<comment> \<open>the order of an \<open>unordered_map\<close> is not specified; it does not matter here\<close>
  "ReclaimAll c = fold (\<lambda>t. DoReclaimLocked t True) (tc_depositMap c) c"

definition Collector_Stop :: "collector \<Rightarrow> collector" where
  \<comment> \<open>\<open>ThreadCollector::Stop\<close> when no other thread comes between its parts\<close>
  [eh_defs]: "Collector_Stop c = ReclaimAll (Collector_Stop_joined (Collector_Stop_request c))"

record avatar_flags =
  av_enabled :: bool
  av_destructed :: bool

definition ThreadCollector_ctor :: "avatar_flags \<Rightarrow> avatar_flags \<times> collector" where
  [eh_defs]: "ThreadCollector_ctor f = (f\<lparr>av_enabled := True\<rparr>, new_collector)"

definition Avatar_dtor :: "avatar_flags \<times> collector \<Rightarrow> avatar_flags \<times> collector" where
  [eh_defs]: "Avatar_dtor s =
     (if av_enabled (fst s) then ((fst s)\<lparr>av_destructed := True\<rparr>, Collector_Stop (snd s)) else s)"

definition ThreadCollector_dtor :: "avatar_flags \<times> collector \<Rightarrow> avatar_flags \<times> collector" where
  [eh_defs]: "ThreadCollector_dtor s =
     (if \<not> av_destructed (fst s) then ((fst s)\<lparr>av_enabled := False\<rparr>, Collector_Stop (snd s)) else s)"

datatype collector_op =
    OpDeposit nat
  | OpReclaimCurrent bool nat
  | OpReclaimOne
  | OpStopRequest
  | OpStopJoined
  | OpReclaimAll

fun collector_apply :: "collector_op \<Rightarrow> collector \<Rightarrow> collector" where
  "collector_apply (OpDeposit t) c = snd (Deposit True t c)"
| "collector_apply (OpReclaimCurrent locked t) c = ReclaimCurrentThread locked t c"
| "collector_apply OpReclaimOne c = Run_reclaim_one c"
| "collector_apply OpStopRequest c = Collector_Stop_request c"
| "collector_apply OpStopJoined c = Collector_Stop_joined c"
| "collector_apply OpReclaimAll c = ReclaimAll c"

lemma DoReclaimLocked_all:
  "distinct ts \<Longrightarrow> tc_depositMap c = us @ ts \<Longrightarrow> distinct us \<Longrightarrow> set us \<inter> set ts = {} \<Longrightarrow>
     tc_depositMap (fold (\<lambda>t. DoReclaimLocked t True) ts c) = us \<and>
     tc_joined (fold (\<lambda>t. DoReclaimLocked t True) ts c) = tc_joined c @ ts \<and>
     tc_exitCalls (fold (\<lambda>t. DoReclaimLocked t True) ts c) = tc_exitCalls c @ ts"
proof (induction ts arbitrary: c)
  case Nil
  then show ?case by simp
next
  case (Cons t ts)
  let ?c = "DoReclaimLocked t True c"
  have "removeAll t us = us" using Cons.prems(4) by (simp add: removeAll_id)
  moreover have "removeAll t ts = ts" using Cons.prems(1) by (simp add: removeAll_id)
  ultimately have c: "tc_depositMap ?c = us @ ts" "tc_joined ?c = tc_joined c @ [t]" "tc_exitCalls ?c = tc_exitCalls c @ [t]"
    using Cons.prems(2) by (simp_all add: DoReclaimLocked_def)
  have "distinct ts" "set us \<inter> set ts = {}" using Cons.prems by auto
  from Cons.IH [OF this(1) c(1) Cons.prems(3) this(2)] c show ?case by simp
qed

lemma ReclaimAll_all:
  assumes "distinct (tc_depositMap c)"
  shows "tc_depositMap (ReclaimAll c) = []" "tc_joined (ReclaimAll c) = tc_joined c @ tc_depositMap c"
    "tc_exitCalls (ReclaimAll c) = tc_exitCalls c @ tc_depositMap c"
  using DoReclaimLocked_all [OF assms, of c "[]"] by (simp_all add: ReclaimAll_def)

lemma fold_DoReclaim_keep:
  "tc_destroying (fold (\<lambda>t. DoReclaimLocked t b) ts c) = tc_destroying c \<and>
   tc_reclaims (fold (\<lambda>t. DoReclaimLocked t b) ts c) = tc_reclaims c"
  by (induction ts arbitrary: c) (simp_all add: DoReclaimLocked_def)

lemma ReclaimAll_keep [simp]:
  "tc_destroying (ReclaimAll c) = tc_destroying c" "tc_reclaims (ReclaimAll c) = tc_reclaims c"
  by (simp_all add: ReclaimAll_def fold_DoReclaim_keep)

end
