(* ===== verification/Handler_Properties.thy ===== *)
theory Handler_Properties
  imports Runner
begin

text \<open>
  Properties of handlers on a runner with a base queue: what sending, removing and switching the
  runner do to the queues, the meaning of \<open>HasPendingHigherEvent\<close>, and synchronous events.
\<close>

section \<open>A small system for evaluations\<close>

definition no_lib :: ffrt_lib where
  [eh_defs]: "no_lib = \<lparr>fl_cancel_by_name = \<lambda>_. 1, fl_has_task = \<lambda>_. False, fl_is_idle = True, fl_size = \<lambda>_. 0,
     fl_dump = \<lambda>_ _. (0, [])\<rparr>"

definition call_at :: "time \<Rightarrow> call_env" where
  [eh_defs]: "call_at now =
     \<lparr>ca_sp = default_params, ca_lib = no_lib, ca_kernel = good_kernel, ca_deamonKernel = good_kernel,
      ca_deamonInit = \<lparr>ir_epfd = 3, ir_evfd = 4, ir_ctl = 0\<rparr>, ca_epollInit = \<lparr>ir_epfd = 5, ir_evfd = 6, ir_ctl = 0\<rparr>,
      ca_now = now, ca_tid = 77, ca_stackId = 0, ca_consumer = 0, ca_current = None, ca_ffrtTask = False\<rparr>"

definition system_of :: "event_queue_base \<Rightarrow> system" where
  \<comment> \<open>every handler on its own runner; the queue is that of every runner\<close>
  [eh_defs]: "system_of q =
     \<lparr>sy_world = small_world, sy_runner = (\<lambda>_. new_runner True MODE_DEFAULT 0),
      sy_queue = (\<lambda>_. BaseQueue q), sy_deamon = new_deamon\<rparr>"

section \<open>Sending\<close>

lemma put_event_end:
  assumes "queue_wf q" "prio \<in> {VIP, IMMEDIATE, HIGH, LOW, IDLE}"
  shows "content (put_event prio e AT_END q) = add_mset e (content q)"
proof (cases prio rule: priority_cases)
  case sub
  let ?i = "prio_index prio"
  let ?es = "sq_queue (sub q ?i)"
  have "content (insert_sub ?i e AT_END q) + mset ?es = content q + mset (InsertEventsLocked ?es e AT_END)"
    using sub(2) queue_wf_length [OF assms(1)]
      content_map_sub [of ?i q "\<lambda>s. with_queue (InsertEventsLocked (sq_queue s) e AT_END) s"]
    by (simp add: insert_sub_def with_queue_def)
  then show ?thesis using sub(1) by (simp add: put_event_sub InsertEventsLocked_def)
next
  case idle
  then show ?thesis by (simp add: put_event_def content_sum InsertEventsLocked_def)
next
  case (other n)
  with assms show ?thesis by simp
qed

lemma Insert_end_content:
  assumes "queue_wf q" "prio \<in> {VIP, IMMEDIATE, HIGH, LOW, IDLE}" "q_usable q"
  shows "fst (Insert sp wd now c (Some e) prio AT_END op q)"
    "content (snd (Insert sp wd now c (Some e) prio AT_END op q)) =
       add_mset (stored_event wd op (q_vsyncPolicy q) prio e) (content q)"
proof -
  show "fst (Insert sp wd now c (Some e) prio AT_END op q)" using assms(3) by (simp add: Insert_result)
  have "same_lists (put_event prio (stored_event wd op (q_vsyncPolicy q) prio e) AT_END q)
      (snd (Insert sp wd now c (Some e) prio AT_END op q))"
    using Insert_lists [where q = q and prio = prio and wd = wd and op = op and e = e and it = AT_END
        and sp = sp and now = now and c = c] assms(3) by simp
  from content_same [OF this] show "content (snd (Insert sp wd now c (Some e) prio AT_END op q)) =
       add_mset (stored_event wd op (q_vsyncPolicy q) prio e) (content q)"
    using put_event_end [OF assms(1,2)] by simp
qed

definition sent_event :: "call_env \<Rightarrow> world \<Rightarrow> handler_ref \<Rightarrow> int \<Rightarrow> inner_event \<Rightarrow> inner_event \<Rightarrow> bool" where
  \<comment> \<open>\<open>e'\<close> is the event \<open>e\<close> as \<open>SendEvent\<close> sends it\<close>
  "sent_event c wd h delayTime e e' \<longleftrightarrow>
     ev_handleTime e' = ca_now c + max 0 delayTime * MS \<and> ev_sendTime e' = ca_now c \<and>
     ev_owner e' = Some h \<and> ev_ownerId e' = wd_handlerId wd h \<and> ev_delayTime e' = delayTime \<and>
     ev_senderKernelThreadId e' = ca_tid c \<and> ev_taskCallback e' = ev_taskCallback e \<and>
     ev_taskName e' = ev_taskName e \<and> ev_innerEventId e' = ev_innerEventId e \<and> ev_param e' = ev_param e \<and>
     ev_waiter e' = ev_waiter e \<and> ev_smartPtr e' = ev_smartPtr e \<and> ev_isVsync e' = ev_isVsync e"

lemma sent_event_stored:
  "sent_event c wd h d e e3 \<Longrightarrow> sent_event c wd h d e (stored_event wd' op pol prio e3)"
  using MarkBarrierTaskIfNeed_cases [of wd' op pol e3] by (auto simp: sent_event_def stored_event_def)

lemma Insert_usable: "q_usable q \<Longrightarrow> q_usable (snd (Insert sp wd now c event prio it op q))"
  by (cases event)
    (auto simp: Insert_def insert_sub_def map_sub_def DispatchVsyncTaskNotify_def TryExecuteObserverCallback_def
      notify_observer_def Let_def)

lemma SendEvent_base:
  assumes "wd_runner (sy_world sy) h = Some r" "sy_queue sy r = BaseQueue q" "queue_wf q" "q_usable q"
    and "prio \<in> {VIP, IMMEDIATE, HIGH, LOW, IDLE}"
  shows "\<exists>q' e'. SendEvent c h (Some e) d prio sy = (True, set_queue r (BaseQueue q') sy) \<and>
    content q' = add_mset e' (content q) \<and> queue_wf q' \<and> q_usable q' \<and>
    sent_event c (sy_world sy) h d e e' \<and> ev_priority e' = prio_int prio"
proof -
  let ?now = "ca_now c"
  let ?e1 = "SetEventUniqueId ?now (e\<lparr>ev_sendTime := ?now, ev_senderKernelThreadId := ca_tid c\<rparr>)"
  let ?e2 = "?e1\<lparr>ev_handleTime := (if d > 0 then ?now + d * MS else ?now),
      ev_ownerId := wd_handlerId (sy_world sy) h, ev_delayTime := d, ev_owner := Some h\<rparr>"
  let ?e3 = "if rn_threadMode (sy_runner sy r) \<noteq> THREAD_FFRT then fst (SetStackId (ca_stackId c) ?e2) else ?e2"
  let ?I = "Insert (ca_sp c) (sy_world sy) ?now (ca_consumer c) (Some ?e3) prio AT_END NO_BARRIER q"
  let ?s = "stored_event (sy_world sy) NO_BARRIER (q_vsyncPolicy q) prio ?e3"
  note I = Insert_end_content [OF assms(3,5,4), of "ca_sp c" "sy_world sy" ?now "ca_consumer c" ?e3 NO_BARRIER]
  have "SendEvent c h (Some e) d prio sy = (True, set_queue r (BaseQueue (snd ?I)) sy)"
    using assms(1,2) I(1) by (simp add: SendEvent_def Let_def rq_Insert_def apsnd_def map_prod_def case_prod_unfold)
  moreover have "sent_event c (sy_world sy) h d e ?s"
    by (rule sent_event_stored) (simp add: sent_event_def SetEventUniqueId_def SetStackId_def)
  moreover have "ev_priority ?s = prio_int prio" by (simp add: stored_event_def)
  moreover have "queue_wf (snd ?I)" by (rule Insert_wf [OF assms(3)])
  moreover have "q_usable (snd ?I)" using assms(4) by (rule Insert_usable)
  ultimately show ?thesis using I(2) by blast
qed

text \<open>
  C15. Sending an event puts exactly that event into the queue of the handler's runner, due at
  the present time plus the delay in milliseconds (a negative delay counts as none), and
  touches no other runner.
\<close>

theorem send_event_is_queued:
  assumes "wd_runner (sy_world sy) h = Some r" "sy_queue sy r = BaseQueue q" "queue_reach sp wd q" "q_usable q"
    and "prio \<in> {VIP, IMMEDIATE, HIGH, LOW, IDLE}" "SendEvent c h (Some e) d prio sy = (ok, sy')"
  shows "ok \<and> (\<exists>q' e'. sy_queue sy' r = BaseQueue q' \<and> content q' = add_mset e' (content q) \<and>
      ev_handleTime e' = ca_now c + max 0 d * MS \<and> ev_owner e' = Some h \<and> ev_priority e' = prio_int prio \<and>
      ev_taskCallback e' = ev_taskCallback e \<and> ev_innerEventId e' = ev_innerEventId e) \<and>
    (\<forall>r'. r' \<noteq> r \<longrightarrow> sy_queue sy' r' = sy_queue sy r')"
proof -
  have wf: "queue_wf q" using queue_reach_inv [OF assms(3)] by blast
  from SendEvent_base [OF assms(1,2) wf assms(4,5), of c e d] assms(6) show ?thesis
    by (auto simp: sent_event_def set_queue_def)
qed

theorem send_event_is_queued_witness:
  "\<exists>q' e'. sy_queue (snd (SendEvent (call_at 1000) 2 (Some (task_at 0)) 3 LOW (system_of (queue_with [])))) 2 = BaseQueue q' \<and>
     content q' = {#e'#} \<and> ev_handleTime e' = 3001000"
proof -
  let ?sy = "system_of (queue_with [])"
  have s: "wd_runner (sy_world ?sy) 2 = Some 2" "sy_queue ?sy 2 = BaseQueue (queue_with [])"
    and u: "q_usable (queue_with [])" and n: "queued (queue_with []) = []" by code_simp+
  have p: "LOW \<in> {VIP, IMMEDIATE, HIGH, LOW, IDLE}" by simp
  from send_event_is_queued [OF s queue_with_reach u p prod.collapse [symmetric], of "call_at 1000" "task_at 0" 3] n
  show ?thesis by (auto simp: content_def MS_def call_at_def)
qed

section \<open>Synchronous events\<close>

text \<open>
  C16. A synchronous event either is refused, or is distributed by the calling thread, or is
  queued with a waiter on which the caller blocks; recycling the queued event, after it was
  handled or when it is removed, notifies that waiter. Idle events and runners that do not run
  are refused, so that the caller does not block for ever on them.
\<close>

theorem sync_event_is_released:
  assumes "wd_runner (sy_world sy) h = Some r" "sy_queue sy r = BaseQueue q" "queue_reach sp wd q" "q_usable q"
    and "prio \<in> {VIP, IMMEDIATE, HIGH, LOW, IDLE}" "rn_threadMode (sy_runner sy r) = NEW_THREAD"
    and "SendSyncEvent c w h (Some e) prio same sy = (res, sy')"
  shows "case res of
      BlockOn w' \<Rightarrow> w' = w \<and> prio \<noteq> IDLE \<and> IsRunning (sy_runner sy r) \<and> ca_current c \<noteq> Some r \<and>
        (\<exists>q' e'. sy_queue sy' r = BaseQueue q' \<and> content q' = add_mset e' (content q) \<and>
           ev_handleTime e' = ca_now c \<and> NotifyWaiter w \<in> set (snd (ClearEvent e')))
    | DistributeHere e' \<Rightarrow> e' = e \<and> sy' = sy \<and> ca_current c = Some r
    | Refused \<Rightarrow> sy' = sy \<and> (prio = IDLE \<or> \<not> IsRunning (sy_runner sy r))
    | FfrtWaited b \<Rightarrow> False"
proof -
  have wf: "queue_wf q" using queue_reach_inv [OF assms(3)] by blast
  from SendEvent_base [OF assms(1,2) wf assms(4,5), of c "CreateWaiter w e" 0] obtain q' e' where
    s: "SendEvent c h (Some (CreateWaiter w e)) 0 prio sy = (True, set_queue r (BaseQueue q') sy)"
      "content q' = add_mset e' (content q)" "sent_event c (sy_world sy) h 0 (CreateWaiter w e) e'" by blast
  have n: "NotifyWaiter w \<in> set (snd (ClearEvent e'))" "ev_handleTime e' = ca_now c"
    using s(3) by (simp_all add: sent_event_def CreateWaiter_def ClearEvent_def Let_def case_prod_unfold)
  show ?thesis
    using assms(1,6,7) s n
    by (cases same) (auto simp: SendSyncEvent_def Let_def set_queue_def split: if_splits)
qed

theorem sync_event_is_released_witness:
  "\<exists>q' e'. sy_queue (snd (SendSyncEvent (call_at 1000) 9 2 (Some (task_at 0)) LOW False (system_of (queue_with [])))) 2 = BaseQueue q' \<and>
     content q' = {#e'#} \<and> NotifyWaiter 9 \<in> set (snd (ClearEvent e'))"
proof -
  let ?sy = "system_of (queue_with [])"
  let ?r = "SendSyncEvent (call_at 1000) 9 2 (Some (task_at 0)) LOW False ?sy"
  have s: "wd_runner (sy_world ?sy) 2 = Some 2" "sy_queue ?sy 2 = BaseQueue (queue_with [])"
    and t: "rn_threadMode (sy_runner ?sy 2) = NEW_THREAD"
    and u: "q_usable (queue_with [])" and n: "queued (queue_with []) = []" and b: "fst ?r = BlockOn 9" by code_simp+
  have p: "LOW \<in> {VIP, IMMEDIATE, HIGH, LOW, IDLE}" by simp
  from sync_event_is_released [OF s queue_with_reach u p t prod.collapse [symmetric], of "call_at 1000" 9 "task_at 0" False] b n
  show ?thesis by (auto simp: content_def)
qed

section \<open>Switching the runner\<close>

lemma RemoveListenerByOwner_facts:
  fixes q :: event_queue_base
  assumes "RemoveFileDescriptorListener_owner sp wd k kd (Some h) (q, d) = (q', d')"
  shows "same_lists q q'"
    "q_usable q \<Longrightarrow> q_listeners q' =
       filter (\<lambda>l. Listener_GetOwner (wd_alive wd) (wd_listeners wd (snd l)) \<noteq> Some h) (q_listeners q)"
  using assms
  by (auto simp: RemoveFileDescriptorListener_owner_def RemoveListenerByOwner_def remove_listeners_def Let_def
      case_prod_unfold RemoveFileDescriptorListenerLocked_filter split: if_splits)

lemma drop_events_base_keep [simp]:
  "q_usable (drop_events P q) = q_usable q" "q_listeners (drop_events P q) = q_listeners q"
  by (simp_all add: drop_events_def)

lemma observer_keep [simp]:
  "q_usable (snd (TryExecuteObserverCallback n c t st x)) = q_usable x"
  "q_listeners (snd (TryExecuteObserverCallback n c t st x)) = q_listeners x"
  by (auto simp: TryExecuteObserverCallback_def notify_observer_def Let_def split: event_runner_stage.split)

lemma Remove_filter_base_keep [simp]:
  "q_usable (Remove_filter sp now c P q) = q_usable q" "q_listeners (Remove_filter sp now c P q) = q_listeners q"
  by (simp_all add: Remove_filter_def Let_def NotifyObserverVipDoneBase_def)

text \<open>
  C17. Switching the runner takes everything of the handler out of the old runner: no event that
  carries its id and no listener that it owns is left there, the events of other handlers stay,
  and the handler is on the new runner.
\<close>

theorem set_event_runner_clears_old_runner:
  assumes "wd_runner (sy_world sy) h = Some r" "sy_queue sy r = BaseQueue q" "q_usable q" "runner \<noteq> Some r"
    and "sy' = SetEventRunner c h runner sy"
  shows "wd_runner (sy_world sy') h = runner \<and>
    (\<exists>q'. sy_queue sy' r = BaseQueue q' \<and>
      content q' = filter_mset (\<lambda>e. ev_ownerId e \<noteq> wd_handlerId (sy_world sy) h) (content q) \<and>
      (\<forall>l\<in>set (q_listeners q').
         Listener_GetOwner (wd_alive (sy_world sy)) (wd_listeners (sy_world sy) (snd l)) \<noteq> Some h))"
proof -
  let ?wd = "sy_world sy"
  let ?q1 = "Remove_filter (ca_sp c) (ca_now c) (ca_consumer c) (\<lambda>p. ev_ownerId p = wd_handlerId ?wd h) q"
  let ?R = "RemoveFileDescriptorListener_owner (ca_sp c) ?wd (ca_kernel c) (ca_deamonKernel c) (Some h) (?q1, sy_deamon sy)"
  obtain q2 d2 where R: "?R = (q2, d2)" by fastforce
  note f = RemoveListenerByOwner_facts [OF R]
  have "sy_queue sy' r = BaseQueue q2 \<and> wd_runner (sy_world sy') h = runner"
    using assms R by (simp add: SetEventRunner_def RemoveAllEvents_def on_runner_def rq_Remove_owner_def
        Remove_owner_def set_queue_def RemoveAllFileDescriptorListeners_def with_queue_deamon_def
        rq_RemoveFileDescriptorListener_owner_def)
  moreover have "content q2 = filter_mset (\<lambda>e. ev_ownerId e \<noteq> wd_handlerId ?wd h) (content q)"
    using content_same [OF f(1)] assms(3) by (simp add: content_def Remove_filter_queued)
  moreover have "\<forall>l\<in>set (q_listeners q2). Listener_GetOwner (wd_alive ?wd) (wd_listeners ?wd (snd l)) \<noteq> Some h"
    using f(2) assms(3) by simp
  ultimately show ?thesis by blast
qed

theorem set_event_runner_clears_old_runner_witness:
  "\<exists>q'. sy_queue (SetEventRunner (call_at 50) 1 (Some 5) (system_of (queue_with [(LOW, task_at 10)]))) 1 = BaseQueue q' \<and>
     content q' = {#}"
proof -
  let ?sy = "system_of (queue_with [(LOW, task_at 10)])"
  have s: "wd_runner (sy_world ?sy) 1 = Some 1" "sy_queue ?sy 1 = BaseQueue (queue_with [(LOW, task_at 10)])"
    and u: "q_usable (queue_with [(LOW, task_at 10)])"
    and f: "filter (\<lambda>e. ev_ownerId e \<noteq> wd_handlerId (sy_world ?sy) 1) (queued (queue_with [(LOW, task_at 10)])) = []"
    by code_simp+
  have n: "Some 5 \<noteq> Some (1 :: runner_ref)" by simp
  from f have "filter_mset (\<lambda>e. ev_ownerId e \<noteq> wd_handlerId (sy_world ?sy) 1) (content (queue_with [(LOW, task_at 10)])) = {#}"
    unfolding content_def by (metis mset_filter mset_zero_iff)
  with set_event_runner_clears_old_runner [OF s u n refl, of "call_at 50"] show ?thesis by metis
qed

section \<open>\<open>HasPendingHigherEvent\<close>\<close>

lemma front_time_add:
  assumes "0 \<le> t" "t \<le> TIME_MAX" "0 \<le> p" "p \<le> INT32_MAX" "0 \<le> now" "now \<le> TIME_MAX"
  shows "u64_of_time t + u64_of_time p * u64_of_time MS \<le> u64_of_time now \<longleftrightarrow> t + p * MS \<le> now"
proof -
  have MS64: "uint (u64_of_time MS) = MS" by (rule uint_u64_of_time) (simp_all add: MS_def TIME_MAX_def)
  have p64: "uint (u64_of_time p) = p"
    using assms by (intro uint_u64_of_time) (simp_all add: TIME_MAX_def INT32_MAX_def)
  have "p * MS \<le> INT32_MAX * MS" using assms(4) by (simp add: MS_def)
  then have b: "0 \<le> p * MS" "p * MS \<le> 2147483647000000" using assms(3) by (simp_all add: MS_def INT32_MAX_def)
  have "uint (u64_of_time p * u64_of_time MS) = p * MS"
    using b by (simp add: uint_word_ariths p64 MS64)
  then have "uint (u64_of_time t + u64_of_time p * u64_of_time MS) = t + p * MS"
    using assms(1,2) b by (simp add: uint_word_ariths uint_u64_of_time TIME_MAX_def)
  then show ?thesis using assms(5,6) by (simp add: word_le_def uint_u64_of_time)
qed

definition vip_quiet :: "u64 \<Rightarrow> event_queue_base \<Rightarrow> bool" where
  \<comment> \<open>the vsync part of \<open>GetQueueFirstEventHandleTime\<close> does not matter and the VIP cache is right\<close>
  "vip_quiet now q \<longleftrightarrow> q_sumOfPendingVsync q = 0 \<and> \<not> u64_of_time (q_vsyncCheckTime q) < now \<and>
     \<not> q_isBarrierMode q \<and> front_coherent 0 q"

lemma first_time_quiet:
  assumes "queue_reach sp wd q" "vip_quiet now q" "i < 4"
  shows "GetQueueFirstEventHandleTime sp' now i False q = front_time (sq_queue (sub q i))"
proof -
  have "front_coherent i q" using assms queue_reach_inv [OF assms(1)] by (cases "i = 0") (auto simp: vip_quiet_def)
  with assms(2) show ?thesis
    by (simp add: GetQueueFirstEventHandleTime_def vip_quiet_def front_coherent_def Let_def)
qed

lemma pending_loop_iff:
  assumes "\<And>i. i < n \<Longrightarrow> rq_GetQueueFirstEventHandleTime sp now i v q = T i"
  shows "pending_loop sp now isIdle v q n \<longleftrightarrow>
    (\<exists>i<n. T i \<noteq> UINT64_MAX \<and> (isIdle \<or> T i + PENDING_JOB_TIMEOUT sp ! i * u64_of_time MS \<le> now))"
  using assms
proof (induction n)
  case 0
  then show ?case by simp
next
  case (Suc n)
  have "rq_GetQueueFirstEventHandleTime sp now n v q = T n" using Suc.prems by simp
  moreover have "pending_loop sp now isIdle v q n \<longleftrightarrow>
      (\<exists>i<n. T i \<noteq> UINT64_MAX \<and> (isIdle \<or> T i + PENDING_JOB_TIMEOUT sp ! i * u64_of_time MS \<le> now))"
    using Suc by simp
  ultimately show ?case unfolding pending_loop.simps Let_def by (auto simp: less_Suc_eq)
qed

definition pending_ms :: "system_params \<Rightarrow> nat \<Rightarrow> int" where
  "pending_ms sp i = (if i = 0 then p_pending_vip sp else if i = 1 then p_pending_immediate sp else p_pending_high sp)"

text \<open>
  What \<open>HasPendingHigherEvent\<close> means, when no vsync work is pending and the cache of the VIP
  queue is right: some sub queue of a higher priority has a first event that is late by more
  than the time allowed for that priority; asked for \<open>IDLE\<close>, any waiting event counts.
\<close>

lemma has_pending_higher_event_iff:
  assumes "wd_runner (sy_world sy) h = Some r" "sy_queue sy r = BaseQueue q" "queue_reach sp wd q"
    and "vip_quiet (u64_of_time (ca_now c)) q" "1 \<le> prio" "prio \<le> 4" "0 \<le> ca_now c" "ca_now c \<le> TIME_MAX"
    and "\<forall>i<4. \<forall>e\<in>set (sq_queue (sub q i)). 0 \<le> ev_handleTime e \<and> ev_handleTime e \<le> TIME_MAX"
    and "\<forall>i<3. 0 \<le> pending_ms (ca_sp c) i \<and> pending_ms (ca_sp c) i \<le> INT32_MAX"
  shows "HasPendingHigherEvent c cur h prio False sy \<longleftrightarrow>
    (\<exists>i<nat prio. \<exists>e es. sq_queue (sub q i) = e # es \<and>
       (prio = 4 \<or> ev_handleTime e + pending_ms (ca_sp c) i * MS \<le> ca_now c))"
proof -
  let ?T = "\<lambda>i. front_time (sq_queue (sub q i))"
  let ?now = "u64_of_time (ca_now c)"
  have T: "rq_GetQueueFirstEventHandleTime (ca_sp c) ?now i False (BaseQueue q) = ?T i" if "i < nat prio" for i
    using first_time_quiet [OF assms(3,4), of i] that assms(6) by (simp add: rq_GetQueueFirstEventHandleTime_def)
  have H: "HasPendingHigherEvent c cur h prio False sy \<longleftrightarrow>
      pending_loop (ca_sp c) ?now (prio = 4) False (BaseQueue q) (nat prio)"
    using assms(1,2,5,6) by (simp add: HasPendingHigherEvent_def Let_def)
  have late: "?T i \<noteq> UINT64_MAX \<and> (prio = 4 \<or> ?T i + PENDING_JOB_TIMEOUT (ca_sp c) ! i * u64_of_time MS \<le> ?now) \<longleftrightarrow>
      (\<exists>e es. sq_queue (sub q i) = e # es \<and> (prio = 4 \<or> ev_handleTime e + pending_ms (ca_sp c) i * MS \<le> ca_now c))"
    if i: "i < nat prio" for i
  proof (cases "sq_queue (sub q i)")
    case Nil
    then show ?thesis by (simp add: front_time_def)
  next
    case (Cons e es)
    have "i < 4" using i assms(6) by linarith
    with Cons assms(9) have e: "0 \<le> ev_handleTime e" "ev_handleTime e \<le> TIME_MAX" by auto
    have "u64_of_time (ev_handleTime e) + PENDING_JOB_TIMEOUT (ca_sp c) ! i * u64_of_time MS \<le> ?now \<longleftrightarrow>
        ev_handleTime e + pending_ms (ca_sp c) i * MS \<le> ca_now c" if "prio \<noteq> 4"
    proof -
      have i3: "i < 3" using i that assms(6) by linarith
      then have "i = 0 \<or> i = 1 \<or> i = 2" by arith
      then have "PENDING_JOB_TIMEOUT (ca_sp c) ! i = u64_of_time (pending_ms (ca_sp c) i)"
        by (elim disjE) (simp_all add: PENDING_JOB_TIMEOUT_def pending_ms_def)
      with front_time_add [OF e] assms(7,8,10) i3 show ?thesis by simp
    qed
    with Cons e show ?thesis by (auto simp: front_time_def u64_of_time_ne_max)
  qed
  have L: "pending_loop (ca_sp c) ?now (prio = 4) False (BaseQueue q) (nat prio) \<longleftrightarrow>
      (\<exists>i<nat prio. ?T i \<noteq> UINT64_MAX \<and>
         (prio = 4 \<or> ?T i + PENDING_JOB_TIMEOUT (ca_sp c) ! i * u64_of_time MS \<le> ?now))"
    by (rule pending_loop_iff) (rule T)
  show ?thesis unfolding H L using late by (simp cong: conj_cong)
qed

text \<open>
  The branch of \<open>GetEvent\<close> that hands out a pending vsync event does not refresh the cached
  time of the VIP queue, so \<open>HasPendingHigherEvent\<close> can report an urgent event although no event
  is queued at all.
\<close>

lemma stale_front_time_reports_pending_event:
  "\<exists>q. queue_reach default_params small_world q \<and> content q = {#} \<and> q_sumOfPendingVsync q = 0 \<and>
     HasPendingHigherEvent (call_at 60000000) 3 2 3 False (system_of q)"
proof -
  let ?q0 = "queue_with [(VIP, vsync_at 50)]"
  let ?q1 = "snd (GetEvent_iter default_params small_world (quiet_round 20) ?q0)"
  let ?q2 = "apply_op default_params small_world (DoVsyncHandled 60) ?q1"
  have "queued ?q2 = []" "q_sumOfPendingVsync ?q2 = 0"
    "HasPendingHigherEvent (call_at 60000000) 3 2 3 False (system_of ?q2)"
    by code_simp+
  moreover have "queue_reach default_params small_world ?q2"
    by (rule queue_reach.operation)
      (rule queue_reach.iteration [OF queue_with_reach prod.collapse [symmetric]])
  ultimately show ?thesis by (metis content_def mset.simps(1))
qed

end
