(* ===== verification/Runner_Loop.thy ===== *)
theory Runner_Loop
  imports Runner
begin

text \<open>
  What the loops of a runner keep: the ring of distributed events is changed by nothing but the
  two calls around a distribution, and the lists of the queue stay well formed. The theorems
  about the loops in \<open>Runner_Properties\<close> rest on these lemmas.
\<close>

section \<open>The ring is left alone by everything else\<close>

definition hist :: "event_queue_base \<Rightarrow> history_event list \<times> u8" where
  "hist q = (b_historyEvents q, b_historyEventIndex q)"

lemma SetBarrierMode_hist [simp]: "hist (SetBarrierMode now m q) = hist q"
  by (simp add: hist_def SetBarrierMode_def Let_def)

lemma CheckBarrierMode_hist [simp]: "hist (CheckBarrierMode sp now q) = hist q"
  by (simp add: hist_def CheckBarrierMode_def SetBarrierMode_def Let_def)

lemma TryExecuteObserverCallback_hist [simp]: "hist (snd (TryExecuteObserverCallback now c t st q)) = hist q"
  by (cases st) (simp_all add: hist_def TryExecuteObserverCallback_def Let_def notify_observer_def)

lemma hist_updates [simp]:
  "hist (q\<lparr>b_isExistVipTask := v\<rparr>) = hist q" "hist (q\<lparr>q_ioWaiter := w\<rparr>) = hist q"
  "hist (q\<lparr>q_needEpoll := n\<rparr>) = hist q" "hist (q\<lparr>q_sumOfPendingVsync := c\<rparr>) = hist q"
  "hist (q\<lparr>b_idleEvents := es\<rparr>) = hist q" "hist (q\<lparr>q_listeners := ls\<rparr>) = hist q"
  by (simp_all add: hist_def)

lemma NotifyObserverVipDone_hist [simp]: "hist (NotifyObserverVipDone now c e q) = hist q"
  by (simp add: NotifyObserverVipDone_def NotifyObserverVipDoneBase_def)

lemma insert_sub_hist [simp]: "hist (insert_sub i e it q) = hist q"
  by (simp add: hist_def insert_sub_def map_sub_def)

lemma DispatchVsyncTaskNotify_hist [simp]: "hist (DispatchVsyncTaskNotify now q) = hist q"
  by (simp add: hist_def DispatchVsyncTaskNotify_def Let_def)

lemma Insert_hist [simp]: "hist (snd (Insert sp wd now c e prio it op q)) = hist q"
  by (cases e; cases prio) (simp_all add: Insert_def Let_def)

lemma drop_events_hist [simp]: "hist (drop_events P q) = hist q"
  by (simp add: drop_events_def hist_def)

lemma Remove_hist [simp]: "hist (Remove_filter sp now c P q) = hist q"
  by (simp add: Remove_filter_def Let_def NotifyObserverVipDoneBase_def)

lemma orphan_effect_hist [simp]: "hist (orphan_effect wd now e q) = hist q"
  by (simp add: orphan_effect_def hist_def HandleVsyncTaskNotify_def SetBarrierMode_def Let_def)

lemma fold_orphan_hist [simp]: "hist (fold (orphan_effect wd now) es q) = hist q"
  by (induction es arbitrary: q) simp_all

lemma RemoveOrphan_hist [simp]: "hist (RemoveOrphan_filter sp wd now c q) = hist q"
  by (simp add: RemoveOrphan_filter_def Let_def NotifyObserverVipDoneBase_def)

lemma apply_op_hist [simp]: "hist (apply_op sp wd op q) = hist q"
  by (cases op)
    (simp_all, simp_all add: hist_def RemoveAll_def eh_defs PrepareBase_def FinishBase_def SetVsyncLazyMode_def
      SetVsyncPolicy_def SetVsyncFirstForceEnableTime_def UpdateVsyncCheckTime_def HandleVsyncTaskNotify_def
      HandleVsyncTaskCompletely_def SetBarrierMode_def AddObserver_def ClearObserver_def Let_def)

lemma apply_ops_hist [simp]: "hist (apply_ops sp wd ops q) = hist q"
  by (induction ops arbitrary: q) (simp_all add: apply_ops_def)

lemma PickFirstVsync_hist: "PickFirstVsyncEventLocked q = Some (e, q') \<Longrightarrow> hist q' = hist q"
  by (auto simp: PickFirstVsyncEventLocked_def hist_def map_sub_def split: option.splits)

lemma PickEvent_hist: "PickEventLocked now t q = (ev, t', q') \<Longrightarrow> hist q' = hist q"
  by (auto simp: PickEventLocked_def Let_def hist_def map_sub_def reset_counts_def PickFirstVsyncEventLocked_def
      split: prod.splits option.splits if_splits)

lemma GetExpired_hist: "GetExpiredEventLocked now t q = (ev, t', q') \<Longrightarrow> hist q' = hist q"
proof -
  assume g: "GetExpiredEventLocked now t q = (ev, t', q')"
  obtain e wk q0 where p: "PickEventLocked now TIME_MAX (q\<lparr>b_wakeUpTime := TIME_MAX\<rparr>) = (e, wk, q0)"
    by (metis prod_cases3)
  have "hist q' = hist q0"
    using g by (auto simp: GetExpiredEventLocked_def Let_def p hist_def map_sub_def
        split: option.splits list.splits if_splits)
  with PickEvent_hist [OF p] show ?thesis by (simp add: hist_def)
qed

lemma WaitUntilLocked_hist [simp]: "hist (snd (WaitUntilLocked wd (apply_ops sp wd ops) wo v q)) = hist q"
  by (auto simp: WaitUntilLocked_def Let_def case_prod_unfold reset_io_waiter_def split: option.splits)

lemma TryEpollFd_hist [simp]: "hist (snd (TryEpollFd wd (apply_ops sp wd ops) wo q)) = hist q"
proof -
  have "hist (snd (TryEpollFd wd (apply_ops sp wd ops) wo q)) =
      hist (snd (WaitUntilLocked wd (apply_ops sp wd ops) wo (\<not> q_needEpoll q) q))"
    by (simp add: TryEpollFd_def Let_def case_prod_unfold hist_def)
  then show ?thesis by simp
qed

lemma GetEvent_iter_hist: "GetEvent_iter sp wd r q = (res, q') \<Longrightarrow> hist q' = hist q"
proof -
  assume g: "GetEvent_iter sp wd r q = (res, q')"
  obtain ev t q2 where p: "GetExpiredEventLocked (r_now r) TIME_MAX (CheckBarrierMode sp (r_now r) q) = (ev, t, q2)"
    by (metis prod_cases3)
  have "hist q' = hist q \<or> hist q' = hist q2"
    using g PickFirstVsync_hist [of q2]
    by (auto simp: GetEvent_iter_def Let_def p case_prod_unfold split: option.splits if_splits)
  with GetExpired_hist [OF p] show ?thesis by simp
qed

lemma GetEvent_hist: "GetEvent sp wd rs q = Some (ev, q') \<Longrightarrow> hist q' = hist q"
proof (induction rs arbitrary: q)
  case (Cons r rs)
  obtain res q1 where it: "GetEvent_iter sp wd r q = (res, q1)" by fastforce
  from GetEvent_iter_hist [OF it] Cons.prems Cons.IH [of q1] it show ?case by (cases res) auto
qed simp

section \<open>One event\<close>

lemma PushBefore_hist:
  "hist q = hist q' \<Longrightarrow>
     hist (PushHistoryQueueBeforeDistribute t u ev q) = hist (PushHistoryQueueBeforeDistribute t v ev q')"
  by (simp add: hist_def PushHistoryQueueBeforeDistribute_def Let_def split: option.split)

lemma PushAfter_hist:
  "hist q = hist q' \<Longrightarrow> hist (PushHistoryQueueAfterDistribute t q) = hist (PushHistoryQueueAfterDistribute t q')"
  by (simp add: hist_def PushHistoryQueueAfterDistribute_def Let_def)

lemma distributed_hist: "hist q = hist q' \<Longrightarrow> hist (distributed x q) = hist (distributed x q')"
  by (cases x) (auto simp only: distributed_def prod.case intro: PushAfter_hist PushBefore_hist)

lemma fold_distributed_hist: "hist q = hist q' \<Longrightarrow> hist (fold distributed xs q) = hist (fold distributed xs q')"
proof (induction xs arbitrary: q q')
  case (Cons x xs)
  from Cons.IH [OF distributed_hist [OF Cons.prems, of x]] show ?case by (simp only: fold_Cons comp_apply)
qed simp

lemma ExecuteEventHandler_cases [consumes 1, case_names orphan distributed]:
  assumes "ExecuteEventHandler sp wd w runner_of x e s = Some s'"
  obtains "GetOwner (wd_alive wd) e = None" "ls_queue s' = ls_queue s" "ls_executed s' = ls_executed s"
      "ls_locals s' = ls_locals s"
  | h acts loc where "GetOwner (wd_alive wd) e = Some h"
      "DistributeEvent w (runner_of h) (xe_start x) (xe_end x) h (Some e) (SetCurrentEventInfo e (ls_locals s)) = Some (acts, loc)"
      "ls_executed s' = ls_executed s @ [(xe_before x, xe_after x, e)]"
      "ls_locals s' = ClearCurrentEventInfo loc"
      "ls_queue s' = (let q3 = PushHistoryQueueAfterDistribute (xe_after x) (apply_ops sp wd (xe_during x)
           (PushHistoryQueueBeforeDistribute (xe_before x) (xe_before2 x) (Some e) (ls_queue s)))
         in if p_smart_gc sp then NotifyObserverVipDone (xe_vipDone x) (xe_consumer x) e q3 else q3)"
proof (cases "GetOwner (wd_alive wd) e")
  case None
  with assms show ?thesis by (intro that(1)) (auto simp: ExecuteEventHandler_def Let_def)
next
  case (Some h)
  with assms obtain acts loc where
    d: "DistributeEvent w (runner_of h) (xe_start x) (xe_end x) h (Some e) (SetCurrentEventInfo e (ls_locals s)) = Some (acts, loc)"
    by (auto simp: ExecuteEventHandler_def Let_def split: option.splits)
  with assms Some show ?thesis
    by (intro that(2) [OF Some d]) (auto simp: ExecuteEventHandler_def Let_def)
qed

lemma ExecuteEventHandler_hist:
  assumes "ExecuteEventHandler sp wd w runner_of x e s = Some s'"
  obtains xs where "ls_executed s' = ls_executed s @ xs" "hist (ls_queue s') = hist (fold distributed xs (ls_queue s))"
    "set xs \<subseteq> {y. \<not> owner_expired (wd_alive wd) (snd (snd y))}"
  using assms
proof (cases rule: ExecuteEventHandler_cases)
  case orphan
  then show ?thesis by (intro that [of "[]"]) simp_all
next
  case (distributed h acts loc)
  have "hist (ls_queue s') = hist (distributed (xe_before x, xe_after x, e) (ls_queue s))"
  proof -
    let ?b = "PushHistoryQueueBeforeDistribute (xe_before x) (xe_before2 x) (Some e) (ls_queue s)"
    have "hist (PushHistoryQueueAfterDistribute (xe_after x) (apply_ops sp wd (xe_during x) ?b)) =
        hist (PushHistoryQueueAfterDistribute (xe_after x)
          (PushHistoryQueueBeforeDistribute (xe_before x) (xe_before x) (Some e) (ls_queue s)))"
      by (rule PushAfter_hist) (simp only: apply_ops_hist, rule PushBefore_hist, rule refl)
    then show ?thesis by (simp add: distributed_def distributed(5) Let_def)
  qed
  moreover have "\<not> owner_expired (wd_alive wd) e" using distributed(1) by (simp add: owner_expired_def)
  ultimately show ?thesis using distributed(3) by (intro that [of "[(xe_before x, xe_after x, e)]"]) simp_all
qed

lemma distribution_wf:
  "queue_wf (PushHistoryQueueBeforeDistribute t u ev q) = queue_wf q"
  "queue_wf (PushHistoryQueueAfterDistribute t q) = queue_wf q"
  "queue_wf (NotifyObserverVipDone now c e q) = queue_wf q"
proof -
  have 1: "same_lists (PushHistoryQueueBeforeDistribute t u ev q) q"
    by (simp add: PushHistoryQueueBeforeDistribute_def Let_def split: option.split)
  have 2: "same_lists (PushHistoryQueueAfterDistribute t q) q"
    by (simp add: PushHistoryQueueAfterDistribute_def Let_def)
  have 3: "same_lists (NotifyObserverVipDone now c e q) q"
    by (simp add: NotifyObserverVipDone_def NotifyObserverVipDoneBase_def)
  show "queue_wf (PushHistoryQueueBeforeDistribute t u ev q) = queue_wf q"
    "queue_wf (PushHistoryQueueAfterDistribute t q) = queue_wf q"
    "queue_wf (NotifyObserverVipDone now c e q) = queue_wf q"
    using same_wf_content [OF 1] same_wf_content [OF 2] same_wf_content [OF 3] by simp_all
qed

lemma DistributeEvent_locals:
  "DistributeEvent w r t1 t2 h (Some e) loc = Some (acts, loc') \<Longrightarrow>
     loc' = loc\<lparr>tl_handler := Some h, tl_priority := ev_priority e\<rparr>"
  by (simp add: DistributeEvent_def Let_def split: if_splits)

section \<open>The loops\<close>

definition loop_effect :: "world \<Rightarrow> loop_state \<Rightarrow> loop_state \<Rightarrow> bool" where
  \<comment> \<open>what was executed between the two states is in the ring, its owners were alive, and the lists
     and the thread's runner were kept\<close>
  "loop_effect wd s s' \<longleftrightarrow>
     (\<exists>xs. ls_executed s' = ls_executed s @ xs \<and> hist (ls_queue s') = hist (fold distributed xs (ls_queue s)) \<and>
        (\<forall>x\<in>set xs. \<not> owner_expired (wd_alive wd) (snd (snd x)))) \<and>
     (queue_wf (ls_queue s) \<longrightarrow> queue_wf (ls_queue s')) \<and> tl_runner (ls_locals s') = tl_runner (ls_locals s)"

lemma loop_effect_same:
  assumes "ls_executed s' = ls_executed s" "hist (ls_queue s') = hist (ls_queue s)"
    and "queue_wf (ls_queue s) \<Longrightarrow> queue_wf (ls_queue s')" "ls_locals s' = ls_locals s"
  shows "loop_effect wd s s'"
  using assms by (auto simp: loop_effect_def intro: exI [of _ "[]"])

lemma loop_effect_trans [trans]:
  assumes "loop_effect wd s s1" "loop_effect wd s1 s2"
  shows "loop_effect wd s s2"
proof -
  obtain xs where xs: "ls_executed s1 = ls_executed s @ xs" "hist (ls_queue s1) = hist (fold distributed xs (ls_queue s))"
    "\<forall>x\<in>set xs. \<not> owner_expired (wd_alive wd) (snd (snd x))" using assms(1) unfolding loop_effect_def by blast
  obtain ys where ys: "ls_executed s2 = ls_executed s1 @ ys" "hist (ls_queue s2) = hist (fold distributed ys (ls_queue s1))"
    "\<forall>x\<in>set ys. \<not> owner_expired (wd_alive wd) (snd (snd x))" using assms(2) unfolding loop_effect_def by blast
  have "hist (ls_queue s2) = hist (fold distributed (xs @ ys) (ls_queue s))"
    using ys(2) fold_distributed_hist [OF xs(2), of ys] by simp
  moreover have "ls_executed s2 = ls_executed s @ (xs @ ys)" using xs(1) ys(1) by simp
  moreover have "\<forall>x\<in>set (xs @ ys). \<not> owner_expired (wd_alive wd) (snd (snd x))" using xs(3) ys(3) by auto
  ultimately show ?thesis using assms unfolding loop_effect_def by metis
qed

lemma ExecuteEventHandler_effect:
  assumes "ExecuteEventHandler sp wd w runner_of x e s = Some s'"
  shows "loop_effect wd s s'"
proof -
  from ExecuteEventHandler_hist [OF assms] obtain xs where
    "ls_executed s' = ls_executed s @ xs" "hist (ls_queue s') = hist (fold distributed xs (ls_queue s))"
    "set xs \<subseteq> {y. \<not> owner_expired (wd_alive wd) (snd (snd y))}" .
  moreover have "(queue_wf (ls_queue s) \<longrightarrow> queue_wf (ls_queue s')) \<and> tl_runner (ls_locals s') = tl_runner (ls_locals s)"
    using assms
  proof (cases rule: ExecuteEventHandler_cases)
    case (distributed h acts loc)
    have "queue_wf (ls_queue s')" if "queue_wf (ls_queue s)"
      using that by (simp add: distributed(5) Let_def distribution_wf apply_ops_wf)
    with DistributeEvent_locals [OF distributed(2)] distributed(4) show ?thesis
      by (simp add: ClearCurrentEventInfo_def SetCurrentEventInfo_def)
  qed simp
  ultimately show ?thesis unfolding loop_effect_def by blast
qed

lemma DefaultModeLoop_effect:
  "DefaultModeLoop sp wd w runner_of main passes s = Stopped s' \<Longrightarrow> loop_effect wd s s'"
proof (induction passes arbitrary: s)
  case (Cons p passes)
  obtain rs x where p: "p = (rs, x)" by fastforce
  from Cons.prems p obtain ev q where g: "GetEvent sp wd rs (ls_queue s) = Some (ev, q)"
    by (auto split: option.splits)
  note wf = GetEvent_keep [OF g] and h = GetEvent_hist [OF g]
  show ?case
  proof (cases ev)
    case None
    with Cons.prems p g have "s' = s\<lparr>ls_queue := q\<rparr>" by simp
    with wf h show ?thesis by (auto intro: loop_effect_same)
  next
    case (Some e)
    let ?s1 = "s\<lparr>ls_queue := q, ls_actions := ls_actions s @ (if main \<and> fst (wa_localHandle w) then [OpenLocalHandle] else [])\<rparr>"
    from Cons.prems p g Some obtain s2 where x: "ExecuteEventHandler sp wd w runner_of x e ?s1 = Some s2"
      by (auto simp: Let_def split: option.splits)
    let ?s3 = "s2\<lparr>ls_actions := ls_actions s2 @ (if main \<and> snd (wa_localHandle w) then [CloseLocalHandle] else [])\<rparr>"
    have "DefaultModeLoop sp wd w runner_of main passes ?s3 = Stopped s'"
      using Cons.prems p g Some x by (simp add: Let_def)
    then have 3: "loop_effect wd ?s3 s'" by (rule Cons.IH)
    have 1: "loop_effect wd s ?s1" by (rule loop_effect_same) (use wf h in simp_all)
    have 2: "loop_effect wd s2 ?s3" by (rule loop_effect_same) simp_all
    from 1 ExecuteEventHandler_effect [OF x] 2 3 show ?thesis by (blast intro: loop_effect_trans)
  qed
qed simp

lemma expired_loop_effect:
  assumes "expired_loop sp wd w runner_of passes s = Stopped s'"
  shows "loop_effect wd s s' \<and>
    (\<exists>s0 now t. loop_effect wd s s0 \<and> now \<in> fst ` set passes \<and>
       GetExpiredEvent now TIME_MAX (ls_queue s0) = (None, t, ls_queue s'))"
  using assms
proof (induction passes arbitrary: s)
  case (Cons p passes)
  obtain now x where p: "p = (now, x)" by fastforce
  obtain ev t q where g: "GetExpiredEvent now TIME_MAX (ls_queue s) = (ev, t, q)" by (metis prod_cases3)
  have wf: "queue_wf (ls_queue s) \<Longrightarrow> queue_wf q" and h: "hist q = hist (ls_queue s)"
    using GetExpired_wf GetExpired_hist g unfolding GetExpiredEvent_def by blast+
  show ?case
  proof (cases ev)
    case None
    with Cons.prems p g have s': "s' = s\<lparr>ls_queue := q\<rparr>" by simp
    have "loop_effect wd s s" by (rule loop_effect_same) simp_all
    moreover have "loop_effect wd s s'" unfolding s' by (rule loop_effect_same) (use wf h in simp_all)
    moreover have "GetExpiredEvent now TIME_MAX (ls_queue s) = (None, t, ls_queue s')" using g None s' by simp
    moreover have "now \<in> fst ` set (p # passes)" by (simp add: p)
    ultimately show ?thesis by blast
  next
    case (Some e)
    from Cons.prems p g Some obtain s2 where x: "ExecuteEventHandler sp wd w runner_of x e (s\<lparr>ls_queue := q\<rparr>) = Some s2"
      by (auto split: option.splits)
    have r: "expired_loop sp wd w runner_of passes s2 = Stopped s'" using Cons.prems p g Some x by simp
    have "loop_effect wd s (s\<lparr>ls_queue := q\<rparr>)" by (rule loop_effect_same) (use wf h in simp_all)
    from loop_effect_trans [OF this ExecuteEventHandler_effect [OF x]] have 1: "loop_effect wd s s2" .
    from Cons.IH [OF r] obtain s0 now' t' where
      "loop_effect wd s2 s'" "loop_effect wd s2 s0" "now' \<in> fst ` set passes"
      "GetExpiredEvent now' TIME_MAX (ls_queue s0) = (None, t', ls_queue s')" by blast
    moreover from this 1 have "loop_effect wd s s'" "loop_effect wd s s0" "now' \<in> fst ` set (p # passes)"
      by (auto intro: loop_effect_trans)
    ultimately show ?thesis by blast
  qed
qed simp

lemma NoWaitModeLoop_effect:
  assumes "NoWaitModeLoop sp wd w runner_of passes others wo passes' s = Stopped s'"
  shows "loop_effect wd s s' \<and>
    (\<exists>s0 now t. loop_effect wd s s0 \<and> now \<in> fst ` set passes' \<and>
       GetExpiredEvent now TIME_MAX (ls_queue s0) = (None, t, ls_queue s'))"
proof -
  obtain s1 where 1: "expired_loop sp wd w runner_of passes s = Stopped s1"
    using assms by (cases "expired_loop sp wd w runner_of passes s") (auto simp: NoWaitModeLoop_def)
  define q where "q = snd (CheckFileDescriptorEvent wd (apply_ops sp wd others) wo (ls_queue s1))"
  have 2: "expired_loop sp wd w runner_of passes' (s1\<lparr>ls_queue := q\<rparr>) = Stopped s'"
    using assms 1 by (simp add: NoWaitModeLoop_def q_def case_prod_unfold)
  have "hist q = hist (ls_queue s1)" by (simp add: q_def CheckFileDescriptorEvent_def)
  moreover have "queue_wf (ls_queue s1) \<Longrightarrow> queue_wf q"
    using others_ran_wf [OF WaitUntilLocked_others] by (simp add: q_def CheckFileDescriptorEvent_def)
  ultimately have "loop_effect wd s1 (s1\<lparr>ls_queue := q\<rparr>)" by (intro loop_effect_same) simp_all
  with expired_loop_effect [OF 1] have "loop_effect wd s (s1\<lparr>ls_queue := q\<rparr>)"
    by (blast intro: loop_effect_trans)
  with expired_loop_effect [OF 2] show ?thesis by (blast intro: loop_effect_trans)
qed

end
