(* ===== verification/Runner_Properties.thy ===== *)
theory Runner_Properties
  imports Handler_Properties Runner_Loop
begin

text \<open>
  Properties of the distribution of an event, of the loops of a runner, of \<open>Run\<close> and \<open>Stop\<close>
  called by several threads, and of the collector of finished threads.
\<close>

section \<open>Distribution\<close>

definition run_action :: "inner_event \<Rightarrow> action" where
  "run_action e = (case ev_taskCallback e of Some cb \<Rightarrow> CallTask cb | None \<Rightarrow> ProcessEvent e)"

fun is_run :: "action \<Rightarrow> bool" where
  "is_run (CallTask cb) = True"
| "is_run (ProcessEvent e) = True"
| "is_run _ = False"

fun is_looper :: "action \<Rightarrow> bool" where
  "is_looper (LooperBegin n) = True"
| "is_looper (LooperEnd n t) = True"
| "is_looper _ = False"

fun is_stack :: "action \<Rightarrow> bool" where
  "is_stack (ThreadStackId i) = True"
| "is_stack _ = False"

definition quiet_action :: "action \<Rightarrow> bool" where
  "quiet_action a \<longleftrightarrow> \<not> is_run a \<and> \<not> is_looper a \<and> \<not> is_stack a"

lemma time_actions_quiet:
  "list_all quiet_action (DeliveryTimeAction w r t e)" "list_all quiet_action (DistributeTimeAction w r t t' e)"
  "list_all quiet_action (DistributeTimeoutHandler w t t')"
  by (auto simp: DeliveryTimeAction_def DistributeTimeAction_def DistributeTimeoutHandler_def Let_def quiet_action_def)

lemma quiet_filter:
  assumes "list_all quiet_action as"
  shows "filter is_run as = []" "filter is_looper as = []" "filter is_stack as = []"
    "filter (\<lambda>a. is_looper a \<or> is_run a) as = []" "filter (\<lambda>a. is_stack a \<or> is_run a) as = []"
    "filter (\<lambda>a. is_looper a \<or> is_stack a) as = []"
  using assms by (auto simp: filter_empty_conv quiet_action_def list_all_iff)

definition watcher_ok :: "watch \<Rightarrow> bool" where
  "watcher_ok w \<longleftrightarrow> wa_end w = (wa_begin w \<noteq> None)"

lemma SetMainLooperWatcher_ok: "watcher_ok w \<Longrightarrow> watcher_ok (SetMainLooperWatcher b e w)"
  by (auto simp: watcher_ok_def SetMainLooperWatcher_def)

definition main_watcher :: "watch \<Rightarrow> (string \<Rightarrow> time) option" where
  \<comment> \<open>the begin function of the watcher, on the main thread of the application\<close>
  "main_watcher w = (if wa_isAppMainThread w then wa_begin w else None)"

definition has_own_thread :: "event_runner option \<Rightarrow> bool" where
  \<comment> \<open>the handler has a runner, and not one in the FFRT mode\<close>
  "has_own_thread r \<longleftrightarrow> (case r of None \<Rightarrow> False | Some rn \<Rightarrow> rn_threadMode rn \<noteq> THREAD_FFRT)"

lemma DistributeEvent_shape:
  assumes "DistributeEvent w r t1 t2 h (Some e) loc = Some (acts, loc')" "watcher_ok w"
  obtains A B where "list_all quiet_action A" "list_all quiet_action B"
    "acts = A @ (case main_watcher w of None \<Rightarrow> [] | Some g \<Rightarrow> [LooperBegin (GetEventName (Some e))]) @
       (if has_own_thread r then [ThreadStackId (ev_stackId e)] else []) @ [run_action e] @
       (if has_own_thread r then [ThreadStackId 0] else []) @
       (case main_watcher w of None \<Rightarrow> []
        | Some g \<Rightarrow> [LooperEnd (GetEventName (Some e)) (g (GetEventName (Some e)))]) @ B"
proof -
  define n where "n = GetEventName (Some e)"
  define A where "A = (case r of None \<Rightarrow> [] | Some rn \<Rightarrow> DeliveryTimeAction w rn t1 e)"
  define S where "S = (case r of None \<Rightarrow> [] | Some rn \<Rightarrow> DistributeTimeAction w rn t1 t2 e)"
  define T where "T = (case main_watcher w of None \<Rightarrow> [] | Some g \<Rightarrow> DistributeTimeoutHandler w t2 (g n))"
  have quiet: "list_all quiet_action A" "list_all quiet_action (T @ S)"
    by (auto simp: A_def S_def T_def time_actions_quiet split: option.splits)
  have "acts = A @ (case main_watcher w of None \<Rightarrow> [] | Some g \<Rightarrow> [LooperBegin n]) @
      (if has_own_thread r then [ThreadStackId (ev_stackId e)] else []) @
      [run_action e] @ (if has_own_thread r then [ThreadStackId 0] else []) @
      (case main_watcher w of None \<Rightarrow> [] | Some g \<Rightarrow> [LooperEnd n (g n)]) @ (T @ S)"
    using assms unfolding DistributeEvent_def option.case Let_def n_def [symmetric] A_def [symmetric] S_def [symmetric]
      has_own_thread_def [symmetric] run_action_def [symmetric]
    by (cases "wa_begin w") (auto simp: main_watcher_def T_def watcher_ok_def split: if_splits)
  then show ?thesis using quiet unfolding n_def by (intro that [of A "T @ S"])
qed

text \<open>
  C14. \<open>DistributeEvent\<close> runs the event exactly once: its task when it has one, else
  \<open>ProcessEvent\<close>. Exactly when a watcher is set (through \<open>SetMainLooperWatcher\<close>, which sets both functions or
  none) and the thread is the main thread of the application, the run is between one begin and one end call that carry
  the same name and the time that the begin call returned, and else there is no such call. Exactly when the handler
  has a runner outside the FFRT mode, the stack id of the thread is set before the run, inside the begin and end calls,
  and reset to zero after it, and else it is not touched. The thread's handler and priority become those of the event.
\<close>

theorem distribute_runs_event_once:
  assumes "DistributeEvent w r t1 t2 h (Some e) loc = Some (acts, loc')" "watcher_ok w"
  shows "filter is_run acts = [run_action e] \<and>
    (if wa_isAppMainThread w \<and> wa_begin w \<noteq> None
     then filter (\<lambda>a. is_looper a \<or> is_run a) acts =
            [LooperBegin (GetEventName (Some e)), run_action e,
             LooperEnd (GetEventName (Some e)) (the (wa_begin w) (GetEventName (Some e)))] \<and>
          filter (\<lambda>a. is_looper a \<or> is_stack a) acts =
            LooperBegin (GetEventName (Some e)) # filter is_stack acts @
            [LooperEnd (GetEventName (Some e)) (the (wa_begin w) (GetEventName (Some e)))]
     else filter is_looper acts = []) \<and>
    (if \<exists>rn. r = Some rn \<and> rn_threadMode rn \<noteq> THREAD_FFRT
     then filter (\<lambda>a. is_stack a \<or> is_run a) acts = [ThreadStackId (ev_stackId e), run_action e, ThreadStackId 0]
     else filter is_stack acts = []) \<and>
    tl_handler loc' = Some h \<and> tl_priority loc' = ev_priority e"
proof -
  have run [simp]: "is_run (run_action e)" "\<not> is_looper (run_action e)" "\<not> is_stack (run_action e)"
    by (cases "ev_taskCallback e"; simp add: run_action_def)+
  have own: "(\<exists>rn. r = Some rn \<and> rn_threadMode rn \<noteq> THREAD_FFRT) \<longleftrightarrow> has_own_thread r"
    by (cases r) (simp_all add: has_own_thread_def)
  obtain A B where q: "list_all quiet_action A" "list_all quiet_action B"
    and acts: "acts = A @ (case main_watcher w of None \<Rightarrow> [] | Some g \<Rightarrow> [LooperBegin (GetEventName (Some e))]) @
       (if has_own_thread r then [ThreadStackId (ev_stackId e)] else []) @ [run_action e] @
       (if has_own_thread r then [ThreadStackId 0] else []) @
       (case main_watcher w of None \<Rightarrow> []
        | Some g \<Rightarrow> [LooperEnd (GetEventName (Some e)) (g (GetEventName (Some e)))]) @ B"
    by (rule DistributeEvent_shape [OF assms])
  show ?thesis
    unfolding own using DistributeEvent_locals [OF assms(1)]
    by (cases "wa_begin w") (simp_all add: acts main_watcher_def quiet_filter [OF q(1)] quiet_filter [OF q(2)])
qed

definition small_watch :: watch where
  [eh_defs]: "small_watch =
     \<lparr>wa_begin = Some (\<lambda>_. 5), wa_end = True, wa_report = True, wa_mainTimeout = 0, wa_isAppMainThread = True,
      wa_checkSlow = False, wa_seconds = (\<lambda>_. []), wa_deliveryCallback = False, wa_distributeCallback = False,
      wa_threadId = 77, wa_logger = False, wa_localHandle = (False, False)\<rparr>"

definition some_runner :: "handler_ref \<Rightarrow> event_runner option" where
  [eh_defs]: "some_runner h = Some (new_runner True MODE_DEFAULT 0)"

theorem distribute_runs_event_once_witness:
  "\<exists>acts loc. DistributeEvent small_watch (some_runner 2) 10 12 2 (Some (task_at 7)) new_thread_locals = Some (acts, loc) \<and>
     filter is_run acts = [run_action (task_at 7)] \<and>
     filter (\<lambda>a. is_looper a \<or> is_run a) acts = [LooperBegin ''t'', run_action (task_at 7), LooperEnd ''t'' 5] \<and>
     filter (\<lambda>a. is_stack a \<or> is_run a) acts = [ThreadStackId 0, run_action (task_at 7), ThreadStackId 0]"
proof -
  let ?d = "DistributeEvent small_watch (some_runner 2) 10 12 2 (Some (task_at 7)) new_thread_locals"
  have "?d \<noteq> None" by code_simp
  then obtain acts loc where d: "?d = Some (acts, loc)" by auto
  have w: "watcher_ok small_watch" "wa_isAppMainThread small_watch" "wa_begin small_watch = Some (\<lambda>_. 5)"
    by (simp_all add: watcher_ok_def small_watch_def)
  have r: "\<exists>rn. some_runner 2 = Some rn \<and> rn_threadMode rn \<noteq> THREAD_FFRT" by (simp add: some_runner_def new_runner_def)
  have e: "GetEventName (Some (task_at 7)) = ''t''" "ev_stackId (task_at 7) = 0" by code_simp+
  show ?thesis using distribute_runs_event_once [OF d w(1)] d w(2,3) r e by auto
qed

lemma restore_runner_Stopped:
  "restore_runner old stop = Stopped s' \<longleftrightarrow> (\<exists>s3. stop = Stopped s3 \<and> s' = set_loop_runner old s3)"
  by (cases stop) auto

text \<open>
  C13. What a runner's loop leaves when it returns: the events it distributed, in their order,
  are exactly those that the ring of the queue has recorded since the start; each of them had a
  living owner, the queue is still well formed, and the thread's current runner is the one it
  had before. When the runner is gone already, nothing is distributed.
\<close>

theorem loop_records_what_it_executed:
  assumes "EventRunnerImpl_Run sp wd w runner_of owner_alive r thread proc env rn s = (rn', Stopped s')"
  shows "(\<exists>xs. ls_executed s' = ls_executed s @ xs \<and>
      b_historyEvents (ls_queue s') = b_historyEvents (fold distributed xs (ls_queue s)) \<and>
      (\<forall>x\<in>set xs. owner_alive \<and> \<not> owner_expired (wd_alive wd) (snd (snd x)))) \<and>
    (queue_wf (ls_queue s) \<longrightarrow> queue_wf (ls_queue s')) \<and> tl_runner (ls_locals s') = tl_runner (ls_locals s)"
proof -
  let ?s1 = "s\<lparr>ls_queue := Prepare (ls_queue s)\<rparr>"
  let ?s2 = "set_loop_runner (Some r) ?s1"
  have p: "hist (Prepare (ls_queue s)) = hist (ls_queue s)" "queue_wf (Prepare (ls_queue s)) = queue_wf (ls_queue s)"
    using apply_op_hist [of _ _ DoPrepare "ls_queue s"] same_wf_content [of "Prepare (ls_queue s)" "ls_queue s"]
    by (simp_all add: Prepare_def PrepareBase_def)
  show ?thesis
  proof (cases owner_alive)
    case False
    with assms have "s' = ?s1" by (simp add: EventRunnerImpl_Run_def Let_def)
    with p show ?thesis by (auto simp: hist_def intro: exI [of _ "[]"])
  next
    case True
    let ?stop = "if rn_runningMode rn = MODE_NO_WAIT
      then NoWaitModeLoop sp wd w runner_of (le_first env) (le_others env) (le_outcome env) (le_second env) ?s2
      else DefaultModeLoop sp wd w runner_of (wd_mainRunner wd = Some r) (le_passes env) ?s2"
    have "restore_runner (tl_runner (ls_locals s)) ?stop = Stopped s'"
      using assms True by (simp add: EventRunnerImpl_Run_def Let_def)
    then obtain s3 where l: "?stop = Stopped s3" "s' = set_loop_runner (tl_runner (ls_locals s)) s3"
      unfolding restore_runner_Stopped by blast
    have "loop_effect wd ?s2 s3"
      using l(1) NoWaitModeLoop_effect DefaultModeLoop_effect by (cases "rn_runningMode rn = MODE_NO_WAIT") auto
    note s3 = this l(2)
    then obtain xs where xs: "ls_executed s3 = ls_executed s @ xs"
      "hist (ls_queue s3) = hist (fold distributed xs (Prepare (ls_queue s)))"
      "\<forall>x\<in>set xs. \<not> owner_expired (wd_alive wd) (snd (snd x))" "queue_wf (ls_queue s) \<longrightarrow> queue_wf (ls_queue s3)"
      using p by (auto simp: loop_effect_def set_loop_runner_def)
    have "hist (ls_queue s') = hist (fold distributed xs (ls_queue s))"
      using xs(2) fold_distributed_hist [OF p(1), of xs] s3(2) by (simp add: set_loop_runner_def)
    with xs True s3(2) show ?thesis by (auto simp: hist_def set_loop_runner_def)
  qed
qed

definition exec_at :: "time \<Rightarrow> queue_op list \<Rightarrow> exec_env" where
  [eh_defs]: "exec_at t ops =
     \<lparr>xe_before = t, xe_before2 = t, xe_start = t, xe_end = t, xe_after = t + 1, xe_vipDone = t + 1,
      xe_consumer = 0, xe_during = ops\<rparr>"

definition loop_start :: "event_queue_base \<Rightarrow> loop_state" where
  [eh_defs]: "loop_start q = \<lparr>ls_queue = q, ls_actions = [], ls_locals = new_thread_locals, ls_executed = []\<rparr>"

definition one_event_env :: loop_env where
  \<comment> \<open>one event is distributed at 40, its handler stops the queue, and the loop ends\<close>
  [eh_defs]: "one_event_env =
     \<lparr>le_passes = [([quiet_round 40], exec_at 40 [DoFinish]), ([quiet_round 50], exec_at 50 [])],
      le_first = [(40, exec_at 40 []), (50, exec_at 50 [])], le_others = [],
      le_outcome = \<lparr>wo_retVal = 0, wo_fatal = False, wo_events = []\<rparr>, le_second = [(60, exec_at 60 [])]\<rparr>"

theorem loop_records_what_it_executed_witness:
  "\<exists>rn' s'. EventRunnerImpl_Run default_params small_world small_watch some_runner True 2 7 77 one_event_env
      (new_runner True MODE_DEFAULT 0) (loop_start (queue_with [(HIGH, task_at 30)])) = (rn', Stopped s') \<and>
    ls_executed s' \<noteq> [] \<and> (\<exists>xs. ls_executed s' = xs \<and>
      b_historyEvents (ls_queue s') = b_historyEvents (fold distributed xs (queue_with [(HIGH, task_at 30)])))"
proof -
  let ?run = "EventRunnerImpl_Run default_params small_world small_watch some_runner True 2 7 77 one_event_env
      (new_runner True MODE_DEFAULT 0) (loop_start (queue_with [(HIGH, task_at 30)]))"
  have "case snd ?run of Stopped s' \<Rightarrow> map fst (ls_executed s') = [40] | _ \<Rightarrow> False" by code_simp
  then obtain s' where s': "snd ?run = Stopped s'" "ls_executed s' \<noteq> []" by (auto split: loop_end.splits)
  then have run: "?run = (fst ?run, Stopped s')" by (metis prod.collapse)
  have "ls_executed (loop_start q) = []" "ls_queue (loop_start q) = q" for q by (simp_all add: loop_start_def)
  with loop_records_what_it_executed [OF run] run s'(2) show ?thesis by auto
qed

lemma no_wait_leaves_nothing_due:
  assumes "NoWaitModeLoop sp wd w runner_of passes others wo passes' s = Stopped s'"
    and "queue_wf (ls_queue s)" "\<forall>t\<in>fst ` set passes'. t < TIME_MAX"
  shows "\<exists>now\<in>fst ` set passes'. nothing_due now (ls_queue s')"
proof -
  from NoWaitModeLoop_effect [OF assms(1)] obtain s0 now t where
    0: "loop_effect wd s s0" "now \<in> fst ` set passes'"
      "GetExpiredEvent now TIME_MAX (ls_queue s0) = (None, t, ls_queue s')" by blast
  have "queue_wf (ls_queue s0)" using 0(1) assms(2) by (simp add: loop_effect_def)
  with nothing_due_after [OF 0(3) [unfolded GetExpiredEvent_def]] 0(2) assms(3) show ?thesis by blast
qed

section \<open>\<open>Run\<close> and \<open>Stop\<close>\<close>

text \<open>
  C32. A runner that is not deposited is run by one thread at a time: while a thread is anywhere
  inside \<open>Run\<close>, every other call of \<open>Run\<close> is refused and changes nothing.
\<close>

theorem run_is_exclusive:
  assumes "run_reach s" "st_point s i \<noteq> Outside"
  shows "(\<forall>j. st_point s j \<noteq> Outside \<longrightarrow> j = i) \<and>
    Run_enter False mode j s = (EVENT_HANDLER_ERR_RUNNER_ALREADY, s)"
  using run_reach_inv [OF assms(1)] assms(2) by (auto simp: run_inv_def Run_enter_def)

lemma entered_reach: "run_reach (snd (Run_enter False MODE_DEFAULT i not_run))"
  by (rule run_reach.step [OF run_reach.start run_step.enter]) (simp add: not_run_def)

theorem run_is_exclusive_witness:
  "Run_enter False MODE_DEFAULT 1 (snd (Run_enter False MODE_DEFAULT 0 not_run)) =
     (EVENT_HANDLER_ERR_RUNNER_ALREADY, snd (Run_enter False MODE_DEFAULT 0 not_run))"
proof -
  have "st_point (snd (Run_enter False MODE_DEFAULT 0 not_run)) 0 \<noteq> Outside"
    by (simp add: Run_enter_def not_run_def)
  from run_is_exclusive [OF entered_reach this] show ?thesis by blast
qed

text \<open>
  C33. \<open>Stop\<close> ends a loop that runs, but between the exchange of \<open>running_\<close> and
  \<open>queue_->Prepare()\<close> it reports success and has no effect at all: \<open>Prepare\<close> clears
  \<open>finished_\<close> again, and the loop starts as if nobody had called \<open>Stop\<close>.
\<close>

theorem stop_before_prepare_is_lost:
  assumes "run_reach s" "st_point s i \<noteq> Outside"
  shows "fst (Runner_Stop False s) = ERR_OK \<and> st_finished (snd (Runner_Stop False s)) \<and>
    Run_prepare i (snd (Runner_Stop False s)) = Run_prepare i s \<and> \<not> st_finished (Run_prepare i s)"
  using run_reach_inv [OF assms(1)] assms(2) by (auto simp: run_inv_def Runner_Stop_def Run_prepare_def)

theorem stop_before_prepare_is_lost_witness:
  "\<exists>s. run_reach s \<and> st_point s 0 = Entered \<and> fst (Runner_Stop False s) = ERR_OK \<and>
     Run_prepare 0 (snd (Runner_Stop False s)) = Run_prepare 0 s"
proof -
  let ?s = "snd (Run_enter False MODE_DEFAULT 0 not_run)"
  have "st_point ?s 0 = Entered" by (simp add: Run_enter_def not_run_def)
  with stop_before_prepare_is_lost [OF entered_reach, of 0 0] entered_reach show ?thesis by auto
qed

text \<open>
  \<open>Run\<close> of a deposited runner in the mode \<open>NO_WAIT\<close> only starts a thread and clears
  \<open>running_\<close> at once, so the test that is to keep a second thread away never fails: every call
  starts one more thread that loops over the same queue.
\<close>

lemma no_wait_run_is_not_exclusive:
  "\<not> st_running s \<Longrightarrow> fst (Run_no_wait i s) = ERR_OK \<and> fst (snd (Run_no_wait i s)) = 1 \<and>
     \<not> st_running (snd (snd (Run_no_wait i s)))"
  by (simp add: Run_no_wait_def Run_enter_def Run_leave_def)

text \<open>
  C34. The destructor of a deposited runner does not lose its stop: whatever the thread was doing
  when the runner went away, it ends after at most two further steps of its own.
\<close>

theorem destroyed_runner_thread_ends:
  assumes "deposit_reach s" "dp_stopped s"
  shows "\<exists>n\<le>2. dp_point ((thread_next ^^ n) s) = Ended"
proof -
  from deposit_reach_inv [OF assms(1)] assms(2) have i: "\<not> dp_alive s" "dp_point s = InLoop \<longrightarrow> dp_finished s"
    by (simp_all add: deposit_inv_def)
  show ?thesis
  proof (cases "dp_point s")
    case Starting
    with i show ?thesis by (intro exI [of _ 2]) (simp add: numeral_2_eq_2 thread_next_def thread_prepare_def thread_check_owner_def)
  next
    case Prepared
    with i show ?thesis by (intro exI [of _ 1]) (simp add: thread_next_def thread_check_owner_def)
  next
    case InLoop
    with i show ?thesis by (intro exI [of _ 1]) (simp add: thread_next_def thread_exit_def)
  next
    case Ended
    then show ?thesis by (intro exI [of _ 0]) simp
  qed
qed

theorem destroyed_runner_thread_ends_witness:
  "\<exists>s. deposit_reach s \<and> dp_stopped s \<and> dp_point s = Prepared \<and> (\<exists>n\<le>2. dp_point ((thread_next ^^ n) s) = Ended)"
proof -
  let ?s = "thread_next (runner_destroyed (runner_expires deposit_start))"
  have "deposit_reach (runner_expires deposit_start)"
    by (rule deposit_reach.step [OF deposit_reach.start deposit_step.expire]) (simp add: deposit_start_def)
  then have "deposit_reach (runner_destroyed (runner_expires deposit_start))"
    by (rule deposit_reach.step [OF _ deposit_step.destroy]) (simp_all add: deposit_start_def runner_expires_def)
  then have r: "deposit_reach ?s" by (rule deposit_reach.step [OF _ deposit_step.thread])
  have p: "dp_stopped ?s" "dp_point ?s = Prepared"
    by (simp_all add: deposit_start_def runner_expires_def runner_destroyed_def thread_next_def thread_prepare_def)
  from destroyed_runner_thread_ends [OF r p(1)] r p show ?thesis by blast
qed

section \<open>The collector of finished threads\<close>

text \<open>
  \<open>taken\<close> lists the threads that \<open>Deposit\<close> accepts in a run of the collector; \<open>fresh\<close> says that
  no thread is deposited while a thread with its id is still in the map, which the ids of
  threads that were not joined guarantee.
\<close>

fun taken :: "collector_op list \<Rightarrow> collector \<Rightarrow> nat list" where
  "taken [] c = []"
| "taken (p # ops) c =
     (case p of OpDeposit t \<Rightarrow> (if fst (Deposit True t c) then [t] else []) | _ \<Rightarrow> []) @ taken ops (collector_apply p c)"

fun fresh :: "collector_op list \<Rightarrow> collector \<Rightarrow> bool" where
  "fresh [] c = True"
| "fresh (p # ops) c =
     ((case p of OpDeposit t \<Rightarrow> t \<notin> set (tc_depositMap c) | _ \<Rightarrow> True) \<and> fresh ops (collector_apply p c))"

definition accounted :: "collector \<Rightarrow> nat multiset" where
  [eh_defs]: "accounted c = mset (tc_depositMap c) + mset (tc_joined c)"

lemma distinct_removeAll_mset: "distinct xs \<Longrightarrow> t \<in> set xs \<Longrightarrow> add_mset t (mset (removeAll t xs)) = mset xs"
  by (metis distinct_remove1_removeAll mset_remove1 insert_DiffM set_mset_mset)

lemma DoReclaimLocked_accounted:
  "distinct (tc_depositMap c) \<Longrightarrow> accounted (DoReclaimLocked t b c) = accounted c"
  "distinct (tc_depositMap c) \<Longrightarrow> distinct (tc_depositMap (DoReclaimLocked t b c))"
  using distinct_removeAll_mset [of "tc_depositMap c" t]
  by (auto simp: DoReclaimLocked_def accounted_def distinct_removeAll)

lemma ReclaimAll_accounted: "distinct (tc_depositMap c) \<Longrightarrow> accounted (ReclaimAll c) = accounted c"
  by (simp add: accounted_def ReclaimAll_all)

lemma collector_apply_accounted:
  assumes "distinct (tc_depositMap c)" "case p of OpDeposit t \<Rightarrow> t \<notin> set (tc_depositMap c) | _ \<Rightarrow> True"
  shows "distinct (tc_depositMap (collector_apply p c)) \<and>
    accounted (collector_apply p c) = accounted c + mset (taken [p] c)"
proof (cases p)
  case (OpDeposit t)
  with assms show ?thesis by (auto simp: Deposit_def accounted_def)
next
  case (OpReclaimCurrent l t)
  then show ?thesis using assms(1) by (simp add: ReclaimCurrentThread_def accounted_def Let_def)
next
  case OpReclaimOne
  have "accounted (c\<lparr>tc_reclaims := x\<rparr>) = accounted c" for x by (simp add: accounted_def)
  with OpReclaimOne assms(1) show ?thesis by (simp add: Run_reclaim_one_def DoReclaimLocked_accounted)
next
  case OpReclaimAll
  with assms(1) show ?thesis by (simp add: ReclaimAll_accounted ReclaimAll_all)
qed (use assms(1) in \<open>simp_all add: Collector_Stop_request_def Collector_Stop_joined_def accounted_def\<close>)

lemma collector_run_accounted:
  "distinct (tc_depositMap c) \<Longrightarrow> fresh ops c \<Longrightarrow>
     distinct (tc_depositMap (fold collector_apply ops c)) \<and>
     accounted (fold collector_apply ops c) = accounted c + mset (taken ops c)"
proof (induction ops arbitrary: c)
  case (Cons p ops)
  from Cons.prems(2) have "case p of OpDeposit t \<Rightarrow> t \<notin> set (tc_depositMap c) | _ \<Rightarrow> True" by simp
  note a = collector_apply_accounted [OF Cons.prems(1) this]
  from Cons.prems(2) have "fresh ops (collector_apply p c)" by simp
  with Cons.IH [of "collector_apply p c"] a show ?case by (simp add: ac_simps)
qed simp

text \<open>
  C35. Every thread that the collector accepted is joined exactly once when the collector has
  stopped, whatever deposits, notices of finished threads, passes of the collector thread and
  earlier stops came in between; the map of deposited threads is empty then.
\<close>

theorem every_deposited_thread_is_joined_once:
  assumes "fresh ops new_collector" "c = fold collector_apply ops new_collector"
  shows "mset (tc_joined (Collector_Stop c)) = mset (taken ops new_collector) \<and> tc_depositMap (Collector_Stop c) = []"
proof -
  have "distinct (tc_depositMap new_collector)" "accounted new_collector = {#}"
    by (simp_all add: new_collector_def accounted_def)
  with collector_run_accounted [OF _ assms(1)] assms(2) have d: "distinct (tc_depositMap c)"
    and a: "mset (tc_depositMap c) + mset (tc_joined c) = mset (taken ops new_collector)"
    by (simp_all add: accounted_def)
  let ?c = "Collector_Stop_joined (Collector_Stop_request c)"
  have keep: "tc_depositMap ?c = tc_depositMap c" "tc_joined ?c = tc_joined c"
    by (simp_all add: Collector_Stop_joined_def Collector_Stop_request_def)
  from ReclaimAll_all [of ?c] keep d a show ?thesis by (simp add: Collector_Stop_def ac_simps)
qed

theorem every_deposited_thread_is_joined_once_witness:
  "mset (tc_joined (Collector_Stop (fold collector_apply
     [OpDeposit 1, OpDeposit 2, OpReclaimCurrent True 2, OpReclaimOne, OpDeposit 2] new_collector))) = {#1, 2, 2#}"
proof -
  let ?ops = "[OpDeposit 1, OpDeposit 2, OpReclaimCurrent True 2, OpReclaimOne, OpDeposit 2]"
  have "fresh ?ops new_collector" "taken ?ops new_collector = [1, 2, 2]" by code_simp+
  note f = this(1) and t = this(2)
  have "{#1, 2, 2#} = mset [1, 2, 2 :: nat]" by simp
  then show ?thesis using every_deposited_thread_is_joined_once [OF f refl] unfolding t by argo
qed

text \<open>
  A thread that reports its end before it was deposited stays in the map: its notice is
  consumed without effect, and no later pass of the collector thread ever joins it; only the
  stop of the collector does.
\<close>

lemma early_finished_thread_is_not_reclaimed:
  "let c = fold collector_apply [OpReclaimCurrent True t, OpReclaimOne, OpDeposit t] new_collector
   in Run_reclaims n c = c \<and> tc_depositMap (Run_reclaims n c) = [t] \<and> tc_joined (Run_reclaims n c) = []"
proof -
  let ?c = "fold collector_apply [OpReclaimCurrent True t, OpReclaimOne, OpDeposit t] new_collector"
  have c: "tc_reclaims ?c = []" "tc_depositMap ?c = [t]" "tc_joined ?c = []"
    by (simp_all add: new_collector_def ReclaimCurrentThread_def Run_reclaim_one_def DoReclaimLocked_def Deposit_def Let_def)
  have "Run_reclaims n c = c" if "tc_reclaims c = []" for c
    using that by (induction n) (simp_all add: Run_reclaim_one_def)
  from this [OF c(1)] c(2,3) show ?thesis unfolding Let_def by argo
qed

text \<open>
  At the end of the process the collector is stopped exactly once, in whichever order the avatar
  and the collector are destroyed.
\<close>

lemma collector_stops_once_at_exit:
  assumes "av_enabled f" "\<not> av_destructed f"
  shows "snd (ThreadCollector_dtor (Avatar_dtor (f, c))) = Collector_Stop c"
    "snd (Avatar_dtor (ThreadCollector_dtor (f, c))) = Collector_Stop c"
  using assms by (simp_all add: ThreadCollector_dtor_def Avatar_dtor_def)

section \<open>The crash message\<close>

text \<open>
  When no event is being handled, \<open>CrashCallback\<close> copies one byte less than the size of the
  buffer from a literal of 48 bytes (its final zero included), so a larger buffer makes it read
  past the end of the literal.
\<close>

lemma crash_message_reads_past_literal:
  assumes "length g_crashEmptyDumpInfo + 2 < len" "tl_name loc = []"
  shows "\<exists>n>length g_crashEmptyDumpInfo + 1. CrashCallback loc len = CopyMessage n"
  using assms by (auto simp: CrashCallback_def CRASH_BUF_MIN_LEN_def)

end
