(* ===== verification/Loop_Liveness.thy ===== *)
theory Loop_Liveness
  imports Runner_Properties
begin

text \<open>
  A loop hands out what is due: every pass of the default loop takes one event while one is due,
  so a due event is executed within as many passes as there are events; and the loop of a runner
  in the mode \<open>NO_WAIT\<close> ends after one pass for each event. The handlers may do anything to the
  queue but change its lists and finish it.
\<close>

section \<open>What a pass keeps\<close>

definition running_queue :: "event_queue_base \<Rightarrow> bool" where
  \<comment> \<open>well formed, not finished, and in barrier mode only while a vsync task is pending\<close>
  "running_queue q \<longleftrightarrow>
     queue_wf q \<and> \<not> q_finished q \<and> (q_isBarrierMode q \<longrightarrow> q_sumOfPendingVsync q \<noteq> 0)"

definition keeps_running :: "queue_op \<Rightarrow> bool" where
  "keeps_running op \<longleftrightarrow> \<not> list_op op \<and> op \<noteq> DoFinish"

lemma same_running:
  assumes "same_lists q q'" "q_finished q' = q_finished q" "q_isBarrierMode q' = q_isBarrierMode q"
    "q_sumOfPendingVsync q' = q_sumOfPendingVsync q"
  shows "running_queue q' = running_queue q"
  using same_wf_content(1) [of q q'] assms by (simp add: running_queue_def)

lemma WaitUntilLocked_nobody:
  "same_lists q (snd (WaitUntilLocked wd (apply_ops sp wd []) wo v q))"
  "q_finished (snd (WaitUntilLocked wd (apply_ops sp wd []) wo v q)) = q_finished q"
  "q_isBarrierMode (snd (WaitUntilLocked wd (apply_ops sp wd []) wo v q)) = q_isBarrierMode q"
  "q_sumOfPendingVsync (snd (WaitUntilLocked wd (apply_ops sp wd []) wo v q)) = q_sumOfPendingVsync q"
  by (auto simp: WaitUntilLocked_def apply_ops_def reset_io_waiter_def Let_def split: option.split prod.split)

lemma TryEpollFd_nobody:
  "same_lists q (snd (TryEpollFd wd (apply_ops sp wd []) wo q))"
  "q_finished (snd (TryEpollFd wd (apply_ops sp wd []) wo q)) = q_finished q"
  "q_isBarrierMode (snd (TryEpollFd wd (apply_ops sp wd []) wo q)) = q_isBarrierMode q"
  "q_sumOfPendingVsync (snd (TryEpollFd wd (apply_ops sp wd []) wo q)) = q_sumOfPendingVsync q"
  using WaitUntilLocked_nobody [where q = q and wd = wd and sp = sp and wo = wo and v = "\<not> q_needEpoll q"]
  by (auto simp: TryEpollFd_def Let_def split: prod.split)

lemma observer_running:
  "same_lists q (snd (TryExecuteObserverCallback now c t stage q))"
  "q_finished (snd (TryExecuteObserverCallback now c t stage q)) = q_finished q"
  "q_isBarrierMode (snd (TryExecuteObserverCallback now c t stage q)) = q_isBarrierMode q"
  "q_sumOfPendingVsync (snd (TryExecuteObserverCallback now c t stage q)) = q_sumOfPendingVsync q"
  by (cases stage; simp add: TryExecuteObserverCallback_def notify_observer_def Let_def)+

lemma CheckBarrierMode_running: "running_queue q \<Longrightarrow> running_queue (CheckBarrierMode sp now q)"
  by (auto simp: running_queue_def CheckBarrierMode_post)
    (auto simp: CheckBarrierMode_def SetBarrierMode_def Let_def split: if_splits)

lemma apply_op_running:
  assumes "keeps_running op" "running_queue q"
  shows "running_queue (apply_op sp wd op q) \<and> content (apply_op sp wd op q) = content q \<and>
    pending (apply_op sp wd op q) = pending q"
proof -
  have s: "same_lists q (apply_op sp wd op q)" using assms(1) by (simp add: keeps_running_def apply_op_same)
  moreover have "\<not> q_finished (apply_op sp wd op q) \<and>
      (q_isBarrierMode (apply_op sp wd op q) \<longrightarrow> q_sumOfPendingVsync (apply_op sp wd op q) \<noteq> 0)"
    using assms by (cases op)
      (auto simp: keeps_running_def running_queue_def Prepare_def PrepareBase_def
        SetUsable_def SetVsyncLazyMode_def SetVsyncPolicy_def SetVsyncFirstForceEnableTime_def
        UpdateVsyncCheckTime_def SetBarrierMode_def HandleVsyncTaskNotify_def NotifyObserverVipDone_def
        NotifyObserverVipDoneBase_def TryExecuteObserverCallback_def notify_observer_def
        HandleVsyncTaskCompletely_def AddObserver_def ClearObserver_def Let_def split: if_splits)
  ultimately show ?thesis
    using assms(2) queue_wf_sameD [OF s] content_same [OF s] pending_same [OF s] by (simp add: running_queue_def)
qed

lemma apply_ops_running:
  "\<forall>op\<in>set ops. keeps_running op \<Longrightarrow> running_queue q \<Longrightarrow>
     running_queue (apply_ops sp wd ops q) \<and> content (apply_ops sp wd ops q) = content q \<and>
     pending (apply_ops sp wd ops q) = pending q"
proof (induction ops arbitrary: q)
  case (Cons op ops)
  from apply_op_running [of op q sp wd] Cons.prems
    Cons.IH [of "apply_op sp wd op q"] show ?case by (simp add: apply_ops_def)
qed (simp add: apply_ops_def)

lemma expired_running:
  assumes "GetExpiredEventLocked now nx q = (ev, t, q')" "running_queue q"
  shows "running_queue q'"
proof (cases ev)
  case None
  from GetExpired_None_keep [of now nx q t q'] assms None have "same_lists q q'" "q_finished q' = q_finished q"
    "q_isBarrierMode q' = q_isBarrierMode q" "q_sumOfPendingVsync q' = q_sumOfPendingVsync q"
    by (simp_all add: running_queue_def)
  from same_running [OF this] assms(2) show ?thesis by simp
next
  case (Some e)
  from GetExpired_Some [of now nx q e t q'] assms Some show ?thesis
    by (auto simp: running_queue_def expired_post_def)
qed

lemma GetEvent_iter_running:
  assumes "GetEvent_iter sp wd r q = (res, q')" "running_queue q" "r_others r = []"
  shows "running_queue q' \<and> res \<noteq> Finished"
proof -
  let ?q1 = "CheckBarrierMode sp (r_now r) q"
  obtain ev t q2 where ge: "GetExpiredEventLocked (r_now r) TIME_MAX ?q1 = (ev, t, q2)" by (metis prod_cases3)
  note r2 = expired_running [OF ge CheckBarrierMode_running [OF assms(2)]]
  have nf: "\<not> q_finished q" using assms(2) by (simp add: running_queue_def)
  show ?thesis
  proof (cases ev)
    case (Some e)
    have "running_queue (snd (TryEpollFd wd (apply_ops sp wd []) (r_outcome r) q2))"
      using same_running [OF TryEpollFd_nobody] r2 by blast
    with assms(1,3) nf Some r2 show ?thesis by (auto simp: GetEvent_iter_def ge Let_def split: if_splits)
  next
    case None
    note it = assms(1,3) nf None
    show ?thesis
    proof (cases "q_sumOfPendingVsync q2 = 0")
      case True
      obtain n1 q3 where tb: "TryExecuteObserverCallback (r_now r) (r_consumerBefore r) t STAGE_BEFORE_WAITING q2 = (n1, q3)"
        by fastforce
      obtain cbs q4 where w: "WaitUntilLocked wd (apply_ops sp wd []) (r_outcome r) False q3 = (cbs, q4)" by fastforce
      define q5 where "q5 = q4\<lparr>q_needEpoll := False\<rparr>"
      have q': "q' = snd (TryExecuteObserverCallback (r_now r) (r_consumerAfter r) n1 STAGE_AFTER_WAITING q5)"
        using it True by (auto simp: GetEvent_iter_def ge Let_def tb w q5_def split: prod.splits)
      have "running_queue q3" using same_running [OF observer_running] r2 tb by (metis snd_conv)
      then have "running_queue q4"
        using same_running [OF WaitUntilLocked_nobody, of wd sp "r_outcome r" False q3] w by simp
      then have "running_queue q5" using same_running [of q4 q5] by (simp add: q5_def)
      then have "running_queue q'" using same_running [OF observer_running] q' by blast
      with it True show ?thesis by (auto simp: GetEvent_iter_def ge Let_def split: prod.splits)
    next
      case False
      show ?thesis
      proof (cases "PickFirstVsyncEventLocked q2")
        case N: None
        with it False r2 show ?thesis
          by (auto simp: GetEvent_iter_def ge Let_def SetBarrierMode_def running_queue_def)
            (simp add: queue_wf_def)
      next
        case (Some er)
        obtain e q3 where er: "er = (e, q3)" by fastforce
        from r2 have "queue_wf q2" by (simp add: running_queue_def)
        from PickFirstVsync_Some(1,5) [OF Some [unfolded er] this] r2 have "running_queue q3"
          by (auto simp: running_queue_def map_sub_def)
        with it False Some er show ?thesis by (auto simp: GetEvent_iter_def ge Let_def)
      qed
    qed
  qed
qed

lemma GetEvent_running:
  assumes "GetEvent sp wd rs q = Some (ev, q')" "running_queue q" "\<forall>r\<in>set rs. r_others r = []"
  shows "running_queue q' \<and> ev \<noteq> None"
  using assms
proof (induction rs arbitrary: q)
  case (Cons r rs)
  obtain res q1 where it: "GetEvent_iter sp wd r q = (res, q1)" by fastforce
  from GetEvent_iter_running [OF it Cons.prems(2)] Cons.prems it Cons.IH [of q1] show ?case
    by (cases res) auto
qed simp

section \<open>One pass\<close>

lemma pending_content: "queue_wf q \<Longrightarrow> e \<in> pending q \<longleftrightarrow> e \<in># content q \<and> ev_priority e \<noteq> 4"
  using queued_member [OF queue_wf_length, of q e]
  by (auto simp: pending_def content_def dest: queue_wf_priority queue_wf_idle_priority)

definition quiet_pass :: "time \<Rightarrow> round list \<Rightarrow> bool" where
  \<comment> \<open>a pass after the time \<open>now\<close>, in which no other thread touches the queue while it is unlocked\<close>
  "quiet_pass now rs \<longleftrightarrow> 2 \<le> length rs \<and> sorted (map r_now rs) \<and>
     (\<forall>r\<in>set rs. now \<le> r_now r \<and> r_now r < TIME_MAX \<and> r_others r = [])"

lemma due_pass:
  assumes "running_queue q" "e \<in># content q" "ev_priority e \<noteq> 4" "quiet_pass (ev_handleTime e) rs"
  shows "\<exists>e' q'. GetEvent sp wd rs q = Some (Some e', q') \<and> content q = add_mset e' (content q') \<and> running_queue q'"
proof -
  obtain r1 r2 rs' where rs: "rs = r1 # r2 # rs'"
    using assms(4) by (cases rs; cases "tl rs") (auto simp: quiet_pass_def)
  have q: "queue_wf q" "\<not> q_finished q" "q_isBarrierMode q \<longrightarrow> q_sumOfPendingVsync q \<noteq> 0"
    using assms(1) by (simp_all add: running_queue_def)
  have p: "e \<in> pending q" using assms(2,3) pending_content [OF q(1)] by simp
  have t: "ev_handleTime e \<le> r_now r1" "r_now r1 \<le> r_now r2" "r_now r2 < TIME_MAX" "\<forall>r\<in>set rs. r_others r = []"
    using assms(4) by (simp_all add: quiet_pass_def rs)
  from due_event_delivered [OF q(1,2) p t(1,2,3) q(3)] obtain e' q' where
    g: "GetEvent sp wd rs q = Some (Some e', q')" unfolding rs by blast
  from GetEvent_quiet [OF q(1) t(4) g] GetEvent_running [OF g assms(1) t(4)] g show ?thesis by simp
qed

definition survives :: "watch \<Rightarrow> (handler_ref \<Rightarrow> event_runner option) \<Rightarrow> bool" where
  \<comment> \<open>HiChecker does not make a handler without a runner crash\<close>
  "survives w runner_of \<longleftrightarrow> \<not> wa_checkSlow w \<or> (\<forall>h. runner_of h \<noteq> None)"

lemma DistributeEvent_runs:
  assumes "survives w runner_of"
  shows "\<exists>acts loc'. DistributeEvent w (runner_of h) t1 t2 h (Some e) loc = Some (acts, loc') \<and> run_action e \<in> set acts"
  using assms by (auto simp: DistributeEvent_def survives_def run_action_def Let_def split: option.splits)

lemma distribution_running:
  assumes "running_queue q"
  shows "running_queue (PushHistoryQueueBeforeDistribute t u ev q)"
    "content (PushHistoryQueueBeforeDistribute t u ev q) = content q"
    "running_queue (PushHistoryQueueAfterDistribute t q)"
    "content (PushHistoryQueueAfterDistribute t q) = content q"
    "running_queue (NotifyObserverVipDone now c e q)"
    "content (NotifyObserverVipDone now c e q) = content q"
proof -
  let ?b = "PushHistoryQueueBeforeDistribute t u ev q" and ?a = "PushHistoryQueueAfterDistribute t q"
  have b: "same_lists q ?b" "q_finished ?b = q_finished q" "q_isBarrierMode ?b = q_isBarrierMode q"
    "q_sumOfPendingVsync ?b = q_sumOfPendingVsync q"
    by (auto simp: PushHistoryQueueBeforeDistribute_def Let_def split: option.split)
  have a: "same_lists q ?a" "q_finished ?a = q_finished q" "q_isBarrierMode ?a = q_isBarrierMode q"
    "q_sumOfPendingVsync ?a = q_sumOfPendingVsync q"
    by (auto simp: PushHistoryQueueAfterDistribute_def Let_def)
  show "running_queue ?b" "content ?b = content q" using same_running [OF b] content_same [OF b(1)] assms by simp_all
  show "running_queue ?a" "content ?a = content q" using same_running [OF a] content_same [OF a(1)] assms by simp_all
  show "running_queue (NotifyObserverVipDone now c e q)" "content (NotifyObserverVipDone now c e q) = content q"
    using apply_op_running [of "DoNotifyVipDone now c e" q] assms by (simp_all add: keeps_running_def)
qed

definition executed :: "loop_state \<Rightarrow> inner_event list" where
  "executed s = map (snd \<circ> snd) (ls_executed s)"

lemma ExecuteEventHandler_total:
  assumes "survives w runner_of"
  shows "\<exists>s' acts. ExecuteEventHandler sp wd w runner_of x e s = Some s' \<and> ls_actions s' = ls_actions s @ acts \<and>
    executed s' = executed s @ (if owner_expired (wd_alive wd) e then [] else [e]) \<and>
    (\<not> owner_expired (wd_alive wd) e \<longrightarrow> run_action e \<in> set acts)"
proof (cases "GetOwner (wd_alive wd) e")
  case None
  then show ?thesis by (simp add: ExecuteEventHandler_def owner_expired_def executed_def Let_def)
next
  case (Some h)
  obtain acts loc where "DistributeEvent w (runner_of h) (xe_start x) (xe_end x) h (Some e)
      (SetCurrentEventInfo e (ls_locals s)) = Some (acts, loc)" "run_action e \<in> set acts"
    using DistributeEvent_runs [OF assms] by blast
  with Some show ?thesis by (simp add: ExecuteEventHandler_def owner_expired_def executed_def Let_def)
qed

lemma ExecuteEventHandler_running:
  assumes "ExecuteEventHandler sp wd w runner_of x e s = Some s'" "running_queue (ls_queue s)"
    and "\<forall>op\<in>set (xe_during x). keeps_running op"
  shows "running_queue (ls_queue s') \<and> content (ls_queue s') = content (ls_queue s)"
  using assms(1)
proof (cases rule: ExecuteEventHandler_cases)
  case (distributed h acts loc)
  let ?q1 = "PushHistoryQueueBeforeDistribute (xe_before x) (xe_before2 x) (Some e) (ls_queue s)"
  have "running_queue ?q1" "content ?q1 = content (ls_queue s)" by (simp_all add: distribution_running assms(2))
  with apply_ops_running [OF assms(3), of ?q1 sp wd] show ?thesis
    by (simp add: distributed(5) distribution_running Let_def)
qed (simp_all add: assms(2))

lemma ExecuteEventHandler_same_lists:
  assumes "ExecuteEventHandler sp wd w runner_of x e s = Some s'" "\<forall>op\<in>set (xe_during x). \<not> list_op op"
  shows "same_lists (ls_queue s) (ls_queue s')"
  using assms(1)
proof (cases rule: ExecuteEventHandler_cases)
  case (distributed h acts loc)
  have "same_lists q (apply_ops sp wd ops q)" if "\<forall>op\<in>set ops. \<not> list_op op" for ops q
    using that by (induction ops arbitrary: q) (simp_all add: apply_ops_def apply_op_same)
  note this [OF assms(2), of "PushHistoryQueueBeforeDistribute (xe_before x) (xe_before2 x) (Some e) (ls_queue s)"]
  moreover have "same_lists q (PushHistoryQueueBeforeDistribute t u ev q)" for t u ev q
    by (simp add: PushHistoryQueueBeforeDistribute_def Let_def split: option.split)
  moreover have "same_lists q (PushHistoryQueueAfterDistribute t q)" for t q
    by (simp add: PushHistoryQueueAfterDistribute_def Let_def)
  moreover have "same_lists q (NotifyObserverVipDone now c e q)" for now c e q
    using apply_op_same [where op = "DoNotifyVipDone now c e" and q = q] by simp
  ultimately show ?thesis by (auto simp: distributed(5) Let_def)
qed simp

section \<open>The default loop\<close>

definition calm_pass :: "round list \<times> exec_env \<Rightarrow> bool" where
  "calm_pass p \<longleftrightarrow> (\<forall>r\<in>set (fst p). r_others r = []) \<and> (\<forall>op\<in>set (xe_during (snd p)). keeps_running op)"

lemma DefaultModeLoop_executes:
  assumes "survives w runner_of" and "running_queue (ls_queue s)" and "\<forall>p\<in>set passes. calm_pass p"
  shows "\<exists>s' evs acts. DefaultModeLoop sp wd w runner_of main passes s = OutOfRounds s' \<and>
    executed s' = executed s @ evs \<and> ls_actions s' = ls_actions s @ acts \<and>
    (e \<in># content (ls_queue s) \<and> ev_priority e \<noteq> 4 \<and> \<not> owner_expired (wd_alive wd) e \<and>
     size (content (ls_queue s)) \<le> length passes \<and> (\<forall>p\<in>set passes. quiet_pass (ev_handleTime e) (fst p)) \<longrightarrow>
       e \<in> set evs \<and> run_action e \<in> set acts)"
  using assms(2,3)
proof (induction passes arbitrary: s)
  case Nil
  then show ?case by (auto simp: nonempty_has_size)
next
  case (Cons p passes)
  obtain rs x where p: "p = (rs, x)" by fastforce
  have calm: "\<forall>r\<in>set rs. r_others r = []" "\<forall>op\<in>set (xe_during x). keeps_running op"
    using Cons.prems(2) by (simp_all add: calm_pass_def p)
  show ?case
  proof (cases "GetEvent sp wd rs (ls_queue s)")
    case None
    then have "\<not> (e \<in># content (ls_queue s) \<and> ev_priority e \<noteq> 4 \<and> quiet_pass (ev_handleTime e) rs)"
      using due_pass [OF Cons.prems(1), of e rs sp wd] by auto
    with None show ?thesis by (auto simp: p)
  next
    case (Some evq)
    obtain ev q where g: "GetEvent sp wd rs (ls_queue s) = Some (ev, q)" using Some by (cases evq) auto
    from GetEvent_running [OF g Cons.prems(1) calm(1)] obtain e1 where
      q: "running_queue q" "ev = Some e1" by blast
    have c: "content (ls_queue s) = add_mset e1 (content q)"
      using GetEvent_quiet [OF _ calm(1) g [unfolded q(2)]] Cons.prems(1) by (simp add: running_queue_def)
    define s1 where "s1 = s\<lparr>ls_queue := q,
      ls_actions := ls_actions s @ (if main \<and> fst (wa_localHandle w) then [OpenLocalHandle] else [])\<rparr>"
    from ExecuteEventHandler_total [OF assms(1), of sp wd x e1 s1] obtain s2 acts2 where
      x: "ExecuteEventHandler sp wd w runner_of x e1 s1 = Some s2" "ls_actions s2 = ls_actions s1 @ acts2"
        "executed s2 = executed s1 @ (if owner_expired (wd_alive wd) e1 then [] else [e1])"
        "\<not> owner_expired (wd_alive wd) e1 \<longrightarrow> run_action e1 \<in> set acts2" by blast
    from ExecuteEventHandler_running [OF x(1) _ calm(2)] q(1) have
      r2: "running_queue (ls_queue s2)" "content (ls_queue s2) = content q" by (simp_all add: s1_def)
    define s3 where "s3 = s2\<lparr>ls_actions := ls_actions s2 @ (if main \<and> snd (wa_localHandle w) then [CloseLocalHandle] else [])\<rparr>"
    have loop: "DefaultModeLoop sp wd w runner_of main (p # passes) s = DefaultModeLoop sp wd w runner_of main passes s3"
      by (simp add: p g q(2) x(1) s1_def [symmetric] s3_def [symmetric])
    have "running_queue (ls_queue s3)" using r2 by (simp add: s3_def)
    from Cons.IH [OF this] Cons.prems(2) obtain s' evs acts where
      i: "DefaultModeLoop sp wd w runner_of main passes s3 = OutOfRounds s'" "executed s' = executed s3 @ evs"
        "ls_actions s' = ls_actions s3 @ acts"
        "e \<in># content (ls_queue s3) \<and> ev_priority e \<noteq> 4 \<and> \<not> owner_expired (wd_alive wd) e \<and>
         size (content (ls_queue s3)) \<le> length passes \<and> (\<forall>p\<in>set passes. quiet_pass (ev_handleTime e) (fst p)) \<longrightarrow>
           e \<in> set evs \<and> run_action e \<in> set acts" by auto
    have s3: "executed s3 = executed s2" "content (ls_queue s3) = content q" "executed s1 = executed s"
      using r2 by (simp_all add: s3_def s1_def executed_def)
    show ?thesis
    proof (intro exI conjI)
      show "DefaultModeLoop sp wd w runner_of main (p # passes) s = OutOfRounds s'" using loop i(1) by simp
      show "executed s' = executed s @ ((if owner_expired (wd_alive wd) e1 then [] else [e1]) @ evs)"
        using i(2) x(3) s3 by simp
      show "ls_actions s' = ls_actions s @ ((if main \<and> fst (wa_localHandle w) then [OpenLocalHandle] else []) @ acts2 @
          (if main \<and> snd (wa_localHandle w) then [CloseLocalHandle] else []) @ acts)"
        using i(3) x(2) by (simp add: s3_def s1_def)
      show "e \<in># content (ls_queue s) \<and> ev_priority e \<noteq> 4 \<and> \<not> owner_expired (wd_alive wd) e \<and>
         size (content (ls_queue s)) \<le> length (p # passes) \<and>
         (\<forall>p\<in>set (p # passes). quiet_pass (ev_handleTime e) (fst p)) \<longrightarrow>
          e \<in> set ((if owner_expired (wd_alive wd) e1 then [] else [e1]) @ evs) \<and>
          run_action e \<in> set ((if main \<and> fst (wa_localHandle w) then [OpenLocalHandle] else []) @ acts2 @
            (if main \<and> snd (wa_localHandle w) then [CloseLocalHandle] else []) @ acts)"
        using i(4) x(4) s3(2) c by (cases "e = e1") auto
    qed
  qed
qed

section \<open>The loops of the mode NO_WAIT\<close>

definition settled :: "world \<Rightarrow> loop_state \<Rightarrow> loop_state \<Rightarrow> bool" where
  \<comment> \<open>what left the queue was executed once, in this order, unless its owner is gone\<close>
  "settled wd s s' \<longleftrightarrow> (\<exists>evs lost. executed s' = executed s @ evs \<and>
     content (ls_queue s) = content (ls_queue s') + mset evs + lost \<and>
     (\<forall>e\<in>set evs. \<not> owner_expired (wd_alive wd) e) \<and> (\<forall>e\<in>#lost. owner_expired (wd_alive wd) e)) \<and>
   (queue_wf (ls_queue s) \<longrightarrow> queue_wf (ls_queue s'))"

lemma settled_same:
  assumes "same_lists (ls_queue s) (ls_queue s')" "ls_executed s' = ls_executed s"
  shows "settled wd s s'"
  using assms content_same [OF assms(1)] queue_wf_sameD [OF assms(1)]
  by (auto simp: settled_def executed_def intro!: exI [of _ "[]"])

lemma settled_trans:
  assumes "settled wd s s1" "settled wd s1 s2"
  shows "settled wd s s2"
proof -
  obtain es ls where 1: "executed s1 = executed s @ es" "content (ls_queue s) = content (ls_queue s1) + mset es + ls"
    "\<forall>e\<in>set es. \<not> owner_expired (wd_alive wd) e" "\<forall>e\<in>#ls. owner_expired (wd_alive wd) e"
    using assms(1) by (auto simp: settled_def)
  obtain fs ms where 2: "executed s2 = executed s1 @ fs" "content (ls_queue s1) = content (ls_queue s2) + mset fs + ms"
    "\<forall>e\<in>set fs. \<not> owner_expired (wd_alive wd) e" "\<forall>e\<in>#ms. owner_expired (wd_alive wd) e"
    using assms(2) by (auto simp: settled_def)
  have "executed s2 = executed s @ (es @ fs)" "content (ls_queue s) = content (ls_queue s2) + mset (es @ fs) + (ls + ms)"
    using 1 2 by simp_all
  moreover have "\<forall>e\<in>set (es @ fs). \<not> owner_expired (wd_alive wd) e" "\<forall>e\<in>#ls + ms. owner_expired (wd_alive wd) e"
    using 1 2 by auto
  ultimately show ?thesis using assms unfolding settled_def by blast
qed

lemma settled_size: "settled wd s s' \<Longrightarrow> size (content (ls_queue s')) \<le> size (content (ls_queue s))"
  by (auto simp: settled_def)

lemma expired_loop_settles:
  assumes "survives w runner_of" and "queue_wf (ls_queue s)"
    and "\<forall>p\<in>set passes. \<forall>op\<in>set (xe_during (snd p)). \<not> list_op op"
    and "size (content (ls_queue s)) < length passes"
  shows "\<exists>s'. expired_loop sp wd w runner_of passes s = Stopped s' \<and> settled wd s s'"
  using assms(2-4)
proof (induction passes arbitrary: s)
  case (Cons p passes)
  obtain now x where p: "p = (now, x)" by fastforce
  obtain ev t q where g: "GetExpiredEvent now TIME_MAX (ls_queue s) = (ev, t, q)" by (metis prod_cases3)
  show ?case
  proof (cases ev)
    case None
    have "same_lists (ls_queue s) q"
      using GetExpired_None_keep [OF g [unfolded None GetExpiredEvent_def] Cons.prems(1)] by simp
    then show ?thesis using g None by (simp add: p settled_same)
  next
    case (Some e)
    from GetExpired_Some [OF g [unfolded Some GetExpiredEvent_def] Cons.prems(1)] have
      q: "queue_wf q" "content (ls_queue s) = add_mset e (content q)" by (simp_all add: expired_post_def)
    from ExecuteEventHandler_total [OF assms(1), of sp wd x e "s\<lparr>ls_queue := q\<rparr>"] obtain s1 where
      x: "ExecuteEventHandler sp wd w runner_of x e (s\<lparr>ls_queue := q\<rparr>) = Some s1"
        "executed s1 = executed s @ (if owner_expired (wd_alive wd) e then [] else [e])"
      by (auto simp: executed_def)
    have "same_lists q (ls_queue s1)"
      using ExecuteEventHandler_same_lists [OF x(1)] Cons.prems(2) by (simp add: p)
    note s1 = queue_wf_sameD [OF this q(1)] content_same [OF this]
    have "settled wd s s1"
      using x(2) q(2) s1
      by (auto simp: settled_def intro!: exI [of _ "if owner_expired (wd_alive wd) e then [] else [e]"]
          exI [of _ "if owner_expired (wd_alive wd) e then {#e#} else {#}"])
    moreover obtain s' where "expired_loop sp wd w runner_of passes s1 = Stopped s'" "settled wd s1 s'"
      using Cons.IH [OF s1(1)] Cons.prems(2,3) q(2) s1(2) by auto
    ultimately show ?thesis using g Some x(1) by (auto simp: p intro: settled_trans)
  qed
qed simp

lemma NoWaitModeLoop_settles:
  assumes "survives w runner_of" and "queue_wf (ls_queue s)"
    and "\<forall>p\<in>set passes \<union> set passes'. \<forall>op\<in>set (xe_during (snd p)). \<not> list_op op" and "\<forall>op\<in>set others. \<not> list_op op"
    and "size (content (ls_queue s)) < length passes" "size (content (ls_queue s)) < length passes'"
  shows "\<exists>s'. NoWaitModeLoop sp wd w runner_of passes others wo passes' s = Stopped s' \<and> settled wd s s'"
proof -
  obtain s1 where 1: "expired_loop sp wd w runner_of passes s = Stopped s1" "settled wd s s1"
    using expired_loop_settles [OF assms(1,2) _ assms(5), of sp wd] assms(3) by auto
  define q where "q = snd (CheckFileDescriptorEvent wd (apply_ops sp wd others) wo (ls_queue s1))"
  have "same_lists q0 (apply_ops sp wd others q0)" for q0
    using assms(4) by (induction others arbitrary: q0) (simp_all add: apply_ops_def apply_op_same)
  then have "same_lists (ls_queue s1) q"
    by (auto simp: q_def CheckFileDescriptorEvent_def WaitUntilLocked_def reset_io_waiter_def Let_def
        split: option.split prod.split)
  then have 2: "settled wd s (s1\<lparr>ls_queue := q\<rparr>)" using settled_trans [OF 1(2)] settled_same by fastforce
  have "queue_wf (ls_queue (s1\<lparr>ls_queue := q\<rparr>))" using 2 assms(2) unfolding settled_def by blast
  moreover have "size (content (ls_queue (s1\<lparr>ls_queue := q\<rparr>))) < length passes'"
    using settled_size [OF 2] assms(6) by (rule le_less_trans)
  moreover have "\<forall>p\<in>set passes'. \<forall>op\<in>set (xe_during (snd p)). \<not> list_op op" using assms(3) by blast
  ultimately obtain s' where "expired_loop sp wd w runner_of passes' (s1\<lparr>ls_queue := q\<rparr>) = Stopped s'"
    "settled wd (s1\<lparr>ls_queue := q\<rparr>) s'"
    using expired_loop_settles [OF assms(1), of "s1\<lparr>ls_queue := q\<rparr>" passes' sp wd] by blast
  with 1(1) settled_trans [OF 2] show ?thesis
    by (auto simp: NoWaitModeLoop_def q_def case_prod_unfold)
qed

section \<open>From the sender to the handler\<close>

lemma Prepare_running:
  "queue_wf q \<Longrightarrow> q_usable q \<Longrightarrow> q_isBarrierMode q \<longrightarrow> q_sumOfPendingVsync q \<noteq> 0 \<Longrightarrow> running_queue (Prepare q)"
  "content (Prepare q) = content q" "queue_wf (Prepare q) = queue_wf q"
  using same_wf_content [of "Prepare q" q] by (simp_all add: running_queue_def Prepare_def PrepareBase_def)

lemma Run_default:
  assumes "rn_runningMode rn \<noteq> MODE_NO_WAIT"
    and "DefaultModeLoop sp wd w runner_of (wd_mainRunner wd = Some r) (le_passes env)
      (set_loop_runner (Some r) (s\<lparr>ls_queue := Prepare (ls_queue s)\<rparr>)) = OutOfRounds s'"
  shows "snd (EventRunnerImpl_Run sp wd w runner_of True r thread proc env rn s) = OutOfRounds s'"
  using assms by (simp add: EventRunnerImpl_Run_def Let_def)

text \<open>
  C2. An event that is sent reaches its handler: when the thread of the runner takes passes at which
  the event is due, one more than there were events, the event has been distributed, its task was
  called or it was given to \<open>ProcessEvent\<close>, whatever else is in the queue and whatever barrier mode
  and vsync state it is in. Meanwhile handlers may do everything to the queue but send, remove and
  stop.
\<close>

theorem sent_event_reaches_its_handler:
  assumes "wd_runner (sy_world sy) h = Some r" "sy_queue sy r = BaseQueue q" "queue_reach sp wd' q" "q_usable q"
    and "prio \<in> {VIP, IMMEDIATE, HIGH, LOW}"
    and "SendEvent c h (Some e) d prio sy = (ok, sy')" "sy_queue sy' r = BaseQueue (ls_queue s)"
    and "q_isBarrierMode (ls_queue s) \<longrightarrow> q_sumOfPendingVsync (ls_queue s) \<noteq> 0"
    and "wd_alive wd h" "survives w runner_of" "rn_runningMode rn \<noteq> MODE_NO_WAIT"
    and "size (content q) < length (le_passes env)"
    and "\<forall>p\<in>set (le_passes env). quiet_pass (ca_now c + max 0 d * MS) (fst p) \<and> calm_pass p"
  shows "\<exists>s' e'. snd (EventRunnerImpl_Run sp wd w runner_of True r thread proc env rn s) = OutOfRounds s' \<and>
    sent_event c (sy_world sy) h d e e' \<and> e' \<in> set (executed s') \<and>
    (case ev_taskCallback e of Some cb \<Rightarrow> CallTask cb | None \<Rightarrow> ProcessEvent e') \<in> set (ls_actions s')"
proof -
  have wf: "queue_wf q" using queue_reach_inv [OF assms(3)] by blast
  have prio: "prio \<in> {VIP, IMMEDIATE, HIGH, LOW, IDLE}" using assms(5) by blast
  from SendEvent_base [OF assms(1,2) wf assms(4) prio, of c e d] assms(6,7) obtain e' where
    wf': "queue_wf (ls_queue s)" "q_usable (ls_queue s)" and e': "content (ls_queue s) = add_mset e' (content q)" "sent_event c (sy_world sy) h d e e'" "ev_priority e' = prio_int prio"
    by (auto simp: set_queue_def)
  let ?s = "set_loop_runner (Some r) (s\<lparr>ls_queue := Prepare (ls_queue s)\<rparr>)"
  have q: "running_queue (ls_queue ?s)" "content (ls_queue ?s) = add_mset e' (content q)"
    using Prepare_running(1) [OF wf' assms(8)] e'(1) by (simp_all add: set_loop_runner_def Prepare_running)
  have calm: "\<forall>p\<in>set (le_passes env). calm_pass p" using assms(13) by blast
  have due: "e' \<in># content (ls_queue ?s)" "ev_priority e' \<noteq> 4" "\<not> owner_expired (wd_alive wd) e'"
    "size (content (ls_queue ?s)) \<le> length (le_passes env)"
    "\<forall>p\<in>set (le_passes env). quiet_pass (ev_handleTime e') (fst p)"
    using e' q(2) assms(5,9,12,13) by (auto simp: sent_event_def owner_expired_def GetOwner_def)
  from DefaultModeLoop_executes [OF assms(10) q(1) calm, of sp wd "wd_mainRunner wd = Some r" e'] due obtain s' evs acts where
    l: "DefaultModeLoop sp wd w runner_of (wd_mainRunner wd = Some r) (le_passes env) ?s = OutOfRounds s'"
      "executed s' = executed ?s @ evs" "ls_actions s' = ls_actions ?s @ acts" "e' \<in> set evs" "run_action e' \<in> set acts"
    by blast
  have "run_action e' = (case ev_taskCallback e of Some cb \<Rightarrow> CallTask cb | None \<Rightarrow> ProcessEvent e')"
    using e'(2) by (simp add: run_action_def sent_event_def)
  with Run_default [OF assms(11) l(1)] l e'(2) show ?thesis by auto
qed

definition sent_queue :: event_queue_base where
  \<comment> \<open>an empty queue after a task with a delay of three milliseconds was sent at the time 1000\<close>
  "sent_queue =
     (case sy_queue (snd (SendEvent (call_at 1000) 2 (Some (task_at 0)) 3 LOW (system_of (queue_with [])))) 2 of
        BaseQueue q \<Rightarrow> q
      | FfrtQueue _ \<Rightarrow> queue_with [])"

definition late_env :: loop_env where
  \<comment> \<open>one pass at four milliseconds\<close>
  [eh_defs]: "late_env = one_event_env\<lparr>le_passes := [([quiet_round 4000000, quiet_round 4000001], exec_at 4000002 [])]\<rparr>"

theorem sent_event_reaches_its_handler_witness:
  "\<exists>s' e'. snd (EventRunnerImpl_Run default_params small_world small_watch some_runner True 2 7 77 late_env
       (new_runner True MODE_DEFAULT 0) (loop_start sent_queue)) = OutOfRounds s' \<and>
     e' \<in> set (executed s') \<and> ev_handleTime e' = 3001000"
proof -
  let ?sy = "system_of (queue_with [])"
  let ?send = "SendEvent (call_at 1000) 2 (Some (task_at 0)) 3 LOW ?sy"
  have s: "wd_runner (sy_world ?sy) 2 = Some 2" "sy_queue ?sy 2 = BaseQueue (queue_with [])"
    and u: "q_usable (queue_with [])" and n: "content (queue_with []) = {#}" by (code_simp, code_simp, code_simp, simp add: content_def, code_simp)
  have "case sy_queue (snd ?send) 2 of BaseQueue q \<Rightarrow> True | _ \<Rightarrow> False" by code_simp
  then have q: "sy_queue (snd ?send) 2 = BaseQueue (ls_queue (loop_start sent_queue))"
    by (simp add: sent_queue_def loop_start_def split: runner_queue.splits)
  have b: "\<not> q_isBarrierMode sent_queue" by code_simp
  have r: "rn_runningMode (new_runner True MODE_DEFAULT 0) \<noteq> MODE_NO_WAIT" by code_simp
  have a: "wd_alive small_world 2" by code_simp
  have sv: "survives small_watch some_runner" by (simp add: survives_def some_runner_def)
  have p: "\<forall>p\<in>set (le_passes late_env). quiet_pass (ca_now (call_at 1000) + max 0 3 * MS) (fst p) \<and> calm_pass p"
    by (simp add: late_env_def call_at_def quiet_pass_def calm_pass_def quiet_round_def exec_at_def MS_def TIME_MAX_def)
  have l: "size (content (queue_with [])) < length (le_passes late_env)" by (simp add: n late_env_def)
  have LOW: "LOW \<in> {VIP, IMMEDIATE, HIGH, LOW}" by simp
  have bb: "q_isBarrierMode (ls_queue (loop_start sent_queue)) \<longrightarrow> q_sumOfPendingVsync (ls_queue (loop_start sent_queue)) \<noteq> 0"
    using b by (simp add: loop_start_def)
  from sent_event_reaches_its_handler [OF s queue_with_reach u LOW prod.collapse [symmetric] q bb a sv r l p,
      of 7 77]
  show ?thesis by (auto simp: sent_event_def call_at_def MS_def)
qed

text \<open>
  C31. A runner in the mode \<open>NO_WAIT\<close> ends, after at most one pass for each event and one more in each of its two loops,
  as long as neither the handlers nor other threads send or remove events meanwhile (a handler that sends
  itself the next event keeps it running). Every event that left the queue was executed once, unless its owner is gone, and
  at the last look at the clock nothing was due in the queue that is left, in the sense of the null result of
  \<open>GetExpiredEvent\<close>: no event of the sub queues that may pass the barrier, no pending vsync event, and no first idle
  event that was sent before the queue became idle.
\<close>

theorem no_wait_run_executes_what_is_due:
  assumes "rn_runningMode rn = MODE_NO_WAIT" "queue_wf (ls_queue s)" "survives w runner_of"
    and "\<forall>p\<in>set (le_first env) \<union> set (le_second env). \<forall>op\<in>set (xe_during (snd p)). \<not> list_op op"
    and "\<forall>op\<in>set (le_others env). \<not> list_op op" "\<forall>t\<in>fst ` set (le_second env). t < TIME_MAX"
    and "size (content (ls_queue s)) < length (le_first env)" "size (content (ls_queue s)) < length (le_second env)"
  shows "\<exists>s' evs lost now. snd (EventRunnerImpl_Run sp wd w runner_of True r thread proc env rn s) = Stopped s' \<and>
    executed s' = executed s @ evs \<and> content (ls_queue s) = content (ls_queue s') + mset evs + lost \<and>
    (\<forall>e\<in>set evs. \<not> owner_expired (wd_alive wd) e) \<and> (\<forall>e\<in>#lost. owner_expired (wd_alive wd) e) \<and>
    now \<in> fst ` set (le_second env) \<and> nothing_due now (ls_queue s')"
proof -
  let ?s = "set_loop_runner (Some r) (s\<lparr>ls_queue := Prepare (ls_queue s)\<rparr>)"
  have s: "queue_wf (ls_queue ?s)" "content (ls_queue ?s) = content (ls_queue s)" "executed ?s = executed s"
    using assms(2) by (simp_all add: set_loop_runner_def Prepare_running executed_def)
  have size: "size (content (ls_queue ?s)) < length (le_first env)" "size (content (ls_queue ?s)) < length (le_second env)"
    using assms(7,8) s(2) by simp_all
  obtain s3 where l: "NoWaitModeLoop sp wd w runner_of (le_first env) (le_others env) (le_outcome env) (le_second env) ?s = Stopped s3"
    "settled wd ?s s3"
    using NoWaitModeLoop_settles [OF assms(3) s(1) assms(4,5) size, of sp wd "le_outcome env"] by blast
  from no_wait_leaves_nothing_due [OF l(1) s(1) assms(6)] obtain now where
    now: "now \<in> fst ` set (le_second env)" "nothing_due now (ls_queue s3)" by blast
  let ?s' = "set_loop_runner (tl_runner (ls_locals s)) s3"
  have "snd (EventRunnerImpl_Run sp wd w runner_of True r thread proc env rn s) = Stopped ?s'"
    using l(1) assms(1) by (simp add: EventRunnerImpl_Run_def Let_def)
  moreover have "ls_queue ?s' = ls_queue s3" "executed ?s' = executed s3"
    by (simp_all add: set_loop_runner_def executed_def)
  ultimately show ?thesis using l(2) now s unfolding settled_def by metis
qed

definition no_wait_env :: loop_env where
  [eh_defs]: "no_wait_env = one_event_env\<lparr>le_second := [(60, exec_at 60 []), (60, exec_at 60 [])]\<rparr>"

theorem no_wait_run_executes_what_is_due_witness:
  "\<exists>s' evs. snd (EventRunnerImpl_Run default_params small_world small_watch some_runner True 2 7 77 no_wait_env
       (new_runner True MODE_NO_WAIT 0) (loop_start (queue_with [(HIGH, task_at 30)]))) = Stopped s' \<and>
     executed s' = evs \<and> length evs = 1 \<and> mset evs \<subseteq># content (queue_with [(HIGH, task_at 30)])"
proof -
  let ?q = "queue_with [(HIGH, task_at 30)]"
  have "case snd (EventRunnerImpl_Run default_params small_world small_watch some_runner True 2 7 77 no_wait_env
       (new_runner True MODE_NO_WAIT 0) (loop_start ?q)) of Stopped s' \<Rightarrow> length (ls_executed s') = 1 | _ \<Rightarrow> False"
    by code_simp
  moreover
  have r: "rn_runningMode (new_runner True MODE_NO_WAIT 0) = MODE_NO_WAIT" by code_simp
  have n: "length (queued ?q) = 1" by code_simp
  have sv: "survives small_watch some_runner" by (simp add: survives_def some_runner_def)
  have "queue_wf (ls_queue (loop_start ?q))" using queue_with_wf by (simp add: loop_start_def)
  note no_wait_run_executes_what_is_due [OF r this sv, of no_wait_env default_params small_world 2 7 77]
  ultimately show ?thesis using n
    by (auto simp: no_wait_env_def one_event_env_def exec_at_def TIME_MAX_def loop_start_def content_def executed_def)
qed

end
