(* ===== verification/Queue_Competition.thy ===== *)
theory Queue_Competition
  imports Loop_Liveness
begin

text \<open>
  A due event among events that keep arriving: what other threads and handlers may do to the queue
  without holding it up for ever, and a measure that every event taken before it lowers. The measure
  counts the events that are not later than the one that waits, each 216 = 6^3 times, less the rank of
  the lowest sub queue (\<open>Queue_Fairness\<close>): an event that is taken is either one of those that are
  counted, or it is later and passes over a hungry sub queue, which raises the rank.
\<close>

section \<open>What the others may do\<close>

fun spares :: "world \<Rightarrow> inner_event \<Rightarrow> queue_op \<Rightarrow> bool" where
  \<comment> \<open>send later events or idle events, remove other events, and everything that neither sends nor
     removes, but finish the queue and count vsync tasks\<close>
  "spares wd e (DoInsert now c x prio it opt) =
     (\<not> ev_isVsync x \<and> (prio = IDLE \<or> it = AT_END \<and> ev_handleTime e < ev_handleTime x))"
| "spares wd e (DoRemove now c P) = (\<not> P e)"
| "spares wd e DoRemoveAll = False"
| "spares wd e (DoRemoveOrphan now c) = (\<not> owner_expired (wd_alive wd) e)"
| "spares wd e DoFinish = False"
| "spares wd e (DoVsyncHandled now) = False"
| "spares wd e op = True"

definition same_course :: "event_queue_base \<Rightarrow> event_queue_base \<Rightarrow> bool" where
  "same_course q q' \<longleftrightarrow> same_lists q q' \<and> q_finished q' = q_finished q \<and>
     q_isBarrierMode q' = q_isBarrierMode q \<and> q_sumOfPendingVsync q' = q_sumOfPendingVsync q"

definition no_vsync :: "event_queue_base \<Rightarrow> bool" where
  [eh_defs]: "no_vsync q \<longleftrightarrow>
     \<not> q_isBarrierMode q \<and> q_sumOfPendingVsync q = 0 \<and> list_all (\<lambda>x. \<not> ev_isVsync x) (queued q)"

definition plain_queue :: "event_queue_base \<Rightarrow> bool" where
  \<comment> \<open>a well formed queue that runs and has nothing to do with vsync\<close>
  "plain_queue q \<longleftrightarrow> queue_wf q \<and> \<not> q_finished q \<and> \<not> q_isBarrierMode q \<and>
     q_sumOfPendingVsync q = 0 \<and> (\<forall>x\<in>#content q. \<not> ev_isVsync x)"

lemma no_vsync_plain: "no_vsync q \<Longrightarrow> queue_wf q \<Longrightarrow> \<not> q_finished q \<Longrightarrow> plain_queue q"
  by (simp add: no_vsync_def plain_queue_def content_def list_all_iff)

lemma no_vsync_same:
  "same_lists q q' \<Longrightarrow> q_isBarrierMode q' = q_isBarrierMode q \<Longrightarrow> q_sumOfPendingVsync q' = q_sumOfPendingVsync q \<Longrightarrow>
     no_vsync q' = no_vsync q"
  by (simp add: no_vsync_def queued_def)

definition early :: "time \<Rightarrow> event_queue_base \<Rightarrow> inner_event multiset" where
  \<comment> \<open>the events of the sub queues that are due at the time\<close>
  "early t q = filter_mset (\<lambda>x. ev_priority x \<noteq> 4 \<and> ev_handleTime x \<le> t) (content q)"

definition spared :: "inner_event \<Rightarrow> event_queue_base \<Rightarrow> event_queue_base \<Rightarrow> bool" where
  "spared e q q' \<longleftrightarrow> plain_queue q' \<and> early (ev_handleTime e) q' \<subseteq># early (ev_handleTime e) q \<and>
     (e \<in># content q \<longrightarrow> e \<in># content q') \<and> rank 3 q' = rank 3 q"

lemma spared_trans: "spared e q q1 \<Longrightarrow> spared e q1 q2 \<Longrightarrow> spared e q q2"
  by (auto simp: spared_def intro: subset_mset.order_trans)

lemma spared_course:
  assumes "plain_queue q" "same_course q q'"
  shows "spared e q q'"
  using assms same_wf_content [of q q']
  by (simp add: spared_def same_course_def plain_queue_def early_def rank_def handled_def)

lemma same_course_trans: "same_course a b \<Longrightarrow> same_course b c \<Longrightarrow> same_course a c"
  by (simp add: same_course_def)

lemma filter_mset_grow:
  "\<forall>x\<in>#M'. \<not> P x \<Longrightarrow> filter_mset P (M + M') = filter_mset P M"
  by (induction M') auto

lemma Insert_spared:
  assumes "plain_queue q" "spares wd e (DoInsert now c x prio it opt)"
  shows "spared e q (snd (Insert sp wd now c (Some x) prio it opt q))"
proof -
  let ?q = "snd (Insert sp wd now c (Some x) prio it opt q)"
  have wf: "queue_wf q" using assms(1) by (simp add: plain_queue_def)
  have flags: "q_finished ?q = q_finished q" "q_isBarrierMode ?q = q_isBarrierMode q"
    "q_sumOfPendingVsync ?q = q_sumOfPendingVsync q"
    using assms(2) by (auto simp: Insert_def Let_def insert_sub_def map_sub_def DispatchVsyncTaskNotify_def
        MarkBarrierTaskIfNeed_def TryExecuteObserverCallback_def notify_observer_def)
  have "\<exists>M. content ?q = content q + M \<and>
      (\<forall>y\<in>#M. \<not> ev_isVsync y \<and> (ev_priority y = 4 \<or> ev_handleTime e < ev_handleTime y))"
  proof (cases "q_usable q \<and> prio \<in> {VIP, IMMEDIATE, HIGH, LOW, IDLE}")
    case True
    let ?s = "stored_event wd opt (q_vsyncPolicy q) prio x"
    have s: "ev_isVsync ?s = ev_isVsync x" "ev_handleTime ?s = ev_handleTime x" "ev_priority ?s = prio_int prio"
      by (simp_all add: stored_event_def)
    show ?thesis
    proof (cases "prio = IDLE")
      case idle: True
      from Insert_content [OF wf, of prio x sp wd now c it opt] True obtain t where
        "content ?q = add_mset (?s\<lparr>ev_handleTime := t\<rparr>) (content q)" by auto
      then show ?thesis using assms(2) s idle by (intro exI [of _ "{#?s\<lparr>ev_handleTime := t\<rparr>#}"]) simp
    next
      case False
      with assms(2) Insert_end_content(2) [OF wf, of prio sp wd now c x opt] True show ?thesis
        using s by (intro exI [of _ "{#?s#}"]) auto
    qed
  next
    case False
    then have "same_lists q ?q"
      using Insert_lists [where q = q and prio = prio and wd = wd and op = opt and e = x and it = it and sp = sp
          and now = now and c = c]
      by (cases prio) (auto simp: put_event_def split: if_splits)
    from content_same [OF this] show ?thesis by (intro exI [of _ "{#}"]) simp
  qed
  then obtain M where M: "content ?q = content q + M"
    "\<forall>y\<in>#M. \<not> ev_isVsync y \<and> (ev_priority y = 4 \<or> ev_handleTime e < ev_handleTime y)" by blast
  have "early (ev_handleTime e) ?q = early (ev_handleTime e) q"
    unfolding early_def M(1) using M(2) by (intro filter_mset_grow) auto
  moreover have "rank 3 ?q = rank 3 q"
    using apply_op_handled [OF wf, where op = "DoInsert now c x prio it opt" and sp = sp and wd = wd]
    by (simp add: rank_def)
  moreover have "queue_wf ?q" by (rule Insert_wf [OF wf])
  ultimately show ?thesis using assms(1) flags M by (auto simp: spared_def plain_queue_def)
qed

lemma dropped_spared:
  assumes "plain_queue q" "\<not> P e" "queue_wf q'" "content q' = filter_mset (\<lambda>x. \<not> P x) (content q)"
    and "q_finished q' = q_finished q" "q_isBarrierMode q' \<longrightarrow> q_isBarrierMode q"
    and "q_sumOfPendingVsync q' = q_sumOfPendingVsync q" "\<forall>i<4. handled q' i = handled q i"
  shows "spared e q q'"
proof -
  have "early (ev_handleTime e) q' \<subseteq># early (ev_handleTime e) q"
    unfolding early_def assms(4) by (intro multiset_filter_mono) simp
  then show ?thesis using assms by (auto simp: spared_def plain_queue_def rank_def)
qed

lemma apply_op_spared:
  assumes "plain_queue q" "spares wd e op"
  shows "spared e q (apply_op sp wd op q)"
proof -
  have wf: "queue_wf q" using assms(1) by (simp add: plain_queue_def)
  show ?thesis
  proof (cases "list_op op")
    case True
    then consider (insert) now c x prio it opt where "op = DoInsert now c x prio it opt"
      | (remove) now c P where "op = DoRemove now c P" | (all) "op = DoRemoveAll"
      | (orphan) now c where "op = DoRemoveOrphan now c" by (cases op) auto
    then show ?thesis
    proof cases
      case insert
      with Insert_spared assms show ?thesis by simp
    next
      case remove
      let ?P = "\<lambda>x. q_usable q \<and> P x"
      show ?thesis
      proof (rule dropped_spared [OF assms(1), of ?P])
        show "content (apply_op sp wd op q) = filter_mset (\<lambda>x. \<not> ?P x) (content q)"
          using content_same [OF Remove_filter_lists [where q = q and P = P and sp = sp and now = now and c = c]]
          by (simp add: remove drop_events_content)
        show "\<forall>i<4. handled (apply_op sp wd op q) i = handled q i" using apply_op_handled [OF wf] by blast
      qed (use remove assms(2) apply_op_wf [OF wf, of sp wd op] in \<open>simp_all add: Remove_filter_def drop_events_def
            NotifyObserverVipDoneBase_def TryExecuteObserverCallback_def notify_observer_def Let_def\<close>)
    next
      case all
      with assms(2) show ?thesis by simp
    next
      case orphan
      let ?P = "\<lambda>x. q_usable q \<and> owner_expired (wd_alive wd) x"
      have noop: "fold (orphan_effect wd now) es q0 = q0" if "\<forall>x\<in>set es. \<not> ev_isVsync x" for es q0
        using that by (induction es) (simp_all add: orphan_effect_def)
      have "\<forall>x\<in>set (queued q). \<not> ev_isVsync x" using assms(1) by (simp add: plain_queue_def content_def)
      note noop = noop [OF this]
      show ?thesis
      proof (rule dropped_spared [OF assms(1), of ?P])
        show "content (apply_op sp wd op q) = filter_mset (\<lambda>x. \<not> ?P x) (content q)"
          using content_same [OF RemoveOrphan_filter_lists [where q = q and wd = wd and sp = sp and now = now and c = c]]
          by (simp add: orphan drop_events_content)
        show "\<forall>i<4. handled (apply_op sp wd op q) i = handled q i" using apply_op_handled [OF wf] by blast
      qed (use orphan assms(2) apply_op_wf [OF wf, of sp wd op] noop in \<open>simp_all add: RemoveOrphan_filter_def
            drop_events_def NotifyObserverVipDoneBase_def TryExecuteObserverCallback_def notify_observer_def Let_def\<close>)
    qed
  next
    case False
    note lists = apply_op_same [OF False, where q = q and sp = sp and wd = wd]
    have "q_finished (apply_op sp wd op q) = q_finished q \<or> \<not> q_finished (apply_op sp wd op q)"
      "q_sumOfPendingVsync (apply_op sp wd op q) = q_sumOfPendingVsync q"
      "q_isBarrierMode (apply_op sp wd op q) \<longrightarrow> q_isBarrierMode q"
      using assms(2) False
      by (cases op; simp add: Prepare_def PrepareBase_def SetUsable_def SetVsyncLazyMode_def SetVsyncPolicy_def
          SetVsyncFirstForceEnableTime_def UpdateVsyncCheckTime_def NotifyObserverVipDone_def
          NotifyObserverVipDoneBase_def TryExecuteObserverCallback_def notify_observer_def
          HandleVsyncTaskCompletely_def AddObserver_def ClearObserver_def Let_def)+
    then show ?thesis
      using lists assms(1) same_wf_content [OF lists]
      by (auto simp: spared_def plain_queue_def early_def rank_def handled_def)
  qed
qed

lemma apply_ops_spared:
  "plain_queue q \<Longrightarrow> \<forall>op\<in>set ops. spares wd e op \<Longrightarrow> spared e q (apply_ops sp wd ops q)"
proof (induction ops arbitrary: q)
  case Nil
  then show ?case by (simp add: apply_ops_def spared_course same_course_def)
next
  case (Cons op ops)
  then have 1: "spared e q (apply_op sp wd op q)" by (simp add: apply_op_spared)
  with Cons have "spared e (apply_op sp wd op q) (apply_ops sp wd ops (apply_op sp wd op q))"
    by (simp add: spared_def)
  from spared_trans [OF 1 this] show ?case by (simp add: apply_ops_def)
qed

section \<open>Which list the scan takes\<close>

lemma check_plain_due:
  "fst (check_list False es now nw) \<Longrightarrow> ev_handleTime (hd es) < nw \<and> snd (check_list False es now nw) = ev_handleTime (hd es)"
  by (auto simp: check_list_def CheckEventInListLocked_def split: list.splits if_splits)

lemma scan_later:
  assumes "pick_scan False now is p nw subs = (p', nw', subs')"
  shows "p' = p \<or> ev_handleTime (hd (sq_queue (subs ! p'))) < nw"
  using assms
proof (induction "is" arbitrary: p nw)
  case (Cons i "is")
  let ?c = "check_list False (sq_queue (subs ! i)) now nw"
  let ?brk = "p < 4 \<and> sq_handledEventsCount (subs ! p) < sq_maxHandledEventsCount (subs ! p)"
  have le: "snd ?c \<le> nw" by (rule check_list_le)
  have scan: "pick_scan False now (i # is) p nw subs =
      (if \<not> fst ?c then pick_scan False now is p (snd ?c) subs
       else if ?brk then (p, snd ?c, inc_count p subs) else pick_scan False now is i (snd ?c) subs)"
    by (simp add: Let_def case_prod_unfold SUB_EVENT_QUEUE_NUM_def inc_count_def)
  show ?case
  proof (cases "fst ?c")
    case True
    from check_plain_due [OF this] have i: "ev_handleTime (hd (sq_queue (subs ! i))) < nw" by blast
    show ?thesis
    proof (cases ?brk)
      case False
      with scan True Cons.prems have "pick_scan False now is i (snd ?c) subs = (p', nw', subs')" by auto
      from Cons.IH [OF this] i le show ?thesis by auto
    qed (use scan True Cons.prems in auto)
  next
    case False
    with scan Cons.prems have "pick_scan False now is p (snd ?c) subs = (p', nw', subs')" by auto
    from Cons.IH [OF this] le show ?thesis by auto
  qed
qed simp

text \<open>A list below \<open>k\<close> is taken only when its front is earlier than the front of \<open>k\<close>.\<close>

lemma scan_below:
  assumes "pick_scan False now is p nw subs = (p', nw', subs')" "sorted_wrt (<) is" "k \<in> set is"
    and "sq_queue (subs ! k) \<noteq> []"
  shows "p' = p \<or> p' \<le> k \<or> ev_handleTime (hd (sq_queue (subs ! p'))) < ev_handleTime (hd (sq_queue (subs ! k)))"
  using assms
proof (induction "is" arbitrary: p nw)
  case (Cons i "is")
  let ?c = "check_list False (sq_queue (subs ! i)) now nw"
  let ?brk = "p < 4 \<and> sq_handledEventsCount (subs ! p) < sq_maxHandledEventsCount (subs ! p)"
  have scan: "pick_scan False now (i # is) p nw subs =
      (if \<not> fst ?c then pick_scan False now is p (snd ?c) subs
       else if ?brk then (p, snd ?c, inc_count p subs) else pick_scan False now is i (snd ?c) subs)"
    by (simp add: Let_def case_prod_unfold SUB_EVENT_QUEUE_NUM_def inc_count_def)
  consider "p' = p" | x where "pick_scan False now is x (snd ?c) subs = (p', nw', subs')" "x = p \<or> x = i"
    using scan Cons.prems(1) by (cases "fst ?c"; cases ?brk) auto
  then show ?case
  proof cases
    case (2 x)
    show ?thesis
    proof (cases "i = k")
      case True
      have "snd ?c \<le> ev_handleTime (hd (sq_queue (subs ! k)))"
        using Cons.prems(4) True by (simp add: check_list_def CheckEvent_le_hd)
      with scan_later [OF 2(1)] 2(2) True show ?thesis by auto
    next
      case False
      with Cons.prems have "k \<in> set is" "i < k" by auto
      with Cons.IH [OF 2(1)] Cons.prems(2,4) 2(2) show ?thesis by auto
    qed
  qed simp
qed simp

section \<open>The list with the earliest front is hungry\<close>

definition front :: "event_queue_base \<Rightarrow> nat \<Rightarrow> time" where
  "front q i = ev_handleTime (hd (sq_queue (sub q i)))"

lemma front_le: "queue_wf q \<Longrightarrow> i < 4 \<Longrightarrow> x \<in> set (sq_queue (sub q i)) \<Longrightarrow> front q i \<le> ev_handleTime x"
  unfolding front_def by (intro sorted_hd_le queue_wf_sorted)

lemma earliest_front:
  assumes "i < 4" "sq_queue (sub q i) \<noteq> []"
  shows "\<exists>k<4. sq_queue (sub q k) \<noteq> [] \<and> (\<forall>j<4. sq_queue (sub q j) \<noteq> [] \<longrightarrow>
    front q k \<le> front q j \<and> (j < k \<longrightarrow> front q k < front q j))"
proof -
  let ?S = "{j. j < 4 \<and> sq_queue (sub q j) \<noteq> []}"
  have fin: "finite (front q ` ?S)" "front q ` ?S \<noteq> {}" using assms by auto
  let ?P = "\<lambda>k. k \<in> ?S \<and> front q k = Min (front q ` ?S)"
  have "Min (front q ` ?S) \<in> front q ` ?S" using fin by (rule Min_in)
  then obtain m where "Min (front q ` ?S) = front q m" "m \<in> ?S" by (rule imageE)
  then have ex: "?P m" by simp
  define k where "k = (LEAST k. ?P k)"
  have k: "?P k" unfolding k_def using ex by (rule LeastI)
  have "front q k \<le> front q j \<and> (j < k \<longrightarrow> front q k < front q j)" if j: "j < 4" "sq_queue (sub q j) \<noteq> []" for j
  proof -
    have "front q j \<in> front q ` ?S" using j by blast
    then have le: "front q k \<le> front q j" using Min_le [OF fin(1)] k by simp
    have "front q k \<noteq> front q j" if "j < k" using not_less_Least [of j ?P] that j k unfolding k_def by simp
    with le show ?thesis by (simp add: order.strict_iff_order)
  qed
  with k show ?thesis by blast
qed

lemma pick_bypasses:
  assumes "PickEventLocked now TIME_MAX q = (Some x, nw, q')" "plain_queue q"
    and "e \<in> pending q" "ev_handleTime e \<le> now" "now < TIME_MAX" "ev_handleTime e < ev_handleTime x"
  shows "\<exists>k<4. hungry k now q \<and> ev_priority x < int k"
proof -
  have q: "queue_wf q" "\<not> q_isBarrierMode q" "q_sumOfPendingVsync q = 0" using assms(2) by (simp_all add: plain_queue_def)
  obtain i where i: "i < 4" "e \<in> set (sq_queue (sub q i))" using assms(3) by (auto simp: pending_def)
  then have "sq_queue (sub q i) \<noteq> []" by auto
  from earliest_front [OF i(1) this] obtain k where
    k: "k < 4" "sq_queue (sub q k) \<noteq> []" "\<forall>j<4. sq_queue (sub q j) \<noteq> [] \<longrightarrow>
      front q k \<le> front q j \<and> (j < k \<longrightarrow> front q k < front q j)" by blast
  have "front q k \<le> front q i" using k(3) i by auto
  with front_le [OF q(1) i] have ke: "front q k \<le> ev_handleTime e" by simp
  have "hungry k now q"
    using q k ke assms(4,5) unfolding hungry_def front_def [symmetric] by auto
  moreover from assms(1) q(1) have "ev_priority x < int k"
  proof (cases rule: PickEventLocked_cases)
    case (vsync p subs e')
    with q(3) show ?thesis by (simp add: takes_vsync_def)
  next
    case (event p subs e' rest)
    have x: "sq_queue (sub q p) = x # rest"
      using event(3,7) q(2) by (auto simp: pop_list_def PopFrontEventFromListLocked_def split: list.splits)
    then have fp: "front q p = ev_handleTime x" by (simp add: front_def)
    have sc: "pick_scan False now [0..<4] 4 TIME_MAX (b_subEventQueues q) = (p, nw, subs)"
      using event(1) q(2) by (simp add: scan_def)
    have "p \<noteq> 4" using event(2) by simp
    with scan_below [OF sc, of k] k(1,2) have "p \<le> k \<or> front q p < front q k"
      by (auto simp: front_def sorted_wrt_upt)
    moreover have "front q k \<le> front q p" using k(3) event(2) x by auto
    moreover have "p \<noteq> k" using fp ke assms(6) by auto
    ultimately show ?thesis using event(3,6) by auto
  qed simp
  ultimately show ?thesis using k(1) by blast
qed

section \<open>The measure\<close>

definition hunger :: "time \<Rightarrow> event_queue_base \<Rightarrow> nat" where
  "hunger t q = 216 * size (early t q) + (216 - rank 3 q)"

lemma rank_3: "queue_wf q \<Longrightarrow> rank 3 q < 216"
  using rank_bound [of q 3] by simp

lemma spared_hunger: "spared e q q' \<Longrightarrow> hunger (ev_handleTime e) q' \<le> hunger (ev_handleTime e) q"
  by (simp add: spared_def hunger_def size_mset_mono)

lemma waiting_hunger:
  assumes "queue_wf q" "e \<in># content q" "ev_priority e \<noteq> 4"
  shows "216 < hunger (ev_handleTime e) q"
proof -
  have "e \<in># early (ev_handleTime e) q" using assms(2,3) by (simp add: early_def)
  then have "0 < size (early (ev_handleTime e) q)" by (auto simp: nonempty_has_size [symmetric])
  with rank_3 [OF assms(1)] show ?thesis by (simp add: hunger_def)
qed

text \<open>While a due event waits an event is taken, and the measure falls.\<close>

lemma expired_lowers_hunger:
  assumes "GetExpiredEventLocked now nx q = (ev, t, q')" "plain_queue q" "e \<in># content q" "ev_priority e \<noteq> 4"
    and "ev_handleTime e \<le> now" "now < TIME_MAX"
  shows "\<exists>x. ev = Some x \<and> plain_queue q' \<and> content q = add_mset x (content q') \<and>
    hunger (ev_handleTime e) q' < hunger (ev_handleTime e) q"
proof -
  have q: "queue_wf q" "\<not> q_isBarrierMode q" "q_sumOfPendingVsync q = 0" using assms(2) by (simp_all add: plain_queue_def)
  have e: "e \<in> pending q" using assms(3,4) by (simp add: pending_content [OF q(1)])
  obtain x where x: "ev = Some x"
    using GetExpired_None(3) [OF _ q(1) assms(6) e] assms(1,5) q(2) by (cases ev) (auto simp: eligible_def)
  note g = assms(1) [unfolded x]
  from GetExpired_Some [OF g q(1)] have p: "queue_wf q'" "content q = add_mset x (content q')"
    "q_sumOfPendingVsync q' = q_sumOfPendingVsync q" "q_isBarrierMode q' = q_isBarrierMode q" "q_finished q' = q_finished q"
    by (simp_all add: expired_post_def)
  let ?t = "ev_handleTime e"
  have plain: "plain_queue q'" using assms(2) p by (simp add: plain_queue_def)
  have "hunger ?t q' < hunger ?t q"
  proof (cases "ev_priority x \<noteq> 4 \<and> ev_handleTime x \<le> ?t")
    case True
    then have "early ?t q = add_mset x (early ?t q')" unfolding early_def p(2) by simp
    then show ?thesis using rank_3 [OF q(1)] by (simp add: hunger_def)
  next
    case False
    then have same: "early ?t q' = early ?t q" unfolding early_def p(2) by simp
    from g q(1) have "rank 3 q < rank 3 q'"
    proof (cases rule: GetExpired_cases)
      case (sub x' q0 wk)
      let ?qw = "q\<lparr>b_wakeUpTime := TIME_MAX\<rparr>"
      have "queue_wf ?qw" using q same_wf_content [of q ?qw] by simp
      from sub(1) this have "ev_priority x' \<noteq> 4" by (cases rule: PickEventLocked_cases) auto
      with False sub(2) have later: "?t < ev_handleTime x" by auto
      have "plain_queue ?qw" "e \<in> pending ?qw"
        using assms(2) e same_wf_content [of q ?qw] pending_same [of q ?qw] by (simp_all add: plain_queue_def)
      from pick_bypasses [OF _ this assms(5,6) later] sub(1,2) obtain k where
        k: "k < 4" "hungry k now ?qw" "ev_priority x < int k" by blast
      from k(2) have "hungry k now q" by (simp add: hungry_def)
      from expired_raises_rank [OF g q(1) this k(1,3), of 3] k(1,3) show ?thesis by simp
    next
      case (idle x' rest wk q2)
      have "pick_scan False now [0..<4] 4 TIME_MAX (b_subEventQueues q) = (4, wk, b_subEventQueues q)"
        using idle(1) q(2) unfolding scan_wake by (simp add: scan_def)
      from pick_scan_none [OF this] queue_wf_sorted [OF q(1)] assms(6)
      have "\<forall>i\<in>{0..<4}. \<forall>x\<in>set (sq_queue (sub q i)). now < ev_handleTime x" by (simp add: eligible_def)
      with e assms(5) have False by (fastforce simp: pending_def)
      then show ?thesis ..
    qed simp
    with same rank_3 [OF p(1)] show ?thesis by (simp add: hunger_def)
  qed
  with x plain p(2) show ?thesis by blast
qed

end
