(* ===== verification/Waiter.thy ===== *)
theory Waiter
  imports Inner_Event
begin

text \<open>
  \<open>class WaiterImp\<close> of \<open>inner_event.cpp\<close>, which blocks the sender of a synchronous event
  until the event is recycled. The mutex makes each stretch between two releases of it one
  atomic operation; the threads that use one waiter are numbered, and a thread is before
  \<open>Wait\<close>, blocked in \<open>condition_.wait\<close>, notified but not running yet, or returned.
  A blocked thread may also wake up spuriously, as the C++ standard permits. The count of
  waiting threads is a natural number: it never exceeds the number of threads.
\<close>

datatype waiting = Outside | Blocked | Notified | Returned

record waiter_imp =
  w_finished :: bool
  w_waitingCount :: nat
  w_threads :: "waiting list"

definition new_waiter :: "nat \<Rightarrow> waiter_imp" where
  [eh_defs]: "new_waiter n = \<lparr>w_finished = False, w_waitingCount = 0, w_threads = replicate n Outside\<rparr>"

definition Wait_test :: "nat \<Rightarrow> waiter_imp \<Rightarrow> waiter_imp" where
  \<comment> \<open>\<open>while (!finished_) { ++waitingCount_; condition_.wait(lock); ...\<close>\<close>
  [eh_defs]: "Wait_test i w =
     (if w_finished w then w\<lparr>w_threads := (w_threads w)[i := Returned]\<rparr>
      else w\<lparr>w_waitingCount := w_waitingCount w + 1, w_threads := (w_threads w)[i := Blocked]\<rparr>)"

definition Wait_resume :: "nat \<Rightarrow> waiter_imp \<Rightarrow> waiter_imp" where
  \<comment> \<open>\<open>condition_.wait\<close> returned: \<open>--waitingCount_\<close> and the loop test again\<close>
  [eh_defs]: "Wait_resume i w = Wait_test i (w\<lparr>w_waitingCount := w_waitingCount w - 1\<rparr>)"

definition Notify :: "waiter_imp \<Rightarrow> waiter_imp" where
  [eh_defs]: "Notify w =
     (let w1 = w\<lparr>w_finished := True\<rparr>
      in if w_waitingCount w1 > 0
         then w1\<lparr>w_threads := map (\<lambda>t. if t = Blocked then Notified else t) (w_threads w1)\<rparr>
         else w1)"

inductive wait_step :: "nat \<Rightarrow> waiter_imp \<Rightarrow> waiter_imp \<Rightarrow> bool" for i w where
  \<comment> \<open>a step of thread \<open>i\<close> inside \<open>Wait\<close>: it enters, or goes on after it was notified, or wakes up spuriously\<close>
  enter: "i < length (w_threads w) \<Longrightarrow> w_threads w ! i = Outside \<Longrightarrow> wait_step i w (Wait_test i w)"
| resume: "i < length (w_threads w) \<Longrightarrow> w_threads w ! i = Notified \<Longrightarrow> wait_step i w (Wait_resume i w)"
| spurious: "i < length (w_threads w) \<Longrightarrow> w_threads w ! i = Blocked \<Longrightarrow> wait_step i w (Wait_resume i w)"

inductive_simps wait_step_iff: "wait_step i w w'"

inductive waiter_step :: "waiter_imp \<Rightarrow> waiter_imp \<Rightarrow> bool" where
  wait: "wait_step i w w' \<Longrightarrow> waiter_step w w'"
| notify: "waiter_step w (Notify w)"

inductive waiter_reach :: "nat \<Rightarrow> waiter_imp \<Rightarrow> bool" for n where
  start: "waiter_reach n (new_waiter n)"
| step: "waiter_reach n w \<Longrightarrow> waiter_step w w' \<Longrightarrow> waiter_reach n w'"

definition in_wait :: "waiting \<Rightarrow> bool" where
  [eh_defs]: "in_wait t \<longleftrightarrow> t = Blocked \<or> t = Notified"

definition waiter_inv :: "waiter_imp \<Rightarrow> bool" where
  "waiter_inv w \<longleftrightarrow>
     w_waitingCount w = length (filter in_wait (w_threads w)) \<and>
     (w_finished w \<longrightarrow> Blocked \<notin> set (w_threads w)) \<and>
     (\<not> w_finished w \<longrightarrow> Notified \<notin> set (w_threads w) \<and> Returned \<notin> set (w_threads w))"

lemma filter_update_length:
  "i < length xs \<Longrightarrow>
     length (filter P (xs[i := x])) + (if P (xs ! i) then 1 else 0) =
     length (filter P xs) + (if P x then 1 else 0)"
proof (induction xs arbitrary: i)
  case Nil
  then show ?case by simp
next
  case (Cons y ys)
  then show ?case by (cases i) auto
qed

lemma in_wait_Notified [simp]: "in_wait \<circ> (\<lambda>t. if t = Blocked then Notified else t) = in_wait"
  by (auto simp: in_wait_def fun_eq_iff)

lemma set_update_other: "x \<in> set (xs[i := y]) \<Longrightarrow> x \<noteq> y \<Longrightarrow> x \<in> set xs"
  by (metis insert_iff set_update_subset_insert subsetD)

lemma waiter_inv_start: "waiter_inv (new_waiter n)"
  by (simp add: waiter_inv_def new_waiter_def in_wait_def)

lemma Wait_test_inv:
  assumes "i < length ts" "\<not> in_wait (ts ! i)"
    and "c = length (filter in_wait ts)"
    and "f \<longrightarrow> Blocked \<notin> set ts" "\<not> f \<longrightarrow> Notified \<notin> set ts \<and> Returned \<notin> set ts"
  shows "waiter_inv (Wait_test i \<lparr>w_finished = f, w_waitingCount = c, w_threads = ts\<rparr>)"
proof (cases f)
  case True
  with assms filter_update_length [of i ts in_wait Returned] show ?thesis
    by (auto simp: waiter_inv_def Wait_test_def in_wait_def dest: set_update_other)
next
  case False
  with assms filter_update_length [of i ts in_wait Blocked] show ?thesis
    by (auto simp: waiter_inv_def Wait_test_def in_wait_def dest: set_update_other)
qed

text \<open>
  A thread that resumes leaves the count first, so its loop test is the one of a thread that
  is not counted; the slot it writes does not matter before the test.
\<close>

lemma Wait_test_overwrite:
  "Wait_test i (w\<lparr>w_threads := (w_threads w)[i := t]\<rparr>) = Wait_test i w"
  by (cases w) (simp add: Wait_test_def)

lemma Wait_resume_inv:
  assumes "waiter_inv w" "i < length (w_threads w)" "in_wait (w_threads w ! i)"
  shows "waiter_inv (Wait_resume i w)"
proof -
  let ?ts = "(w_threads w)[i := Outside]"
  let ?c = "w_waitingCount w - 1"
  have count: "?c = length (filter in_wait ?ts)"
    using assms filter_update_length [of i "w_threads w" in_wait Outside]
    by (auto simp: waiter_inv_def in_wait_def)
  have "waiter_inv (Wait_test i \<lparr>w_finished = w_finished w, w_waitingCount = ?c, w_threads = ?ts\<rparr>)"
    using assms count
    by (intro Wait_test_inv) (auto simp: waiter_inv_def in_wait_def dest: set_update_other)
  moreover have "Wait_test i \<lparr>w_finished = w_finished w, w_waitingCount = ?c, w_threads = ?ts\<rparr> =
      Wait_resume i w"
    using Wait_test_overwrite [of i "w\<lparr>w_waitingCount := ?c\<rparr>" Outside]
    by (cases w) (simp add: Wait_resume_def)
  ultimately show ?thesis by simp
qed

lemma Notify_inv: "waiter_inv w \<Longrightarrow> waiter_inv (Notify w)"
proof -
  assume inv: "waiter_inv w"
  show ?thesis
  proof (cases "w_waitingCount w > 0")
    case True
    with inv show ?thesis
      by (auto simp: waiter_inv_def Notify_def filter_map split: if_splits)
  next
    case False
    with inv have "filter in_wait (w_threads w) = []" by (simp add: waiter_inv_def)
    then have "Blocked \<notin> set (w_threads w)" by (auto simp: filter_empty_conv in_wait_def)
    with False inv show ?thesis by (simp add: waiter_inv_def Notify_def)
  qed
qed

lemma Wait_test_enter_inv:
  assumes "waiter_inv w" "i < length (w_threads w)" "w_threads w ! i = Outside"
  shows "waiter_inv (Wait_test i w)"
proof -
  have "waiter_inv (Wait_test i \<lparr>w_finished = w_finished w,
      w_waitingCount = w_waitingCount w, w_threads = w_threads w\<rparr>)"
    using assms by (intro Wait_test_inv) (auto simp: waiter_inv_def in_wait_def)
  then show ?thesis by (cases w) simp
qed

lemma waiter_step_inv: "waiter_step w w' \<Longrightarrow> waiter_inv w \<Longrightarrow> waiter_inv w'"
proof (induction rule: waiter_step.induct)
  case (wait i w w')
  then show ?case
    by (auto simp: wait_step_iff in_wait_def intro: Wait_test_enter_inv Wait_resume_inv)
next
  case (notify w)
  then show ?case by (rule Notify_inv)
qed

lemma waiter_reach_inv: "waiter_reach n w \<Longrightarrow> waiter_inv w"
  by (induction rule: waiter_reach.induct) (auto intro: waiter_inv_start waiter_step_inv)

lemma Wait_keeps [simp]:
  "w_finished (Wait_test i w) = w_finished w" "w_finished (Wait_resume i w) = w_finished w"
  "length (w_threads (Wait_test i w)) = length (w_threads w)" "length (w_threads (Wait_resume i w)) = length (w_threads w)"
  by (simp_all add: Wait_test_def Wait_resume_def)

lemma Notify_keeps [simp]: "w_finished (Notify w)" "length (w_threads (Notify w)) = length (w_threads w)"
  by (simp_all add: Notify_def Let_def)

lemma waiter_step_length: "waiter_step w w' \<Longrightarrow> length (w_threads w') = length (w_threads w)"
  by (induction rule: waiter_step.induct) (auto simp: wait_step_iff)

lemma waiter_reach_length: "waiter_reach n w \<Longrightarrow> length (w_threads w) = n"
  by (induction rule: waiter_reach.induct) (simp_all add: new_waiter_def waiter_step_length)

lemma waiter_step_finished: "waiter_step w w' \<Longrightarrow> w_finished w \<Longrightarrow> w_finished w'"
  by (induction rule: waiter_step.induct) (auto simp: wait_step_iff)

lemma wait_step_finished: "wait_step i w w' \<Longrightarrow> w_finished w' = w_finished w"
  by (auto simp: wait_step_iff)

text \<open>After \<open>Notify\<close> no thread is left blocked, and every thread in \<open>Wait\<close> returns with its next step.\<close>

lemma finished_wait_returns:
  assumes "waiter_reach n w" "w_finished w" "i < n"
  shows "w_threads w ! i \<noteq> Blocked" "w_threads w ! i = Returned \<or> (\<exists>w'. wait_step i w w')"
    and "wait_step i w w' \<Longrightarrow> w_threads w' ! i = Returned"
proof -
  have len: "length (w_threads w) = n" using assms(1) by (rule waiter_reach_length)
  have "Blocked \<notin> set (w_threads w)" using waiter_reach_inv [OF assms(1)] assms(2) by (simp add: waiter_inv_def)
  then show "w_threads w ! i \<noteq> Blocked" using assms(3) len by (metis nth_mem)
  then show "w_threads w ! i = Returned \<or> (\<exists>w'. wait_step i w w')"
    using assms(3) len by (cases "w_threads w ! i") (auto simp: wait_step_iff)
  show "wait_step i w w' \<Longrightarrow> w_threads w' ! i = Returned"
    using assms(2,3) len by (auto simp: wait_step_iff Wait_test_def Wait_resume_def)
qed

end
