(* ===== verification/Loop_Fairness.thy ===== *)
theory Loop_Fairness
  imports Queue_Competition Waiter
begin

text \<open>
  The loop of a runner while others keep using its queue. In \<open>Loop_Liveness\<close> nothing was sent or
  removed while the loop ran; here other threads and the handlers themselves send later events, remove
  other events and do what else they like (\<open>spares\<close>), and every event is still handed out after at most
  216 passes for each event that is due by its time. From this follow the return of the sender of a
  synchronous event and the call of the listener of a descriptor.
\<close>

section \<open>One pass\<close>

lemma spared_step:
  assumes "spared e q q1" "same_course q1 q2"
  shows "spared e q q2"
  using spared_trans [OF assms(1) spared_course [OF _ assms(2)]] assms(1) by (simp add: spared_def)

lemma WaitUntilLocked_spared:
  assumes "plain_queue q" "\<forall>op\<in>set ops. spares wd e op"
  shows "spared e q (snd (WaitUntilLocked wd (apply_ops sp wd ops) wo v q))"
proof (cases "io_enter (q_ioWaiter q)")
  case None
  have "same_course q (reset_io_waiter q)" by (simp add: same_course_def reset_io_waiter_def)
  with None assms(1) show ?thesis by (simp add: WaitUntilLocked_def spared_course)
next
  case (Some h)
  let ?q1 = "q\<lparr>q_ioWaiter := h\<rparr>"
  let ?q2 = "apply_ops sp wd ops ?q1"
  have 1: "spared e q ?q1" by (rule spared_course [OF assms(1)]) (simp add: same_course_def)
  then have "spared e ?q1 ?q2" by (intro apply_ops_spared assms(2)) (simp add: spared_def)
  note 2 = spared_trans [OF 1 this]
  have "same_course ?q2 (snd (WaitUntilLocked wd (apply_ops sp wd ops) wo v q))"
    using Some by (simp add: WaitUntilLocked_def Let_def case_prod_unfold reset_io_waiter_def same_course_def)
  with 2 show ?thesis by (rule spared_step)
qed

lemma TryEpollFd_spared:
  assumes "plain_queue q" "\<forall>op\<in>set ops. spares wd e op"
  shows "spared e q (snd (TryEpollFd wd (apply_ops sp wd ops) wo q))"
  by (rule spared_step [OF WaitUntilLocked_spared [OF assms, where v = "\<not> q_needEpoll q" and sp = sp and wo = wo]])
    (auto simp: TryEpollFd_def Let_def same_course_def split: prod.split)

lemma observer_course: "same_course q (snd (TryExecuteObserverCallback now c t stage q))"
  using observer_running [where q = q] by (simp add: same_course_def)

lemma CheckBarrierMode_course: "plain_queue q \<Longrightarrow> same_course q (CheckBarrierMode sp now q)"
  unfolding plain_queue_def same_course_def
  by (cases "now < q_vsyncFirstForceEnableEndTime q") (simp_all add: CheckBarrierMode_def Let_def)

lemma None_course:
  assumes "GetExpiredEventLocked now nx q = (None, t, q')" "queue_wf q"
  shows "same_course q q'"
  using GetExpired_None_keep [OF assms] by (simp add: same_course_def)

lemma expired_plain:
  assumes "GetExpiredEventLocked now nx q = (Some x, t, q')" "plain_queue q"
  shows "plain_queue q' \<and> content q = add_mset x (content q')"
  using GetExpired_Some [OF assms(1)] assms(2) by (auto simp: plain_queue_def expired_post_def)

lemma GetEvent_iter_plain:
  assumes "GetEvent_iter sp wd r q = (res, q')" "plain_queue q" "\<forall>op\<in>set (r_others r). spares wd e op"
  shows "plain_queue q' \<and> res \<noteq> Finished \<and> (e \<in># content q \<and> ev_priority e \<noteq> 4 \<and>
    ev_handleTime e \<le> r_now r \<and> r_now r < TIME_MAX \<longrightarrow> (\<exists>x. res = Got x \<and>
      (x \<noteq> e \<longrightarrow> e \<in># content q') \<and> hunger (ev_handleTime e) q' < hunger (ev_handleTime e) q))"
proof -
  let ?q1 = "CheckBarrierMode sp (r_now r) q"
  note c1 = spared_course [OF assms(2) CheckBarrierMode_course [OF assms(2)], of e sp "r_now r"]
  then have p1: "plain_queue ?q1" by (simp add: spared_def)
  obtain ev t q2 where ge: "GetExpiredEventLocked (r_now r) TIME_MAX ?q1 = (ev, t, q2)" by (metis prod_cases3)
  have nf: "\<not> q_finished q" using assms(2) by (simp add: plain_queue_def)
  show ?thesis
  proof (cases ev)
    case (Some x)
    from expired_plain [OF ge [unfolded Some] p1] have
      p2: "plain_queue q2" "content ?q1 = add_mset x (content q2)" by simp_all
    have res: "res = Got x" "q' = q2 \<or> q' = snd (TryEpollFd wd (apply_ops sp wd (r_others r)) (r_outcome r) q2)"
      using assms(1) nf ge Some by (auto simp: GetEvent_iter_def Let_def split: if_splits)
    have "spared e q2 q2" by (rule spared_course [OF p2(1)]) (simp add: same_course_def)
    then have s: "spared e q2 q'" using res(2) TryEpollFd_spared [OF p2(1) assms(3)] by auto
    have "e \<in># add_mset x (content q2)" if "e \<in># content q"
      unfolding p2(2) [symmetric] using that by (simp add: CheckBarrierMode_post)
    then have m: "x \<noteq> e \<Longrightarrow> e \<in># content q \<Longrightarrow> e \<in># content q'" using s by (simp add: spared_def)
    have "hunger (ev_handleTime e) q' < hunger (ev_handleTime e) q"
      if w: "e \<in># content q" "ev_priority e \<noteq> 4" "ev_handleTime e \<le> r_now r" "r_now r < TIME_MAX"
    proof -
      have "e \<in># content ?q1" using w(1) by (simp add: CheckBarrierMode_post)
      from expired_lowers_hunger [OF ge p1 this w(2-4)]
      have "hunger (ev_handleTime e) q2 < hunger (ev_handleTime e) ?q1" by blast
      with spared_hunger [OF s] spared_hunger [OF c1] show ?thesis by simp
    qed
    with s res(1) m show ?thesis by (simp add: spared_def)
  next
    case None
    have c2: "same_course ?q1 q2" using None_course ge None p1 by (simp add: plain_queue_def)
    then have p2: "plain_queue q2" using spared_course [OF p1 c2, of e] by (simp add: spared_def)
    obtain n1 q3 where tb: "TryExecuteObserverCallback (r_now r) (r_consumerBefore r) t STAGE_BEFORE_WAITING q2 = (n1, q3)"
      by fastforce
    obtain cbs q4 where w: "WaitUntilLocked wd (apply_ops sp wd (r_others r)) (r_outcome r) False q3 = (cbs, q4)" by fastforce
    define q5 where "q5 = q4\<lparr>q_needEpoll := False\<rparr>"
    have q': "q' = snd (TryExecuteObserverCallback (r_now r) (r_consumerAfter r) n1 STAGE_AFTER_WAITING q5)"
      and res: "res \<noteq> Finished"
      using assms(1) nf ge None p2
      by (auto simp: GetEvent_iter_def Let_def tb w q5_def plain_queue_def split: prod.splits)
    have "same_course q2 q3" using observer_course tb by (metis snd_conv)
    then have p3: "plain_queue q3" using spared_course [OF p2, of q3 e] by (simp add: spared_def)
    have "spared e q3 q4" using WaitUntilLocked_spared [OF p3 assms(3), where v = False] w by (metis snd_conv)
    then have "spared e q3 q5" by (rule spared_step) (simp add: q5_def same_course_def)
    then have "spared e q3 q'" unfolding q' using observer_course by (rule spared_step)
    moreover have "ev \<noteq> None" if "e \<in># content q" "ev_priority e \<noteq> 4" "ev_handleTime e \<le> r_now r" "r_now r < TIME_MAX"
      using expired_lowers_hunger [OF ge p1, of e] that by (auto simp: CheckBarrierMode_post)
    ultimately show ?thesis using res None by (auto simp: spared_def)
  qed
qed

lemma GetEvent_plain:
  assumes "GetEvent sp wd rs q = Some (ev, q')" "plain_queue q" "\<forall>r\<in>set rs. \<forall>op\<in>set (r_others r). spares wd e op"
  shows "plain_queue q' \<and> ev \<noteq> None"
  using assms
proof (induction rs arbitrary: q)
  case (Cons r rs)
  obtain res q1 where it: "GetEvent_iter sp wd r q = (res, q1)" by fastforce
  from GetEvent_iter_plain [OF it Cons.prems(2), of e] Cons.prems it Cons.IH [of q1] show ?case
    by (cases res) auto
qed simp

lemma GetEvent_due:
  assumes "plain_queue q" "e \<in># content q" "ev_priority e \<noteq> 4" "\<forall>op\<in>set (r_others r). spares wd e op"
    and "ev_handleTime e \<le> r_now r" "r_now r < TIME_MAX"
  shows "\<exists>x q'. GetEvent sp wd (r # rs) q = Some (Some x, q') \<and> plain_queue q' \<and>
    (x \<noteq> e \<longrightarrow> e \<in># content q') \<and> hunger (ev_handleTime e) q' < hunger (ev_handleTime e) q"
proof -
  obtain res q1 where it: "GetEvent_iter sp wd r q = (res, q1)" by fastforce
  from GetEvent_iter_plain [OF it assms(1,4)] assms(2,3,5,6) it show ?thesis by auto
qed

lemma ExecuteEventHandler_spared:
  assumes "ExecuteEventHandler sp wd w runner_of x y s = Some s'" "plain_queue (ls_queue s)"
    and "\<forall>op\<in>set (xe_during x). spares wd e op"
  shows "spared e (ls_queue s) (ls_queue s')"
  using assms(1)
proof (cases rule: ExecuteEventHandler_cases)
  case (distributed h acts loc)
  let ?q1 = "PushHistoryQueueBeforeDistribute (xe_before x) (xe_before2 x) (Some y) (ls_queue s)"
  have c: "same_course q (PushHistoryQueueBeforeDistribute t u ev q)" "same_course q (PushHistoryQueueAfterDistribute t q)"
    "same_course q (NotifyObserverVipDone now c' z q)" for q t u ev now c' z
    by (auto simp: same_course_def PushHistoryQueueBeforeDistribute_def PushHistoryQueueAfterDistribute_def
        NotifyObserverVipDone_def NotifyObserverVipDoneBase_def TryExecuteObserverCallback_def notify_observer_def
        Let_def split: option.split)
  have 1: "spared e (ls_queue s) ?q1" using assms(2) c(1) by (rule spared_course)
  then have "spared e ?q1 (apply_ops sp wd (xe_during x) ?q1)"
    by (intro apply_ops_spared assms(3)) (simp add: spared_def)
  from spared_step [OF spared_trans [OF 1 this] c(2)]
  have 2: "spared e (ls_queue s) (PushHistoryQueueAfterDistribute (xe_after x) (apply_ops sp wd (xe_during x) ?q1))" .
  from 2 spared_step [OF 2 c(3)] show ?thesis by (simp add: distributed(5) Let_def)
qed (simp add: spared_course [OF assms(2)] same_course_def)

definition done_with :: "inner_event \<Rightarrow> inner_event list \<Rightarrow> action list \<Rightarrow> bool" where
  \<comment> \<open>the event was executed, then recycled\<close>
  "done_with e evs acts \<longleftrightarrow> e \<in> set evs \<and>
     (\<exists>us vs. acts = us @ run_action e # vs \<and> Recycle ` set (snd (ClearEvent e)) \<subseteq> set vs)"

lemma done_with_extend: "done_with e evs acts \<Longrightarrow> done_with e (xs @ evs @ ys) (us @ acts @ vs)"
proof -
  assume "done_with e evs acts"
  then obtain u v where "e \<in> set evs" "acts = u @ run_action e # v" "Recycle ` set (snd (ClearEvent e)) \<subseteq> set v"
    by (auto simp: done_with_def)
  then show ?thesis unfolding done_with_def by (intro conjI exI [of _ "us @ u"] exI [of _ "v @ vs"]) auto
qed

lemma ExecuteEventHandler_done:
  assumes "ExecuteEventHandler sp wd w runner_of x e s = Some s'" "survives w runner_of"
    and "\<not> owner_expired (wd_alive wd) e" "ls_actions s' = ls_actions s @ acts"
  shows "done_with e [e] acts"
proof -
  obtain h where h: "GetOwner (wd_alive wd) e = Some h" using assms(3) by (auto simp: owner_expired_def)
  obtain as loc where d: "DistributeEvent w (runner_of h) (xe_start x) (xe_end x) h (Some e)
      (SetCurrentEventInfo e (ls_locals s)) = Some (as, loc)" "run_action e \<in> set as"
    using DistributeEvent_runs [OF assms(2)] by blast
  have "acts = RecordDispatchEventId w e @ as @ map Recycle (snd (ClearEvent e))"
    using assms(1,4) h d(1) by (auto simp: ExecuteEventHandler_def Let_def)
  moreover obtain us vs where "as = us @ run_action e # vs" using split_list [OF d(2)] by blast
  ultimately show ?thesis unfolding done_with_def
    by (intro conjI exI [of _ "RecordDispatchEventId w e @ us"] exI [of _ "vs @ map Recycle (snd (ClearEvent e))"]) auto
qed

section \<open>The loop\<close>

definition shared_pass :: "world \<Rightarrow> inner_event \<Rightarrow> round list \<times> exec_env \<Rightarrow> bool" where
  \<comment> \<open>a pass at which \<open>e\<close> is due and in which everybody spares it\<close>
  "shared_pass wd e p \<longleftrightarrow> fst p \<noteq> [] \<and>
     (\<forall>r\<in>set (fst p). ev_handleTime e \<le> r_now r \<and> r_now r < TIME_MAX \<and> (\<forall>op\<in>set (r_others r). spares wd e op)) \<and>
     (\<forall>op\<in>set (xe_during (snd p)). spares wd e op)"

lemma shared_loop_executes:
  assumes "survives w runner_of" "\<not> owner_expired (wd_alive wd) e" "ev_priority e \<noteq> 4"
    and "plain_queue (ls_queue s)" "\<forall>p\<in>set passes. shared_pass wd e p"
  shows "\<exists>s' evs acts. DefaultModeLoop sp wd w runner_of main passes s = OutOfRounds s' \<and>
    executed s' = executed s @ evs \<and> ls_actions s' = ls_actions s @ acts \<and>
    (e \<in># content (ls_queue s) \<and> hunger (ev_handleTime e) (ls_queue s) \<le> 216 + length passes \<longrightarrow> done_with e evs acts)"
  using assms(4,5)
proof (induction passes arbitrary: s)
  case Nil
  then show ?case using waiting_hunger [OF _ _ assms(3), of "ls_queue s"] by (auto simp: plain_queue_def)
next
  case (Cons p passes)
  let ?t = "ev_handleTime e"
  obtain r rs x where p: "p = (r # rs, x)" using Cons.prems(2) by (cases p; cases "fst p") (auto simp: shared_pass_def)
  have ops: "\<forall>r\<in>set (r # rs). \<forall>op\<in>set (r_others r). spares wd e op" "\<forall>op\<in>set (xe_during x). spares wd e op"
    "?t \<le> r_now r" "r_now r < TIME_MAX" "\<forall>op\<in>set (r_others r). spares wd e op"
    using Cons.prems(2) by (simp_all add: shared_pass_def p)
  note due = GetEvent_due [OF Cons.prems(1) _ assms(3) ops(5,3,4), of sp rs]
  show ?case
  proof (cases "GetEvent sp wd (r # rs) (ls_queue s)")
    case None
    then have "e \<notin># content (ls_queue s)" using due by auto
    with None show ?thesis by (auto simp del: GetEvent.simps simp add: p)
  next
    case (Some evq)
    obtain ev q where g: "GetEvent sp wd (r # rs) (ls_queue s) = Some (ev, q)" using Some by (cases evq) auto
    from GetEvent_plain [OF g Cons.prems(1) ops(1)] obtain e1 where q: "plain_queue q" "ev = Some e1" by blast
    have d: "(e1 \<noteq> e \<longrightarrow> e \<in># content q) \<and> hunger ?t q < hunger ?t (ls_queue s)" if "e \<in># content (ls_queue s)"
      using due [OF that] g q(2) by auto
    define s1 where "s1 = s\<lparr>ls_queue := q,
      ls_actions := ls_actions s @ (if main \<and> fst (wa_localHandle w) then [OpenLocalHandle] else [])\<rparr>"
    from ExecuteEventHandler_total [OF assms(1), of sp wd x e1 s1] obtain s2 acts2 where
      x: "ExecuteEventHandler sp wd w runner_of x e1 s1 = Some s2" "ls_actions s2 = ls_actions s1 @ acts2"
        "executed s2 = executed s1 @ (if owner_expired (wd_alive wd) e1 then [] else [e1])"
        "\<not> owner_expired (wd_alive wd) e1 \<longrightarrow> run_action e1 \<in> set acts2" by blast
    note now_done = ExecuteEventHandler_done [OF x(1) assms(1) _ x(2)]
    have sp2: "spared e q (ls_queue s2)"
      using ExecuteEventHandler_spared [OF x(1) _ ops(2)] q(1) by (simp add: s1_def)
    define s3 where "s3 = s2\<lparr>ls_actions := ls_actions s2 @ (if main \<and> snd (wa_localHandle w) then [CloseLocalHandle] else [])\<rparr>"
    have loop: "DefaultModeLoop sp wd w runner_of main (p # passes) s = DefaultModeLoop sp wd w runner_of main passes s3"
      by (simp del: GetEvent.simps add: p g q(2) x(1) s1_def [symmetric] s3_def [symmetric])
    have "plain_queue (ls_queue s3)" using sp2 by (simp add: s3_def spared_def)
    from Cons.IH [OF this] Cons.prems(2) obtain s' evs acts where
      i: "DefaultModeLoop sp wd w runner_of main passes s3 = OutOfRounds s'" "executed s' = executed s3 @ evs"
        "ls_actions s' = ls_actions s3 @ acts"
        "e \<in># content (ls_queue s3) \<and> hunger ?t (ls_queue s3) \<le> 216 + length passes \<longrightarrow> done_with e evs acts" by auto
    let ?evs = "(if owner_expired (wd_alive wd) e1 then [] else [e1]) @ evs"
    let ?acts = "(if main \<and> fst (wa_localHandle w) then [OpenLocalHandle] else []) @ acts2 @
      (if main \<and> snd (wa_localHandle w) then [CloseLocalHandle] else []) @ acts"
    have "done_with e ?evs ?acts"
      if w: "e \<in># content (ls_queue s)" "hunger ?t (ls_queue s) \<le> 216 + length (p # passes)"
    proof (cases "e1 = e")
      case True
      with now_done assms(2) have "done_with e [e] acts2" by simp
      from done_with_extend [OF this, where xs = "[]"] True assms(2) show ?thesis by simp
    next
      case False
      with d [OF w(1)] sp2 have "e \<in># content (ls_queue s3)" by (simp add: s3_def spared_def)
      moreover have "hunger ?t (ls_queue s3) \<le> 216 + length passes"
        using d [OF w(1)] spared_hunger [OF sp2] w(2) by (simp add: s3_def)
      ultimately have "done_with e evs acts" using i(4) by blast
      from done_with_extend [OF this, where ys = "[]" and vs = "[]" and
          xs = "if owner_expired (wd_alive wd) e1 then [] else [e1]" and
          us = "(if main \<and> fst (wa_localHandle w) then [OpenLocalHandle] else []) @ acts2 @
            (if main \<and> snd (wa_localHandle w) then [CloseLocalHandle] else [])"]
      show ?thesis by (simp only: append_assoc append_Nil2)
    qed
    moreover have "executed s' = executed s @ ?evs" using i(2) x(3) by (simp add: s3_def s1_def executed_def)
    moreover have "ls_actions s' = ls_actions s @ ?acts" using i(3) x(2) by (simp add: s3_def s1_def)
    ultimately show ?thesis using loop i(1) by metis
  qed
qed

text \<open>The whole run: the number of passes is 216 for every event that is due by the time.\<close>

lemma shared_run_executes:
  assumes "e \<in># content (ls_queue s)" "ev_priority e \<noteq> 4" "\<not> owner_expired (wd_alive wd) e" "survives w runner_of"
    and "queue_wf (ls_queue s)" "q_usable (ls_queue s)" "no_vsync (ls_queue s)"
    and "rn_runningMode rn \<noteq> MODE_NO_WAIT" "216 * size (early (ev_handleTime e) (ls_queue s)) \<le> length (le_passes env)"
    and "\<forall>p\<in>set (le_passes env). shared_pass wd e p"
  shows "\<exists>s' evs acts. snd (EventRunnerImpl_Run sp wd w runner_of True r thread proc env rn s) = OutOfRounds s' \<and>
    executed s' = executed s @ evs \<and> ls_actions s' = ls_actions s @ acts \<and> done_with e evs acts"
proof -
  let ?s = "set_loop_runner (Some r) (s\<lparr>ls_queue := Prepare (ls_queue s)\<rparr>)"
  have s: "ls_queue ?s = Prepare (ls_queue s)" "executed ?s = executed s" "ls_actions ?s = ls_actions s"
    by (simp_all add: set_loop_runner_def executed_def)
  have p: "same_lists (ls_queue s) (Prepare (ls_queue s))" "\<not> q_finished (Prepare (ls_queue s))"
    "q_isBarrierMode (Prepare (ls_queue s)) = q_isBarrierMode (ls_queue s)"
    "q_sumOfPendingVsync (Prepare (ls_queue s)) = q_sumOfPendingVsync (ls_queue s)"
    using assms(6) by (simp_all add: Prepare_def PrepareBase_def)
  have plain: "plain_queue (ls_queue ?s)"
    using assms(5,7) p same_wf_content [OF p(1)] no_vsync_same [OF p(1,3,4)] by (simp add: no_vsync_plain s)
  have "hunger (ev_handleTime e) (ls_queue ?s) \<le> 216 + length (le_passes env)"
    using assms(9) same_wf_content [OF p(1)] by (simp add: hunger_def early_def s)
  moreover have "e \<in># content (ls_queue ?s)" using assms(1) same_wf_content [OF p(1)] by (simp add: s)
  ultimately obtain s' evs acts where
    "DefaultModeLoop sp wd w runner_of (wd_mainRunner wd = Some r) (le_passes env) ?s = OutOfRounds s'"
    "executed s' = executed s @ evs" "ls_actions s' = ls_actions s @ acts" "done_with e evs acts"
    using shared_loop_executes [OF assms(4,3,2) plain assms(10), of sp "wd_mainRunner wd = Some r"] s by auto
  with Run_default [OF assms(8), of sp wd w runner_of r env s s'] show ?thesis by blast
qed

section \<open>An event among events that keep arriving\<close>

lemma sent_run_executes:
  assumes "sent_event c wd0 h d e e'" "content (ls_queue s) = add_mset e' (content q)" "ev_priority e' \<noteq> 4"
    and "queue_wf (ls_queue s)" "q_usable (ls_queue s)" "no_vsync (ls_queue s)"
    and "wd_alive wd h" "survives w runner_of" "rn_runningMode rn \<noteq> MODE_NO_WAIT"
    and "216 * Suc (size (early (ca_now c + max 0 d * MS) q)) \<le> length (le_passes env)"
    and "\<forall>x. sent_event c wd0 h d e x \<longrightarrow> (\<forall>p\<in>set (le_passes env). shared_pass wd x p)"
  shows "\<exists>s' evs acts. snd (EventRunnerImpl_Run sp wd w runner_of True r thread proc env rn s) = OutOfRounds s' \<and>
    executed s' = executed s @ evs \<and> ls_actions s' = ls_actions s @ acts \<and> done_with e' evs acts"
proof (rule shared_run_executes)
  show "\<not> owner_expired (wd_alive wd) e'" using assms(1,7) by (simp add: sent_event_def owner_expired_def GetOwner_def)
  have "early (ev_handleTime e') (ls_queue s) = add_mset e' (early (ev_handleTime e') q)"
    using assms(2,3) by (simp add: early_def)
  then show "216 * size (early (ev_handleTime e') (ls_queue s)) \<le> length (le_passes env)"
    using assms(1,10) by (simp add: sent_event_def)
qed (use assms in auto)

text \<open>
  C1. No event starves: an event that is sent, of any priority above idle, is executed within 216 passes
  for each event that is due by its time, although other threads and the handlers keep sending events of
  every priority that are due later, and remove other events, all the while. No vsync task is
  involved: those are preferred without a bound.
\<close>

theorem no_event_starves:
  assumes "wd_runner (sy_world sy) h = Some r" "sy_queue sy r = BaseQueue q" "queue_reach sp wd' q" "q_usable q"
    and "prio \<in> {VIP, IMMEDIATE, HIGH, LOW}"
    and "SendEvent c h (Some e) d prio sy = (ok, sy')" "sy_queue sy' r = BaseQueue (ls_queue s)" "no_vsync (ls_queue s)"
    and "wd_alive wd h" "survives w runner_of" "rn_runningMode rn \<noteq> MODE_NO_WAIT"
    and "216 * Suc (size (early (ca_now c + max 0 d * MS) q)) \<le> length (le_passes env)"
    and "\<forall>x. sent_event c (sy_world sy) h d e x \<longrightarrow> (\<forall>p\<in>set (le_passes env). shared_pass wd x p)"
  shows "\<exists>s' e'. snd (EventRunnerImpl_Run sp wd w runner_of True r thread proc env rn s) = OutOfRounds s' \<and>
    sent_event c (sy_world sy) h d e e' \<and> e' \<in> set (executed s') \<and> run_action e' \<in> set (ls_actions s')"
proof -
  have wf: "queue_wf q" and prio: "prio \<in> {VIP, IMMEDIATE, HIGH, LOW, IDLE}"
    using queue_reach_inv [OF assms(3)] assms(5) by auto
  from SendEvent_base [OF assms(1,2) wf assms(4) prio, of c e d] assms(6,7) obtain e' where
    e': "queue_wf (ls_queue s)" "q_usable (ls_queue s)" "content (ls_queue s) = add_mset e' (content q)"
      "sent_event c (sy_world sy) h d e e'" "ev_priority e' = prio_int prio" by (auto simp: set_queue_def)
  have "ev_priority e' \<noteq> 4" using e'(5) assms(5) by auto
  from sent_run_executes [OF e'(4,3) this e'(1,2) assms(8-13), of sp r thread proc] e'(4) show ?thesis
    by (auto simp: done_with_def)
qed

definition busy_env :: loop_env where
  \<comment> \<open>each handler posts one more VIP event, which is due at once\<close>
  [eh_defs]: "busy_env = one_event_env\<lparr>le_passes := replicate 216 ([quiet_round 4000000],
     exec_at 4000002 [DoInsert 4000001 0 (task_at 4000001) VIP AT_END NO_BARRIER])\<rparr>"

lemma busy_env_shared: "ev_handleTime x \<le> 4000000 \<Longrightarrow> \<forall>p\<in>set (le_passes busy_env). shared_pass small_world x p"
  by (simp add: busy_env_def shared_pass_def quiet_round_def exec_at_def TIME_MAX_def task_at_def new_event_def)

theorem no_event_starves_witness:
  "\<exists>s' e'. snd (EventRunnerImpl_Run default_params small_world small_watch some_runner True 2 7 77 busy_env
       (new_runner True MODE_DEFAULT 0) (loop_start sent_queue)) = OutOfRounds s' \<and>
     e' \<in> set (executed s') \<and> ev_handleTime e' = 3001000"
proof -
  let ?sy = "system_of (queue_with [])"
  let ?send = "SendEvent (call_at 1000) 2 (Some (task_at 0)) 3 LOW ?sy"
  have s: "wd_runner (sy_world ?sy) 2 = Some 2" "sy_queue ?sy 2 = BaseQueue (queue_with [])"
    and u: "q_usable (queue_with [])" and n: "queued (queue_with []) = []" by code_simp+
  have "case sy_queue (snd ?send) 2 of BaseQueue q \<Rightarrow> True | _ \<Rightarrow> False" by code_simp
  then have q: "sy_queue (snd ?send) 2 = BaseQueue (ls_queue (loop_start sent_queue))"
    by (simp add: sent_queue_def loop_start_def split: runner_queue.splits)
  have "no_vsync sent_queue" by code_simp
  then have v: "no_vsync (ls_queue (loop_start sent_queue))" by (simp add: loop_start_def)
  have r: "rn_runningMode (new_runner True MODE_DEFAULT 0) \<noteq> MODE_NO_WAIT" and a: "wd_alive small_world 2" by code_simp+
  have sv: "survives small_watch some_runner" by (simp add: survives_def some_runner_def)
  have l: "216 * Suc (size (early (ca_now (call_at 1000) + max 0 3 * MS) (queue_with []))) \<le> length (le_passes busy_env)"
    by (simp add: early_def content_def n busy_env_def)
  have p: "\<forall>x. sent_event (call_at 1000) (sy_world ?sy) 2 3 (task_at 0) x \<longrightarrow>
      (\<forall>p\<in>set (le_passes busy_env). shared_pass small_world x p)"
    by (intro allI impI busy_env_shared) (simp add: sent_event_def call_at_def MS_def)
  have LOW: "LOW \<in> {VIP, IMMEDIATE, HIGH, LOW}" by simp
  from no_event_starves [OF s queue_with_reach u LOW prod.collapse [symmetric] q v a sv r l p, of 7 77]
  show ?thesis by (auto simp: sent_event_def call_at_def MS_def)
qed

section \<open>The sender of a synchronous event\<close>

text \<open>
  The thread that sent a synchronous event is in \<open>Wait\<close> of the waiter \<open>w\<close> of the event, while the thread of the
  runner goes through its actions; of these, only the recycling of an event with this waiter concerns it. The two
  threads are interleaved in every way.
\<close>

definition waiter_effect :: "waiter_ref \<Rightarrow> action \<Rightarrow> waiter_imp \<Rightarrow> waiter_imp" where
  "waiter_effect w a v = (if a = Recycle (NotifyWaiter w) then Notify v else v)"

inductive sender_run :: "waiter_ref \<Rightarrow> action list \<Rightarrow> waiter_imp \<Rightarrow> waiter_imp \<Rightarrow> bool" for w where
  done_step: "sender_run w [] v v"
| loop_step: "sender_run w acts (waiter_effect w a v) v' \<Longrightarrow> sender_run w (a # acts) v v'"
| sender_step: "wait_step 0 v v1 \<Longrightarrow> sender_run w acts v1 v' \<Longrightarrow> sender_run w acts v v'"

lemma sender_run_reach:
  assumes "sender_run w acts v v'" "waiter_reach n v"
  shows "waiter_reach n v' \<and> (w_finished v \<or> Recycle (NotifyWaiter w) \<in> set acts \<longrightarrow> w_finished v') \<and>
    (\<not> w_finished v \<and> Recycle (NotifyWaiter w) \<notin> set acts \<longrightarrow> \<not> w_finished v')"
  using assms
proof (induction rule: sender_run.induct)
  case (loop_step acts a v v')
  have "waiter_reach n (waiter_effect w a v)"
    using loop_step.prems by (auto simp: waiter_effect_def intro: waiter_reach.step waiter_step.notify)
  with loop_step.IH show ?case by (auto simp: waiter_effect_def split: if_splits)
next
  case (sender_step v v1 acts v')
  then have "waiter_reach n v1" by (blast intro: waiter_reach.step waiter_step.wait)
  with sender_step show ?case using wait_step_finished [OF sender_step.hyps(1)] by simp
qed simp

lemma sender_run_returns:
  assumes "sender_run w acts (new_waiter 1) v"
  shows "Recycle (NotifyWaiter w) \<in> set acts \<Longrightarrow>
      w_threads v ! 0 \<noteq> Blocked \<and> (w_threads v ! 0 = Returned \<or> (\<exists>v1. wait_step 0 v v1)) \<and> (\<forall>v1. wait_step 0 v v1 \<longrightarrow> w_threads v1 ! 0 = Returned)"
    and "Recycle (NotifyWaiter w) \<notin> set acts \<Longrightarrow> w_threads v ! 0 \<noteq> Returned"
proof -
  note r = sender_run_reach [OF assms waiter_reach.start]
  have v: "waiter_reach 1 v" "length (w_threads v) = 1" using r waiter_reach_length by blast+
  show "w_threads v ! 0 \<noteq> Blocked \<and> (w_threads v ! 0 = Returned \<or> (\<exists>v1. wait_step 0 v v1)) \<and> (\<forall>v1. wait_step 0 v v1 \<longrightarrow> w_threads v1 ! 0 = Returned)"
    if "Recycle (NotifyWaiter w) \<in> set acts"
    using finished_wait_returns [OF v(1), of 0] r that by auto
  show "w_threads v ! 0 \<noteq> Returned" if "Recycle (NotifyWaiter w) \<notin> set acts"
  proof -
    have "\<not> w_finished v" using r that by (simp add: new_waiter_def)
    then have "Returned \<notin> set (w_threads v)" using waiter_reach_inv [OF v(1)] by (simp add: waiter_inv_def)
    then show ?thesis using v(2) by (metis nth_mem zero_less_one)
  qed
qed

text \<open>
  C5. The sender of a synchronous event returns, and not before its event was handled. The loop executes the event,
  within the bound of every other event and with others sending all the while, and then recycles it, which notifies
  the waiter that \<open>SendSyncEvent\<close> blocks on. However the steps of the sender in \<open>Wait\<close> (spurious wake-ups included) are
  interleaved with the actions of the loop, after these the sender is not blocked in the condition variable: it has returned, or
  it can take a step, and with its next step it returns. And up to the handling of the event it has not returned, as
  long as no other event with the same waiter was recycled.
\<close>

theorem sync_sender_returns:
  assumes "wd_runner (sy_world sy) h = Some r" "sy_queue sy r = BaseQueue q" "queue_reach sp wd' q" "q_usable q"
    and "prio \<in> {VIP, IMMEDIATE, HIGH, LOW, IDLE}" "rn_threadMode (sy_runner sy r) = NEW_THREAD"
    and "SendSyncEvent c w h (Some e) prio same sy = (BlockOn w', sy')" "sy_queue sy' r = BaseQueue (ls_queue s)"
      "no_vsync (ls_queue s)"
    and "wd_alive wd h" "survives wa runner_of" "rn_runningMode rn \<noteq> MODE_NO_WAIT"
    and "216 * Suc (size (early (ca_now c) q)) \<le> length (le_passes env)"
    and "\<forall>x. sent_event c (sy_world sy) h 0 (CreateWaiter w e) x \<longrightarrow> (\<forall>p\<in>set (le_passes env). shared_pass wd x p)"
  shows "\<exists>s' e' us vs. snd (EventRunnerImpl_Run sp wd wa runner_of True r thread proc env rn s) = OutOfRounds s' \<and>
    ls_actions s' = ls_actions s @ us @ run_action e' # vs \<and> ev_taskCallback e' = ev_taskCallback e \<and>
    Recycle (NotifyWaiter w') \<in> set vs \<and>
    (\<forall>v. sender_run w' (us @ run_action e' # vs) (new_waiter 1) v \<longrightarrow>
       w_threads v ! 0 \<noteq> Blocked \<and> (w_threads v ! 0 = Returned \<or> (\<exists>v1. wait_step 0 v v1)) \<and>
       (\<forall>v1. wait_step 0 v v1 \<longrightarrow> w_threads v1 ! 0 = Returned)) \<and>
    (\<forall>v. Recycle (NotifyWaiter w') \<notin> set us \<and> sender_run w' (us @ [run_action e']) (new_waiter 1) v \<longrightarrow>
       w_threads v ! 0 \<noteq> Returned)"
proof -
  have wf: "queue_wf q" using queue_reach_inv [OF assms(3)] by blast
  from SendEvent_base [OF assms(1,2) wf assms(4,5), of c "CreateWaiter w e" 0] obtain q' e' where
    s: "SendEvent c h (Some (CreateWaiter w e)) 0 prio sy = (True, set_queue r (BaseQueue q') sy)"
      "content q' = add_mset e' (content q)" "queue_wf q'" "q_usable q'"
      "sent_event c (sy_world sy) h 0 (CreateWaiter w e) e'" "ev_priority e' = prio_int prio" by blast
  have sent: "w' = w" "ls_queue s = q'" "prio \<noteq> IDLE"
    using assms(1,6-8) s(1) by (auto simp: SendSyncEvent_def Let_def set_queue_def split: if_splits)
  have "ev_priority e' \<noteq> 4" using s(6) sent(3) assms(5) by auto
  with sent_run_executes [of c "sy_world sy" h 0 "CreateWaiter w e" e' s q wd wa runner_of rn env sp r thread proc]
    s sent assms(9-14) obtain s' evs acts where
    r: "snd (EventRunnerImpl_Run sp wd wa runner_of True r thread proc env rn s) = OutOfRounds s'"
      "ls_actions s' = ls_actions s @ acts" "done_with e' evs acts" by auto
  have w: "NotifyWaiter w \<in> set (snd (ClearEvent e'))" "ev_taskCallback e' = ev_taskCallback e"
    using s(5) by (simp_all add: sent_event_def CreateWaiter_def ClearEvent_def Let_def case_prod_unfold)
  obtain us vs where acts: "acts = us @ run_action e' # vs" "Recycle ` set (snd (ClearEvent e')) \<subseteq> set vs"
    using r(3) by (auto simp: done_with_def)
  have vs: "Recycle (NotifyWaiter w') \<in> set vs" using acts(2) w(1) sent(1) by auto
  then have rec: "Recycle (NotifyWaiter w') \<in> set (us @ run_action e' # vs)" by simp
  have run: "run_action e' \<noteq> Recycle x" for x by (simp add: run_action_def split: option.split)
  show ?thesis
  proof (intro exI conjI)
    show "snd (EventRunnerImpl_Run sp wd wa runner_of True r thread proc env rn s) = OutOfRounds s'" by (rule r(1))
    show "ls_actions s' = ls_actions s @ us @ run_action e' # vs" by (simp add: r(2) acts(1))
    show "ev_taskCallback e' = ev_taskCallback e" by (rule w(2))
    show "Recycle (NotifyWaiter w') \<in> set vs" by (rule vs)
    show "\<forall>v. sender_run w' (us @ run_action e' # vs) (new_waiter 1) v \<longrightarrow>
       w_threads v ! 0 \<noteq> Blocked \<and> (w_threads v ! 0 = Returned \<or> (\<exists>v1. wait_step 0 v v1)) \<and>
       (\<forall>v1. wait_step 0 v v1 \<longrightarrow> w_threads v1 ! 0 = Returned)"
      using sender_run_returns(1) [OF _ rec] by blast
    show "\<forall>v. Recycle (NotifyWaiter w') \<notin> set us \<and> sender_run w' (us @ [run_action e']) (new_waiter 1) v \<longrightarrow>
       w_threads v ! 0 \<noteq> Returned"
      using sender_run_returns(2) [of w' "us @ [run_action e']"] run by (auto; metis)
  qed
qed

definition sync_queue :: event_queue_base where
  \<comment> \<open>an empty queue after a synchronous task was sent at the time 1000\<close>
  "sync_queue =
     (case sy_queue (snd (SendSyncEvent (call_at 1000) 9 2 (Some (task_at 0)) LOW False (system_of (queue_with [])))) 2 of
        BaseQueue q \<Rightarrow> q
      | FfrtQueue _ \<Rightarrow> queue_with [])"

lemma sender_run_total: "\<exists>v'. sender_run w acts v v'"
  by (induction acts arbitrary: v) (blast intro: sender_run.intros)+

lemma sender_run_then: "sender_run w acts v v' \<Longrightarrow> wait_step 0 v' v'' \<Longrightarrow> sender_run w acts v v''"
  by (induction rule: sender_run.induct) (blast intro: sender_run.intros)+

theorem sync_sender_returns_witness:
  "\<exists>s' v. snd (EventRunnerImpl_Run default_params small_world small_watch some_runner True 2 7 77 busy_env
       (new_runner True MODE_DEFAULT 0) (loop_start sync_queue)) = OutOfRounds s' \<and>
     sender_run 9 (ls_actions s') (Wait_test 0 (new_waiter 1)) v \<and> w_threads v ! 0 = Returned"
proof -
  let ?sy = "system_of (queue_with [])"
  let ?r = "SendSyncEvent (call_at 1000) 9 2 (Some (task_at 0)) LOW False ?sy"
  have s: "wd_runner (sy_world ?sy) 2 = Some 2" "sy_queue ?sy 2 = BaseQueue (queue_with [])"
    and t: "rn_threadMode (sy_runner ?sy 2) = NEW_THREAD"
    and u: "q_usable (queue_with [])" and n: "queued (queue_with []) = []" and b: "fst ?r = BlockOn 9" by code_simp+
  have "case sy_queue (snd ?r) 2 of BaseQueue q \<Rightarrow> True | _ \<Rightarrow> False" by code_simp
  then have q: "sy_queue (snd ?r) 2 = BaseQueue (ls_queue (loop_start sync_queue))"
    by (simp add: sync_queue_def loop_start_def split: runner_queue.splits)
  have "no_vsync sync_queue" by code_simp
  then have v: "no_vsync (ls_queue (loop_start sync_queue))" by (simp add: loop_start_def)
  have r: "rn_runningMode (new_runner True MODE_DEFAULT 0) \<noteq> MODE_NO_WAIT" and a: "wd_alive small_world 2" by code_simp+
  have sv: "survives small_watch some_runner" by (simp add: survives_def some_runner_def)
  have l: "216 * Suc (size (early (ca_now (call_at 1000)) (queue_with []))) \<le> length (le_passes busy_env)"
    by (simp add: early_def content_def n busy_env_def)
  have p: "\<forall>x. sent_event (call_at 1000) (sy_world ?sy) 2 0 (CreateWaiter 9 (task_at 0)) x \<longrightarrow>
      (\<forall>p\<in>set (le_passes busy_env). shared_pass small_world x p)"
    by (intro allI impI busy_env_shared) (simp add: sent_event_def call_at_def MS_def)
  have LOW: "LOW \<in> {VIP, IMMEDIATE, HIGH, LOW, IDLE}" by simp
  have "?r = (BlockOn 9, snd ?r)" using b by (metis prod.collapse)
  from sync_sender_returns [OF s queue_with_reach u LOW t this q v a sv r l p, of 7 77] obtain s' acts where
    s': "snd (EventRunnerImpl_Run default_params small_world small_watch some_runner True 2 7 77 busy_env
       (new_runner True MODE_DEFAULT 0) (loop_start sync_queue)) = OutOfRounds s'" "ls_actions s' = acts"
    "\<And>v. sender_run 9 acts (new_waiter 1) v \<Longrightarrow> w_threads v ! 0 = Returned \<or> (\<exists>v1. wait_step 0 v v1)"
    "\<And>v v1. sender_run 9 acts (new_waiter 1) v \<Longrightarrow> wait_step 0 v v1 \<Longrightarrow> w_threads v1 ! 0 = Returned"
    by (auto simp: loop_start_def)
  have blocks: "wait_step 0 (new_waiter 1) (Wait_test 0 (new_waiter 1))" by (rule enter) (simp_all add: new_waiter_def)
  obtain v where v: "sender_run 9 acts (Wait_test 0 (new_waiter 1)) v" using sender_run_total by blast
  show ?thesis
  proof (cases "w_threads v ! 0 = Returned")
    case True
    with v s'(1,2) show ?thesis by blast
  next
    case False
    with s'(3) sender_step [OF blocks v] obtain v1 where v1: "wait_step 0 v v1" by blast
    have "w_threads v1 ! 0 = Returned" by (rule s'(4) [OF sender_step [OF blocks v] v1])
    with sender_run_then [OF v v1] s'(1,2) show ?thesis by blast
  qed
qed

end
