(* ===== verification/Native_Interface.thy ===== *)
theory Native_Interface
  imports Runner
begin

text \<open>
  The interface for C: \<open>frameworks/native/src/native_interface_eventhandler.cpp\<close> and the classes of
  \<open>frameworks/eventhandler/src/native_implement_eventhandler.cpp\<close> behind it. An object of the interface
  holds a runner; a listener it adds holds four function pointers, which are numbers here, and is an
  object of the store of listeners like those of the handlers. A dereferenced null pointer has the
  result \<open>None\<close>.
\<close>

section \<open>The listener with function pointers\<close>

record fd_callbacks =
  readableCallback :: "nat option"
  writableCallback :: "nat option"
  shutdownCallback :: "nat option"
  exceptionCallback :: "nat option"

record native_listener =
  onReadableCallback :: "nat option"
  onWritableCallback :: "nat option"
  onShutdownCallback :: "nat option"
  onExceptionCallback :: "nat option"

definition NativeFileDescriptorListener :: "fd_callbacks \<Rightarrow> native_listener" where
  "NativeFileDescriptorListener cbs =
     (let l0 = \<lparr>onReadableCallback = None, onWritableCallback = None, onShutdownCallback = None,
                onExceptionCallback = None\<rparr>;
          l1 = (if readableCallback cbs \<noteq> None then l0\<lparr>onReadableCallback := readableCallback cbs\<rparr> else l0);
          l2 = (if writableCallback cbs \<noteq> None then l1\<lparr>onWritableCallback := writableCallback cbs\<rparr> else l1);
          l3 = (if shutdownCallback cbs \<noteq> None then l2\<lparr>onShutdownCallback := shutdownCallback cbs\<rparr> else l2)
      in if exceptionCallback cbs \<noteq> None then l3\<lparr>onExceptionCallback := exceptionCallback cbs\<rparr> else l3)"

definition call_native :: "nat option \<Rightarrow> int \<Rightarrow> (nat \<times> int) list" where
  [eh_defs]: "call_native f fd = (case f of None \<Rightarrow> [] | Some g \<Rightarrow> [(g, fd)])"

fun native_call :: "native_listener \<Rightarrow> listener_call \<Rightarrow> (nat \<times> int) list" where
  \<comment> \<open>the four virtual methods: the function that is called, with its argument\<close>
  "native_call l (OnReadable fd) = call_native (onReadableCallback l) fd"
| "native_call l (OnWritable fd) = call_native (onWritableCallback l) fd"
| "native_call l (OnShutdown fd) = call_native (onShutdownCallback l) fd"
| "native_call l (OnException fd) = call_native (onExceptionCallback l) fd"

section \<open>Objects of the interface\<close>

record native_obj =
  no_eventRunner :: "runner_ref option"

record native_state =
  ns_system :: system
  ns_listeners :: "listener_ref \<Rightarrow> native_listener"
  ns_runs :: "runner_ref \<Rightarrow> run_state"

definition EventRunnerNativeImplement :: "bool \<Rightarrow> runner_ref option \<Rightarrow> runner_ref \<Rightarrow> native_obj" where
  \<comment> \<open>\<open>cur\<close> is \<open>EventRunner::Current()\<close>, \<open>created\<close> the result of \<open>EventRunner::Create(false)\<close>\<close>
  "EventRunnerNativeImplement current cur created =
     \<lparr>no_eventRunner = (if current then cur else Some created)\<rparr>"

definition GetEventRunnerNativeObj :: "bool \<Rightarrow> runner_ref option \<Rightarrow> runner_ref \<Rightarrow> native_obj option" where
  \<comment> \<open>\<open>alloc\<close>: the allocation succeeds\<close>
  [eh_defs]: "GetEventRunnerNativeObj alloc cur created =
     (if alloc then Some (EventRunnerNativeImplement True cur created) else None)"

definition CreateEventRunnerNativeObj :: "bool \<Rightarrow> runner_ref option \<Rightarrow> runner_ref \<Rightarrow> native_obj option" where
  [eh_defs]: "CreateEventRunnerNativeObj alloc cur created =
     (if alloc then Some (EventRunnerNativeImplement False cur created) else None)"

definition RunEventRunnerNativeObj :: "nat \<Rightarrow> native_obj \<Rightarrow> native_state \<Rightarrow> err_code \<times> native_state" where
  \<comment> \<open>called by thread \<open>i\<close>; after \<open>ERR_OK\<close> from \<open>Run_enter\<close> the thread goes on with the loop, after
     which \<open>EventRunner::Run\<close> returns \<open>ERR_OK\<close>\<close>
  "RunEventRunnerNativeObj i obj ns =
     (case no_eventRunner obj of
        None \<Rightarrow> (EVENT_HANDLER_ERR_NO_EVENT_RUNNER, ns)
      | Some r \<Rightarrow>
          let rn = sy_runner (ns_system ns) r;
              (err, st) =
                (if rn_deposit rn \<and> rn_runningMode rn = MODE_NO_WAIT
                 then (let (err, threads, st) = Run_no_wait i (ns_runs ns r) in (err, st))
                 else Run_enter (rn_deposit rn) (rn_runningMode rn) i (ns_runs ns r))
          in (err, ns\<lparr>ns_runs := (ns_runs ns)(r := st)\<rparr>))"

definition StopEventRunnerNativeObj :: "native_obj \<Rightarrow> native_state \<Rightarrow> err_code \<times> native_state" where
  "StopEventRunnerNativeObj obj ns =
     (case no_eventRunner obj of
        None \<Rightarrow> (EVENT_HANDLER_ERR_NO_EVENT_RUNNER, ns)
      | Some r \<Rightarrow>
          let (err, st) = Runner_Stop (rn_deposit (sy_runner (ns_system ns) r)) (ns_runs ns r)
          in (err, ns\<lparr>ns_runs := (ns_runs ns)(r := st)\<rparr>))"

definition Native_AddFileDescriptorListener ::
  "call_env \<Rightarrow> listener_ref \<Rightarrow> native_obj \<Rightarrow> int \<Rightarrow> u32 \<Rightarrow> fd_callbacks option \<Rightarrow> native_state \<Rightarrow>
     (err_code \<times> native_state) option" where
  \<comment> \<open>\<open>l\<close> is the listener that is allocated; \<open>HIGH\<close> is the default argument of the queue's function\<close>
  "Native_AddFileDescriptorListener c l obj fd events fdCallbacks ns =
     (case fdCallbacks of
        None \<Rightarrow> None
      | Some cbs \<Rightarrow>
          (case no_eventRunner obj of
             None \<Rightarrow> None
           | Some r \<Rightarrow>
               let sy = ns_system ns;
                   wd = (sy_world sy)\<lparr>wd_listeners := (wd_listeners (sy_world sy))(l := new_listener)\<rparr>;
                   (err, q, d) = rq_AddFileDescriptorListener c wd fd events (Some l)
                                   ''EventRunnerNativeTask'' HIGH (sy_queue sy r, sy_deamon sy)
               in Some (err, ns\<lparr>ns_system := (set_queue r q (sy\<lparr>sy_world := wd\<rparr>))\<lparr>sy_deamon := d\<rparr>,
                                ns_listeners := (ns_listeners ns)(l := NativeFileDescriptorListener cbs)\<rparr>)))"

definition Native_RemoveFileDescriptorListener ::
  "call_env \<Rightarrow> native_obj \<Rightarrow> int \<Rightarrow> native_state \<Rightarrow> native_state option" where
  "Native_RemoveFileDescriptorListener c obj fd ns =
     (case no_eventRunner obj of
        None \<Rightarrow> None
      | Some r \<Rightarrow>
          let sy = ns_system ns
          in Some (ns\<lparr>ns_system :=
               with_queue_deamon r (rq_RemoveFileDescriptorListener_fd c (sy_world sy) fd) sy\<rparr>))"

section \<open>The functions of the interface\<close>

definition EventRunnerRun :: "nat \<Rightarrow> native_obj option \<Rightarrow> native_state \<Rightarrow> err_code \<times> native_state" where
  "EventRunnerRun i nativeObj ns =
     (case nativeObj of
        None \<Rightarrow> (EVENT_HANDLER_ERR_INVALID_PARAM, ns)
      | Some obj \<Rightarrow> RunEventRunnerNativeObj i obj ns)"

definition EventRunnerStop :: "native_obj option \<Rightarrow> native_state \<Rightarrow> err_code \<times> native_state" where
  "EventRunnerStop nativeObj ns =
     (case nativeObj of
        None \<Rightarrow> (EVENT_HANDLER_ERR_INVALID_PARAM, ns)
      | Some obj \<Rightarrow> StopEventRunnerNativeObj obj ns)"

definition EventRunnerAddFileDescriptorListener ::
  "call_env \<Rightarrow> listener_ref \<Rightarrow> native_obj option \<Rightarrow> int \<Rightarrow> u32 \<Rightarrow> fd_callbacks option \<Rightarrow> native_state \<Rightarrow>
     (err_code \<times> native_state) option" where
  "EventRunnerAddFileDescriptorListener c l nativeObj fd events fdCallbacks ns =
     (case nativeObj of
        None \<Rightarrow> Some (EVENT_HANDLER_ERR_INVALID_PARAM, ns)
      | Some obj \<Rightarrow> Native_AddFileDescriptorListener c l obj fd events fdCallbacks ns)"

definition EventRunnerRemoveFileDescriptorListener ::
  "call_env \<Rightarrow> native_obj option \<Rightarrow> int \<Rightarrow> native_state \<Rightarrow> native_state option" where
  "EventRunnerRemoveFileDescriptorListener c nativeObj fd ns =
     (case nativeObj of
        None \<Rightarrow> Some ns
      | Some obj \<Rightarrow> Native_RemoveFileDescriptorListener c obj fd ns)"

end
