(* ===== verification/Queue_Wakeup.thy ===== *)
theory Queue_Wakeup
  imports Queue_Contents
begin

text \<open>
  Interleavings around the blocking wait of the consumer of a queue whose waiter is an
  \<open>EpollIoWaiter\<close>. \<open>GetEvent\<close> is cut where its thread releases or takes \<open>queueLock_\<close> and where
  \<open>EpollIoWaiter::WaitFor\<close> touches the waiting count and the eventfd; between two of these steps the other
  threads, and the callbacks of descriptors that run inside \<open>WaitFor\<close>, call any operation of the queue. What
  an operation does to the waiter is what its model in \<open>Queue_Base\<close> does: \<open>Insert\<close> notifies only when it says
  so. The eventfd is edge triggered: \<open>ws_edge\<close> says that something was written to it that was neither reported
  by \<open>epoll_wait\<close> nor read. The consumer's early exits do not appear: a fatal error of \<open>epoll_wait\<close>, after
  which the queue replaces its waiter, ends the run.
\<close>

section \<open>The steps\<close>

datatype wait_purpose =
    ForEvent time time
  | ForListeners
  | ForVsyncCheck bool

text \<open>
  \<open>ForEvent until delay\<close>: the wait of \<open>GetEvent\<close> for the next event, until \<open>until\<close>; \<open>delay\<close> is what the
  observer's callback added to the time of that event. \<open>ForListeners\<close> is \<open>CheckFileDescriptorEvent\<close>,
  \<open>ForVsyncCheck need\<close> is \<open>TryEpollFd\<close>; both wait with time out zero.
\<close>

datatype consumer_pc =
    CRunning
  | CInEpoll wait_purpose
  | CReturned wait_purpose int "(int \<times> u32) list"
  | CCallbacks wait_purpose

record wake_state =
  ws_queue :: event_queue_base
  ws_edge :: bool
  ws_pc :: consumer_pc
  ws_seen :: "inner_event set"

definition reports_awaken :: "epoll_waiter \<Rightarrow> int \<Rightarrow> (int \<times> u32) list \<Rightarrow> bool" where
  \<comment> \<open>the eventfd is among the events that \<open>epoll_wait\<close> returned\<close>
  "reports_awaken w retVal evs \<longleftrightarrow> io_awakenFd w \<in> fst ` set (take (nat retVal) evs)"

definition vsync_only :: "wait_purpose \<Rightarrow> bool" where
  "vsync_only p = (case p of ForVsyncCheck need \<Rightarrow> \<not> need | _ \<Rightarrow> False)"

definition after_wait :: "time \<Rightarrow> int \<Rightarrow> wait_purpose \<Rightarrow> event_queue_base \<Rightarrow> event_queue_base" where
  \<comment> \<open>what the caller of \<open>WaitUntilLocked\<close> does when it has the lock again\<close>
  "after_wait now consumer p q =
     (case p of
        ForEvent until delay \<Rightarrow>
          snd (TryExecuteObserverCallback now consumer until STAGE_AFTER_WAITING (q\<lparr>q_needEpoll := False\<rparr>))
      | ForListeners \<Rightarrow> q
      | ForVsyncCheck need \<Rightarrow>
          if q_sumOfPendingVsync q \<noteq> 0 then q
          else if need then q\<lparr>q_needEpoll := False\<rparr>
          else if q_vsyncPeriod q < MAX_CHECK_VSYNC_PERIOD_NS
          then q\<lparr>q_vsyncCheckTime := q_vsyncCheckTime q + q_vsyncPeriod q, q_vsyncPeriod := q_vsyncPeriod q * 2\<rparr>
          else q\<lparr>q_vsyncCheckTime := TIME_MAX\<rparr>)"

fun by_registration :: "io_waiter \<Rightarrow> queue_op \<Rightarrow> bool" where
  \<comment> \<open>listeners are changed by adding and removing one descriptor at the waiter\<close>
  "by_registration w (DoListeners ls w') \<longleftrightarrow>
     (\<exists>k fd ev n l p. w' = snd (io_AddFileDescriptor k fd ev n l p w)) \<or> (\<exists>k fd. w' = io_RemoveFileDescriptor k fd w)"
| "by_registration w _ \<longleftrightarrow> True"

inductive wake_step :: "system_params \<Rightarrow> world \<Rightarrow> wake_state \<Rightarrow> wake_state \<Rightarrow> bool" for sp wd where
  takes_event: "ws_pc s = CRunning \<Longrightarrow> \<not> q_finished (ws_queue s) \<Longrightarrow>
     GetExpiredEventLocked now TIME_MAX (CheckBarrierMode sp now (ws_queue s)) = (Some e, t, q) \<Longrightarrow>
     wake_step sp wd s (s\<lparr>ws_queue := q\<rparr>)"
| takes_vsync: "ws_pc s = CRunning \<Longrightarrow> \<not> q_finished (ws_queue s) \<Longrightarrow>
     GetExpiredEventLocked now TIME_MAX (CheckBarrierMode sp now (ws_queue s)) = (None, t, q1) \<Longrightarrow>
     q_sumOfPendingVsync q1 \<noteq> 0 \<Longrightarrow> PickFirstVsyncEventLocked q1 = Some (e, q) \<Longrightarrow>
     wake_step sp wd s (s\<lparr>ws_queue := q\<rparr>)"
| repairs_count: "ws_pc s = CRunning \<Longrightarrow> \<not> q_finished (ws_queue s) \<Longrightarrow>
     GetExpiredEventLocked now TIME_MAX (CheckBarrierMode sp now (ws_queue s)) = (None, t, q1) \<Longrightarrow>
     q_sumOfPendingVsync q1 \<noteq> 0 \<Longrightarrow> PickFirstVsyncEventLocked q1 = None \<Longrightarrow>
     wake_step sp wd s (s\<lparr>ws_queue := SetBarrierMode now False (q1\<lparr>q_sumOfPendingVsync := 0\<rparr>)\<rparr>)"
| waits: "ws_pc s = CRunning \<Longrightarrow> \<not> q_finished (ws_queue s) \<Longrightarrow>
     GetExpiredEventLocked now TIME_MAX (CheckBarrierMode sp now (ws_queue s)) = (None, next, q1) \<Longrightarrow>
     q_sumOfPendingVsync q1 = 0 \<Longrightarrow> 0 \<le> consumer \<Longrightarrow>
     TryExecuteObserverCallback now consumer next STAGE_BEFORE_WAITING q1 = (until, q2) \<Longrightarrow>
     q_ioWaiter q2 = EpollWaiter w \<Longrightarrow> Epoll_WaitFor_enter w = Some w' \<Longrightarrow>
     wake_step sp wd s (s\<lparr>ws_queue := q2\<lparr>q_ioWaiter := EpollWaiter w'\<rparr>,
       ws_pc := CInEpoll (ForEvent until (until - next)), ws_seen := pending q2\<rparr>)"
| polls: "ws_pc s = CRunning \<Longrightarrow> p = ForListeners \<or> p = ForVsyncCheck (q_needEpoll (ws_queue s)) \<Longrightarrow>
     q_ioWaiter (ws_queue s) = EpollWaiter w \<Longrightarrow> Epoll_WaitFor_enter w = Some w' \<Longrightarrow>
     wake_step sp wd s (s\<lparr>ws_queue := (ws_queue s)\<lparr>q_ioWaiter := EpollWaiter w'\<rparr>, ws_pc := CInEpoll p\<rparr>)"
| returns: "ws_pc s = CInEpoll p \<Longrightarrow> q_ioWaiter (ws_queue s) = EpollWaiter w \<Longrightarrow>
     (reports_awaken w retVal evs \<longrightarrow> ws_edge s) \<Longrightarrow>
     wake_step sp wd s (s\<lparr>ws_edge := ws_edge s \<and> \<not> reports_awaken w retVal evs, ws_pc := CReturned p retVal evs\<rparr>)"
| leaves: "ws_pc s = CReturned p retVal evs \<Longrightarrow> q_ioWaiter (ws_queue s) = EpollWaiter w \<Longrightarrow>
     Epoll_WaitFor_leave (wd_listeners wd) (vsync_only p) retVal fatal evs w = (True, cbs, w') \<Longrightarrow>
     wake_step sp wd s (s\<lparr>ws_queue := (ws_queue s)\<lparr>q_ioWaiter := EpollWaiter w'\<rparr>,
       ws_edge := ws_edge s \<and> \<not> reports_awaken w retVal evs, ws_pc := CCallbacks p\<rparr>)"
| relocks: "ws_pc s = CCallbacks p \<Longrightarrow>
     wake_step sp wd s (s\<lparr>ws_queue := after_wait now consumer p (ws_queue s), ws_pc := CRunning\<rparr>)"
| others: "by_registration (q_ioWaiter (ws_queue s)) op \<Longrightarrow> q = apply_op sp wd op (ws_queue s) \<Longrightarrow>
     q_ioWaiter (ws_queue s) = EpollWaiter w \<Longrightarrow> q_ioWaiter q = EpollWaiter w' \<Longrightarrow>
     wake_step sp wd s (s\<lparr>ws_queue := q, ws_edge := ws_edge s \<or> wrote w w'\<rparr>)"

inductive wake_reach :: "system_params \<Rightarrow> world \<Rightarrow> event_queue_base \<Rightarrow> wake_state \<Rightarrow> bool" for sp wd q where
  start: "wake_reach sp wd q \<lparr>ws_queue = q, ws_edge = False, ws_pc = CRunning, ws_seen = {}\<rparr>"
| step: "wake_reach sp wd q s \<Longrightarrow> wake_step sp wd s t \<Longrightarrow> wake_reach sp wd q t"

lemma TryEpollFd_after_wait:
  "snd (TryEpollFd wd other wo q) =
     after_wait now c (ForVsyncCheck (q_needEpoll q))
       (snd (WaitUntilLocked wd other wo (vsync_only (ForVsyncCheck (q_needEpoll q))) q))"
  by (simp add: TryEpollFd_def after_wait_def vsync_only_def Let_def case_prod_unfold)

section \<open>What the operations do to the waiter and to the wake-up time\<close>

lemma TryExecuteObserverCallback_wakeUp:
  "st \<noteq> STAGE_BEFORE_WAITING \<Longrightarrow> b_wakeUpTime (snd (TryExecuteObserverCallback now c t st q)) = b_wakeUpTime q"
  by (auto simp: TryExecuteObserverCallback_def notify_observer_def Let_def split: event_runner_stage.split)

lemma before_waiting_wakeUp:
  assumes "TryExecuteObserverCallback now c next STAGE_BEFORE_WAITING q = (until, q')" "b_wakeUpTime q = next" "0 \<le> c"
  shows "b_wakeUpTime q' = until \<and> next \<le> until"
  using assms by (auto simp: TryExecuteObserverCallback_def notify_observer_def Let_def MS_def split: if_splits)

lemma NotifyObserverVipDoneBase_waiter [simp]:
  "q_ioWaiter (NotifyObserverVipDoneBase now c q) = q_ioWaiter q"
  "b_wakeUpTime (NotifyObserverVipDoneBase now c q) = b_wakeUpTime q"
  "q_finished (NotifyObserverVipDoneBase now c q) = q_finished q"
  by (simp_all add: NotifyObserverVipDoneBase_def TryExecuteObserverCallback_wakeUp)

lemma orphan_effect_waiter [simp]:
  "q_ioWaiter (fold (orphan_effect wd now) es q) = q_ioWaiter q"
  "b_wakeUpTime (fold (orphan_effect wd now) es q) = b_wakeUpTime q"
  "q_finished (fold (orphan_effect wd now) es q) = q_finished q"
  by (induction es arbitrary: q) (simp_all add: orphan_effect_def SetBarrierMode_def HandleVsyncTaskNotify_def)

lemmas op_defs = Remove_filter_def RemoveAll_def RemoveOrphan_filter_def drop_events_def Prepare_def PrepareBase_def
  Finish_def FinishBase_def SetUsable_def SetVsyncLazyMode_def SetVsyncPolicy_def SetVsyncFirstForceEnableTime_def
  UpdateVsyncCheckTime_def SetBarrierMode_def HandleVsyncTaskNotify_def HandleVsyncTaskCompletely_def AddObserver_def
  ClearObserver_def NotifyObserverVipDone_def DispatchVsyncTaskNotify_def insert_sub_def map_sub_def Let_def

lemma apply_op_wakeUp: "b_wakeUpTime (apply_op sp wd op q) = b_wakeUpTime q"
  by (cases op) (simp_all add: op_defs Insert_def TryExecuteObserverCallback_wakeUp case_prod_unfold)

definition notifies :: "time \<Rightarrow> inner_event \<Rightarrow> priority \<Rightarrow> event_queue_base \<Rightarrow> bool" where
  \<comment> \<open>the value of \<open>needNotify\<close> at the end of \<open>Insert\<close>\<close>
  "notifies now e prio q \<longleftrightarrow> q_usable q \<and> prio \<in> {VIP, IMMEDIATE, HIGH, LOW} \<and>
     (ev_isVsync e \<or> ev_handleTime e < b_wakeUpTime q \<or> b_wakeUpTime q < now)"

lemma Insert_waiter:
  "q_ioWaiter (snd (Insert sp wd now c (Some e) prio it op q)) =
     (if notifies now e prio q then io_NotifyOne (q_ioWaiter q) else q_ioWaiter q)"
  "q_finished (snd (Insert sp wd now c (Some e) prio it op q)) = q_finished q"
  by (cases prio; simp add: Insert_def notifies_def op_defs case_prod_unfold)+

lemma apply_op_waiter:
  "q_ioWaiter (apply_op sp wd op q) =
     (case op of
        DoInsert now c e prio it bo \<Rightarrow> if notifies now e prio q then io_NotifyOne (q_ioWaiter q) else q_ioWaiter q
      | DoFinish \<Rightarrow> if q_usable q then io_NotifyAll (q_ioWaiter q) else q_ioWaiter q
      | DoListeners ls w \<Rightarrow> w
      | _ \<Rightarrow> q_ioWaiter q)"
  by (cases op) (simp_all add: Insert_waiter op_defs)

lemma apply_op_finished:
  "q_finished (apply_op sp wd op q) =
     (case op of DoPrepare \<Rightarrow> \<not> q_usable q \<and> q_finished q | DoFinish \<Rightarrow> q_usable q \<or> q_finished q | _ \<Rightarrow> q_finished q)"
  by (cases op) (simp_all add: Insert_waiter op_defs)

text \<open>What an operation adds to the sub queues: only \<open>Insert\<close>, and the event takes at most its own time.\<close>

lemma time_InsertEventsLocked:
  assumes "x \<in> set (InsertEventsLocked xs e it)" "x \<notin> set xs"
  shows "\<exists>t. x = e\<lparr>ev_handleTime := t\<rparr> \<and> (t = ev_handleTime e \<or> t \<in> ev_handleTime ` set xs)"
proof (cases "it = AT_FRONT \<and> xs \<noteq> []")
  case True
  with assms show ?thesis
    by (cases xs) (auto simp: InsertEventsLocked_def split: if_splits intro: exI [of _ "ev_handleTime e"])
next
  case False
  have "set (rev (insert_walk e (rev xs))) = insert e (set xs)"
    by (metis mset_insert_walk set_mset_add_mset_insert set_mset_mset set_rev)
  then have "x = e" using False assms
    by (cases it) (auto simp: InsertEventsLocked_def simp del: set_rev)
  then have "x = e\<lparr>ev_handleTime := ev_handleTime e\<rparr>" by simp
  then show ?thesis by blast
qed

lemma Insert_pending:
  assumes "x \<in> pending (snd (Insert sp wd now c (Some e) prio it op q))" "x \<notin> pending q" "queue_wf q"
  shows "prio \<in> {VIP, IMMEDIATE, HIGH, LOW} \<and> q_usable q \<and> ev_isVsync x = ev_isVsync e \<and>
    (ev_handleTime x = ev_handleTime e \<or> ev_handleTime x \<in> ev_handleTime ` pending q)"
proof -
  let ?e = "stored_event wd op (q_vsyncPolicy q) prio e"
  have p: "x \<in> pending (if q_usable q then put_event prio ?e it q else q)"
    using assms(1) pending_same [OF Insert_lists [where q = q and prio = prio and wd = wd and op = op and e = e
        and it = it and sp = sp and now = now and c = c]] by simp
  then have u: "q_usable q" using assms(2) by (simp split: if_splits)
  with p have p: "x \<in> pending (put_event prio ?e it q)" by simp
  show ?thesis
  proof (cases prio rule: priority_cases)
    case sub
    let ?i = "prio_index prio"
    have len: "?i < length (b_subEventQueues q)" using sub(2) queue_wf_length [OF assms(3)] by simp
    have "x \<in> pending (insert_sub ?i ?e it q)" using p put_event_sub [OF sub(1)] by simp
    then obtain j where j: "j < 4" "x \<in> set (sq_queue (sub (insert_sub ?i ?e it q) j))" by (auto simp: pending_def)
    have "j = ?i" using j assms(2) len pendingI [of j x q]
      by (auto simp: insert_sub_def sub_map_sub split: if_splits)
    with j len have "x \<in> set (InsertEventsLocked (sq_queue (sub q ?i)) ?e it)"
      by (simp add: insert_sub_def sub_map_sub with_queue_def)
    moreover have "set (sq_queue (sub q ?i)) \<subseteq> pending q" using sub(2) pendingI by blast
    ultimately obtain t where t: "x = ?e\<lparr>ev_handleTime := t\<rparr>"
        "t = ev_handleTime ?e \<or> t \<in> ev_handleTime ` set (sq_queue (sub q ?i))" "set (sq_queue (sub q ?i)) \<subseteq> pending q"
      using time_InsertEventsLocked [of x "sq_queue (sub q ?i)" ?e it] assms(2) by blast
    then have "t = ev_handleTime e \<or> t \<in> ev_handleTime ` pending q" by (auto simp: stored_event_def)
    with t(1) show ?thesis using sub(1) u by (simp add: stored_event_def)
  next
    case idle
    have "pending (put_event prio ?e it q) = pending q" by (simp add: idle put_event_def pending_def)
    with p assms(2) show ?thesis by simp
  next
    case (other n)
    with p assms(2) show ?thesis by (simp add: put_event_def)
  qed
qed

lemma pending_drop_events: "length (b_subEventQueues q) = 4 \<Longrightarrow> pending (drop_events P q) \<subseteq> pending q"
  by (auto simp: pending_def drop_events_def with_queue_def)

lemma apply_op_pending:
  assumes "x \<in> pending (apply_op sp wd op q)" "x \<notin> pending q" "queue_wf q"
  shows "\<exists>now c e prio it bo. op = DoInsert now c e prio it bo \<and> prio \<in> {VIP, IMMEDIATE, HIGH, LOW} \<and> q_usable q \<and>
    ev_isVsync x = ev_isVsync e \<and> (ev_handleTime x = ev_handleTime e \<or> ev_handleTime x \<in> ev_handleTime ` pending q)"
proof -
  have len: "length (b_subEventQueues q) = 4" using assms(3) by auto
  have drop: False if "same_lists (if q_usable q then drop_events P q else q) (apply_op sp wd op q)" for P
    using pending_same [OF that] pending_drop_events [OF len, of P] assms(1,2) by (auto split: if_splits)
  have "list_op op" using pending_same [OF apply_op_same] assms(1,2) by blast
  then show ?thesis
  proof (cases op)
    case (DoInsert now c e prio it bo)
    with Insert_pending [of x sp wd now c e prio it bo q] assms show ?thesis by simp
  next
    case (DoRemove now c P)
    with drop [of P] Remove_filter_lists show ?thesis by simp
  next
    case DoRemoveAll
    then show ?thesis using assms(1,2) len
      by (auto simp: RemoveAll_def pending_def with_queue_def split: if_splits)
  next
    case (DoRemoveOrphan now c)
    with drop [of "owner_expired (wd_alive wd)"] RemoveOrphan_filter_lists show ?thesis by simp
  qed simp_all
qed

text \<open>The consumer keeps the waiter while it takes events.\<close>

lemma CheckBarrierMode_waiter [simp]: "q_ioWaiter (CheckBarrierMode sp now q) = q_ioWaiter q"
  by (simp add: CheckBarrierMode_def SetBarrierMode_def Let_def)

lemma PickEventLocked_waiter: "q_ioWaiter (snd (snd (PickEventLocked now nw q))) = q_ioWaiter q"
  by (simp add: PickEventLocked_def PickFirstVsyncEventLocked_def reset_counts_def map_sub_def Let_def case_prod_unfold
      split: option.split)

lemma GetExpired_waiter:
  assumes "GetExpiredEventLocked now nx q = (r, t, q')"
  shows "q_ioWaiter q' = q_ioWaiter q"
proof -
  have "q_ioWaiter (snd (snd (GetExpiredEventLocked now nx q))) = q_ioWaiter q"
    using PickEventLocked_waiter [of now TIME_MAX "q\<lparr>b_wakeUpTime := TIME_MAX\<rparr>"]
    by (simp add: GetExpiredEventLocked_def map_sub_def Let_def case_prod_unfold split: option.split list.split)
  with assms show ?thesis by simp
qed

lemma after_wait_keep [simp]:
  "same_lists q (after_wait now c p q)" "q_ioWaiter (after_wait now c p q) = q_ioWaiter q"
  by (simp_all add: after_wait_def split: wait_purpose.split)

section \<open>The invariant\<close>

lemma Epoll_NotifyAll_keeps [simp]:
  "io_awakenFd (Epoll_NotifyAll w) = io_awakenFd w" "io_waitingCount (Epoll_NotifyAll w) = io_waitingCount w"
  by (simp_all add: Epoll_NotifyAll_def call_def)

lemma Epoll_NotifyAll_wrote:
  "0 \<le> io_awakenFd w \<Longrightarrow> wrote w (Epoll_NotifyAll w) \<longleftrightarrow> io_waitingCount w \<noteq> 0"
  using Epoll_NotifyOne_wrote [of w] by (simp add: Epoll_NotifyOne_def)

text \<open>Registering a descriptor and removing it write nothing to the eventfd and change no waiting count.\<close>

lemma registration_keeps:
  assumes "by_registration (EpollWaiter w) (DoListeners ls w')"
  shows "\<exists>w1. w' = EpollWaiter w1 \<and> io_awakenFd w1 = io_awakenFd w \<and> io_waitingCount w1 = io_waitingCount w \<and> \<not> wrote w w1"
proof -
  have del: "io_awakenFd (Epoll_RemoveFileDescriptor k fd v) = io_awakenFd v \<and>
      io_waitingCount (Epoll_RemoveFileDescriptor k fd v) = io_waitingCount v \<and> \<not> wrote v (Epoll_RemoveFileDescriptor k fd v)" for k fd v
    by (simp add: registry_defs wrote_def)
  have add: "io_awakenFd (snd (Epoll_AddFileDescriptor k fd ev n l p v)) = io_awakenFd v \<and>
      io_waitingCount (snd (Epoll_AddFileDescriptor k fd ev n l p v)) = io_waitingCount v \<and>
      \<not> wrote v (snd (Epoll_AddFileDescriptor k fd ev n l p v))" for k fd ev n l p v
    by (simp add: registry_defs wrote_def)
  from assms consider k fd ev n l p where "w' = EpollWaiter (snd (Epoll_AddFileDescriptor k fd ev n l p w))"
    | k fd where "w' = EpollWaiter (Epoll_RemoveFileDescriptor k fd w)"
    by (auto simp: io_AddFileDescriptor_def io_RemoveFileDescriptor_def Let_def case_prod_unfold)
  then show ?thesis using add del by cases blast+
qed

lemma others_waiter:
  assumes "by_registration (EpollWaiter w) op" "q_ioWaiter q = EpollWaiter w" "0 \<le> io_awakenFd w"
  shows "\<exists>w'. q_ioWaiter (apply_op sp wd op q) = EpollWaiter w' \<and> io_awakenFd w' = io_awakenFd w \<and>
    io_waitingCount w' = io_waitingCount w \<and>
    (wrote w w' \<longleftrightarrow> io_waitingCount w \<noteq> 0 \<and>
      (case op of DoInsert now c e prio it bo \<Rightarrow> notifies now e prio q | DoFinish \<Rightarrow> q_usable q | _ \<Rightarrow> False))"
proof -
  have no: "\<not> wrote w w" by (simp add: wrote_def)
  show ?thesis
  proof (cases "\<exists>ls w'. op = DoListeners ls w'")
    case True
    then obtain ls w' where op: "op = DoListeners ls w'" by blast
    from registration_keeps [of w ls w'] assms(1) show ?thesis by (auto simp: op)
  next
    case False
    then show ?thesis unfolding apply_op_waiter assms(2)
      by (cases op) (simp_all add: no io_NotifyOne_def io_NotifyAll_def Epoll_NotifyOne_wrote Epoll_NotifyAll_wrote assms(3))
  qed
qed

definition counted :: "consumer_pc \<Rightarrow> int" where
  "counted pc = (case pc of CInEpoll p \<Rightarrow> 1 | CReturned p r evs \<Rightarrow> 1 | _ \<Rightarrow> 0)"

definition sleeps_rightly :: "time \<Rightarrow> time \<Rightarrow> wake_state \<Rightarrow> bool" where
  \<comment> \<open>a consumer asleep until \<open>until\<close> has nothing to do before, or will be reported the eventfd\<close>
  "sleeps_rightly until delay s \<longleftrightarrow> 0 \<le> delay \<and>
     (ws_edge s \<or>
      (\<not> q_finished (ws_queue s) \<and> b_wakeUpTime (ws_queue s) = until \<and>
       (\<forall>e\<in>pending (ws_queue s). until - delay \<le> ev_handleTime e \<and> (ev_isVsync e \<longrightarrow> e \<in> ws_seen s))))"

definition wake_inv :: "int \<Rightarrow> wake_state \<Rightarrow> bool" where
  "wake_inv fd s \<longleftrightarrow> queue_wf (ws_queue s) \<and>
     (\<exists>w. q_ioWaiter (ws_queue s) = EpollWaiter w \<and> io_awakenFd w = fd \<and> io_waitingCount w = counted (ws_pc s)) \<and>
     (\<forall>until delay. ws_pc s = CInEpoll (ForEvent until delay) \<longrightarrow> sleeps_rightly until delay s)"

lemma running_inv:
  assumes "wake_inv fd s" "ws_pc s = CRunning" "queue_wf q" "q_ioWaiter q = q_ioWaiter (ws_queue s)"
  shows "wake_inv fd (s\<lparr>ws_queue := q\<rparr>)"
  using assms by (auto simp: wake_inv_def)

lemma enter_count:
  "Epoll_WaitFor_enter w = Some w' \<Longrightarrow> io_awakenFd w' = io_awakenFd w \<and> io_waitingCount w' = io_waitingCount w + 1"
  by (auto simp: Epoll_WaitFor_enter_def split: if_splits)

lemma waits_inv:
  assumes "wake_inv fd s" "ws_pc s = CRunning" "\<not> q_finished (ws_queue s)"
    and "GetExpiredEventLocked now TIME_MAX (CheckBarrierMode sp now (ws_queue s)) = (None, next, q1)"
    and "q_sumOfPendingVsync q1 = 0" "0 \<le> consumer"
    and "TryExecuteObserverCallback now consumer next STAGE_BEFORE_WAITING q1 = (until, q2)"
    and "q_ioWaiter q2 = EpollWaiter w" "Epoll_WaitFor_enter w = Some w'"
  shows "wake_inv fd (s\<lparr>ws_queue := q2\<lparr>q_ioWaiter := EpollWaiter w'\<rparr>, ws_pc := CInEpoll (ForEvent until (until - next)),
    ws_seen := pending q2\<rparr>)"
proof -
  let ?q = "CheckBarrierMode sp now (ws_queue s)"
  have wf: "queue_wf ?q" using assms(1) by (simp add: wake_inv_def CheckBarrierMode_post)
  note k = GetExpired_None_keep [OF assms(4) wf] and st = GetExpired_null_state [OF assms(4) wf]
  have nx: "next = earliest q1" "b_wakeUpTime q1 = next"
    using st(1,2) k assms(5) earliest_same [of ?q q1] by simp_all
  have q2: "same_lists q1 q2" "q_finished q2 = q_finished q1" "q_ioWaiter q2 = q_ioWaiter q1"
    using TryExecuteObserverCallback_keep [where q = q1 and now = now and c = consumer and t = "next" and st = STAGE_BEFORE_WAITING] assms(7) by simp_all
  have u: "b_wakeUpTime q2 = until" "next \<le> until" using before_waiting_wakeUp [OF assms(7) nx(2) assms(6)] by simp_all
  have pend: "next \<le> ev_handleTime e" if "e \<in> pending q2" for e
    using that pending_same [OF q2(1)] earliest_le(2) [of e q1] nx(1) by simp
  have pw: "pending (q2\<lparr>q_ioWaiter := EpollWaiter w'\<rparr>) = pending q2" by (rule pending_same) simp
  have "queue_wf (q2\<lparr>q_ioWaiter := EpollWaiter w'\<rparr>)" using wf k q2(1) by (simp add: queue_wf_def)
  moreover have "q_ioWaiter (ws_queue s) = EpollWaiter w" using k q2(3) assms(8) by simp
  ultimately show ?thesis
    using assms(1,2) enter_count [OF assms(9)] u pend k q2(2) assms(3)
    by (auto simp: wake_inv_def sleeps_rightly_def counted_def pw)
qed

lemma others_inv:
  assumes "wake_inv fd s" "0 \<le> fd" "by_registration (q_ioWaiter (ws_queue s)) op"
    and "q_ioWaiter (ws_queue s) = EpollWaiter w" "q_ioWaiter (apply_op sp wd op (ws_queue s)) = EpollWaiter w'"
  shows "wake_inv fd (s\<lparr>ws_queue := apply_op sp wd op (ws_queue s), ws_edge := ws_edge s \<or> wrote w w'\<rparr>)"
proof -
  let ?q = "ws_queue s" and ?q' = "apply_op sp wd op (ws_queue s)"
  have wf: "queue_wf ?q" and fd: "io_awakenFd w = fd" and n: "io_waitingCount w = counted (ws_pc s)"
    using assms(1,4) by (auto simp: wake_inv_def)
  have w': "io_awakenFd w' = fd" "io_waitingCount w' = counted (ws_pc s)"
    "wrote w w' \<longleftrightarrow> io_waitingCount w \<noteq> 0 \<and>
      (case op of DoInsert now c e prio it bo \<Rightarrow> notifies now e prio ?q | DoFinish \<Rightarrow> q_usable ?q | _ \<Rightarrow> False)"
    using others_waiter [of w op ?q sp wd] assms(2-5) fd n by auto
  have "sleeps_rightly until delay (s\<lparr>ws_queue := ?q', ws_edge := ws_edge s \<or> wrote w w'\<rparr>)"
    if pc: "ws_pc s = CInEpoll (ForEvent until delay)" for until delay
  proof (cases "ws_edge s \<or> wrote w w'")
    case True
    with assms(1) pc show ?thesis by (simp add: wake_inv_def sleeps_rightly_def)
  next
    case False
    have c: "io_waitingCount w \<noteq> 0" by (simp add: n pc counted_def)
    have i: "0 \<le> delay" "\<not> q_finished ?q" "b_wakeUpTime ?q = until"
      "\<And>e. e \<in> pending ?q \<Longrightarrow> until - delay \<le> ev_handleTime e \<and> (ev_isVsync e \<longrightarrow> e \<in> ws_seen s)"
      using assms(1) pc False by (auto simp: wake_inv_def sleeps_rightly_def)
    have "\<not> q_finished ?q'" using i(2) False c w'(3) by (auto simp: apply_op_finished split: queue_op.splits)
    moreover have "until - delay \<le> ev_handleTime x \<and> (ev_isVsync x \<longrightarrow> x \<in> ws_seen s)" if x: "x \<in> pending ?q'" for x
    proof (cases "x \<in> pending ?q")
      case False': False
      from apply_op_pending [OF x this wf] obtain now c' e prio it bo where
        op: "op = DoInsert now c' e prio it bo" "prio \<in> {VIP, IMMEDIATE, HIGH, LOW}" "q_usable ?q"
          "ev_isVsync x = ev_isVsync e" "ev_handleTime x = ev_handleTime e \<or> ev_handleTime x \<in> ev_handleTime ` pending ?q"
        by blast
      then have "\<not> ev_isVsync e" "until \<le> ev_handleTime e" using False c w'(3) i(3) by (auto simp: notifies_def)
      with op(4,5) i(1,4) show ?thesis by fastforce
    qed (rule i(4))
    ultimately show ?thesis using i(1,3) by (simp add: sleeps_rightly_def apply_op_wakeUp)
  qed
  then show ?thesis using apply_op_wf [OF wf] assms(5) w' by (simp add: wake_inv_def)
qed

lemma wake_step_inv:
  assumes "wake_step sp wd s t" "wake_inv fd s" "0 \<le> fd"
  shows "wake_inv fd t"
  using assms(1)
proof cases
  case (takes_event now e t' q)
  have "queue_wf (CheckBarrierMode sp now (ws_queue s))" using assms(2) by (simp add: wake_inv_def CheckBarrierMode_post)
  with GetExpired_wf [OF takes_event(4)] GetExpired_waiter [OF takes_event(4)] takes_event(1,2) running_inv [OF assms(2)]
  show ?thesis by simp
next
  case (takes_vsync now t' q1 e q)
  have "queue_wf (CheckBarrierMode sp now (ws_queue s))" using assms(2) by (simp add: wake_inv_def CheckBarrierMode_post)
  with GetExpired_wf [OF takes_vsync(4)] have wf: "queue_wf q1" by simp
  from PickFirstVsync_Some(5) [OF takes_vsync(6) this] have "q_ioWaiter q = q_ioWaiter q1" by (auto simp: map_sub_def)
  with PickFirstVsync_Some(1) [OF takes_vsync(6) wf] GetExpired_waiter [OF takes_vsync(4)] takes_vsync(1,2) running_inv [OF assms(2)]
  show ?thesis by simp
next
  case (repairs_count now t' q1)
  let ?q = "SetBarrierMode now False (q1\<lparr>q_sumOfPendingVsync := 0\<rparr>)"
  have "queue_wf (CheckBarrierMode sp now (ws_queue s))" using assms(2) by (simp add: wake_inv_def CheckBarrierMode_post)
  with GetExpired_wf [OF repairs_count(4)] have "queue_wf q1" by simp
  moreover have "same_lists q1 ?q" "q_ioWaiter ?q = q_ioWaiter q1" by (simp_all add: SetBarrierMode_def)
  ultimately show ?thesis
    using GetExpired_waiter [OF repairs_count(4)] repairs_count(1,2) running_inv [OF assms(2)] queue_wf_sameD by simp
next
  case (waits now nx q1 consumer until q2 w w')
  with waits_inv [OF assms(2) waits(2-9)] show ?thesis by simp
next
  case (polls p w w')
  have wf: "queue_wf ((ws_queue s)\<lparr>q_ioWaiter := EpollWaiter w'\<rparr>)" using assms(2) by (simp add: wake_inv_def queue_wf_def)
  from enter_count [OF polls(5)] assms(2) polls(2-4) show ?thesis
    unfolding polls(1) wake_inv_def by (auto simp: counted_def wf [simplified])
next
  case (returns p w retVal evs)
  with assms(2) show ?thesis by (auto simp: wake_inv_def counted_def)
next
  case (leaves p retVal evs w fatal cbs w')
  have wf: "queue_wf ((ws_queue s)\<lparr>q_ioWaiter := EpollWaiter w'\<rparr>)" using assms(2) by (simp add: wake_inv_def queue_wf_def)
  from Epoll_leave_keeps [OF leaves(4)] assms(2) leaves(2,3) show ?thesis
    unfolding leaves(1) wake_inv_def by (auto simp: counted_def wf [simplified])
next
  case (relocks p now consumer)
  have "queue_wf (after_wait now consumer p (ws_queue s))" using assms(2) queue_wf_sameD by (simp add: wake_inv_def)
  with relocks assms(2) show ?thesis by (auto simp: wake_inv_def counted_def)
next
  case (others op q w w')
  with others_inv [OF assms(2,3) others(2,4)] show ?thesis by simp
qed

lemma wake_reach_inv:
  assumes "wake_reach sp wd q s" "queue_wf q" "q_ioWaiter q = EpollWaiter w" "0 \<le> io_awakenFd w" "io_waitingCount w = 0"
  shows "wake_inv (io_awakenFd w) s"
  using assms
proof (induction rule: wake_reach.induct)
  case start
  then show ?case by (simp add: wake_inv_def counted_def)
next
  case (step s t)
  then show ?case using wake_step_inv by blast
qed

section \<open>The steps and \<open>GetEvent\<close>\<close>

text \<open>
  The cut is one of \<open>GetEvent_iter\<close>: an iteration that waits while nobody else runs is the four steps from
  going to sleep to having the lock again.
\<close>

lemma wait_alone_is_steps:
  assumes "GetEvent_iter sp wd r (ws_queue s) = (Waited until cbs, q')" "queue_wf (ws_queue s)"
    and "r_others r = []" "0 \<le> r_consumerBefore r" "ws_pc s = CRunning"
    and "q_ioWaiter (ws_queue s) = EpollWaiter w" "0 \<le> io_epollFd w" "0 \<le> wo_retVal (r_outcome r) \<or> \<not> wo_fatal (r_outcome r)"
    and "io_awakenFd w \<in> fst ` set (wo_events (r_outcome r)) \<Longrightarrow> ws_edge s"
  shows "\<exists>s1 s2 s3 t. wake_step sp wd s s1 \<and> wake_step sp wd s1 s2 \<and> wake_step sp wd s2 s3 \<and> wake_step sp wd s3 t \<and>
    ws_queue t = q' \<and> ws_pc t = CRunning"
proof -
  let ?now = "r_now r" and ?o = "r_outcome r"
  obtain q1 q2 nx where f: "\<not> q_finished (ws_queue s)" "q_sumOfPendingVsync (ws_queue s) = 0"
    and g: "GetExpiredEventLocked ?now TIME_MAX (CheckBarrierMode sp ?now (ws_queue s)) = (None, nx, q1)"
    and o: "TryExecuteObserverCallback ?now (r_consumerBefore r) nx STAGE_BEFORE_WAITING q1 = (until, q2)"
    using assms(1,2) by (cases rule: GetEvent_iter_cases) auto
  have k: "q_ioWaiter q1 = EpollWaiter w" "q_sumOfPendingVsync q1 = 0"
    using GetExpired_None_keep [OF g] assms(2,6) f(2) by (simp_all add: CheckBarrierMode_post)
  have k2: "q_ioWaiter q2 = EpollWaiter w"
    using TryExecuteObserverCallback_keep(6) [of ?now "r_consumerBefore r" nx STAGE_BEFORE_WAITING q1] o k by simp
  let ?w = "w\<lparr>io_waitingCount := io_waitingCount w + 1\<rparr>"
  have e: "Epoll_WaitFor_enter w = Some ?w" using assms(7) by (simp add: Epoll_WaitFor_enter_def)
  obtain ok cbs' w' where l: "Epoll_WaitFor_leave (wd_listeners wd) False (wo_retVal ?o) (wo_fatal ?o) (wo_events ?o) ?w = (ok, cbs', w')"
    by (metis prod_cases3)
  have ok using l assms(8) by (auto simp: Epoll_WaitFor_leave_def case_prod_unfold split: if_splits)
  let ?p = "ForEvent until (until - nx)"
  have q': "q' = after_wait ?now (r_consumerAfter r) ?p (q2\<lparr>q_ioWaiter := EpollWaiter w'\<rparr>)"
    using assms(1,3) f k g o k2 e l \<open>ok\<close>
    by (simp add: GetEvent_iter_def WaitUntilLocked_def io_enter_def io_leave_def apply_ops_def after_wait_def case_prod_unfold Let_def)
  note s1 = waits [OF assms(5) f(1) g k(2) assms(4) o k2 e]
  let ?s1 = "s\<lparr>ws_queue := q2\<lparr>q_ioWaiter := EpollWaiter ?w\<rparr>, ws_pc := CInEpoll ?p, ws_seen := pending q2\<rparr>"
  have "reports_awaken ?w (wo_retVal ?o) (wo_events ?o) \<longrightarrow> ws_edge ?s1"
    using assms(9) by (auto simp: reports_awaken_def dest: in_set_takeD)
  with returns [of ?s1 ?p ?w "wo_retVal ?o" "wo_events ?o" sp wd]
  obtain s2 where s2: "wake_step sp wd ?s1 s2" "ws_queue s2 = ws_queue ?s1" "ws_pc s2 = CReturned ?p (wo_retVal ?o) (wo_events ?o)"
    by fastforce
  have "Epoll_WaitFor_leave (wd_listeners wd) (vsync_only ?p) (wo_retVal ?o) (wo_fatal ?o) (wo_events ?o) ?w = (True, cbs', w')"
    using l \<open>ok\<close> by (simp add: vsync_only_def)
  with leaves [OF s2(3), of ?w wd "wo_fatal ?o" cbs' w' sp] s2(2)
  obtain s3 where s3: "wake_step sp wd s2 s3" "ws_queue s3 = q2\<lparr>q_ioWaiter := EpollWaiter w'\<rparr>" "ws_pc s3 = CCallbacks ?p"
    by fastforce
  from relocks [OF s3(3), of sp wd ?now "r_consumerAfter r"] s3(2)
  obtain t where "wake_step sp wd s3 t" "ws_queue t = q'" "ws_pc t = CRunning" using q' by fastforce
  with s1 s2(1) s3(1) show ?thesis by blast
qed

section \<open>No wake-up is lost\<close>

text \<open>
  C27. A consumer asleep in \<open>epoll_wait\<close> loses no wake-up, whatever the other threads do and however their
  operations interleave with its own steps. Either the eventfd has an unreported write, so the consumer can
  leave the call at once; or nothing calls for it before its time out: the queue is not finished, no event of a
  sub queue is earlier than the time it sleeps until (less what the observer's callback took, which the code
  adds to that time), and no vsync task was inserted since it went to sleep. Idle events are not counted: they
  never wake the consumer, as the comment in \<open>Insert\<close> says.
\<close>

theorem no_wakeup_is_lost:
  assumes "queue_reach sp wd q0" "q_ioWaiter q0 = EpollWaiter w" "0 \<le> io_awakenFd w" "io_waitingCount w = 0"
    and "wake_reach sp wd q0 s" "ws_pc s = CInEpoll (ForEvent until delay)"
  shows "(ws_edge s \<and>
      (\<exists>t u. wake_step sp wd s t \<and> wake_step sp wd t u \<and> ws_pc u = CCallbacks (ForEvent until delay) \<and> \<not> ws_edge u)) \<or>
    (\<not> q_finished (ws_queue s) \<and>
      (\<forall>e\<in>pending (ws_queue s). until - delay \<le> ev_handleTime e \<and> (ev_isVsync e \<longrightarrow> e \<in> ws_seen s)))"
proof -
  have inv: "wake_inv (io_awakenFd w) s"
    using wake_reach_inv [OF assms(5) _ assms(2-4)] queue_reach_inv [OF assms(1)] by blast
  then obtain v where v: "q_ioWaiter (ws_queue s) = EpollWaiter v" by (auto simp: wake_inv_def)
  have "sleeps_rightly until delay s" using inv assms(6) by (simp add: wake_inv_def)
  moreover have "\<exists>t u. wake_step sp wd s t \<and> wake_step sp wd t u \<and> ws_pc u = CCallbacks (ForEvent until delay) \<and> \<not> ws_edge u"
    if "ws_edge s"
  proof -
    let ?t = "s\<lparr>ws_edge := ws_edge s \<and> \<not> reports_awaken v 1 [awaken_event v], ws_pc := CReturned (ForEvent until delay) 1 [awaken_event v]\<rparr>"
    have "wake_step sp wd s ?t" by (rule returns [OF assms(6) v]) (simp add: that)
    moreover obtain cbs w' where "Epoll_WaitFor_leave (wd_listeners wd) (vsync_only (ForEvent until delay)) 1 False
        [awaken_event v] v = (True, cbs, w')"
      by (simp add: Epoll_WaitFor_leave_def Let_def awaken_event_def)
    from leaves [of ?t _ _ _ v wd _ cbs w' sp, OF _ _ this] v
    have "\<exists>u. wake_step sp wd ?t u \<and> ws_pc u = CCallbacks (ForEvent until delay) \<and> \<not> ws_edge u"
      by (fastforce simp: reports_awaken_def awaken_event_def)
    ultimately show ?thesis by blast
  qed
  ultimately show ?thesis by (auto simp: sleeps_rightly_def)
qed

definition some_epoll :: epoll_waiter where
  [eh_defs]: "some_epoll = new_epoll\<lparr>io_epollFd := 3, io_awakenFd := 4, io_callback := True\<rparr>"

definition prepared_epoll_queue :: event_queue_base where
  \<comment> \<open>a prepared queue whose waiter is an epoll waiter\<close>
  "prepared_epoll_queue = apply_ops default_params small_world [DoListeners [] (EpollWaiter some_epoll), DoPrepare] (new_queue 0)"

lemma prepared_epoll_queue_reach: "queue_reach default_params small_world prepared_epoll_queue"
  unfolding prepared_epoll_queue_def apply_ops_def fold.simps comp_def id_apply
  by (intro queue_reach.operation queue_reach.created)

definition sleeping_queue :: event_queue_base where
  \<comment> \<open>its consumer looked for an event at time 5, found none and entered \<open>epoll_wait\<close>\<close>
  "sleeping_queue =
     (snd (TryExecuteObserverCallback 5 0 TIME_MAX STAGE_BEFORE_WAITING
        (snd (snd (GetExpiredEventLocked 5 TIME_MAX (CheckBarrierMode default_params 5 prepared_epoll_queue))))))
     \<lparr>q_ioWaiter := EpollWaiter (some_epoll\<lparr>io_waitingCount := 1\<rparr>)\<rparr>"

lemma sleeping_queue_step:
  "wake_step default_params small_world \<lparr>ws_queue = prepared_epoll_queue, ws_edge = False, ws_pc = CRunning, ws_seen = {}\<rparr>
     \<lparr>ws_queue = sleeping_queue, ws_edge = False, ws_pc = CInEpoll (ForEvent TIME_MAX 0), ws_seen = pending sleeping_queue\<rparr>"
proof -
  let ?s = "\<lparr>ws_queue = prepared_epoll_queue, ws_edge = False, ws_pc = CRunning, ws_seen = {}\<rparr>"
  let ?g = "GetExpiredEventLocked 5 TIME_MAX (CheckBarrierMode default_params 5 prepared_epoll_queue)"
  let ?o = "TryExecuteObserverCallback 5 0 TIME_MAX STAGE_BEFORE_WAITING (snd (snd ?g))"
  have f: "\<not> q_finished prepared_epoll_queue" "fst ?g = None" "fst (snd ?g) = TIME_MAX" "q_sumOfPendingVsync (snd (snd ?g)) = 0"
    "fst ?o = TIME_MAX" "q_ioWaiter (snd ?o) = EpollWaiter some_epoll"
    "Epoll_WaitFor_enter some_epoll = Some (some_epoll\<lparr>io_waitingCount := 1\<rparr>)"
    by code_simp+
  have g: "?g = (None, TIME_MAX, snd (snd ?g))" and o: "?o = (TIME_MAX, snd ?o)"
    using f(2,3,5) by (metis prod.collapse)+
  have pw: "pending sleeping_queue = pending (snd ?o)" by (rule pending_same) (simp add: sleeping_queue_def)
  have "ws_pc ?s = CRunning" "\<not> q_finished (ws_queue ?s)"
    "GetExpiredEventLocked 5 TIME_MAX (CheckBarrierMode default_params 5 (ws_queue ?s)) = (None, TIME_MAX, snd (snd ?g))"
    using f(1) g by simp_all
  from waits [OF this f(4) order_refl o f(6,7)] show ?thesis by (simp add: sleeping_queue_def pw [unfolded sleeping_queue_def])
qed

text \<open>A consumer that went to sleep before an event due at 10 was inserted.\<close>

theorem no_wakeup_is_lost_witness:
  "\<exists>s. wake_reach default_params small_world prepared_epoll_queue s \<and> ws_pc s = CInEpoll (ForEvent TIME_MAX 0) \<and>
    (\<exists>e\<in>pending (ws_queue s). ev_handleTime e = 10) \<and> ws_edge s \<and>
    (\<exists>t u. wake_step default_params small_world s t \<and> wake_step default_params small_world t u \<and>
      ws_pc u = CCallbacks (ForEvent TIME_MAX 0))"
proof -
  let ?s1 = "\<lparr>ws_queue = sleeping_queue, ws_edge = False, ws_pc = CInEpoll (ForEvent TIME_MAX 0), ws_seen = pending sleeping_queue\<rparr>"
  let ?ins = "DoInsert 10 0 (task_at 10) HIGH AT_END NO_BARRIER"
  let ?q = "apply_op default_params small_world ?ins sleeping_queue"
  let ?w = "some_epoll\<lparr>io_waitingCount := 1\<rparr>"
  have f: "q_ioWaiter sleeping_queue = EpollWaiter ?w" "q_ioWaiter ?q = EpollWaiter (?w\<lparr>io_calls := [WriteAwaken 4]\<rparr>)"
    "map ev_handleTime (sq_queue (sub ?q 2)) = [10]" "(10 :: time) < TIME_MAX"
    "q_ioWaiter prepared_epoll_queue = EpollWaiter some_epoll" "0 \<le> io_awakenFd some_epoll" "io_waitingCount some_epoll = 0"
    by code_simp+
  have e: "\<exists>e\<in>pending ?q. ev_handleTime e = 10"
    using f(3) pendingI [of 2 _ ?q] by (cases "sq_queue (sub ?q 2)") auto
  have "wake_step default_params small_world ?s1
      (?s1\<lparr>ws_queue := ?q, ws_edge := ws_edge ?s1 \<or> wrote ?w (?w\<lparr>io_calls := [WriteAwaken 4]\<rparr>)\<rparr>)" (is "wake_step _ _ _ ?s2")
    by (rule wake_step.others [of _ ?ins]) (use f(1,2) in simp_all)
  then have r: "wake_reach default_params small_world prepared_epoll_queue ?s2"
    using wake_reach.start wake_reach.step sleeping_queue_step by meson
  have pc: "ws_pc ?s2 = CInEpoll (ForEvent TIME_MAX 0)" by simp
  from no_wakeup_is_lost [OF prepared_epoll_queue_reach f(5-7) r pc] e f(4)
  have "ws_edge ?s2 \<and> (\<exists>t u. wake_step default_params small_world ?s2 t \<and> wake_step default_params small_world t u \<and>
      ws_pc u = CCallbacks (ForEvent TIME_MAX 0))" by fastforce
  moreover have "\<exists>e\<in>pending (ws_queue ?s2). ev_handleTime e = 10" using e by simp
  ultimately show ?thesis using r pc by blast
qed

text \<open>An idle event inserted then writes nothing, and the consumer sleeps on.\<close>

lemma idle_event_wakes_nobody:
  "q_ioWaiter (apply_op default_params small_world (DoInsert 10 0 (task_at 10) IDLE AT_END NO_BARRIER) sleeping_queue) =
     q_ioWaiter sleeping_queue"
  using Insert_waiter(1) by (simp add: notifies_def)

end
