(* ===== verification/Listener_Properties.thy ===== *)
theory Listener_Properties
  imports Handler_Properties Queue_Wakeup Waiter
begin

text \<open>
  Properties of the IO waiters and of what goes with an event: a wake-up of the daemon can be lost (the
  queue's own cannot, see \<open>Queue_Wakeup\<close>), a registered descriptor comes back as it was registered, a refused
  listener, and the typed payload of an event.
\<close>

section \<open>The daemon's wake-ups\<close>

text \<open>
  The stop of the daemon thread can hang: the thread tests \<open>isFinished_\<close> and counts itself
  as waiting without a lock, so a stop between the two writes no wake-up; the stopper then waits
  in \<open>join\<close>, the thread in \<open>epoll_wait\<close>, and only an event on another descriptor moves them.
\<close>

lemma deamon_stop_can_hang:
  assumes "io_waitingCount d = 0" "\<not> d_isFinished d"
  shows "\<exists>s. stop_reach d s \<and> d_isFinished (ss_d s) \<and> ss_stop s = SJoin \<and> ss_loop s = LWait \<and>
    (\<forall>t. stop_step s t \<longrightarrow> ss_loop t = LTest \<and> \<not> ss_edge t \<and>
       io_waitingCount (ss_d t) = io_waitingCount (ss_d s) - 1)"
proof -
  from stop_lost_wakeup [OF assms] obtain s where s: "stop_reach d s" "stuck_unless_fd s" "d_isFinished (ss_d s)"
    by blast
  have "ss_loop t = LTest \<and> \<not> ss_edge t \<and> io_waitingCount (ss_d t) = io_waitingCount (ss_d s) - 1"
    if t: "stop_step s t" for t
    unfolding stuck_only_fd [OF s(2) t] using s(2) by (simp add: stuck_unless_fd_def)
  with s show ?thesis by (auto simp: stuck_unless_fd_def)
qed

section \<open>Registration of descriptors\<close>

text \<open>
  A descriptor comes back as it was registered: when the kernel reports the bits that were
  asked for, the callback gets the listener's events, task name and priority, and removing the
  descriptor again leaves the registry as it was before.
\<close>

lemma registered_descriptor_comes_back:
  assumes "ordered_map (io_map w)" "Epoll_GetFileDescriptorMap fd w = None"
    and "Epoll_AddFileDescriptor k fd events n l p w = (True, w1)" "0 \<le> k_ctl_del k fd"
    and "events AND NOT FILE_DESCRIPTOR_EVENTS_MASK = 0" "io_callback w"
  shows "epoll_dispatch ls False (fd, to_epoll_events events) w1 =
      [\<lparr>cb_fd = fd, cb_events = events, cb_taskName = n, cb_priority = p\<rparr>] \<and>
    Epoll_GetFileDescriptorMap f (Epoll_RemoveFileDescriptor k fd w1) = Epoll_GetFileDescriptorMap f w"
proof -
  have wf: "epoll_wf w" using assms(1) by (simp add: epoll_wf_def)
  have ok: "fst (Epoll_AddFileDescriptor k fd events n l p w)" using assms(3) by simp
  have "io_callback w1" using assms(3,6)
    by (auto simp: registry_defs split: if_splits)
  moreover have "Epoll_GetFileDescriptorMap fd w1 = Some \<lparr>fi_taskName = n, fi_priority = p, fi_listener = l\<rparr>"
    using ep.add_new [OF wf ok assms(2)] assms(3) by simp
  moreover have "del_accepted k fd" using assms(4) by (simp add: del_accepted_def)
  from ep.add_del_roundtrip [OF wf assms(2) ok this, of f] assms(3)
  have "Epoll_GetFileDescriptorMap f (Epoll_RemoveFileDescriptor k fd w1) = Epoll_GetFileDescriptorMap f w" by simp
  ultimately show ?thesis by (simp add: epoll_dispatch_def epoll_events_roundtrip [OF assms(5)])
qed

text \<open>
  A listener that the queue refuses because its descriptor is registered already still gets
  the caller as its owner: the handler changes the owner before it asks the queue. The queues
  and the daemon are as before, so a listener shared by two handlers can lose its first owner
  through a call that fails.
\<close>

lemma refused_listener_changes_owner:
  assumes "0 \<le> fd" "events AND FILE_DESCRIPTOR_EVENTS_MASK \<noteq> 0" "wd_runner (sy_world sy) h = Some r"
    and "sy_queue sy r = BaseQueue q" "q_usable q" "map_of (q_listeners q) fd \<noteq> None"
    and "Handler_AddFileDescriptorListener c h fd events (Some l) n prio sy = (err, sy')"
  shows "err = EVENT_HANDLER_ERR_FD_ALREADY \<and> sy_queue sy' = sy_queue sy \<and> sy_deamon sy' = sy_deamon sy \<and>
    l_owner (wd_listeners (sy_world sy') l) = Some h \<and> (\<forall>l'. l' \<noteq> l \<longrightarrow> wd_listeners (sy_world sy') l' = wd_listeners (sy_world sy) l')"
proof -
  obtain lst where "map_of (q_listeners q) fd = Some lst" using assms(6) by blast
  then have "rq_AddFileDescriptorListener c wd fd events (Some l) n prio (BaseQueue q, d) =
      (EVENT_HANDLER_ERR_FD_ALREADY, BaseQueue q, d)" for wd d
    using assms(1,2,5) by (simp add: rq_AddFileDescriptorListener_def AddFileDescriptorListener_def
        AddFileDescriptorListenerBase_def apsnd_def apfst_def map_prod_def)
  then have "err = EVENT_HANDLER_ERR_FD_ALREADY" and
    sy': "sy' = (set_queue r (BaseQueue q) (sy\<lparr>sy_world := (sy_world sy)\<lparr>wd_listeners :=
      Listener_SetOwner l h (wd_listeners (sy_world sy))\<rparr>\<rparr>))\<lparr>sy_deamon := sy_deamon sy\<rparr>"
    using assms(1-4,7) by (simp_all add: Handler_AddFileDescriptorListener_def Let_def)
  moreover have "(sy_queue sy)(r := BaseQueue q) = sy_queue sy" using assms(4) by (metis fun_upd_triv)
  ultimately show ?thesis by (simp add: set_queue_def Listener_SetOwner_def)
qed

section \<open>The typed payload\<close>

text \<open>
  Type ids keep the size of a type in the low 28 bits and the kind of the pointer above them.
\<close>

definition fits :: "u64 \<Rightarrow> bool" where
  "fits n \<longleftrightarrow> take_bit 28 n = n"

lemma fits_high: "fits n \<Longrightarrow> drop_bit 28 n = 0"
  unfolding fits_def by (metis drop_bit_take_bit diff_self_eq_0 take_bit_0)

lemma tag_split:
  assumes "fits n" "take_bit 28 c = 0"
  shows "take_bit 28 (n OR c) = n" "drop_bit 28 (n OR c) = drop_bit 28 c"
  using assms by (simp_all add: take_bit_or drop_bit_or fits_high) (simp add: fits_def)

lemma tag_eq_iff:
  assumes "fits n" "fits m" "take_bit 28 c = 0" "take_bit 28 d = 0"
  shows "n OR c = m OR d \<longleftrightarrow> n = m \<and> c = d"
proof
  assume e: "n OR c = m OR d"
  have "n = m"
    using arg_cong [OF e, of "take_bit 28"] tag_split(1) [OF assms(1,3)] tag_split(1) [OF assms(2,4)] by simp
  moreover have "drop_bit 28 c = drop_bit 28 d"
    using arg_cong [OF e, of "drop_bit 28"] tag_split(2) [OF assms(1,3)] tag_split(2) [OF assms(2,4)] by simp
  then have "c = d"
    using bits_ident [of 28 c] bits_ident [of 28 d] assms(3,4) by simp
  ultimately show "n = m \<and> c = d" by simp
qed simp

lemma tag_low:
  "take_bit 28 SHARED_PTR_TYPE = 0" "take_bit 28 WEAK_PTR_TYPE = 0"
  "take_bit 28 UNIQUE_PTR_TYPE = 0" "take_bit 28 UNIQUE_PTR_ARRAY_TYPE = 0"
  by (simp_all add: SHARED_PTR_TYPE_def WEAK_PTR_TYPE_def UNIQUE_PTR_TYPE_def UNIQUE_PTR_ARRAY_TYPE_def take_bit_eq_mod)

text \<open>
  C36. The payload of an event is given back under the kind of pointer it was stored with and
  under no other: a shared pointer comes back as itself, a unique pointer once and is then
  neither given out again nor destroyed with the event. In the build without run-time type
  information the only thing known of the type is its size: a shared object can be taken out as
  any type of the same size, and only as one of those.
\<close>

theorem payload_is_typed_by_kind_and_size:
  assumes "fits (type_size t)" "fits (type_size u)" "fits (d - 1)" "ev_taskCallback e = None"
  shows "GetSharedObject alive u (SaveSharedPtr (SharedPtr t) ob e) = (if type_size u = type_size t then Some ob else None) \<and>
    GetSharedObject alive u (SaveUniquePtr (UniquePtr t d) ob e) = None \<and>
    fst (GetUniqueObject (UniquePtr u d) (SaveSharedPtr (SharedPtr t) ob e)) = None \<and>
    (case GetUniqueObject (UniquePtr t d) (SaveUniquePtr (UniquePtr t d) ob e) of
       (got, e') \<Rightarrow> got = Some ob \<and> fst (GetUniqueObject (UniquePtr t d) e') = None \<and>
         DestroyPayload (UniquePtr t d) (Some ob) \<notin> set (snd (ClearEvent e')))"
proof -
  have d: "fits (type_size t OR (d - 1))" "fits (type_size u OR (d - 1))"
    using assms(1-3) by (simp_all add: fits_def take_bit_or)
  have k: "SHARED_PTR_TYPE \<noteq> UNIQUE_PTR_TYPE" "WEAK_PTR_TYPE \<noteq> UNIQUE_PTR_TYPE" "WEAK_PTR_TYPE \<noteq> SHARED_PTR_TYPE"
    by (simp_all add: SHARED_PTR_TYPE_def WEAK_PTR_TYPE_def UNIQUE_PTR_TYPE_def)
  have ss: "type_size u OR SHARED_PTR_TYPE = type_size t OR SHARED_PTR_TYPE \<longleftrightarrow> type_size u = type_size t"
    and ws: "type_size u OR WEAK_PTR_TYPE \<noteq> type_size t OR SHARED_PTR_TYPE"
    using tag_eq_iff [OF assms(2,1) tag_low(1) tag_low(1)] tag_eq_iff [OF assms(2,1) tag_low(2) tag_low(1)] k by auto
  have su: "type_size u OR SHARED_PTR_TYPE \<noteq> type_size t OR (d - 1) OR UNIQUE_PTR_TYPE"
    and wu: "type_size u OR WEAK_PTR_TYPE \<noteq> type_size t OR (d - 1) OR UNIQUE_PTR_TYPE"
    and us: "type_size u OR (d - 1) OR UNIQUE_PTR_TYPE \<noteq> type_size t OR SHARED_PTR_TYPE"
    unfolding or.assoc [symmetric]
    using tag_eq_iff [OF assms(2) d(1) tag_low(1) tag_low(3)] tag_eq_iff [OF assms(2) d(1) tag_low(2) tag_low(3)]
      tag_eq_iff [OF d(2) assms(1) tag_low(3) tag_low(1)] k by auto
  have "GetSharedObject alive u (SaveSharedPtr (SharedPtr t) ob e) = (if type_size u = type_size t then Some ob else None)"
    using ss ws by (simp add: GetSharedObject_def SaveSharedPtr_def)
  moreover have "GetSharedObject alive u (SaveUniquePtr (UniquePtr t d) ob e) = None"
    using su wu by (simp add: GetSharedObject_def SaveUniquePtr_def)
  moreover have "fst (GetUniqueObject (UniquePtr u d) (SaveSharedPtr (SharedPtr t) ob e)) = None"
    using us by (simp add: GetUniqueObject_def SaveSharedPtr_def)
  ultimately show ?thesis
    using assms(4) by (simp add: GetUniqueObject_def SaveUniquePtr_def ClearEvent_def HasTask_def Let_def split: option.split)
qed

theorem payload_is_typed_by_kind_and_size_witness:
  "let t = \<lparr>type_name = 1, type_size = 8\<rparr>; u = \<lparr>type_name = 2, type_size = 8\<rparr> in
   GetSharedObject (\<lambda>_. True) u (SaveSharedPtr (SharedPtr t) 7 new_event) = Some 7 \<and>
   fst (GetUniqueObject (UniquePtr t 1) (SaveUniquePtr (UniquePtr t 1) 7 new_event)) = Some 7"
proof -
  let ?t = "\<lparr>type_name = 1, type_size = 8\<rparr>" and ?u = "\<lparr>type_name = 2, type_size = 8\<rparr>"
  have "fits (type_size ?t)" "fits (type_size ?u)" "fits (1 - 1)" "ev_taskCallback new_event = None"
    by (simp_all add: fits_def take_bit_eq_mod new_event_def)
  from payload_is_typed_by_kind_and_size [OF this, of "\<lambda>_. True" 7] show ?thesis
    by (simp add: Let_def case_prod_unfold)
qed

end
