(* ===== verification/Native_Properties.thy ===== *)
theory Native_Properties
  imports Native_Interface Listener_Properties
begin

text \<open>
  Properties of the interface for C: which listeners are ever called, and the pointers that it
  follows without a test.
\<close>

lemma EnsureIoWaiterLocked_keeps:
  "EnsureIoWaiterLocked sp wd di ni l (q, d) = (ok, q', d') \<Longrightarrow>
     q_listeners q' = q_listeners q \<and> q_usable q' = q_usable q"
  by (auto simp: EnsureIoWaiterLocked_def Let_def split: if_splits prod.splits)

lemma AddFileDescriptorByFd_keeps:
  "AddFileDescriptorByFd sp wd k kd fd events n l prio (q, d) = (ok, q', d') \<Longrightarrow>
     q_listeners q' = q_listeners q \<and> q_usable q' = q_usable q"
  by (auto simp: AddFileDescriptorByFd_def Let_def split: if_splits prod.splits)

lemma emplaced_is_found: "map_of m k = None \<Longrightarrow> map_of (map_emplace k v m) k = Some v"
  by (induction k v m rule: map_emplace.induct) (auto split: if_splits)

lemma added_listener_is_found:
  assumes "AddFileDescriptorListener sp wd di ni k kd fd events (Some l) n prio (q, d) = (ERR_OK, q', d')"
  shows "GetListenerByfd fd q' = Some l"
proof -
  have *: "q_usable q" "map_of (q_listeners q) fd = None"
    "AddFileDescriptorListenerBase sp wd di ni k kd fd events l n prio (q, d) = (ERR_OK, q', d')"
    using assms by (auto simp: AddFileDescriptorListener_def AddFileDescriptorListenerBase_def split: if_splits)
  obtain ok q1 d1 where e: "EnsureIoWaiterLocked sp wd di ni l (q, d) = (ok, q1, d1)" by (metis prod_cases3)
  obtain ok2 q2 d2 where a: "AddFileDescriptorByFd sp wd k kd fd events n l prio (q1, d1) = (ok2, q2, d2)"
    by (metis prod_cases3)
  from * e a have "q' = q2\<lparr>q_listeners := map_emplace fd l (q_listeners q2)\<rparr>"
    by (auto simp: AddFileDescriptorListenerBase_def split: if_splits)
  with * EnsureIoWaiterLocked_keeps [OF e] AddFileDescriptorByFd_keeps [OF a] show ?thesis
    by (simp add: GetListenerByfd_def emplaced_is_found)
qed

text \<open>
  C38. Only the listeners of handlers are called: a listener that a handler adds makes each event of
  its descriptor a task for that handler; one that is added through the interface for C is accepted
  and registered, but it has no owner, so its events are dropped and none of its functions is ever
  called.
\<close>

theorem only_listeners_of_handlers_are_called:
  assumes handler: "Handler_AddFileDescriptorListener c h fd events (Some l) n prio sy = (ERR_OK, sy')"
      "wd_runner (sy_world sy) h = Some r" "sy_queue sy r = BaseQueue q" "wd_alive (sy_world sy) h"
    and native: "EventRunnerAddFileDescriptorListener c' l' (Some obj) fd events' (Some cbs) ns = Some (ERR_OK, ns')"
      "no_eventRunner obj = Some r'" "sy_queue (ns_system ns) r' = BaseQueue p"
    and "cb_fd cb = fd"
  shows "(\<exists>q' fp. sy_queue sy' r = BaseQueue q' \<and> HandleFileDescriptorEvent (sy_world sy') cb q' = Some fp \<and>
      fp_handler fp = h \<and> (\<exists>v. fp_callback fp = FdTask fd (cb_events cb) l v)) \<and>
    (\<exists>p'. sy_queue (ns_system ns') r' = BaseQueue p' \<and> GetListenerByfd fd p' = Some l' \<and>
      ns_listeners ns' l' = NativeFileDescriptorListener cbs \<and>
      HandleFileDescriptorEvent (sy_world (ns_system ns')) cb p' = None)"
proof
  let ?wd = "(sy_world sy)\<lparr>wd_listeners := Listener_SetOwner l h (wd_listeners (sy_world sy))\<rparr>"
  obtain err q' d where a: "AddFileDescriptorListener (ca_sp c) ?wd (ca_deamonInit c) (ca_epollInit c) (ca_kernel c)
      (ca_deamonKernel c) fd events (Some l) n prio (q, sy_deamon sy) = (err, q', d)" by (metis prod_cases3)
  with handler have r: "err = ERR_OK" "sy_queue sy' r = BaseQueue q'" "sy_world sy' = ?wd"
    by (auto simp: Handler_AddFileDescriptorListener_def rq_AddFileDescriptorListener_def apsnd_def apfst_def
        map_prod_def set_queue_def Let_def split: if_splits)
  from added_listener_is_found [OF a [unfolded r(1)]] r handler(4) \<open>cb_fd cb = fd\<close>
  show "\<exists>q' fp. sy_queue sy' r = BaseQueue q' \<and> HandleFileDescriptorEvent (sy_world sy') cb q' = Some fp \<and>
      fp_handler fp = h \<and> (\<exists>v. fp_callback fp = FdTask fd (cb_events cb) l v)"
    by (simp add: HandleFileDescriptorEvent_def Listener_GetOwner_def Listener_SetOwner_def Let_def)
next
  let ?sy = "ns_system ns"
  let ?wd = "(sy_world ?sy)\<lparr>wd_listeners := (wd_listeners (sy_world ?sy))(l' := new_listener)\<rparr>"
  obtain err p' d where a: "AddFileDescriptorListener (ca_sp c') ?wd (ca_deamonInit c') (ca_epollInit c') (ca_kernel c')
      (ca_deamonKernel c') fd events' (Some l') ''EventRunnerNativeTask'' HIGH (p, sy_deamon ?sy) = (err, p', d)"
    by (metis prod_cases3)
  with native have r: "err = ERR_OK" "sy_queue (ns_system ns') r' = BaseQueue p'" "sy_world (ns_system ns') = ?wd"
    "ns_listeners ns' l' = NativeFileDescriptorListener cbs"
    by (auto simp: EventRunnerAddFileDescriptorListener_def Native_AddFileDescriptorListener_def
        rq_AddFileDescriptorListener_def apsnd_def apfst_def map_prod_def set_queue_def Let_def)
  from added_listener_is_found [OF a [unfolded r(1)]] r \<open>cb_fd cb = fd\<close>
  show "\<exists>p'. sy_queue (ns_system ns') r' = BaseQueue p' \<and> GetListenerByfd fd p' = Some l' \<and>
      ns_listeners ns' l' = NativeFileDescriptorListener cbs \<and>
      HandleFileDescriptorEvent (sy_world (ns_system ns')) cb p' = None"
    by (simp add: HandleFileDescriptorEvent_def Listener_GetOwner_def new_listener_def)
qed

definition native_example :: native_state where
  [eh_defs]: "native_example =
     \<lparr>ns_system = system_of (queue_with []),
      ns_listeners = (\<lambda>_. NativeFileDescriptorListener \<lparr>readableCallback = None, writableCallback = None,
        shutdownCallback = None, exceptionCallback = None\<rparr>),
      ns_runs = (\<lambda>_. not_run)\<rparr>"

definition readable_only :: fd_callbacks where
  [eh_defs]: "readable_only =
     \<lparr>readableCallback = Some 70, writableCallback = None, shutdownCallback = None, exceptionCallback = None\<rparr>"

theorem only_listeners_of_handlers_are_called_witness:
  "\<exists>ns' p'. EventRunnerAddFileDescriptorListener (call_at 1000) 4 (Some \<lparr>no_eventRunner = Some 2\<rparr>) 9 1 (Some readable_only)
       native_example = Some (ERR_OK, ns') \<and>
     sy_queue (ns_system ns') 2 = BaseQueue p' \<and> native_call (ns_listeners ns' 4) (OnReadable 9) = [(70, 9)] \<and>
     HandleFileDescriptorEvent (sy_world (ns_system ns'))
       \<lparr>cb_fd = 9, cb_events = 1, cb_taskName = ''EventRunnerNativeTask'', cb_priority = HIGH\<rparr> p' = None"
proof -
  let ?sy = "system_of (queue_with [])"
  let ?cb = "\<lparr>cb_fd = 9, cb_events = 1, cb_taskName = ''EventRunnerNativeTask'', cb_priority = HIGH\<rparr>"
  let ?add = "Handler_AddFileDescriptorListener (call_at 1000) 2 9 1 (Some 3) ''n'' HIGH ?sy"
  let ?nat = "EventRunnerAddFileDescriptorListener (call_at 1000) 4 (Some \<lparr>no_eventRunner = Some 2\<rparr>) 9 1 (Some readable_only)
     native_example"
  have "fst ?add = ERR_OK" "map_option fst ?nat = Some ERR_OK" by code_simp+
  then obtain sy' ns' where e: "?add = (ERR_OK, sy')" "?nat = Some (ERR_OK, ns')" by (cases ?add) auto
  have s: "wd_runner (sy_world ?sy) 2 = Some 2" "sy_queue ?sy 2 = BaseQueue (queue_with [])" "wd_alive (sy_world ?sy) 2"
    "sy_queue (ns_system native_example) 2 = BaseQueue (queue_with [])"
    by (simp_all add: system_of_def small_world_def native_example_def)
  have "no_eventRunner \<lparr>no_eventRunner = Some 2\<rparr> = Some 2" "cb_fd ?cb = 9" by simp_all
  from only_listeners_of_handlers_are_called [OF e(1) s(1-3) e(2) this(1) s(4) this(2)] e(2) show ?thesis
    by (auto simp: NativeFileDescriptorListener_def readable_only_def call_native_def)
qed

text \<open>
  The object of a thread without a runner is not null, its functions to run and stop report that there
  is no runner, but those for descriptors follow the null pointer. Run and stop of a null object are
  refused.
\<close>

lemma native_object_without_runner:
  assumes "GetEventRunnerNativeObj True (Runner_Current False None None) created = Some obj"
  shows "EventRunnerRun i (Some obj) ns = (EVENT_HANDLER_ERR_NO_EVENT_RUNNER, ns) \<and>
    EventRunnerStop (Some obj) ns = (EVENT_HANDLER_ERR_NO_EVENT_RUNNER, ns) \<and>
    EventRunnerAddFileDescriptorListener c l (Some obj) fd events cbs ns = None \<and>
    EventRunnerRemoveFileDescriptorListener c (Some obj) fd ns = None \<and>
    EventRunnerRun i None ns = (EVENT_HANDLER_ERR_INVALID_PARAM, ns)"
  using assms
  by (auto simp: GetEventRunnerNativeObj_def EventRunnerNativeImplement_def Runner_Current_def EventRunnerRun_def
      RunEventRunnerNativeObj_def EventRunnerStop_def StopEventRunnerNativeObj_def
      EventRunnerAddFileDescriptorListener_def Native_AddFileDescriptorListener_def
      EventRunnerRemoveFileDescriptorListener_def Native_RemoveFileDescriptorListener_def split: option.splits)

end
