(* ===== verification/Descriptor_Events.thy ===== *)
theory Descriptor_Events
  imports Loop_Fairness Native_Properties
begin

text \<open>
  From a ready descriptor to the functions of its listener: \<open>epoll_wait\<close> reports the descriptor, the
  waiter calls \<open>EventQueue::HandleFileDescriptorEvent\<close> for it, that posts a task through the handler of
  the listener, and the loop of the runner executes the task. The listeners of vsync get their task
  by \<open>PostTaskForVsync\<close>.
\<close>

section \<open>The callback of the waiter\<close>

definition PostTaskForVsync :: "call_env \<Rightarrow> bool \<Rightarrow> caller \<Rightarrow> fd_post \<Rightarrow> system \<Rightarrow> system" where
  \<comment> \<open>the event gets the largest delay: only the search for pending vsync events finds it earlier\<close>
  "PostTaskForVsync c alloc cl p sy =
     (case PostTaskForVsync_event alloc (sy_world sy) cl p of
        None \<Rightarrow> sy
      | Some e \<Rightarrow> snd (SendEvent c (fp_handler p) (Some e) UINT32_MAX (fp_priority p) sy))"

definition post_fd_event :: "call_env \<Rightarrow> bool \<Rightarrow> caller \<Rightarrow> runner_ref \<Rightarrow> fd_callback \<Rightarrow> system \<Rightarrow> system" where
  \<comment> \<open>the whole \<open>HandleFileDescriptorEvent\<close> of the queue of runner \<open>r\<close>; FFRT polls the descriptors of its queues\<close>
  "post_fd_event c alloc cl r cb sy =
     (case sy_queue sy r of
        FfrtQueue f \<Rightarrow> sy
      | BaseQueue q \<Rightarrow>
          (case HandleFileDescriptorEvent (sy_world sy) cb q of
             None \<Rightarrow> sy
           | Some p \<Rightarrow>
               if fp_vsync p then PostTaskForVsync c alloc cl p sy
               else snd (PostTask c alloc (fp_handler p) (Some (fp_callback p)) (fp_name p) 0 (fp_priority p) cl sy)))"

section \<open>Registration\<close>

lemma Listener_SetOwner_keep [simp]:
  "l_isDeamonWaiter (Listener_SetOwner r h ls l) = l_isDeamonWaiter (ls l)"
  "IsVsyncListener (Listener_SetOwner r h ls l) = IsVsyncListener (ls l)"
  by (simp_all add: Listener_SetOwner_def IsVsyncListener_def)

lemma added_to_epoll:
  assumes "AddFileDescriptorListener sp wd di ni k kd fd events (Some l) n prio (q, d) = (ERR_OK, q', d')"
    and "q_ioWaiter q = EpollWaiter w" "\<not> uses_deamon sp wd l q" "\<not> IsVsyncListener (wd_listeners wd l)"
  shows "\<exists>w'. Epoll_AddFileDescriptor k fd events n (Some l) prio w = (True, w') \<and> q_ioWaiter q' = EpollWaiter w' \<and>
    same_course q q' \<and> q_usable q' \<and> q_usable q"
proof -
  have e: "EnsureIoWaiterLocked sp wd di ni l (q, d) = (True, q, d)"
    using assms(2,3) by (simp add: EnsureIoWaiterLocked_def io_SupportListeningFileDescriptor_def)
  obtain ok w' where a: "Epoll_AddFileDescriptor k fd events n (Some l) prio w = (ok, w')" by fastforce
  obtain d1 where b: "AddFileDescriptorByFd sp wd k kd fd events n l prio (q, d) = (ok, q\<lparr>q_ioWaiter := EpollWaiter w'\<rparr>, d1)"
    using assms(2-4) a by (auto simp: AddFileDescriptorByFd_def io_AddFileDescriptor_def uses_deamon_def Let_def)
  show ?thesis
    using assms(1) e a b
    by (auto simp: AddFileDescriptorListener_def AddFileDescriptorListenerBase_def same_course_def split: if_splits)
qed

lemma Epoll_Add_keeps:
  "Epoll_AddFileDescriptor k fd events n l p w = (True, w') \<Longrightarrow>
     io_callback w' = io_callback w \<and> io_awakenFd w' = io_awakenFd w"
  by (auto simp: Epoll_AddFileDescriptor_def Epoll_InsertFileDescriptorMap_def call_def Let_def split: if_splits)

lemma ready_is_reported:
  assumes "Epoll_AddFileDescriptor k fd events n l p w = (True, w')" "ordered_map (io_map w)"
    and "Epoll_GetFileDescriptorMap fd w = None" "io_callback w" "fd \<noteq> io_awakenFd w"
    and "ready AND NOT FILE_DESCRIPTOR_EVENTS_MASK = 0"
    and "Epoll_WaitFor_leave ls False 1 False [(fd, to_epoll_events ready)] w' = (ok, cbs, w2)"
  shows "cbs = [\<lparr>cb_fd = fd, cb_events = ready, cb_taskName = n, cb_priority = p\<rparr>]"
proof -
  have "Epoll_GetFileDescriptorMap fd w' = Some \<lparr>fi_taskName = n, fi_priority = p, fi_listener = l\<rparr>"
    using ep.add_new [of w k fd events n l p] assms(1-3) by (simp add: epoll_wf_def)
  then show ?thesis
    using assms(4-7) Epoll_Add_keeps [OF assms(1)] epoll_events_roundtrip [OF assms(6)]
    by (auto simp: Epoll_WaitFor_leave_def epoll_dispatch_def Epoll_GetFileDescriptorMap_def Let_def)
qed

section \<open>From the descriptor to its listener\<close>

lemma listener_post:
  assumes "Handler_AddFileDescriptorListener c h fd events (Some l) n prio sy = (ERR_OK, sy1)"
    and "wd_runner (sy_world sy) h = Some r" "sy_queue sy r = BaseQueue q" "wd_alive (sy_world sy) h"
    and "q_ioWaiter q = EpollWaiter w" "\<not> uses_deamon (ca_sp c) (sy_world sy) l q"
    and "\<not> IsVsyncListener (wd_listeners (sy_world sy) l)"
  shows "\<exists>q1 w1. sy_queue sy1 r = BaseQueue q1 \<and> q_ioWaiter q1 = EpollWaiter w1 \<and> same_course q q1 \<and> q_usable q1 \<and>
    Epoll_AddFileDescriptor (ca_kernel c) fd events n (Some l) prio w = (True, w1) \<and>
    wd_runner (sy_world sy1) h = Some r \<and>
    (\<forall>cb. cb_fd cb = fd \<longrightarrow> HandleFileDescriptorEvent (sy_world sy1) cb q1 =
       Some \<lparr>fp_handler = h, fp_callback = FdTask fd (cb_events cb) l False, fp_name = cb_taskName cb,
             fp_priority = cb_priority cb, fp_vsync = False\<rparr>)"
proof -
  let ?wd = "(sy_world sy)\<lparr>wd_listeners := Listener_SetOwner l h (wd_listeners (sy_world sy))\<rparr>"
  obtain err q1 d where a: "AddFileDescriptorListener (ca_sp c) ?wd (ca_deamonInit c) (ca_epollInit c) (ca_kernel c)
      (ca_deamonKernel c) fd events (Some l) n prio (q, sy_deamon sy) = (err, q1, d)" by (metis prod_cases3)
  with assms(1-3) have r: "err = ERR_OK" "sy_queue sy1 r = BaseQueue q1" "sy_world sy1 = ?wd"
    by (auto simp: Handler_AddFileDescriptorListener_def rq_AddFileDescriptorListener_def apsnd_def apfst_def
        map_prod_def set_queue_def Let_def split: if_splits)
  note a = a [unfolded r(1)]
  have "\<not> uses_deamon (ca_sp c) ?wd l q" using assms(6) by (simp add: uses_deamon_def)
  from added_to_epoll [OF a assms(5) this] assms(7) obtain w1 where
    "Epoll_AddFileDescriptor (ca_kernel c) fd events n (Some l) prio w = (True, w1)" "q_ioWaiter q1 = EpollWaiter w1"
    "same_course q q1" "q_usable q1" by auto
  moreover have "HandleFileDescriptorEvent (sy_world sy1) cb q1 =
      Some \<lparr>fp_handler = h, fp_callback = FdTask fd (cb_events cb) l False, fp_name = cb_taskName cb,
            fp_priority = cb_priority cb, fp_vsync = False\<rparr>" if "cb_fd cb = fd" for cb
    using added_listener_is_found [OF a] r(3) assms(4,7) that
    by (simp add: HandleFileDescriptorEvent_def Listener_GetOwner_def Listener_SetOwner_def IsVsyncListener_def Let_def)
  ultimately show ?thesis using r assms(2) by auto
qed

text \<open>
  C6. A ready descriptor reaches its listener: when a handler has added a listener for a descriptor and
  \<open>epoll_wait\<close> reports the descriptor ready, the loop executes a task that calls exactly the functions
  of that listener for the reported events, within the bound of every other event and although
  others keep using the queue.
\<close>

theorem ready_descriptor_reaches_listener:
  assumes "Handler_AddFileDescriptorListener c h fd events (Some l) n prio sy = (ERR_OK, sy1)"
    and "wd_runner (sy_world sy) h = Some r" "sy_queue sy r = BaseQueue q" "wd_alive (sy_world sy) h"
    and "q_ioWaiter q = EpollWaiter w" "\<not> uses_deamon (ca_sp c) (sy_world sy) l q"
    and "\<not> IsVsyncListener (wd_listeners (sy_world sy) l)"
    and "queue_reach sp wd' q" "prio \<in> {VIP, IMMEDIATE, HIGH, LOW}"
    and "ordered_map (io_map w)" "Epoll_GetFileDescriptorMap fd w = None" "io_callback w" "fd \<noteq> io_awakenFd w"
    and "sy_queue sy1 r = BaseQueue q1" "q_ioWaiter q1 = EpollWaiter w1"
    and "Epoll_WaitFor_leave (wd_listeners (sy_world sy1)) False 1 False [(fd, to_epoll_events ready)] w1 = (ok, cbs, w2)"
    and "ready AND NOT FILE_DESCRIPTOR_EVENTS_MASK = 0"
    and "sy2 = fold (post_fd_event c2 True cl r) cbs sy1" "sy_queue sy2 r = BaseQueue (ls_queue s)" "no_vsync (ls_queue s)"
    and "wd_alive wd h" "survives wa runner_of" "rn_runningMode rn \<noteq> MODE_NO_WAIT"
    and "216 * Suc (size (early (ca_now c2) q)) \<le> length (le_passes env)"
    and "\<forall>x. ev_owner x = Some h \<and> ev_handleTime x = ca_now c2 \<longrightarrow> (\<forall>p\<in>set (le_passes env). shared_pass wd x p)"
  shows "\<exists>s'. snd (EventRunnerImpl_Run sp wd wa runner_of True r thread proc env rn s) = OutOfRounds s' \<and>
    CallTask (FdTask fd ready l False) \<in> set (ls_actions s') \<and>
    fst (run_FdTask wd now fd ready l False (ls_queue s')) = (if wd_listenerAlive wd l then listener_calls fd ready else [])"
proof -
  from listener_post [OF assms(1-7)] assms(14,15) have
    q1: "same_course q q1" "q_usable q1" "wd_runner (sy_world sy1) h = Some r"
      "Epoll_AddFileDescriptor (ca_kernel c) fd events n (Some l) prio w = (True, w1)"
    and post: "\<And>cb. cb_fd cb = fd \<Longrightarrow> HandleFileDescriptorEvent (sy_world sy1) cb q1 =
       Some \<lparr>fp_handler = h, fp_callback = FdTask fd (cb_events cb) l False, fp_name = cb_taskName cb,
             fp_priority = cb_priority cb, fp_vsync = False\<rparr>" by auto
  have lists: "same_lists q q1" using q1(1) by (simp add: same_course_def)
  then have wf: "queue_wf q1" and c: "content q1 = content q"
    using queue_reach_inv [OF assms(8)] same_wf_content [of q q1] by simp_all
  let ?task = "new_event\<lparr>ev_taskCallback := Some (FdTask fd ready l False), ev_taskName := n, ev_caller := cl\<rparr>"
  have "sy2 = snd (SendEvent c2 h (Some ?task) 0 prio sy1)"
    using assms(18) ready_is_reported [OF q1(4) assms(10-13,17,16)] post assms(14)
    by (simp add: post_fd_event_def PostTask_def Get_task_def)
  moreover have "prio \<in> {VIP, IMMEDIATE, HIGH, LOW, IDLE}" using assms(9) by auto
  from SendEvent_base [OF q1(3) assms(14) wf q1(2) this, of c2 ?task 0] obtain q' e' where
    s: "SendEvent c2 h (Some ?task) 0 prio sy1 = (True, set_queue r (BaseQueue q') sy1)"
      "content q' = add_mset e' (content q1)" "queue_wf q'" "q_usable q'"
      "sent_event c2 (sy_world sy1) h 0 ?task e'" "ev_priority e' = prio_int prio" by blast
  ultimately have ls: "ls_queue s = q'" using assms(19) by (simp add: set_queue_def)
  have "ev_priority e' \<noteq> 4" using s(6) assms(9) by auto
  moreover have "\<forall>x. sent_event c2 (sy_world sy1) h 0 ?task x \<longrightarrow> (\<forall>p\<in>set (le_passes env). shared_pass wd x p)"
    using assms(25) by (simp add: sent_event_def)
  ultimately obtain s' evs acts where
    r: "snd (EventRunnerImpl_Run sp wd wa runner_of True r thread proc env rn s) = OutOfRounds s'"
      "ls_actions s' = ls_actions s @ acts" "done_with e' evs acts"
    using sent_run_executes [of c2 "sy_world sy1" h 0 ?task e' s q wd wa runner_of rn env sp r thread proc]
      s ls c assms(20-24) by auto
  have "run_action e' = CallTask (FdTask fd ready l False)" using s(5) by (simp add: sent_event_def run_action_def)
  with r show ?thesis by (auto simp: done_with_def run_FdTask_def Let_def)
qed

definition epoll_queue :: event_queue_base where
  \<comment> \<open>an empty queue with an initialised epoll waiter\<close>
  "epoll_queue = apply_op default_params small_world (DoListeners [] (EpollWaiter some_epoll)) (queue_with [])"

definition listening :: "err_code \<times> system" where
  "listening = Handler_AddFileDescriptorListener (call_at 900) 2 9 1 (Some 3) ''n'' HIGH (system_of epoll_queue)"

definition queue_of :: "runner_queue \<Rightarrow> event_queue_base" where
  [eh_defs]: "queue_of rq = (case rq of BaseQueue q \<Rightarrow> q | FfrtQueue f \<Rightarrow> new_queue 0)"

definition waiter_of :: "io_waiter \<Rightarrow> epoll_waiter" where
  [eh_defs]: "waiter_of w = (case w of EpollWaiter e \<Rightarrow> e | NoneWaiter x \<Rightarrow> new_epoll)"

definition reported :: "bool \<times> fd_callback list \<times> epoll_waiter" where
  "reported = Epoll_WaitFor_leave (wd_listeners (sy_world (snd listening))) False 1 False [(9, to_epoll_events 1)]
     (waiter_of (q_ioWaiter (queue_of (sy_queue (snd listening) 2))))"

definition reported_queue :: event_queue_base where
  "reported_queue = queue_of (sy_queue
     (fold (post_fd_event (call_at 1000) True no_caller 2) (fst (snd reported)) (snd listening)) 2)"

theorem ready_descriptor_reaches_listener_witness:
  "\<exists>s'. snd (EventRunnerImpl_Run default_params small_world small_watch some_runner True 2 7 77 busy_env
       (new_runner True MODE_DEFAULT 0) (loop_start reported_queue)) = OutOfRounds s' \<and>
     CallTask (FdTask 9 1 3 False) \<in> set (ls_actions s') \<and>
     fst (run_FdTask small_world 0 9 1 3 False (ls_queue s')) = [OnReadable 9]"
proof -
  let ?sy = "system_of epoll_queue"
  let ?q1 = "queue_of (sy_queue (snd listening) 2)"
  let ?sy2 = "fold (post_fd_event (call_at 1000) True no_caller 2) (fst (snd reported)) (snd listening)"
  have a: "Handler_AddFileDescriptorListener (call_at 900) 2 9 1 (Some 3) ''n'' HIGH ?sy = (ERR_OK, snd listening)"
  proof -
    have "fst listening = ERR_OK" by code_simp
    then show ?thesis unfolding listening_def by (metis prod.collapse)
  qed
  have sy: "wd_runner (sy_world ?sy) 2 = Some 2" "sy_queue ?sy 2 = BaseQueue epoll_queue" "wd_alive (sy_world ?sy) 2"
    "q_ioWaiter epoll_queue = EpollWaiter some_epoll" "\<not> uses_deamon (ca_sp (call_at 900)) (sy_world ?sy) 3 epoll_queue"
    "\<not> IsVsyncListener (wd_listeners (sy_world ?sy) 3)" by (code_simp, (simp add: system_of_def), code_simp+)
  have reach: "queue_reach default_params small_world epoll_queue"
    unfolding epoll_queue_def by (rule queue_reach.operation [OF queue_with_reach])
  have w: "io_map some_epoll = []" "Epoll_GetFileDescriptorMap 9 some_epoll = None" "io_callback some_epoll"
    "9 \<noteq> io_awakenFd some_epoll" by code_simp+
  have "case sy_queue (snd listening) 2 of BaseQueue q \<Rightarrow> (case q_ioWaiter q of EpollWaiter e \<Rightarrow> True | _ \<Rightarrow> False) | _ \<Rightarrow> False"
    "case sy_queue ?sy2 2 of BaseQueue q \<Rightarrow> True | _ \<Rightarrow> False" by code_simp+
  then have q1: "sy_queue (snd listening) 2 = BaseQueue ?q1" "q_ioWaiter ?q1 = EpollWaiter (waiter_of (q_ioWaiter ?q1))"
    and q2: "sy_queue ?sy2 2 = BaseQueue (ls_queue (loop_start reported_queue))"
    by (auto simp: queue_of_def waiter_of_def reported_queue_def loop_start_def split: runner_queue.splits io_waiter.splits)
  have "no_vsync reported_queue" by code_simp
  then have v: "no_vsync (ls_queue (loop_start reported_queue))" by (simp add: loop_start_def)
  have r: "rn_runningMode (new_runner True MODE_DEFAULT 0) \<noteq> MODE_NO_WAIT" and al: "wd_alive small_world 2"
    and n: "queued epoll_queue = []" and bits: "(1 :: u32) AND NOT FILE_DESCRIPTOR_EVENTS_MASK = 0" by code_simp+
  have sv: "survives small_watch some_runner" by (simp add: survives_def some_runner_def)
  have l: "216 * Suc (size (early (ca_now (call_at 1000)) epoll_queue)) \<le> length (le_passes busy_env)"
    by (simp add: early_def content_def n busy_env_def)
  have p: "\<forall>x. ev_owner x = Some 2 \<and> ev_handleTime x = ca_now (call_at 1000) \<longrightarrow>
      (\<forall>p\<in>set (le_passes busy_env). shared_pass small_world x p)"
    by (intro allI impI busy_env_shared) (simp add: call_at_def)
  have HIGH: "HIGH \<in> {VIP, IMMEDIATE, HIGH, LOW}" by simp
  have om: "ordered_map (io_map some_epoll)" by (simp add: w)
  have e: "Epoll_WaitFor_leave (wd_listeners (sy_world (snd listening))) False 1 False [(9, to_epoll_events 1)]
      (waiter_of (q_ioWaiter ?q1)) = (fst reported, fst (snd reported), snd (snd reported))"
    by (simp add: reported_def)
  have lc: "listener_calls 9 1 = [OnReadable 9]" "wd_listenerAlive small_world 3" by code_simp+
  from ready_descriptor_reaches_listener [OF a sy reach HIGH om w(2-4) q1 e bits refl q2 v al sv r l p, of 7 77 0]
  show ?thesis by (simp add: lc)
qed

section \<open>The task of a vsync listener\<close>

lemma SendEvent_inserts:
  assumes "wd_runner (sy_world sy) h = Some r" "sy_queue sy r = BaseQueue q"
  shows "\<exists>x. sent_event c (sy_world sy) h d e x \<and> snd (SendEvent c h (Some e) d prio sy) =
    set_queue r (BaseQueue (snd (Insert (ca_sp c) (sy_world sy) (ca_now c) (ca_consumer c) (Some x) prio AT_END NO_BARRIER q))) sy"
proof -
  let ?e1 = "SetEventUniqueId (ca_now c) (e\<lparr>ev_sendTime := ca_now c, ev_senderKernelThreadId := ca_tid c\<rparr>)"
  let ?e2 = "?e1\<lparr>ev_handleTime := (if d > 0 then ca_now c + d * MS else ca_now c),
      ev_ownerId := wd_handlerId (sy_world sy) h, ev_delayTime := d, ev_owner := Some h\<rparr>"
  let ?e3 = "if rn_threadMode (sy_runner sy r) \<noteq> THREAD_FFRT then fst (SetStackId (ca_stackId c) ?e2) else ?e2"
  have "snd (SendEvent c h (Some e) d prio sy) =
    set_queue r (BaseQueue (snd (Insert (ca_sp c) (sy_world sy) (ca_now c) (ca_consumer c) (Some ?e3) prio AT_END NO_BARRIER q))) sy"
    using assms by (simp add: SendEvent_def Let_def rq_Insert_def apsnd_def map_prod_def case_prod_unfold)
  moreover have "sent_event c (sy_world sy) h d e ?e3"
    by (simp add: sent_event_def SetEventUniqueId_def SetStackId_def)
  ultimately show ?thesis by blast
qed

lemma PostTaskForVsync_base:
  assumes "wd_runner (sy_world sy) (fp_handler p) = Some r" "sy_queue sy r = BaseQueue q" "queue_wf q" "q_usable q"
    and "fp_priority p = VIP" "sy_queue (PostTaskForVsync c True cl p sy) r = BaseQueue q'"
  shows "\<exists>e. content q' = add_mset e (content q) \<and> queue_wf q' \<and> ev_isVsync e \<and> ev_priority e = 0 \<and>
    ev_handleTime e = ca_now c + UINT32_MAX * MS \<and> ev_taskCallback e = Some (fp_callback p) \<and>
    q_sumOfPendingVsync q' = q_sumOfPendingVsync q + 1 \<and> q_finished q' = q_finished q \<and> b_idleEvents q' = b_idleEvents q"
proof -
  let ?task = "new_event\<lparr>ev_taskCallback := Some (fp_callback p), ev_taskName := fp_name p, ev_caller := cl, ev_isVsync := True\<rparr>"
  have "PostTaskForVsync c True cl p sy = snd (SendEvent c (fp_handler p) (Some ?task) UINT32_MAX VIP sy)"
    using assms(1,5) by (simp add: PostTaskForVsync_def PostTaskForVsync_event_def Get_task_def)
  with SendEvent_inserts [OF assms(1,2), of c UINT32_MAX ?task VIP] assms(6) obtain x where
    x: "sent_event c (sy_world sy) (fp_handler p) UINT32_MAX ?task x"
    and q': "q' = snd (Insert (ca_sp c) (sy_world sy) (ca_now c) (ca_consumer c) (Some x) VIP AT_END NO_BARRIER q)"
    by (auto simp: set_queue_def)
  let ?e = "stored_event (sy_world sy) NO_BARRIER (q_vsyncPolicy q) VIP x"
  have VIP: "VIP \<in> {VIP, IMMEDIATE, HIGH, LOW, IDLE}" "VIP \<in> {VIP, IMMEDIATE, HIGH, LOW}" by simp_all
  have "content q' = add_mset ?e (content q)" unfolding q' by (rule Insert_end_content(2) [OF assms(3) VIP(1) assms(4)])
  moreover have "sent_event c (sy_world sy) (fp_handler p) UINT32_MAX ?task ?e" using x by (rule sent_event_stored)
  then have "ev_isVsync ?e" "ev_handleTime ?e = ca_now c + UINT32_MAX * MS" "ev_taskCallback ?e = Some (fp_callback p)"
    by (simp_all add: sent_event_def UINT32_MAX_def)
  moreover have "ev_priority ?e = 0" by (simp add: stored_event_def)
  moreover have "q_sumOfPendingVsync q' = q_sumOfPendingVsync q + 1"
    unfolding q' Insert_sum [OF assms(4) VIP(2)] using x by (simp add: sent_event_def)
  moreover have "q_finished q' = q_finished q" "b_idleEvents q' = b_idleEvents q"
    unfolding q' using assms(4)
    by (simp_all add: Insert_def Let_def insert_sub_def map_sub_def DispatchVsyncTaskNotify_def TryExecuteObserverCallback_def
        notify_observer_def)
  moreover have "queue_wf q'" unfolding q' by (rule Insert_wf [OF assms(3)])
  ultimately show ?thesis by blast
qed

text \<open>
  C10. A vsync task does not wait for its time, which lies 2^32 - 1 milliseconds ahead: when nothing
  else is due, the next \<open>GetEvent\<close> returns a vsync event without waiting, the one that was
  posted when there was no other. The pending count must not wrap around to zero.
\<close>

theorem vsync_task_does_not_wait:
  assumes "wd_runner (sy_world sy) (fp_handler p) = Some r" "sy_queue sy r = BaseQueue q" "queue_reach sp0 wd0 q" "q_usable q"
    and "fp_priority p = VIP" "sy_queue (PostTaskForVsync c True cl p sy) r = BaseQueue q'"
    and "q_sumOfPendingVsync q + 1 \<noteq> 0" "\<not> q_finished q" "b_idleEvents q = []"
    and "\<forall>e\<in>pending q. r_now rd < ev_handleTime e" "r_now rd < ca_now c + UINT32_MAX * MS"
  shows "\<exists>x q''. GetEvent sp wd (rd # rs) q' = Some (Some x, q'') \<and> x \<in># content q' \<and> ev_isVsync x \<and>
    r_now rd < ev_handleTime x \<and>
    (\<not> list_ex ev_isVsync (queued q) \<longrightarrow> ev_taskCallback x = Some (fp_callback p))"
proof -
  have wf: "queue_wf q" using queue_reach_inv [OF assms(3)] by blast
  from PostTaskForVsync_base [OF assms(1,2) wf assms(4-6)] obtain e where
    e: "content q' = add_mset e (content q)" "queue_wf q'" "ev_isVsync e" "ev_priority e = 0"
      "ev_handleTime e = ca_now c + UINT32_MAX * MS" "ev_taskCallback e = Some (fp_callback p)"
      "q_sumOfPendingVsync q' = q_sumOfPendingVsync q + 1" "q_finished q' = q_finished q" "b_idleEvents q' = b_idleEvents q" by blast
  have other: "x = e \<or> x \<in> pending q" if "x \<in># content q'" for x
  proof -
    have "x = e \<or> x \<in># content q" using that unfolding e(1) by simp
    then show ?thesis
      using queued_member [OF queue_wf_length [OF wf], of x] assms(9) by (auto simp: content_def pending_def)
  qed
  have late: "r_now rd < ev_handleTime x" if "x \<in># content q'" for x
    using other [OF that] e(5) assms(10,11) by auto
  let ?q1 = "CheckBarrierMode sp (r_now rd) q'"
  have c1: "content ?q1 = content q'" "queue_wf ?q1" using e(2) by (simp_all add: CheckBarrierMode_post)
  obtain res q2 where it: "GetEvent_iter sp wd rd q' = (res, q2)" by fastforce
  from it e(2) have "\<exists>x. res = Got x \<and> x \<in># content q' \<and> ev_isVsync x"
  proof (cases rule: GetEvent_iter_cases)
    case (event x t qx)
    from GetExpired_Some [OF event(3) c1(2)] have "handed_out_ok (r_now rd) ?q1 x" "x \<in># content q'"
      by (simp_all add: expired_post_def c1(1) [symmetric])
    with late event(2) show ?thesis by (force simp: handed_out_ok_def)
  next
    case (vsync x t qx)
    have "same_lists q' qx" using GetExpired_None_keep [OF vsync(3) c1(2)] by simp
    then have "content qx = content q'" "queue_wf qx" using same_wf_content [of q' qx] e(2) by simp_all
    with PickFirstVsync_Some(2,3) [OF vsync(5)] vsync(2) show ?thesis by (metis union_single_eq_member)
  next
    case (again t qx)
    have s: "same_lists q' qx" using GetExpired_None_keep [OF again(3) c1(2)] by simp
    have "e \<in> pending q'" using e(1,4) by (simp add: pending_content [OF e(2)])
    then have "e \<in> set (sq_queue (sub q' 0))" using e(4) queue_wf_priority [OF e(2)] by (fastforce simp: pending_def)
    with again(5) s e(3) show ?thesis by (auto simp: PickFirstVsync_None)
  next
    case finished
    with e(8) assms(8) show ?thesis by simp
  next
    case waited
    with e(7) assms(7) show ?thesis by simp
  qed
  then obtain x where x: "res = Got x" "x \<in># content q'" "ev_isVsync x" by blast
  have "ev_taskCallback x = Some (fp_callback p)" if "\<not> list_ex ev_isVsync (queued q)"
  proof -
    have "x = e \<or> x \<in># content q" using x(2) unfolding e(1) by simp
    with x(3) that e(6) show ?thesis by (auto simp: content_def list_ex_iff)
  qed
  with x it late show ?thesis by auto
qed

definition vsync_post :: fd_post where
  [eh_defs]: "vsync_post = \<lparr>fp_handler = 2, fp_callback = FdTask 9 1 3 True, fp_name = ''vSyncTask'', fp_priority = VIP, fp_vsync = True\<rparr>"

theorem vsync_task_does_not_wait_witness:
  "\<exists>x q' q''. sy_queue (PostTaskForVsync (call_at 1000) True no_caller vsync_post (system_of (queue_with [(LOW, task_at 5000)]))) 2 = BaseQueue q' \<and>
     GetEvent default_params small_world [quiet_round 1001] q' = Some (Some x, q'') \<and> ev_taskCallback x = Some (FdTask 9 1 3 True)"
proof -
  let ?sy = "system_of (queue_with [(LOW, task_at 5000)])"
  let ?p = "sy_queue (PostTaskForVsync (call_at 1000) True no_caller vsync_post ?sy) 2"
  have "case ?p of BaseQueue q \<Rightarrow> True | _ \<Rightarrow> False" by code_simp
  then obtain q' where q': "?p = BaseQueue q'" by (auto split: runner_queue.splits)
  have s: "wd_runner (sy_world ?sy) (fp_handler vsync_post) = Some 2" "q_usable (queue_with [(LOW, task_at 5000)])"
    "fp_priority vsync_post = VIP" and v: "q_sumOfPendingVsync (queue_with [(LOW, task_at 5000)]) + 1 \<noteq> 0"
    "\<not> q_finished (queue_with [(LOW, task_at 5000)])" "b_idleEvents (queue_with [(LOW, task_at 5000)]) = []"
    and t: "list_all (\<lambda>s. list_all (\<lambda>e. 1001 < ev_handleTime e) (sq_queue s)) (b_subEventQueues (queue_with [(LOW, task_at 5000)]))"
    and n: "\<not> list_ex ev_isVsync (queued (queue_with [(LOW, task_at 5000)]))" by code_simp+
  have b: "sy_queue ?sy 2 = BaseQueue (queue_with [(LOW, task_at 5000)])" by (simp add: system_of_def)
  have "length (b_subEventQueues (queue_with [(LOW, task_at 5000)])) = 4" by (rule queue_wf_length [OF queue_with_wf])
  with t have "\<forall>e\<in>pending (queue_with [(LOW, task_at 5000)]). r_now (quiet_round 1001) < ev_handleTime e"
    using nth_mem [of _ "b_subEventQueues (queue_with [(LOW, task_at 5000)])"]
    by (fastforce simp: pending_def quiet_round_def list_all_iff)
  moreover have "r_now (quiet_round 1001) < ca_now (call_at 1000) + UINT32_MAX * MS"
    by (simp add: quiet_round_def call_at_def UINT32_MAX_def MS_def)
  ultimately obtain x q'' where "GetEvent default_params small_world [quiet_round 1001] q' = Some (Some x, q'')"
    "ev_taskCallback x = Some (fp_callback vsync_post)"
    using vsync_task_does_not_wait [OF s(1) b queue_with_reach s(2,3) q' v] n by blast
  with q' show ?thesis by (auto simp: vsync_post_def)
qed

end
