(* ===== verification/Loop_Removal.thy ===== *)
theory Loop_Removal
  imports Loop_Liveness
begin

text \<open>
  A removed event is not executed any more: what the loop executes was in the queue when it began or
  was sent since. This holds for every predicate that does not depend on the fields that an insertion
  sets, for both modes of the loop, and whatever else the handlers and other threads do.
\<close>

section \<open>What is in the queue\<close>

definition steady :: "(inner_event \<Rightarrow> bool) \<Rightarrow> bool" where
  \<comment> \<open>insertion sets the barrier mark, the priority and the handle time\<close>
  "steady P \<longleftrightarrow> (\<forall>x b p t. P (x\<lparr>ev_isBarrier := b, ev_priority := p, ev_handleTime := t\<rparr>) = P x)"

fun sends_none :: "(inner_event \<Rightarrow> bool) \<Rightarrow> queue_op \<Rightarrow> bool" where
  "sends_none P (DoInsert now c e prio it opt) = (\<not> P e)"
| "sends_none P op = True"

definition free_of :: "(inner_event \<Rightarrow> bool) \<Rightarrow> event_queue_base \<Rightarrow> bool" where
  "free_of P q \<longleftrightarrow> queue_wf q \<and> (\<forall>x\<in>#content q. \<not> P x)"

lemma free_of_same: "same_lists q q' \<Longrightarrow> free_of P q' = free_of P q"
  using same_wf_content [of q q'] by (simp add: free_of_def)

lemma free_of_mono: "free_of P q \<Longrightarrow> queue_wf q' \<Longrightarrow> content q' \<subseteq># content q \<Longrightarrow> free_of P q'"
  unfolding free_of_def by (meson mset_subset_eqD)

lemma steady_stored:
  assumes "steady P"
  shows "P ((stored_event wd op pol prio e)\<lparr>ev_handleTime := t\<rparr>) = P e"
proof -
  let ?m = "MarkBarrierTaskIfNeed wd op pol e"
  have "(stored_event wd op pol prio e)\<lparr>ev_handleTime := t\<rparr> =
      e\<lparr>ev_isBarrier := ev_isBarrier ?m, ev_priority := prio_int prio, ev_handleTime := t\<rparr>"
    using MarkBarrierTaskIfNeed_cases [of wd op pol e] by (auto simp: stored_event_def)
  with assms show ?thesis unfolding steady_def by metis
qed

lemma Insert_free:
  assumes "steady P" "free_of P q" "\<not> P e"
  shows "free_of P (snd (Insert sp wd now c (Some e) prio it opt q))"
proof (cases "q_usable q \<and> prio \<in> {VIP, IMMEDIATE, HIGH, LOW, IDLE}")
  case True
  have wf: "queue_wf q" using assms(2) by (simp add: free_of_def)
  from Insert_content [OF wf, of prio e sp wd now c it opt] True obtain t where
    "content (snd (Insert sp wd now c (Some e) prio it opt q)) =
       add_mset ((stored_event wd opt (q_vsyncPolicy q) prio e)\<lparr>ev_handleTime := t\<rparr>) (content q)" by auto
  with assms Insert_wf [OF wf] show ?thesis by (auto simp: free_of_def steady_stored)
next
  case False
  then have "same_lists q (snd (Insert sp wd now c (Some e) prio it opt q))"
    using Insert_lists [where q = q and prio = prio and wd = wd and op = opt and e = e and it = it and sp = sp
        and now = now and c = c]
    by (cases prio) (auto simp: put_event_def split: if_splits)
  from free_of_same [OF this] assms(2) show ?thesis by simp
qed

lemma apply_op_free:
  assumes "steady P" "free_of P q" "sends_none P op"
  shows "free_of P (apply_op sp wd op q)"
proof (cases "list_op op")
  case True
  have wf: "queue_wf (apply_op sp wd op q)" using assms(2) by (simp add: free_of_def apply_op_wf)
  show ?thesis
  proof (cases op)
    case (DoInsert now c e prio it opt)
    with assms Insert_free show ?thesis by simp
  next
    case (DoRemove now c Q)
    have "content (apply_op sp wd op q) \<subseteq># content q"
      using content_same [OF Remove_filter_lists [where q = q and P = Q and sp = sp and now = now and c = c]]
      by (simp add: DoRemove drop_events_content)
    then show ?thesis by (rule free_of_mono [OF assms(2) wf])
  next
    case DoRemoveAll
    have "(\<Sum>x\<leftarrow>ss. mset (sq_queue (with_queue [] x))) = {#}" for ss
      by (induction ss) (simp_all add: with_queue_def)
    then have "content (RemoveAll q) = (if q_usable q then {#} else content q)"
      by (simp add: RemoveAll_def content_sum comp_def)
    then have "content (apply_op sp wd op q) \<subseteq># content q" by (simp add: DoRemoveAll)
    then show ?thesis by (rule free_of_mono [OF assms(2) wf])
  next
    case (DoRemoveOrphan now c)
    have "content (apply_op sp wd op q) \<subseteq># content q"
      using content_same [OF RemoveOrphan_filter_lists [where q = q and wd = wd and sp = sp and now = now and c = c]]
      by (simp add: DoRemoveOrphan drop_events_content)
    then show ?thesis by (rule free_of_mono [OF assms(2) wf])
  qed (use True in simp_all)
next
  case False
  from free_of_same [OF apply_op_same [OF False]] assms(2) show ?thesis by blast
qed

lemma apply_ops_free:
  "steady P \<Longrightarrow> free_of P q \<Longrightarrow> \<forall>op\<in>set ops. sends_none P op \<Longrightarrow> free_of P (apply_ops sp wd ops q)"
  by (induction ops arbitrary: q) (simp_all add: apply_ops_def apply_op_free)

lemma others_ran_free:
  assumes "others_ran sp wd ops q q'" "steady P" "free_of P q" "\<forall>op\<in>set ops. sends_none P op"
  shows "free_of P q'"
  using assms(1) unfolding others_ran_def
proof
  assume "same_lists q q'"
  with free_of_same assms(3) show ?thesis by blast
next
  assume "\<exists>qx. same_lists q qx \<and> same_lists (apply_ops sp wd ops qx) q'"
  then obtain qx where "free_of P qx" "same_lists (apply_ops sp wd ops qx) q'"
    using free_of_same assms(3) by blast
  with apply_ops_free [OF assms(2) _ assms(4)] free_of_same show ?thesis by blast
qed

section \<open>What is taken out\<close>

lemma expired_free:
  assumes "GetExpiredEventLocked now nx q = (ev, t, q')" "free_of P q"
  shows "free_of P q' \<and> (\<forall>e. ev = Some e \<longrightarrow> \<not> P e)"
proof (cases ev)
  case None
  have "same_lists q q'" using GetExpired_None_keep [of now nx q t q'] assms None by (simp add: free_of_def)
  with free_of_same assms(2) None show ?thesis by blast
next
  case (Some e)
  with GetExpired_Some [of now nx q e t q'] assms show ?thesis by (auto simp: free_of_def expired_post_def)
qed

lemma GetEvent_iter_free:
  assumes "GetEvent_iter sp wd r q = (res, q')" "free_of P q" "steady P" "\<forall>op\<in>set (r_others r). sends_none P op"
  shows "free_of P q' \<and> (\<forall>e. res = Got e \<longrightarrow> \<not> P e)"
proof -
  have wf: "queue_wf q" using assms(2) by (simp add: free_of_def)
  have f: "free_of P (CheckBarrierMode sp (r_now r) q)" using assms(2) free_of_same [of q "CheckBarrierMode sp (r_now r) q"] by simp
  from assms(1) wf show ?thesis
  proof (cases rule: GetEvent_iter_cases)
    case finished
    with assms(2) show ?thesis by simp
  next
    case (event e t q2)
    from expired_free [OF event(3) f] others_ran_free [OF event(4) assms(3) _ assms(4)] event(2) show ?thesis by simp
  next
    case (vsync e t q2)
    have "free_of P q2" using expired_free [OF vsync(3) f] by blast
    with PickFirstVsync_Some(1,2) [OF vsync(5)] vsync(2) show ?thesis by (simp add: free_of_def)
  next
    case (again t q2)
    have "same_lists q2 q'" by (simp add: again(6) SetBarrierMode_def)
    moreover have "free_of P q2" using expired_free [OF again(3) f] by blast
    ultimately show ?thesis using free_of_same [of q2 q' P] again(2) by simp
  next
    case (waited t q2 next1 q3 cbs)
    from others_ran_free [OF waited(7) assms(3,2,4)] waited(2) show ?thesis by simp
  qed
qed

lemma GetEvent_free:
  assumes "GetEvent sp wd rs q = Some (ev, q')" "free_of P q" "steady P" "\<forall>r\<in>set rs. \<forall>op\<in>set (r_others r). sends_none P op"
  shows "free_of P q' \<and> (\<forall>e. ev = Some e \<longrightarrow> \<not> P e)"
  using assms
proof (induction rs arbitrary: q)
  case (Cons r rs)
  obtain res q1 where it: "GetEvent_iter sp wd r q = (res, q1)" by fastforce
  have step: "free_of P q1" "\<And>e. res = Got e \<Longrightarrow> \<not> P e"
    using GetEvent_iter_free [OF it Cons.prems(2,3)] Cons.prems(4) by simp_all
  have "free_of P q' \<and> (\<forall>e. ev = Some e \<longrightarrow> \<not> P e)" if "GetEvent sp wd rs q1 = Some (ev, q')"
    using Cons.IH [OF that step(1) Cons.prems(3)] Cons.prems(4) by simp
  with step Cons.prems(1) it show ?case by (cases res) auto
qed simp

section \<open>The loops\<close>

definition pass_sends_none :: "(inner_event \<Rightarrow> bool) \<Rightarrow> round list \<times> exec_env \<Rightarrow> bool" where
  "pass_sends_none P p \<longleftrightarrow> list_all (\<lambda>r. list_all (sends_none P) (r_others r)) (fst p) \<and>
     list_all (sends_none P) (xe_during (snd p))"

definition env_sends_none :: "(inner_event \<Rightarrow> bool) \<Rightarrow> loop_env \<Rightarrow> bool" where
  \<comment> \<open>nothing that satisfies \<open>P\<close> is sent while the loop runs, by whatever thread or handler\<close>
  [eh_defs]: "env_sends_none P env \<longleftrightarrow> list_all (pass_sends_none P) (le_passes env) \<and>
     list_all (\<lambda>p. list_all (sends_none P) (xe_during (snd p))) (le_first env @ le_second env) \<and>
     list_all (sends_none P) (le_others env)"

definition executes_none :: "(inner_event \<Rightarrow> bool) \<Rightarrow> loop_state \<Rightarrow> loop_state \<Rightarrow> bool" where
  "executes_none P s s' \<longleftrightarrow> free_of P (ls_queue s') \<and>
     (\<exists>evs. executed s' = executed s @ evs \<and> (\<forall>e\<in>set evs. \<not> P e))"

lemma executes_none_trans: "executes_none P s s1 \<Longrightarrow> executes_none P s1 s2 \<Longrightarrow> executes_none P s s2"
  unfolding executes_none_def by fastforce

lemma executes_none_same: "free_of P (ls_queue s') \<Longrightarrow> ls_executed s' = ls_executed s \<Longrightarrow> executes_none P s s'"
  by (simp add: executes_none_def executed_def)

lemma ExecuteEventHandler_none:
  assumes "ExecuteEventHandler sp wd w runner_of x e s = Some s'" "free_of P (ls_queue s)" "\<not> P e" "steady P"
    and "\<forall>op\<in>set (xe_during x). sends_none P op"
  shows "executes_none P s s'"
  using assms(1)
proof (cases rule: ExecuteEventHandler_cases)
  case orphan
  with assms(2) show ?thesis by (simp add: executes_none_same)
next
  case (distributed h acts loc)
  have lists: "same_lists q (PushHistoryQueueBeforeDistribute t u ev q)" "same_lists q (PushHistoryQueueAfterDistribute t q)"
    "same_lists q (NotifyObserverVipDone now c z q)" for q t u ev now c z
    by (simp_all add: PushHistoryQueueBeforeDistribute_def PushHistoryQueueAfterDistribute_def
        NotifyObserverVipDone_def NotifyObserverVipDoneBase_def Let_def split: option.split)
  let ?q2 = "apply_ops sp wd (xe_during x) (PushHistoryQueueBeforeDistribute (xe_before x) (xe_before2 x) (Some e) (ls_queue s))"
  have "free_of P ?q2" using assms(2,4,5) free_of_same [OF lists(1)] by (intro apply_ops_free) auto
  then have "free_of P (PushHistoryQueueAfterDistribute (xe_after x) ?q2)" using free_of_same [OF lists(2)] by blast
  moreover from this have "free_of P (NotifyObserverVipDone (xe_vipDone x) (xe_consumer x) e
      (PushHistoryQueueAfterDistribute (xe_after x) ?q2))" using free_of_same [OF lists(3)] by blast
  ultimately have "free_of P (ls_queue s')" by (simp add: distributed(5) Let_def)
  then show ?thesis using distributed(3) assms(3) by (simp add: executes_none_def executed_def)
qed

definition ends_in :: "loop_state \<Rightarrow> loop_end \<Rightarrow> bool" where
  \<comment> \<open>the loop stopped there, or the passes that are given ended there\<close>
  "ends_in s' stop \<longleftrightarrow> stop = Stopped s' \<or> stop = OutOfRounds s'"

lemma DefaultModeLoop_none:
  assumes "ends_in s' (DefaultModeLoop sp wd w runner_of main passes s)" "free_of P (ls_queue s)" "steady P"
    and "list_all (pass_sends_none P) passes"
  shows "executes_none P s s'"
  using assms
proof (induction passes arbitrary: s)
  case Nil
  then show ?case by (simp add: ends_in_def executes_none_same)
next
  case (Cons p passes)
  obtain rs x where p: "p = (rs, x)" by fastforce
  have ops: "\<forall>r\<in>set rs. \<forall>op\<in>set (r_others r). sends_none P op" "\<forall>op\<in>set (xe_during x). sends_none P op"
    using Cons.prems(4) by (auto simp: pass_sends_none_def p list_all_iff)
  show ?case
  proof (cases "GetEvent sp wd rs (ls_queue s)")
    case None
    with Cons.prems show ?thesis by (simp add: p ends_in_def executes_none_same)
  next
    case (Some evq)
    obtain ev q where g: "GetEvent sp wd rs (ls_queue s) = Some (ev, q)" using Some by (cases evq) auto
    from GetEvent_free [OF g Cons.prems(2,3) ops(1)] have q: "free_of P q" "\<And>e. ev = Some e \<Longrightarrow> \<not> P e" by auto
    show ?thesis
    proof (cases ev)
      case None
      with Cons.prems(1) g have "s' = s\<lparr>ls_queue := q\<rparr>" by (simp add: p ends_in_def)
      with q(1) show ?thesis by (simp add: executes_none_same)
    next
      case (Some e)
      define s1 where "s1 = s\<lparr>ls_queue := q,
        ls_actions := ls_actions s @ (if main \<and> fst (wa_localHandle w) then [OpenLocalHandle] else [])\<rparr>"
      have 1: "executes_none P s s1" using q(1) by (simp add: s1_def executes_none_same)
      from Cons.prems(1) g Some obtain s2 where x: "ExecuteEventHandler sp wd w runner_of x e s1 = Some s2"
        and l: "ends_in s' (DefaultModeLoop sp wd w runner_of main passes
           (s2\<lparr>ls_actions := ls_actions s2 @ (if main \<and> snd (wa_localHandle w) then [CloseLocalHandle] else [])\<rparr>))"
        by (auto simp: p ends_in_def s1_def Let_def split: option.splits)
      have 2: "executes_none P s1 s2"
        using ExecuteEventHandler_none [OF x _ q(2) [OF Some] Cons.prems(3) ops(2)] q(1) by (simp add: s1_def)
      let ?s3 = "s2\<lparr>ls_actions := ls_actions s2 @ (if main \<and> snd (wa_localHandle w) then [CloseLocalHandle] else [])\<rparr>"
      have 3: "executes_none P s2 ?s3" using 2 by (intro executes_none_same) (simp_all add: executes_none_def)
      then have "free_of P (ls_queue ?s3)" by (simp add: executes_none_def)
      from Cons.IH [OF l this Cons.prems(3)] Cons.prems(4) have "executes_none P ?s3 s'" by simp
      with 1 2 3 show ?thesis by (blast intro: executes_none_trans)
    qed
  qed
qed

lemma expired_loop_none:
  assumes "ends_in s' (expired_loop sp wd w runner_of passes s)" "free_of P (ls_queue s)" "steady P"
    and "list_all (\<lambda>p. list_all (sends_none P) (xe_during (snd p))) passes"
  shows "executes_none P s s'"
  using assms
proof (induction passes arbitrary: s)
  case Nil
  then show ?case by (simp add: ends_in_def executes_none_same)
next
  case (Cons p passes)
  obtain now x where p: "p = (now, x)" by fastforce
  obtain ev t q where g: "GetExpiredEvent now TIME_MAX (ls_queue s) = (ev, t, q)" by (metis prod_cases3)
  from expired_free [OF g [unfolded GetExpiredEvent_def] Cons.prems(2)] have
    q: "free_of P q" "\<And>e. ev = Some e \<Longrightarrow> \<not> P e" by auto
  show ?case
  proof (cases ev)
    case None
    with Cons.prems(1) g have "s' = s\<lparr>ls_queue := q\<rparr>" by (simp add: p ends_in_def)
    with q(1) show ?thesis by (simp add: executes_none_same)
  next
    case (Some e)
    from Cons.prems(1) g Some obtain s2 where x: "ExecuteEventHandler sp wd w runner_of x e (s\<lparr>ls_queue := q\<rparr>) = Some s2"
      and l: "ends_in s' (expired_loop sp wd w runner_of passes s2)"
      by (auto simp: p ends_in_def split: option.splits)
    have "\<forall>op\<in>set (xe_during x). sends_none P op" using Cons.prems(4) by (simp add: p list_all_iff)
    from ExecuteEventHandler_none [OF x _ q(2) [OF Some] Cons.prems(3) this] q(1)
    have 1: "executes_none P (s\<lparr>ls_queue := q\<rparr>) s2" by simp
    then have "free_of P (ls_queue s2)" by (simp add: executes_none_def)
    from Cons.IH [OF l this Cons.prems(3)] Cons.prems(4) have "executes_none P s2 s'" by simp
    moreover have "executes_none P s (s\<lparr>ls_queue := q\<rparr>)" using q(1) by (simp add: executes_none_same)
    ultimately show ?thesis using 1 by (blast intro: executes_none_trans)
  qed
qed

lemma NoWaitModeLoop_none:
  assumes "ends_in s' (NoWaitModeLoop sp wd w runner_of passes others wo passes' s)" "free_of P (ls_queue s)" "steady P"
    and "list_all (\<lambda>p. list_all (sends_none P) (xe_during (snd p))) (passes @ passes')" "\<forall>op\<in>set others. sends_none P op"
  shows "executes_none P s s'"
proof (cases "expired_loop sp wd w runner_of passes s")
  case (Stopped s1)
  define q where "q = snd (CheckFileDescriptorEvent wd (apply_ops sp wd others) wo (ls_queue s1))"
  have 1: "executes_none P s s1" using assms Stopped by (intro expired_loop_none) (auto simp: ends_in_def)
  then have "free_of P q" unfolding q_def CheckFileDescriptorEvent_def
    by (intro others_ran_free [OF WaitUntilLocked_others assms(3) _ assms(5)]) (simp add: executes_none_def)
  then have 2: "executes_none P s1 (s1\<lparr>ls_queue := q\<rparr>)" "free_of P (ls_queue (s1\<lparr>ls_queue := q\<rparr>))"
    by (simp_all add: executes_none_same)
  have "ends_in s' (expired_loop sp wd w runner_of passes' (s1\<lparr>ls_queue := q\<rparr>))"
    using assms(1) Stopped by (simp add: NoWaitModeLoop_def q_def case_prod_unfold)
  from expired_loop_none [OF this 2(2) assms(3)] assms(4) have "executes_none P (s1\<lparr>ls_queue := q\<rparr>) s'" by simp
  with 1 2(1) show ?thesis by (blast intro: executes_none_trans)
next
  case (OutOfRounds s1)
  with assms(1) have "s' = s1" by (simp add: NoWaitModeLoop_def ends_in_def)
  with assms OutOfRounds show ?thesis by (intro expired_loop_none) (auto simp: ends_in_def)
qed (use assms(1) in \<open>simp add: NoWaitModeLoop_def ends_in_def\<close>)

lemma Run_none:
  assumes "ends_in s' (snd (EventRunnerImpl_Run sp wd w runner_of alive r thread proc env rn s))" "free_of P (ls_queue s)"
    and "steady P" "env_sends_none P env"
  shows "executes_none P s s'"
proof -
  let ?s1 = "s\<lparr>ls_queue := Prepare (ls_queue s)\<rparr>"
  let ?s2 = "set_loop_runner (Some r) ?s1"
  have f: "free_of P (Prepare (ls_queue s))"
    using assms(2) free_of_same [of "ls_queue s" "Prepare (ls_queue s)"] by (simp add: Prepare_def PrepareBase_def)
  then have 1: "executes_none P s ?s1" "executes_none P s ?s2"
    by (simp_all add: executes_none_same set_loop_runner_def)
  let ?stop = "if rn_runningMode rn = MODE_NO_WAIT
    then NoWaitModeLoop sp wd w runner_of (le_first env) (le_others env) (le_outcome env) (le_second env) ?s2
    else DefaultModeLoop sp wd w runner_of (wd_mainRunner wd = Some r) (le_passes env) ?s2"
  have loop: "executes_none P s t" if "ends_in t ?stop" for t
  proof -
    have "executes_none P ?s2 t"
    proof (cases "rn_runningMode rn = MODE_NO_WAIT")
      case True
      with that f assms(3,4) show ?thesis
        by (intro NoWaitModeLoop_none) (auto simp: env_sends_none_def list_all_iff set_loop_runner_def)
    next
      case False
      with that f assms(3,4) show ?thesis
        by (intro DefaultModeLoop_none) (auto simp: env_sends_none_def set_loop_runner_def)
    qed
    with 1(2) show ?thesis by (rule executes_none_trans)
  qed
  show ?thesis
  proof (cases alive)
    case False
    with assms(1) have "s' = ?s1" by (simp add: EventRunnerImpl_Run_def ends_in_def)
    with 1(1) show ?thesis by simp
  next
    case True
    then have "snd (EventRunnerImpl_Run sp wd w runner_of alive r thread proc env rn s) =
        restore_runner (tl_runner (ls_locals s)) ?stop" by (simp add: EventRunnerImpl_Run_def Let_def)
    with assms(1) obtain t where t: "ends_in t ?stop" "ls_queue s' = ls_queue t" "ls_executed s' = ls_executed t"
      by (cases ?stop) (auto simp: ends_in_def set_loop_runner_def)
    from loop [OF t(1)] t(2,3) show ?thesis by (simp add: executes_none_def executed_def)
  qed
qed

section \<open>After a removal\<close>

datatype removal = AllEvents | WithId u32 | WithIdAndParam u32 int | WithName string

definition remove_call :: "call_env \<Rightarrow> handler_ref \<Rightarrow> removal \<Rightarrow> system \<Rightarrow> system" where
  \<comment> \<open>the calls of a handler that remove events\<close>
  "remove_call c h rm sy =
     (case rm of
        AllEvents \<Rightarrow> RemoveAllEvents c h sy
      | WithId i \<Rightarrow> RemoveEvent c h i sy
      | WithIdAndParam i param \<Rightarrow> RemoveEvent_param c h i param sy
      | WithName name \<Rightarrow> RemoveTask c h name sy)"

definition removes :: "string \<Rightarrow> removal \<Rightarrow> inner_event \<Rightarrow> bool" where
  \<comment> \<open>the events that a handler with this id asks to be removed; tasks without a name cannot be\<close>
  [eh_defs]: "removes oid rm e \<longleftrightarrow> ev_ownerId e = oid \<and>
     (case rm of
        AllEvents \<Rightarrow> True
      | WithId i \<Rightarrow> \<not> HasTask e \<and> GetInnerEventId e = i
      | WithIdAndParam i param \<Rightarrow> \<not> HasTask e \<and> GetInnerEventId e = i \<and> ev_param e = param
      | WithName name \<Rightarrow> name \<noteq> [] \<and> HasTask e \<and> ev_taskName e = name)"

lemma removes_steady: "steady (removes oid rm)"
  by (cases rm) (simp_all add: steady_def removes_def HasTask_def GetInnerEventId_def)

lemma remove_call_free:
  assumes "wd_runner (sy_world sy) h = Some r" "sy_queue sy r = BaseQueue q" "queue_wf q" "q_usable q"
    and "sy_queue (remove_call c h rm sy) r = BaseQueue q'"
  shows "free_of (removes (wd_handlerId (sy_world sy) h) rm) q'"
proof -
  let ?P = "removes (wd_handlerId (sy_world sy) h) rm"
  have drop: "free_of ?P (Remove_filter sp now c Q q)" if "\<And>x. ?P x \<Longrightarrow> Q x" for sp now c Q
    using Remove_filter_wf [OF assms(3)] assms(4) that by (auto simp: free_of_def content_def Remove_filter_queued)
  show ?thesis
  proof (cases rm)
    case AllEvents
    with assms(1,2,5) have "q' = Remove_filter (ca_sp c) (ca_now c) (ca_consumer c) (\<lambda>p. ev_ownerId p = wd_handlerId (sy_world sy) h) q"
      by (simp add: remove_call_def RemoveAllEvents_def on_runner_def rq_Remove_owner_def Remove_owner_def set_queue_def)
    then show ?thesis by (elim ssubst, intro drop) (simp add: removes_def AllEvents)
  next
    case (WithId i)
    with assms(1,2,5) have "q' = Remove_filter (ca_sp c) (ca_now c) (ca_consumer c)
        (\<lambda>p. \<not> HasTask p \<and> ev_ownerId p = wd_handlerId (sy_world sy) h \<and> GetInnerEventId p = i) q"
      by (simp add: remove_call_def RemoveEvent_def on_runner_def rq_Remove_id_def Remove_id_def set_queue_def)
    then show ?thesis by (elim ssubst, intro drop) (simp add: removes_def WithId)
  next
    case (WithIdAndParam i param)
    with assms(1,2,5) have "q' = Remove_filter (ca_sp c) (ca_now c) (ca_consumer c)
        (\<lambda>p. \<not> HasTask p \<and> ev_ownerId p = wd_handlerId (sy_world sy) h \<and> GetInnerEventId p = i \<and> ev_param p = param) q"
      by (simp add: remove_call_def RemoveEvent_param_def on_runner_def rq_Remove_id_param_def Remove_id_param_def set_queue_def)
    then show ?thesis by (elim ssubst, intro drop) (simp add: removes_def WithIdAndParam)
  next
    case (WithName name)
    show ?thesis
    proof (cases "name = []")
      case True
      with WithName assms(3) have "?P = (\<lambda>_. False)" by (simp add: removes_def fun_eq_iff)
      moreover from WithName True assms(1,2,5) have "q' = q"
        by (simp add: remove_call_def RemoveTask_def on_runner_def rq_Remove_name_def Remove_name_def set_queue_def)
      ultimately show ?thesis using assms(3) by (simp add: free_of_def)
    next
      case False
      with WithName assms(1,2,5) have "q' = Remove_filter (ca_sp c) (ca_now c) (ca_consumer c)
          (\<lambda>p. HasTask p \<and> ev_ownerId p = wd_handlerId (sy_world sy) h \<and> ev_taskName p = name) q"
        by (simp add: remove_call_def RemoveTask_def on_runner_def rq_Remove_name_def Remove_name_def set_queue_def Let_def)
      then show ?thesis by (elim ssubst, intro drop) (simp add: removes_def WithName)
    qed
  qed
qed

text \<open>
  C7. What was removed is not executed: after a handler removed all its events, those with an id, with
  an id and a parameter, or the tasks with a name, a run of its runner in either mode executes no
  such event, unless one is sent anew, whatever else handlers and other threads do meanwhile.
\<close>

theorem removed_events_never_run:
  assumes "wd_runner (sy_world sy) h = Some r" "sy_queue sy r = BaseQueue q" "queue_reach sp0 wd0 q" "q_usable q"
    and "sy_queue (remove_call c h rm sy) r = BaseQueue (ls_queue s)"
    and "env_sends_none (removes (wd_handlerId (sy_world sy) h) rm) env"
    and "ends_in s' (snd (EventRunnerImpl_Run sp wd w runner_of owner_alive r thread proc env rn s))"
  shows "\<exists>evs. executed s' = executed s @ evs \<and> (\<forall>e\<in>set evs. \<not> removes (wd_handlerId (sy_world sy) h) rm e)"
proof -
  have "queue_wf q" using queue_reach_inv [OF assms(3)] by blast
  from Run_none [OF assms(7) remove_call_free [OF assms(1,2) this assms(4,5)] removes_steady assms(6)]
  show ?thesis by (simp add: executes_none_def)
qed

definition two_tasks :: event_queue_base where
  \<comment> \<open>a task of handler 1 and, later, one of handler 3\<close>
  [eh_defs]: "two_tasks = queue_with [(HIGH, task_at 30), (LOW, (task_at 35)\<lparr>ev_owner := Some 3, ev_ownerId := ''3''\<rparr>)]"

definition left_queue :: event_queue_base where
  "left_queue = (case sy_queue (remove_call (call_at 35) 1 (WithName ''t'') (system_of two_tasks)) 1 of
     BaseQueue q \<Rightarrow> q | FfrtQueue f \<Rightarrow> new_queue 0)"

theorem removed_events_never_run_witness:
  "\<exists>s'. snd (EventRunnerImpl_Run default_params small_world small_watch some_runner True 1 7 77 one_event_env
       (new_runner True MODE_DEFAULT 0) (loop_start left_queue)) = Stopped s' \<and>
     executed s' \<noteq> [] \<and> (\<forall>e\<in>set (executed s'). \<not> removes ''1'' (WithName ''t'') e)"
proof -
  let ?sy = "system_of two_tasks"
  let ?run = "snd (EventRunnerImpl_Run default_params small_world small_watch some_runner True 1 7 77 one_event_env
       (new_runner True MODE_DEFAULT 0) (loop_start left_queue))"
  have "case ?run of Stopped s' \<Rightarrow> ls_executed s' \<noteq> [] | _ \<Rightarrow> False" by code_simp
  then obtain s' where s': "?run = Stopped s'" "executed s' \<noteq> []"
    by (auto simp: executed_def split: loop_end.splits)
  have s: "wd_runner (sy_world ?sy) 1 = Some 1" "q_usable two_tasks" and id: "wd_handlerId (sy_world ?sy) 1 = ''1''"
    by code_simp+
  have b: "sy_queue ?sy 1 = BaseQueue two_tasks" by (simp add: system_of_def)
  have reach: "queue_reach default_params small_world two_tasks" unfolding two_tasks_def by (rule queue_with_reach)
  have "case sy_queue (remove_call (call_at 35) 1 (WithName ''t'') ?sy) 1 of BaseQueue q \<Rightarrow> True | _ \<Rightarrow> False" by code_simp
  then have q: "sy_queue (remove_call (call_at 35) 1 (WithName ''t'') ?sy) 1 = BaseQueue (ls_queue (loop_start left_queue))"
    by (simp add: left_queue_def loop_start_def split: runner_queue.splits)
  have env: "env_sends_none P one_event_env" for P
    by (simp add: env_sends_none_def one_event_env_def pass_sends_none_def quiet_round_def exec_at_def)
  have "ends_in s' ?run" using s'(1) by (simp add: ends_in_def)
  from removed_events_never_run [OF s(1) b reach s(2) q env this] s' show ?thesis
    unfolding id by (auto simp: loop_start_def executed_def)
qed

end
