(* ===== verification/Composite_Event.thy ===== *)
theory Composite_Event
  imports Inner_Event "HOL-Library.Char_ord" "HOL-Library.List_Lexorder"
begin

text \<open>
  The keys of the subscription tables of the emitters: event ids with the comparison of
  \<open>std::variant\<close>, and \<open>struct CompositeEventId\<close> of
  \<open>frameworks/emitter/base/include/composite_event.h\<close> with its two operators. Both comparisons
  are linear orders, which is what \<open>std::map\<close> asks of them, so the ordered association lists of
  \<open>Prelude\<close> apply. Strings compare by their unsigned characters, as \<open>std::string\<close> does.
\<close>

section \<open>Event ids\<close>

fun variant_index :: "event_id \<Rightarrow> nat" where
  "variant_index (IdU32 n) = 0"
| "variant_index (IdStr s) = 1"

fun variant_less :: "event_id \<Rightarrow> event_id \<Rightarrow> bool" where
  \<comment> \<open>\<open>operator<\<close> of \<open>std::variant\<close>: the indices first, then the values\<close>
  "variant_less (IdU32 m) (IdU32 n) \<longleftrightarrow> m < n"
| "variant_less (IdStr s) (IdStr t) \<longleftrightarrow> s < t"
| "variant_less a b \<longleftrightarrow> variant_index a < variant_index b"

instantiation event_id :: linorder
begin

definition less_event_id :: "event_id \<Rightarrow> event_id \<Rightarrow> bool" where
  [eh_defs]: "less_event_id a b = variant_less a b"

definition less_eq_event_id :: "event_id \<Rightarrow> event_id \<Rightarrow> bool" where
  [eh_defs]: "less_eq_event_id a b \<longleftrightarrow> a = b \<or> variant_less a b"

instance
proof
  fix a b c :: event_id
  show "a < b \<longleftrightarrow> a \<le> b \<and> \<not> b \<le> a"
    by (cases a; cases b) (auto simp: less_event_id_def less_eq_event_id_def)
  show "a \<le> a" by (simp add: less_eq_event_id_def)
  show "a \<le> b \<Longrightarrow> b \<le> c \<Longrightarrow> a \<le> c"
    by (cases a; cases b; cases c) (auto simp: less_eq_event_id_def)
  show "a \<le> b \<Longrightarrow> b \<le> a \<Longrightarrow> a = b"
    by (cases a; cases b) (auto simp: less_eq_event_id_def)
  show "a \<le> b \<or> b \<le> a"
    by (cases a; cases b) (auto simp: less_eq_event_id_def)
qed

end

section \<open>Composite event ids\<close>

datatype composite_id = CompositeEventId (cid_eventId: event_id) (cid_emitterId: u32)

definition composite_of :: "event_id \<Rightarrow> composite_id" where
  \<comment> \<open>the constructors without an emitter: the events of the module itself\<close>
  [eh_defs]: "composite_of i = CompositeEventId i 0"

fun u32_of :: "event_id \<Rightarrow> u32" where
  \<comment> \<open>\<open>std::get<uint32_t>\<close>, used only where the index is 0\<close>
  "u32_of (IdU32 n) = n"
| "u32_of (IdStr s) = 0"

fun str_of :: "event_id \<Rightarrow> string" where
  "str_of (IdStr s) = s"
| "str_of (IdU32 n) = []"

definition composite_less :: "composite_id \<Rightarrow> composite_id \<Rightarrow> bool" where
  "composite_less a b =
     (if cid_emitterId a \<noteq> cid_emitterId b then cid_emitterId a < cid_emitterId b
      else if variant_index (cid_eventId a) \<noteq> variant_index (cid_eventId b)
      then variant_index (cid_eventId a) < variant_index (cid_eventId b)
      else if variant_index (cid_eventId a) = 0
      then u32_of (cid_eventId a) < u32_of (cid_eventId b)
      else str_of (cid_eventId a) < str_of (cid_eventId b))"

definition composite_differs :: "composite_id \<Rightarrow> composite_id \<Rightarrow> bool" where
  \<comment> \<open>\<open>operator!=\<close>\<close>
  "composite_differs a b \<longleftrightarrow> cid_emitterId a \<noteq> cid_emitterId b \<or> cid_eventId a \<noteq> cid_eventId b"

lemma composite_less_lex:
  "composite_less a b \<longleftrightarrow>
     cid_emitterId a < cid_emitterId b \<or>
     cid_emitterId a = cid_emitterId b \<and> cid_eventId a < cid_eventId b"
  by (cases "cid_eventId a"; cases "cid_eventId b") (auto simp: composite_less_def less_event_id_def)

lemma composite_differs_iff [simp]: "composite_differs a b \<longleftrightarrow> a \<noteq> b"
  by (cases a; cases b) (auto simp: composite_differs_def)

instantiation composite_id :: linorder
begin

definition less_composite_id :: "composite_id \<Rightarrow> composite_id \<Rightarrow> bool" where
  [eh_defs]: "less_composite_id a b = composite_less a b"

definition less_eq_composite_id :: "composite_id \<Rightarrow> composite_id \<Rightarrow> bool" where
  [eh_defs]: "less_eq_composite_id a b \<longleftrightarrow> a = b \<or> composite_less a b"

instance
proof
  fix a b c :: composite_id
  show "a < b \<longleftrightarrow> a \<le> b \<and> \<not> b \<le> a"
    by (auto simp: less_composite_id_def less_eq_composite_id_def composite_less_lex)
  show "a \<le> a" by (simp add: less_eq_composite_id_def)
  show "a \<le> b \<Longrightarrow> b \<le> c \<Longrightarrow> a \<le> c"
    by (auto simp: less_eq_composite_id_def composite_less_lex)
  show "a \<le> b \<Longrightarrow> b \<le> a \<Longrightarrow> a = b"
    by (auto simp: less_eq_composite_id_def composite_less_lex)
  show "a \<le> b \<or> b \<le> a"
    by (cases a; cases b) (auto simp: less_eq_composite_id_def composite_less_lex)
qed

end

text \<open>
  \<open>std::map\<close> finds a key by comparisons only: two keys are the same entry when neither is less
  than the other. With \<open>composite_less\<close> these are exactly the equal keys.
\<close>

lemma composite_equivalent_iff_equal:
  "\<not> composite_less a b \<and> \<not> composite_less b a \<longleftrightarrow> a = b"
proof -
  have "\<not> a < b \<and> \<not> b < a \<longleftrightarrow> a = b" by auto
  then show ?thesis by (simp add: less_composite_id_def)
qed

end
