(* ===== verification/Js_Subscriptions.thy ===== *)
theory Js_Subscriptions
  imports Handler Composite_Event
begin

text \<open>
  The subscription table of the script emitter: \<open>emitterInstances\<close> of
  \<open>frameworks/napi/src/events_emitter.cpp\<close> with the functions that read and change it, and
  \<open>interops.h\<close>, \<open>interops.cpp\<close>. The entries are shared between the table and the calls that are
  under way, so they live in a store and the table holds their numbers. An \<open>unordered_set\<close> is a
  list in an order in which it may be iterated. What the script engine answers about a value is a
  record; whether two functions are the same (\<open>napi_strict_equals\<close>) is an argument \<open>same\<close>.
\<close>

section \<open>Values of the engine\<close>

datatype napi_valuetype = napi_string | napi_number | napi_object | napi_function | napi_other

datatype js_data = NoData | Serialized nat | SerializedNull | NotSerializable

record js_value =
  \<comment> \<open>the answers to \<open>napi_typeof\<close>, \<open>napi_get_value_string_utf8\<close>, \<open>napi_get_value_uint32\<close>, the
     function itself, the properties \<open>eventId\<close> and \<open>priority\<close>, and the serialisation of the
     property \<open>data\<close>\<close>
  jv_type :: napi_valuetype
  jv_string :: string
  jv_uint32 :: u32
  jv_function :: nat
  jv_eventId :: "u32 option"
  jv_priority :: "u32 option"
  jv_data :: js_data

definition NAPI_VALUE_STRING_LEN :: nat where
  [eh_defs]: "NAPI_VALUE_STRING_LEN = 10240"

definition napi_string_value :: "js_value \<Rightarrow> string" where
  \<comment> \<open>the engine copies at most the size of the buffer less the final zero\<close>
  [eh_defs]: "napi_string_value v = take (NAPI_VALUE_STRING_LEN - 1) (jv_string v)"

definition GetEventIdWithObjectOrString :: "js_value \<Rightarrow> event_id option" where
  "GetEventIdWithObjectOrString v =
     (if jv_type v = napi_string then
        (if napi_string_value v = [] then None else Some (IdStr (napi_string_value v)))
      else map_option IdU32 (jv_eventId v))"

definition GetEventIdWithNumberOrString :: "js_value \<Rightarrow> event_id option" where
  "GetEventIdWithNumberOrString v =
     (if jv_type v = napi_string then
        (if napi_string_value v = [] then None else Some (IdStr (napi_string_value v)))
      else Some (IdU32 (jv_uint32 v)))"

section \<open>State\<close>

record async_callback_info =
  ai_env :: "nat option"
  ai_once :: bool
  ai_isDeleted :: bool
  ai_callback :: nat
  ai_tsfn :: nat
  ai_eventId :: event_id
  ai_emitterId :: u32

record event_worker =
  \<comment> \<open>\<open>struct EventDataWorker\<close>\<close>
  wk_data :: "object_ref option"
  wk_callbackInfo :: nat
  wk_isCrossRuntime :: bool
  wk_enhancedData :: "nat option"
  wk_IsEnhanced :: bool

record js_state =
  \<comment> \<open>\<open>js_infos\<close> and \<open>js_next\<close>: the store of entries and its next free number; \<open>js_wrapped\<close>: the
     entries a finalizer of the engine knows; \<open>js_calls\<close>: the calls of thread-safe functions that
     the engine has still to make\<close>
  js_infos :: "nat \<Rightarrow> async_callback_info"
  js_next :: nat
  js_instances :: "(composite_id \<times> nat list) list"
  js_wrapped :: "nat list"
  js_calls :: "event_worker list"
  js_deleteEnv :: "nat option"
  js_nextEmitterInstanceId :: u32
  js_isInit :: bool

definition no_info :: async_callback_info where
  [eh_defs]: "no_info =
     \<lparr>ai_env = None, ai_once = False, ai_isDeleted = False, ai_callback = 0, ai_tsfn = 0,
      ai_eventId = IdU32 0, ai_emitterId = 0\<rparr>"

definition new_js_state :: js_state where
  [eh_defs]: "new_js_state =
     \<lparr>js_infos = (\<lambda>_. no_info), js_next = 0, js_instances = [], js_wrapped = [], js_calls = [],
      js_deleteEnv = None, js_nextEmitterInstanceId = 1, js_isInit = False\<rparr>"

definition set_info ::
  "nat \<Rightarrow> (async_callback_info \<Rightarrow> async_callback_info) \<Rightarrow> js_state \<Rightarrow> js_state" where
  [eh_defs]: "set_info r f st = st\<lparr>js_infos := (js_infos st)(r := f (js_infos st r))\<rparr>"

definition mark_deleted :: "nat list \<Rightarrow> js_state \<Rightarrow> js_state" where
  \<comment> \<open>\<open>callbackInfo->isDeleted = true\<close> for every entry of a set\<close>
  [eh_defs]: "mark_deleted rs st =
     st\<lparr>js_infos := (\<lambda>r. if r \<in> set rs then (js_infos st r)\<lparr>ai_isDeleted := True\<rparr> else js_infos st r)\<rparr>"

definition js_set :: "composite_id \<Rightarrow> js_state \<Rightarrow> nat list" where
  \<comment> \<open>the set of a key, empty when the key is absent\<close>
  [eh_defs]: "js_set i st = (case map_of (js_instances st) i of None \<Rightarrow> [] | Some rs \<Rightarrow> rs)"

definition info_id :: "async_callback_info \<Rightarrow> composite_id" where
  [eh_defs]: "info_id a = CompositeEventId (ai_eventId a) (ai_emitterId a)"

section \<open>The functions on the table\<close>

definition js_SearchCallbackInfo ::
  "(nat \<Rightarrow> nat \<Rightarrow> bool) \<Rightarrow> nat \<Rightarrow> composite_id \<Rightarrow> nat \<Rightarrow> js_state \<Rightarrow> nat option" where
  "js_SearchCallbackInfo same env i fn st =
     (case map_of (js_instances st) i of
        None \<Rightarrow> None
      | Some rs \<Rightarrow>
          List.find (\<lambda>r. \<not> ai_isDeleted (js_infos st r) \<and> ai_env (js_infos st r) = Some env
                      \<and> same fn (ai_callback (js_infos st r))) rs)"

definition js_UpdateOnceFlag :: "nat \<Rightarrow> bool \<Rightarrow> js_state \<Rightarrow> js_state" where
  "js_UpdateOnceFlag r once st =
     (if \<not> once then
        (if ai_once (js_infos st r) then set_info r (\<lambda>a. a\<lparr>ai_once := False\<rparr>) st else st)
      else if ai_once (js_infos st r) then st
      else set_info r (\<lambda>a. a\<lparr>ai_once := True\<rparr>) st)"

definition js_new_info ::
  "nat \<Rightarrow> composite_id \<Rightarrow> nat \<Rightarrow> bool \<Rightarrow> nat \<Rightarrow> js_state \<Rightarrow> js_state" where
  \<comment> \<open>the entry that \<open>OnOrOnce\<close> and \<open>EmitterOnOrOnce\<close> build and insert; \<open>tsfn\<close> is the thread-safe
     function the engine creates\<close>
  "js_new_info env i fn once tsfn st =
     (let r = js_next st;
          info = \<lparr>ai_env = Some env, ai_once = once, ai_isDeleted = False, ai_callback = fn,
                  ai_tsfn = tsfn, ai_eventId = cid_eventId i, ai_emitterId = cid_emitterId i\<rparr>
      in st\<lparr>js_infos := (js_infos st)(r := info), js_next := Suc r,
            js_instances := map_assign i (js_set i st @ [r]) (js_instances st)\<rparr>)"

definition js_finalize :: "nat \<Rightarrow> js_state \<Rightarrow> js_state" where
  \<comment> \<open>the finalizer that \<open>OnOrOnce\<close> wraps into the function: the engine has collected it\<close>
  "js_finalize r st = set_info r (\<lambda>a. a\<lparr>ai_isDeleted := True, ai_env := None\<rparr>) st"

definition js_DeleteCallbackInfo ::
  "(nat \<Rightarrow> nat \<Rightarrow> bool) \<Rightarrow> nat \<Rightarrow> composite_id \<Rightarrow> nat \<Rightarrow> js_state \<Rightarrow> js_state" where
  "js_DeleteCallbackInfo same env i fn st =
     (case map_of (js_instances st) i of
        None \<Rightarrow> st
      | Some rs \<Rightarrow>
          (case List.find (\<lambda>r. ai_env (js_infos st r) = Some env
                             \<and> same fn (ai_callback (js_infos st r))) rs of
             None \<Rightarrow> st
           | Some r \<Rightarrow>
               (mark_deleted [r] st)\<lparr>js_instances := map_assign i (remove1 r rs) (js_instances st)\<rparr>))"

definition js_DeleteAll :: "composite_id \<Rightarrow> js_state \<Rightarrow> js_state" where
  \<comment> \<open>the end of \<open>JS_Off\<close> and \<open>JS_EmitterOff\<close>: every subscription of the event\<close>
  "js_DeleteAll i st =
     (case map_of (js_instances st) i of
        None \<Rightarrow> st
      | Some rs \<Rightarrow> (mark_deleted rs st)\<lparr>js_instances := map_erase i (js_instances st)\<rparr>)"

definition live_entry :: "js_state \<Rightarrow> nat \<Rightarrow> bool" where
  \<comment> \<open>the test of the loops that drop entries\<close>
  [eh_defs]: "live_entry st r \<longleftrightarrow> \<not> (ai_isDeleted (js_infos st r) \<or> ai_env (js_infos st r) = None)"

definition js_purge :: "composite_id \<Rightarrow> js_state \<Rightarrow> nat list \<times> js_state" where
  \<comment> \<open>\<open>EventHandlerInstance::GetAsyncCallbackInfo\<close>\<close>
  "js_purge i st =
     (case map_of (js_instances st) i of
        None \<Rightarrow> ([], st)
      | Some rs \<Rightarrow>
          (filter (live_entry st) rs,
           st\<lparr>js_instances := map_assign i (filter (live_entry st) rs) (js_instances st)\<rparr>))"

definition js_count :: "composite_id \<Rightarrow> js_state \<Rightarrow> u32 \<times> js_state" where
  \<comment> \<open>the loop at the end of \<open>JS_GetListenerCount\<close> and \<open>JS_EmitterGetListenerCount\<close>\<close>
  "js_count i st = (let (rs, st1) = js_purge i st in (of_nat (length rs), st1))"

definition js_IsExistValidCallback :: "composite_id \<Rightarrow> js_state \<Rightarrow> bool" where
  "js_IsExistValidCallback i st =
     (case map_of (js_instances st) i of None \<Rightarrow> False | Some rs \<Rightarrow> length rs \<noteq> 0)"

definition DeleteEmitterInstance :: "u32 \<Rightarrow> js_state \<Rightarrow> js_state" where
  "DeleteEmitterInstance emitterId st =
     (let gone = filter (\<lambda>(i, rs). cid_emitterId i = emitterId) (js_instances st)
      in (mark_deleted (concat (map snd gone)) st)
           \<lparr>js_instances := filter (\<lambda>(i, rs). cid_emitterId i \<noteq> emitterId) (js_instances st)\<rparr>)"

definition GetNextEmitterInstanceId :: "js_state \<Rightarrow> u32 \<times> js_state" where
  "GetNextEmitterInstanceId st =
     (js_nextEmitterInstanceId st + 1,
      st\<lparr>js_nextEmitterInstanceId := js_nextEmitterInstanceId st + 1\<rparr>)"

definition js_release_finalizer :: "u32 \<Rightarrow> js_state \<Rightarrow> js_state" where
  \<comment> \<open>the finalizer that \<open>JS_EmitterConstructor\<close> wraps into the object\<close>
  "js_release_finalizer emitterId st = (if emitterId \<noteq> 0 then DeleteEmitterInstance emitterId st else st)"

definition JS_EmitterConstructor :: "js_state \<Rightarrow> u32 \<times> js_state" where
  \<comment> \<open>the object that is returned carries the number\<close>
  [eh_defs]: "JS_EmitterConstructor st = GetNextEmitterInstanceId st"

definition Register :: "js_state \<Rightarrow> js_state" where
  \<comment> \<open>\<open>EmitterEnhancedApiRegister::Register\<close>: the functions registered are those of \<open>AgentInit\<close>\<close>
  [eh_defs]: "Register st = st\<lparr>js_isInit := True\<rparr>"

section \<open>Releasing an entry\<close>

datatype release_action = DeleteReference nat | ReleaseThreadsafeFunction nat | DeleteInfo

definition ReleaseCallbackInfo ::
  "bool \<Rightarrow> bool \<Rightarrow> bool \<Rightarrow> async_callback_info \<Rightarrow> release_action list \<times> release_action list" where
  \<comment> \<open>what is done at once and what on the loop of the engine; the arguments say whether the loop
     was found, the work was allocated and queued\<close>
  "ReleaseCallbackInfo loop_found work_allocated was_queued info =
     (if \<not> loop_found then ([DeleteInfo], [])
      else if \<not> work_allocated then ([DeleteInfo], [])
      else if was_queued then ([], [DeleteReference (ai_callback info), ReleaseThreadsafeFunction (ai_tsfn info), DeleteInfo])
      else ([DeleteInfo], []))"

end
