(* ===== verification/Emitter_Data.thy ===== *)
theory Emitter_Data
  imports Js_Subscriptions
begin

text \<open>
  The data that an event of the emitters carries between two runtimes:
  \<open>frameworks/emitter/base/include/serialize.h\<close>, \<open>napi_serialize.cpp\<close>, \<open>ani_serialize.cpp\<close> and
  \<open>ani_deserialize.cpp\<close>. The answers of the engines are a record; the calls that acquire and give
  back their resources are recorded in order.
\<close>

datatype env_type = NAPI | ANI

record serialize_data =
  \<comment> \<open>\<open>struct SerializeData\<close>; the peer data is what its own environment made, \<open>None\<close> a null value\<close>
  sd_peerNapi :: "nat option"
  sd_peerAni :: "nat option"
  sd_crossData :: "nat option"
  sd_env :: "nat option"
  sd_envType :: env_type
  sd_isCrossRuntime :: bool

definition new_serialize_data :: serialize_data where
  [eh_defs]: "new_serialize_data =
     \<lparr>sd_peerNapi = None, sd_peerAni = None, sd_crossData = None, sd_env = None, sd_envType = NAPI,
      sd_isCrossRuntime = False\<rparr>"

definition SerializeData_type :: cxx_type where
  [eh_defs]: "SerializeData_type = \<lparr>type_name = 4, type_size = 48\<rparr>"

type_synonym heap = "object_ref \<Rightarrow> serialize_data"

definition PeerSerialize :: "js_value \<Rightarrow> serialize_data \<Rightarrow> serialize_data option" where
  \<comment> \<open>\<open>NapiSerialize::PeerSerialize\<close>\<close>
  "PeerSerialize v d =
     (case jv_data v of
        NotSerializable \<Rightarrow> None
      | Serialized n \<Rightarrow> Some (d\<lparr>sd_peerNapi := Some n\<rparr>)
      | _ \<Rightarrow> Some (d\<lparr>sd_peerNapi := None\<rparr>))"

section \<open>From and to the static runtime\<close>

record interop_answers =
  \<comment> \<open>\<open>ia_argv\<close>: there is an object; \<open>ia_record\<close>: its property \<open>data\<close>, \<open>None\<close> where the lookup fails and
     \<open>Some None\<close> for a null reference; then one answer for each call in the order of the code\<close>
  ia_argv :: bool
  ia_record :: "nat option option"
  ia_globalReference :: "nat option"
  ia_create :: bool
  ia_open :: bool
  ia_get :: bool
  ia_serialize :: "nat option option"
  ia_deserialize :: bool
  ia_esvalue :: "nat option"
  ia_delete :: bool
  ia_close :: bool

datatype interop_call = OpenScope | CloseScope | CreateHybrid | DeleteHybrid

definition ani_PeerSerialize :: "interop_answers \<Rightarrow> serialize_data \<Rightarrow> serialize_data option" where
  \<comment> \<open>\<open>AniSerialize::PeerSerialize\<close>\<close>
  "ani_PeerSerialize ia d =
     (if \<not> ia_argv ia then Some d
      else
        case ia_record ia of
          None \<Rightarrow> None
        | Some None \<Rightarrow> None
        | Some (Some r) \<Rightarrow>
            (case ia_globalReference ia of None \<Rightarrow> None | Some g \<Rightarrow> Some (d\<lparr>sd_peerAni := Some g\<rparr>)))"

definition CrossSerialize ::
  "interop_answers \<Rightarrow> serialize_data \<Rightarrow> serialize_data option \<times> interop_call list" where
  "CrossSerialize ia d =
     (if \<not> ia_argv ia then (Some d, [])
      else
        case ia_record ia of
          None \<Rightarrow> (None, [])
        | Some None \<Rightarrow> (None, [])
        | Some (Some r) \<Rightarrow>
            if \<not> ia_create ia then (None, [])
            else if \<not> ia_open ia then (None, [CreateHybrid, DeleteHybrid])
            else if \<not> ia_get ia then (None, [CreateHybrid, OpenScope, DeleteHybrid, CloseScope])
            else
              case ia_serialize ia of
                None \<Rightarrow> (None, [CreateHybrid, OpenScope, DeleteHybrid, CloseScope])
              | Some result \<Rightarrow>
                  (if \<not> ia_delete ia \<or> \<not> ia_close ia then None else Some (d\<lparr>sd_crossData := result\<rparr>),
                   [CreateHybrid, OpenScope, DeleteHybrid, CloseScope]))"

definition PeerDeserialize :: "serialize_data \<Rightarrow> bool \<times> nat option" where
  \<comment> \<open>the second component is the reference the caller passed, \<open>None\<close> where it is left unassigned\<close>
  "PeerDeserialize d = (True, sd_peerAni d)"

definition CrossDeserialize ::
  "interop_answers \<Rightarrow> serialize_data \<Rightarrow> (bool \<times> nat option) \<times> interop_call list" where
  "CrossDeserialize ia d =
     (if sd_peerNapi d = None then ((True, None), [])
      else if \<not> ia_open ia then ((False, None), [])
      else if \<not> ia_deserialize ia then ((False, None), [OpenScope, CloseScope])
      else if \<not> ia_create ia then ((False, None), [OpenScope, CloseScope])
      else
        case ia_esvalue ia of
          None \<Rightarrow> ((False, None), [OpenScope, CreateHybrid, CloseScope, DeleteHybrid])
        | Some v \<Rightarrow> ((ia_close ia, Some v), [OpenScope, CreateHybrid, DeleteHybrid, CloseScope]))"

text \<open>Whatever the engines answer, a scope that was opened is closed and a hybrid reference deleted.\<close>

lemma interop_releases:
  "count (mset (snd (CrossSerialize ia d))) OpenScope = count (mset (snd (CrossSerialize ia d))) CloseScope"
  "count (mset (snd (CrossSerialize ia d))) CreateHybrid = count (mset (snd (CrossSerialize ia d))) DeleteHybrid"
  "count (mset (snd (CrossDeserialize ia d))) OpenScope = count (mset (snd (CrossDeserialize ia d))) CloseScope"
  "count (mset (snd (CrossDeserialize ia d))) CreateHybrid = count (mset (snd (CrossDeserialize ia d))) DeleteHybrid"
  by (simp_all add: CrossSerialize_def CrossDeserialize_def split: option.splits)

end
