(* ===== verification/Callback_Manager.thy ===== *)
theory Callback_Manager
  imports Emitter_Data
begin

text \<open>
  The callback managers under \<open>frameworks/emitter/base\<close>: \<open>AniAsyncCallbackManager\<close> with its table,
  its queue of tasks and its worker thread, \<open>NapiAsyncCallbackManager\<close>, which works on the table
  of \<open>Js_Subscriptions\<close>, and \<open>AsyncCallbackManager\<close> over both. What the virtual machine and the
  engine answer is an argument; threads take their steps one at a time, each under its lock.
\<close>

section \<open>\<open>AniAsyncCallbackManager\<close>\<close>

record ani_callback_info =
  \<comment> \<open>\<open>struct AniAsyncCallbackInfo\<close>\<close>
  an_vm :: "nat option"
  an_dataType :: string
  an_callback :: nat
  an_once :: bool
  an_isDeleted :: bool
  an_eventId :: event_id
  an_emitterId :: u32
  an_workId :: nat

record ani_task =
  \<comment> \<open>\<open>struct AniTaskData\<close>\<close>
  at_cb :: nat
  at_serializeData :: "object_ref option"

datatype ani_worker = WkStart | WkTop | WkReady | WkWaiting | WkWoken | WkSent | WkSentWaiting | WkSentWoken

text \<open>
  The worker threads by their state: before they are attached to the virtual machine, at the top of the loop, about to look
  for a task, blocked on \<open>taskCond_\<close>, notified, and, after they have sent a task to the loop of the subscriber, about to
  test \<open>g_taskRunning\<close>, blocked on \<open>g_taskCond\<close>, and notified there. A spurious wake-up only repeats the test of a
  blocked thread under its lock and is left out. \<open>an_sent\<close>: the functions that were sent and have not run yet.
\<close>

record ani_state =
  an_infos :: "nat \<Rightarrow> ani_callback_info"
  an_next :: nat
  an_container :: "(composite_id \<times> nat list) list"
  an_taskData :: "ani_task list"
  an_taskRunning :: bool
  an_needNotify :: bool
  an_workers :: "ani_worker list"
  an_sent :: "(nat \<times> ani_task) list"
  an_g_taskRunning :: bool

definition no_ani_info :: ani_callback_info where
  [eh_defs]: "no_ani_info =
     \<lparr>an_vm = None, an_dataType = [], an_callback = 0, an_once = False, an_isDeleted = False,
      an_eventId = IdU32 0, an_emitterId = 0, an_workId = 0\<rparr>"

definition new_ani_state :: ani_state where
  [eh_defs]: "new_ani_state =
     \<lparr>an_infos = (\<lambda>_. no_ani_info), an_next = 0, an_container = [], an_taskData = [],
      an_taskRunning = False, an_needNotify = False, an_workers = [], an_sent = [],
      an_g_taskRunning = False\<rparr>"

definition ani_mark_deleted :: "nat list \<Rightarrow> ani_state \<Rightarrow> ani_state" where
  [eh_defs]: "ani_mark_deleted rs an =
     an\<lparr>an_infos := (\<lambda>r. if r \<in> set rs then (an_infos an r)\<lparr>an_isDeleted := True\<rparr> else an_infos an r)\<rparr>"

definition ani_set :: "composite_id \<Rightarrow> ani_state \<Rightarrow> nat list" where
  [eh_defs]: "ani_set i an = (case map_of (an_container an) i of None \<Rightarrow> [] | Some rs \<Rightarrow> rs)"

definition AniDeleteCallbackInfoByEventId :: "composite_id \<Rightarrow> ani_state \<Rightarrow> ani_state" where
  "AniDeleteCallbackInfoByEventId i an =
     (let an1 = (case map_of (an_container an) i of None \<Rightarrow> an | Some rs \<Rightarrow> ani_mark_deleted rs an);
          an2 = an1\<lparr>an_container := map_erase i (an_container an1)\<rparr>
      in if an_container an2 = [] then an2\<lparr>an_taskRunning := False\<rparr> else an2)"

definition AniCleanCallbackInfo :: "composite_id \<Rightarrow> ani_state \<Rightarrow> ani_state" where
  "AniCleanCallbackInfo i an =
     (let gone = filter (\<lambda>(k, rs). cid_emitterId k = cid_emitterId i) (an_container an)
      in (ani_mark_deleted (concat (map snd gone)) an)
           \<lparr>an_container := filter (\<lambda>(k, rs). cid_emitterId k \<noteq> cid_emitterId i) (an_container an)\<rparr>)"

definition ani_live :: "ani_state \<Rightarrow> nat \<Rightarrow> bool" where
  [eh_defs]: "ani_live an r \<longleftrightarrow> \<not> (an_isDeleted (an_infos an r) \<or> an_vm (an_infos an r) = None)"

definition AniGetAsyncCallbackInfo :: "composite_id \<Rightarrow> ani_state \<Rightarrow> nat list \<times> ani_state" where
  "AniGetAsyncCallbackInfo i an =
     (case map_of (an_container an) i of
        None \<Rightarrow> ([], an)
      | Some rs \<Rightarrow>
          (filter (ani_live an) rs,
           an\<lparr>an_container := map_assign i (filter (ani_live an) rs) (an_container an)\<rparr>))"

definition AniGetListenerCountByEventId :: "composite_id \<Rightarrow> ani_state \<Rightarrow> u32 \<times> ani_state" where
  \<comment> \<open>the same loop, with a counter\<close>
  "AniGetListenerCountByEventId i an =
     (case map_of (an_container an) i of
        None \<Rightarrow> (0, an)
      | Some rs \<Rightarrow>
          (of_nat (length (filter (ani_live an) rs)),
           an\<lparr>an_container := map_assign i (filter (ani_live an) rs) (an_container an)\<rparr>))"

definition AniIsExistValidCallback :: "composite_id \<Rightarrow> ani_state \<Rightarrow> bool" where
  "AniIsExistValidCallback i an =
     (case map_of (an_container an) i of None \<Rightarrow> False | Some rs \<Rightarrow> length rs \<noteq> 0)"

definition AniInsertCallbackInfo ::
  "(nat \<Rightarrow> nat \<Rightarrow> bool) \<Rightarrow> bool \<Rightarrow> nat option \<Rightarrow> nat \<Rightarrow> composite_id \<Rightarrow> bool \<Rightarrow> nat \<Rightarrow> string \<Rightarrow>
     ani_state \<Rightarrow> ani_state" where
  \<comment> \<open>\<open>same\<close>: \<open>Reference_StrictEquals\<close>; \<open>alloc\<close>: the entry is allocated; \<open>vm\<close>, \<open>workId\<close>: the answers
     of \<open>GetVM\<close> and \<open>GetWorkerId\<close>\<close>
  "AniInsertCallbackInfo same alloc vm workId i once callback dataType an =
     (case List.find (\<lambda>r. \<not> an_isDeleted (an_infos an r) \<and> same callback (an_callback (an_infos an r)))
             (ani_set i an) of
        Some r \<Rightarrow> an\<lparr>an_infos := (an_infos an)(r := (an_infos an r)\<lparr>an_once := once\<rparr>)\<rparr>
      | None \<Rightarrow>
          if \<not> alloc then an
          else if vm = None then an
          else
            let r = an_next an;
                info = \<lparr>an_vm = vm, an_dataType = dataType, an_callback = callback, an_once = once,
                        an_isDeleted = False, an_eventId = cid_eventId i,
                        an_emitterId = cid_emitterId i, an_workId = workId\<rparr>
            in an\<lparr>an_infos := (an_infos an)(r := info), an_next := Suc r,
                  an_container := map_assign i (ani_set i an @ [r]) (an_container an)\<rparr>)"

definition AniDeleteCallbackInfo ::
  "(nat \<Rightarrow> nat \<Rightarrow> bool) \<Rightarrow> composite_id \<Rightarrow> nat \<Rightarrow> ani_state \<Rightarrow> ani_state" where
  "AniDeleteCallbackInfo same i callback an =
     (case map_of (an_container an) i of
        None \<Rightarrow> an
      | Some rs \<Rightarrow>
          (case List.find (\<lambda>r. same callback (an_callback (an_infos an r))) rs of
             None \<Rightarrow> an
           | Some r \<Rightarrow>
               (ani_mark_deleted [r] an)
                 \<lparr>an_container := map_assign i (remove1 r rs) (an_container an)\<rparr>))"

subsection \<open>Tasks and the worker\<close>

fun wake_one :: "ani_worker \<Rightarrow> ani_worker \<Rightarrow> ani_worker list \<Rightarrow> ani_worker list" where
  \<comment> \<open>\<open>notify_one()\<close>: a thread in the state \<open>v\<close> goes on in the state \<open>v'\<close>. Which one is open; the threads that wait
     for the same condition are alike, so the choice only permutes the list\<close>
  "wake_one v v' [] = []"
| "wake_one v v' (w # ws) = (if w = v then v' # ws else w # wake_one v v' ws)"

definition PushTaskData :: "ani_task \<Rightarrow> ani_state \<Rightarrow> ani_state" where
  "PushTaskData t an =
     (let an1 = an\<lparr>an_taskData := an_taskData an @ [t]\<rparr>
      in if an_needNotify an then an1\<lparr>an_workers := wake_one WkWaiting WkWoken (an_workers an1)\<rparr> else an1)"

definition set_worker :: "nat \<Rightarrow> ani_worker \<Rightarrow> ani_state \<Rightarrow> ani_state" where
  [eh_defs]: "set_worker k w an = an\<lparr>an_workers := (an_workers an)[k := w]\<rparr>"

definition end_worker :: "nat \<Rightarrow> ani_state \<Rightarrow> ani_state" where
  \<comment> \<open>the thread returns\<close>
  [eh_defs]: "end_worker k an = an\<lparr>an_workers := take k (an_workers an) @ drop (Suc k) (an_workers an)\<rparr>"

definition SendEventData :: "ani_task \<Rightarrow> ani_state \<Rightarrow> ani_state" where
  \<comment> \<open>the task goes to the loop of the subscriber\<close>
  [eh_defs]: "SendEventData t an = an\<lparr>an_sent := an_sent an @ [(an_workId (an_infos an (at_cb t)), t)]\<rparr>"

definition PopTaskData :: "nat \<Rightarrow> ani_state \<Rightarrow> ani_task option \<times> ani_state" where
  \<comment> \<open>worker \<open>k\<close> with the lock: it blocks (\<open>None\<close>), or takes the first task\<close>
  "PopTaskData k an =
     (case an_taskData an of
        [] \<Rightarrow> (None, set_worker k WkWaiting (an\<lparr>an_needNotify := True\<rparr>))
      | t # ts \<Rightarrow> (Some t, an\<lparr>an_needNotify := False, an_taskData := ts\<rparr>))"

definition take_task :: "bool \<Rightarrow> nat \<Rightarrow> ani_state \<Rightarrow> ani_state" where
  \<comment> \<open>from \<open>PopTaskData\<close> to \<open>SendEventData\<close>; without memory for the \<open>AniCallbackInfo\<close> the thread returns\<close>
  [eh_defs]: "take_task alloc k an =
     (case PopTaskData k an of
        (None, an1) \<Rightarrow> an1
      | (Some t, an1) \<Rightarrow> if alloc then set_worker k WkSent (SendEventData t an1) else end_worker k an1)"

definition WorkTheadFunction_step :: "bool \<Rightarrow> bool \<Rightarrow> nat \<Rightarrow> ani_state \<Rightarrow> ani_state" where
  \<comment> \<open>the next step of worker \<open>k\<close>; a blocked worker makes none. \<open>attached\<close>: \<open>GetEnv\<close> or \<open>AttachCurrentThread\<close> succeeds;
     \<open>alloc\<close>: the \<open>AniCallbackInfo\<close> is allocated\<close>
  "WorkTheadFunction_step attached alloc k an =
     (case an_workers an ! k of
        WkStart \<Rightarrow> if attached then set_worker k WkTop an else end_worker k an
      | WkTop \<Rightarrow> if an_taskRunning an then set_worker k WkReady an else end_worker k an
      | WkReady \<Rightarrow> take_task alloc k an
      | WkWaiting \<Rightarrow> an
      | WkWoken \<Rightarrow> if an_taskData an = [] then set_worker k WkWaiting an else take_task alloc k an
      | WkSent \<Rightarrow> set_worker k (if an_g_taskRunning an then WkTop else WkSentWaiting) an
      | WkSentWaiting \<Rightarrow> an
      | WkSentWoken \<Rightarrow> set_worker k (if an_g_taskRunning an then WkTop else WkSentWaiting) an)"

definition ani_start_worker :: "ani_state \<Rightarrow> ani_state" where
  [eh_defs]: "ani_start_worker an =
     (if an_taskRunning an then an
      else an\<lparr>an_taskRunning := True, an_workers := an_workers an @ [WkStart]\<rparr>)"

definition ani_dispatch :: "object_ref option \<Rightarrow> nat \<Rightarrow> ani_state \<Rightarrow> ani_state" where
  \<comment> \<open>the body of the loop of \<open>AniDoCallback\<close>\<close>
  "ani_dispatch data r an =
     (let an1 = (if an_once (an_infos an r) then ani_mark_deleted [r] an else an)
      in ani_start_worker (PushTaskData \<lparr>at_cb = r, at_serializeData = data\<rparr> an1))"

definition AniDoCallback :: "(object_ref \<Rightarrow> bool) \<Rightarrow> inner_event \<Rightarrow> ani_state \<Rightarrow> ani_state" where
  "AniDoCallback alive event an =
     (let i = CompositeEventId (ev_innerEventId event) (ev_emitterId event);
          (rs, an1) = AniGetAsyncCallbackInfo i an
      in fold (ani_dispatch (GetSharedObject alive SerializeData_type event)) rs an1)"

datatype ani_args = NoArgument | DataArgument "nat option"

text \<open>
  The argument of the function is an object with the property \<open>data\<close>; \<open>DataArgument None\<close> is one whose
  property was set from a reference that nobody assigned.
\<close>

datatype ani_call = AniCall nat ani_args | AniArgsFailed nat | AniNoFunction nat

definition GetCallbackArgs :: "interop_answers \<Rightarrow> string \<Rightarrow> bool \<Rightarrow> serialize_data \<Rightarrow> ani_args option" where
  \<comment> \<open>\<open>classes\<close>: the class is found and instantiated\<close>
  "GetCallbackArgs ia dataType classes d =
     (let (ok, eventData) =
            (if sd_envType d = ANI then PeerDeserialize d
             else if sd_isCrossRuntime d then fst (CrossDeserialize ia d)
             else (False, None))
      in if \<not> ok then None
         else if dataType = ''eventData'' \<or> dataType = ''genericEventData''
         then (if classes then Some (DataArgument eventData) else None)
         else Some NoArgument)"

definition ani_work_function ::
  "interop_answers \<Rightarrow> bool \<Rightarrow> serialize_data \<Rightarrow> nat \<Rightarrow> ani_state \<Rightarrow> ani_call \<times> ani_state" where
  \<comment> \<open>the function that \<open>SendEventData\<close> sends, run on the loop of the subscriber; it does not look at
     \<open>isDeleted\<close>. A callback reference 0 is null. On every path the function notifies one worker before it returns\<close>
  "ani_work_function ia classes d r an =
     (let an1 = an\<lparr>an_g_taskRunning := True, an_workers := wake_one WkSentWaiting WkSentWoken (an_workers an)\<rparr>
      in case GetCallbackArgs ia (an_dataType (an_infos an r)) classes d of
           None \<Rightarrow> (AniArgsFailed r, an1)
         | Some args \<Rightarrow>
             if an_callback (an_infos an r) = 0 then (AniNoFunction r, an1)
             else (AniCall (an_callback (an_infos an r)) args, an1))"

definition run_sent :: "interop_answers \<Rightarrow> bool \<Rightarrow> serialize_data \<Rightarrow> nat \<Rightarrow> ani_state \<Rightarrow> ani_call \<times> ani_state" where
  \<comment> \<open>a subscriber's loop runs the function that is at place \<open>j\<close> of those that were sent; \<open>d\<close> is the data of the event\<close>
  "run_sent ia classes d j an =
     ani_work_function ia classes d (at_cb (snd (an_sent an ! j)))
       (an\<lparr>an_sent := take j (an_sent an) @ drop (Suc j) (an_sent an)\<rparr>)"

section \<open>\<open>NapiAsyncCallbackManager\<close>\<close>

definition NapiDeleteCallbackInfoByEventId :: "composite_id \<Rightarrow> js_state \<Rightarrow> js_state" where
  "NapiDeleteCallbackInfoByEventId i st =
     (let st1 = (case map_of (js_instances st) i of None \<Rightarrow> st | Some rs \<Rightarrow> mark_deleted rs st)
      in st1\<lparr>js_instances := map_erase i (js_instances st1)\<rparr>)"

definition NapiGetListenerCountByEventId :: "composite_id \<Rightarrow> js_state \<Rightarrow> u32 \<times> js_state" where
  "NapiGetListenerCountByEventId i st =
     (case map_of (js_instances st) i of
        None \<Rightarrow> (0, st)
      | Some rs \<Rightarrow>
          (of_nat (length (filter (live_entry st) rs)),
           st\<lparr>js_instances := map_assign i (filter (live_entry st) rs) (js_instances st)\<rparr>))"

definition NapiIsExistValidCallback :: "composite_id \<Rightarrow> js_state \<Rightarrow> bool" where
  "NapiIsExistValidCallback i st =
     (case map_of (js_instances st) i of None \<Rightarrow> False | Some rs \<Rightarrow> length rs \<noteq> 0)"

definition NapiDeleteCallbackInfo ::
  "(nat \<Rightarrow> nat \<Rightarrow> bool) \<Rightarrow> nat option \<Rightarrow> composite_id \<Rightarrow> nat \<Rightarrow> js_state \<Rightarrow> js_state" where
  \<comment> \<open>the environment is the one of the caller, which may be gone\<close>
  "NapiDeleteCallbackInfo same env i fn st =
     (case map_of (js_instances st) i of
        None \<Rightarrow> st
      | Some rs \<Rightarrow>
          (case List.find (\<lambda>r. ai_env (js_infos st r) = env
                             \<and> same fn (ai_callback (js_infos st r))) rs of
             None \<Rightarrow> st
           | Some r \<Rightarrow>
               (mark_deleted [r] st)\<lparr>js_instances := map_assign i (remove1 r rs) (js_instances st)\<rparr>))"

definition NapiGetAsyncCallbackInfo :: "composite_id \<Rightarrow> js_state \<Rightarrow> nat list \<times> js_state" where
  "NapiGetAsyncCallbackInfo i st =
     (case map_of (js_instances st) i of
        None \<Rightarrow> ([], st)
      | Some rs \<Rightarrow>
          (filter (live_entry st) rs,
           st\<lparr>js_instances := map_assign i (filter (live_entry st) rs) (js_instances st)\<rparr>))"

definition napi_worker :: "serialize_data \<Rightarrow> nat \<Rightarrow> event_worker" where
  [eh_defs]: "napi_worker d r =
     \<lparr>wk_data = None, wk_callbackInfo = r, wk_isCrossRuntime = (sd_envType d \<noteq> NAPI),
      wk_enhancedData = (if sd_envType d = NAPI then sd_peerNapi d else sd_crossData d),
      wk_IsEnhanced = True\<rparr>"

fun napi_queue :: "(nat \<Rightarrow> bool) \<Rightarrow> object_ref \<Rightarrow> nat list \<Rightarrow> heap \<Rightarrow> js_state \<Rightarrow> heap \<times> js_state" where
  \<comment> \<open>the loop of \<open>NapiDoCallback\<close>; \<open>alloc\<close>: the call data of the entry is allocated. The loop ends
     where it is not\<close>
  "napi_queue alloc ob [] hp st = (hp, st)"
| "napi_queue alloc ob (r # rs) hp st =
     (if \<not> live_entry st r then napi_queue alloc ob rs hp st
      else if \<not> alloc r then (hp, st)
      else
        let d = (hp ob)\<lparr>sd_env := ai_env (js_infos st r)\<rparr>
        in napi_queue alloc ob rs (hp(ob := d)) (st\<lparr>js_calls := js_calls st @ [napi_worker d r]\<rparr>))"

definition NapiDoCallback ::
  "(object_ref \<Rightarrow> bool) \<Rightarrow> (nat \<Rightarrow> bool) \<Rightarrow> inner_event \<Rightarrow> heap \<Rightarrow> js_state \<Rightarrow> heap \<times> js_state" where
  "NapiDoCallback alive alloc event hp st =
     (let i = CompositeEventId (ev_innerEventId event) (ev_emitterId event);
          (rs, st1) = NapiGetAsyncCallbackInfo i st
      in case GetSharedObject alive SerializeData_type event of
           None \<Rightarrow> (hp, st1)
         | Some ob \<Rightarrow> napi_queue alloc ob rs hp st1)"

section \<open>\<open>AsyncCallbackManager\<close>\<close>

record emitters =
  \<comment> \<open>\<open>em_values\<close> and \<open>em_data\<close>: what the allocated payloads of events hold\<close>
  em_js :: js_state
  em_ani :: ani_state
  em_values :: "object_ref \<Rightarrow> nat option"
  em_data :: heap

definition new_emitters :: emitters where
  [eh_defs]: "new_emitters =
     \<lparr>em_js = new_js_state, em_ani = new_ani_state, em_values = (\<lambda>_. None),
      em_data = (\<lambda>_. new_serialize_data)\<rparr>"

definition DeleteCallbackInfoByEventId :: "composite_id \<Rightarrow> emitters \<Rightarrow> emitters" where
  "DeleteCallbackInfoByEventId i em =
     em\<lparr>em_ani := AniDeleteCallbackInfoByEventId i (em_ani em),
        em_js := NapiDeleteCallbackInfoByEventId i (em_js em)\<rparr>"

definition GetListenerCountByEventId :: "composite_id \<Rightarrow> emitters \<Rightarrow> u32 \<times> emitters" where
  "GetListenerCountByEventId i em =
     (let (a, an) = AniGetListenerCountByEventId i (em_ani em);
          (n, st) = NapiGetListenerCountByEventId i (em_js em)
      in (a + n, em\<lparr>em_ani := an, em_js := st\<rparr>))"

definition IsExistValidCallback :: "composite_id \<Rightarrow> emitters \<Rightarrow> bool" where
  "IsExistValidCallback i em \<longleftrightarrow>
     NapiIsExistValidCallback i (em_js em) \<or> AniIsExistValidCallback i (em_ani em)"

definition InsertCallbackInfo where
  "InsertCallbackInfo same alloc vm workId i once callback dataType em =
     em\<lparr>em_ani := AniInsertCallbackInfo same alloc vm workId i once callback dataType (em_ani em)\<rparr>"

definition DeleteCallbackInfo_napi ::
  "(nat \<Rightarrow> nat \<Rightarrow> bool) \<Rightarrow> nat option \<Rightarrow> composite_id \<Rightarrow> nat \<Rightarrow> emitters \<Rightarrow> emitters" where
  "DeleteCallbackInfo_napi same env i fn em = em\<lparr>em_js := NapiDeleteCallbackInfo same env i fn (em_js em)\<rparr>"

definition DeleteCallbackInfo_ani ::
  "(nat \<Rightarrow> nat \<Rightarrow> bool) \<Rightarrow> composite_id \<Rightarrow> nat \<Rightarrow> emitters \<Rightarrow> emitters" where
  "DeleteCallbackInfo_ani same i callback em =
     em\<lparr>em_ani := AniDeleteCallbackInfo same i callback (em_ani em)\<rparr>"

definition DoCallback ::
  "(object_ref \<Rightarrow> bool) \<Rightarrow> (nat \<Rightarrow> bool) \<Rightarrow> inner_event \<Rightarrow> emitters \<Rightarrow> emitters" where
  "DoCallback alive alloc event em =
     (let (hp, st) = NapiDoCallback alive alloc event (em_data em) (em_js em)
      in em\<lparr>em_data := hp, em_js := st, em_ani := AniDoCallback alive event (em_ani em)\<rparr>)"

definition IsCrossRuntime :: "composite_id \<Rightarrow> env_type \<Rightarrow> emitters \<Rightarrow> bool" where
  "IsCrossRuntime i t em =
     (case t of
        NAPI \<Rightarrow> AniIsExistValidCallback i (em_ani em)
      | ANI \<Rightarrow> NapiIsExistValidCallback i (em_js em))"

definition CleanCallbackInfo :: "composite_id \<Rightarrow> emitters \<Rightarrow> emitters" where
  "CleanCallbackInfo i em = em\<lparr>em_ani := AniCleanCallbackInfo i (em_ani em)\<rparr>"

end
