(* ===== verification/Js_Emitter.thy ===== *)
theory Js_Emitter
  imports Callback_Manager
begin

text \<open>
  The functions the script engine calls: \<open>frameworks/napi/src/events_emitter.cpp\<close>, and the ones of
  \<open>frameworks/emitter/napi/src/napi_emitter.cpp\<close> that replace them once the static runtime has
  registered (\<open>js_isInit\<close>), here with the prefix \<open>enh_\<close>. Arguments are the list of values of the
  call; the number of the emitter is what \<open>napi_unwrap\<close> gives for the object, 0 for the module.
  \<open>h\<close> is the handler instance. \<open>alloc\<close> says whether an allocation succeeds.
\<close>

section \<open>Subscribing\<close>

definition js_subscribe ::
  "(nat \<Rightarrow> nat \<Rightarrow> bool) \<Rightarrow> bool \<Rightarrow> nat \<Rightarrow> bool \<Rightarrow> nat \<Rightarrow> composite_id \<Rightarrow> nat \<Rightarrow> bool \<Rightarrow> js_state \<Rightarrow> js_state" where
  \<comment> \<open>the part under the lock; \<open>wrapped\<close>: the engine accepted the finalizer of the function\<close>
  "js_subscribe same alloc tsfn wrapped env i fn once st =
     (case js_SearchCallbackInfo same env i fn st of
        Some r \<Rightarrow> js_UpdateOnceFlag r once st
      | None \<Rightarrow>
          if \<not> alloc then st
          else
            let st1 = js_new_info env i fn once tsfn st
            in if wrapped then st1\<lparr>js_wrapped := js_next st # js_wrapped st1\<rparr> else st1)"

definition OnOrOnce ::
  "(nat \<Rightarrow> nat \<Rightarrow> bool) \<Rightarrow> bool \<Rightarrow> nat \<Rightarrow> bool \<Rightarrow> nat \<Rightarrow> js_value list \<Rightarrow> bool \<Rightarrow> js_state \<Rightarrow> js_state" where
  "OnOrOnce same alloc tsfn wrapped env args once st =
     (if length args < 2 then st
      else if jv_type (args ! 0) \<noteq> napi_object \<and> jv_type (args ! 0) \<noteq> napi_string then st
      else if jv_type (args ! 1) \<noteq> napi_function then st
      else
        case GetEventIdWithObjectOrString (args ! 0) of
          None \<Rightarrow> st
        | Some e \<Rightarrow>
            js_subscribe same alloc tsfn wrapped env (composite_of e) (jv_function (args ! 1)) once st)"

definition JS_On where
  [eh_defs]: "JS_On same alloc tsfn wrapped env args st = OnOrOnce same alloc tsfn wrapped env args False st"

definition JS_Once where
  [eh_defs]: "JS_Once same alloc tsfn wrapped env args st = OnOrOnce same alloc tsfn wrapped env args True st"

definition EmitterOnOrOnce ::
  "(nat \<Rightarrow> nat \<Rightarrow> bool) \<Rightarrow> bool \<Rightarrow> nat \<Rightarrow> nat \<Rightarrow> u32 \<Rightarrow> js_value list \<Rightarrow> bool \<Rightarrow> js_state \<Rightarrow> js_state" where
  "EmitterOnOrOnce same alloc tsfn env emitterId args once st =
     (if length args < 2 then st
      else if jv_type (args ! 0) \<noteq> napi_string then st
      else if jv_type (args ! 1) \<noteq> napi_function then st
      else
        case GetEventIdWithObjectOrString (args ! 0) of
          None \<Rightarrow> st
        | Some e \<Rightarrow>
            js_subscribe same alloc tsfn False env (CompositeEventId e emitterId)
              (jv_function (args ! 1)) once st)"

definition JS_EmitterOn where
  [eh_defs]: "JS_EmitterOn same alloc tsfn env emitterId args st =
     EmitterOnOrOnce same alloc tsfn env emitterId args False st"

definition JS_EmitterOnce where
  [eh_defs]: "JS_EmitterOnce same alloc tsfn env emitterId args st =
     EmitterOnOrOnce same alloc tsfn env emitterId args True st"

section \<open>Unsubscribing and counting\<close>

definition on_js :: "(js_state \<Rightarrow> js_state) \<Rightarrow> emitters \<Rightarrow> emitters" where
  [eh_defs]: "on_js f em = em\<lparr>em_js := f (em_js em)\<rparr>"

definition enh_JS_Off ::
  "(nat \<Rightarrow> nat \<Rightarrow> bool) \<Rightarrow> nat \<Rightarrow> js_value list \<Rightarrow> emitters \<Rightarrow> emitters" where
  "enh_JS_Off same env args em =
     (if length args < 1 then em
      else if jv_type (args ! 0) \<noteq> napi_number \<and> jv_type (args ! 0) \<noteq> napi_string then em
      else
        case GetEventIdWithNumberOrString (args ! 0) of
          None \<Rightarrow> em
        | Some e \<Rightarrow>
            if length args = 2 then
              (if jv_type (args ! 1) \<noteq> napi_function then em
               else DeleteCallbackInfo_napi same (Some env) (composite_of e) (jv_function (args ! 1)) em)
            else DeleteCallbackInfoByEventId (composite_of e) em)"

definition JS_Off ::
  "(nat \<Rightarrow> nat \<Rightarrow> bool) \<Rightarrow> nat \<Rightarrow> js_value list \<Rightarrow> emitters \<Rightarrow> emitters" where
  "JS_Off same env args em =
     (if js_isInit (em_js em) then enh_JS_Off same env args em
      else if length args < 1 then em
      else if jv_type (args ! 0) \<noteq> napi_number \<and> jv_type (args ! 0) \<noteq> napi_string then em
      else
        case GetEventIdWithNumberOrString (args ! 0) of
          None \<Rightarrow> em
        | Some e \<Rightarrow>
            if length args = 2 then
              (if jv_type (args ! 1) \<noteq> napi_function then em
               else on_js (js_DeleteCallbackInfo same env (composite_of e) (jv_function (args ! 1))) em)
            else on_js (js_DeleteAll (composite_of e)) em)"

definition enh_JS_EmitterOff ::
  "(nat \<Rightarrow> nat \<Rightarrow> bool) \<Rightarrow> nat \<Rightarrow> u32 \<Rightarrow> js_value list \<Rightarrow> emitters \<Rightarrow> emitters" where
  "enh_JS_EmitterOff same env emitterId args em =
     (if length args < 1 then em
      else if jv_type (args ! 0) \<noteq> napi_string then em
      else
        case GetEventIdWithNumberOrString (args ! 0) of
          None \<Rightarrow> em
        | Some e \<Rightarrow>
            if length args = 2 then
              (if jv_type (args ! 1) \<noteq> napi_function then em
               else DeleteCallbackInfo_napi same (Some env) (CompositeEventId e emitterId)
                      (jv_function (args ! 1)) em)
            else DeleteCallbackInfoByEventId (CompositeEventId e emitterId) em)"

definition JS_EmitterOff ::
  "(nat \<Rightarrow> nat \<Rightarrow> bool) \<Rightarrow> nat \<Rightarrow> u32 \<Rightarrow> js_value list \<Rightarrow> emitters \<Rightarrow> emitters" where
  "JS_EmitterOff same env emitterId args em =
     (if js_isInit (em_js em) then enh_JS_EmitterOff same env emitterId args em
      else if length args < 1 then em
      else if jv_type (args ! 0) \<noteq> napi_string then em
      else
        case GetEventIdWithNumberOrString (args ! 0) of
          None \<Rightarrow> em
        | Some e \<Rightarrow>
            if length args = 2 then
              (if jv_type (args ! 1) \<noteq> napi_function then em
               else on_js (js_DeleteCallbackInfo same env (CompositeEventId e emitterId)
                      (jv_function (args ! 1))) em)
            else on_js (js_DeleteAll (CompositeEventId e emitterId)) em)"

datatype js_result = JsUndefined | JsNumber u32

definition enh_JS_GetListenerCount :: "u32 \<Rightarrow> js_value list \<Rightarrow> emitters \<Rightarrow> js_result \<times> emitters" where
  \<comment> \<open>serves the module and the objects: the number of the emitter comes from \<open>thisArg\<close>\<close>
  "enh_JS_GetListenerCount emitterId args em =
     (if length args < 1 then (JsUndefined, em)
      else if jv_type (args ! 0) \<noteq> napi_number \<and> jv_type (args ! 0) \<noteq> napi_string then (JsUndefined, em)
      else
        case GetEventIdWithNumberOrString (args ! 0) of
          None \<Rightarrow> (JsUndefined, em)
        | Some e \<Rightarrow>
            let (n, em1) = GetListenerCountByEventId (CompositeEventId e emitterId) em
            in (JsNumber n, em1))"

definition JS_GetListenerCount :: "js_value list \<Rightarrow> emitters \<Rightarrow> js_result \<times> emitters" where
  "JS_GetListenerCount args em =
     (if js_isInit (em_js em) then enh_JS_GetListenerCount 0 args em
      else if length args < 1 then (JsUndefined, em)
      else if jv_type (args ! 0) \<noteq> napi_number \<and> jv_type (args ! 0) \<noteq> napi_string then (JsUndefined, em)
      else
        case GetEventIdWithNumberOrString (args ! 0) of
          None \<Rightarrow> (JsUndefined, em)
        | Some e \<Rightarrow>
            let (n, st) = js_count (composite_of e) (em_js em) in (JsNumber n, em\<lparr>em_js := st\<rparr>))"

definition JS_EmitterGetListenerCount :: "u32 \<Rightarrow> js_value list \<Rightarrow> emitters \<Rightarrow> js_result \<times> emitters" where
  "JS_EmitterGetListenerCount emitterId args em =
     (if js_isInit (em_js em) then enh_JS_GetListenerCount emitterId args em
      else if length args < 1 then (JsUndefined, em)
      else if jv_type (args ! 0) \<noteq> napi_string then (JsUndefined, em)
      else if napi_string_value (args ! 0) = [] then (JsUndefined, em)
      else
        let (n, st) = js_count (CompositeEventId (IdStr (napi_string_value (args ! 0))) emitterId) (em_js em)
        in (JsNumber n, em\<lparr>em_js := st\<rparr>))"

section \<open>Emitting\<close>

definition napi_value_ptr :: smart_ptr where
  \<comment> \<open>\<open>std::unique_ptr<napi_value>\<close>\<close>
  [eh_defs]: "napi_value_ptr = UniquePtr \<lparr>type_name = 2, type_size = 8\<rparr> 1"

definition EventData_ptr :: smart_ptr where
  \<comment> \<open>\<open>std::unique_ptr<EventData>\<close>, where \<open>EventData\<close> is a shared pointer\<close>
  [eh_defs]: "EventData_ptr = UniquePtr \<lparr>type_name = 3, type_size = 16\<rparr> 1"

text \<open>\<open>ob\<close> is the object that the emission allocates for the payload.\<close>

type_synonym emit_fun =
  "call_env \<Rightarrow> caller \<Rightarrow> handler_ref \<Rightarrow> object_ref \<Rightarrow> js_value list \<Rightarrow> u32 \<Rightarrow> emitters \<Rightarrow> system \<Rightarrow>
     emitters \<times> system"

definition send_default ::
  "call_env \<Rightarrow> caller \<Rightarrow> handler_ref \<Rightarrow> object_ref \<Rightarrow> composite_id \<Rightarrow> priority \<Rightarrow> system \<Rightarrow> system" where
  \<comment> \<open>the event with an empty \<open>EventData\<close>, in three places of the two functions below\<close>
  "send_default c cl h ob i prio sy =
     snd (SendEvent c h
       (Some ((Get_unique (cid_eventId i) EventData_ptr ob 0 cl)\<lparr>ev_emitterId := cid_emitterId i\<rparr>)) 0 prio sy)"

definition EmitWithEventData ::
  "call_env \<Rightarrow> caller \<Rightarrow> handler_ref \<Rightarrow> object_ref \<Rightarrow> js_value \<Rightarrow> composite_id \<Rightarrow> priority \<Rightarrow>
     emitters \<Rightarrow> system \<Rightarrow> bool \<times> emitters \<times> system" where
  "EmitWithEventData c cl h ob v i prio em sy =
     (if jv_type v \<noteq> napi_object then (False, em, sy)
      else if jv_data v = NotSerializable \<or> jv_data v = SerializedNull then (False, em, sy)
      else
        let value = (case jv_data v of Serialized n \<Rightarrow> Some n | _ \<Rightarrow> None);
            event = (Get_unique (cid_eventId i) napi_value_ptr ob 0 cl)\<lparr>ev_emitterId := cid_emitterId i\<rparr>
        in (True, em\<lparr>em_values := (em_values em)(ob := value)\<rparr>, snd (SendEvent c h (Some event) 0 prio sy)))"

definition EmitWithEventIdUint32 :: "call_env \<Rightarrow> caller \<Rightarrow> handler_ref \<Rightarrow> object_ref \<Rightarrow> js_value list \<Rightarrow>
    emitters \<Rightarrow> system \<Rightarrow> emitters \<times> system" where
  "EmitWithEventIdUint32 c cl h ob args em sy =
     (case jv_eventId (args ! 0) of
        None \<Rightarrow> (em, sy)
      | Some n \<Rightarrow>
          let i = composite_of (IdU32 n)
          in if \<not> js_IsExistValidCallback i (em_js em) then (em, sy)
             else
               let prio = (case jv_priority (args ! 0) of None \<Rightarrow> LOW | Some p \<Rightarrow> prio_cast p);
                   (sent, em1, sy1) =
                     (if length args = 2 then EmitWithEventData c cl h ob (args ! 1) i prio em sy
                      else (False, em, sy))
               in if sent then (em1, sy1) else (em1, send_default c cl h ob i prio sy1))"

definition EmitWithEventIdString :: emit_fun where
  "EmitWithEventIdString c cl h ob args emitterId em sy =
     (if napi_string_value (args ! 0) = [] then (em, sy)
      else
        let i = CompositeEventId (IdStr (napi_string_value (args ! 0))) emitterId
        in if \<not> js_IsExistValidCallback i (em_js em) then (em, sy)
           else if length args < 2 then (em, send_default c cl h ob i LOW sy)
           else
             case jv_priority (args ! 1) of
               None \<Rightarrow>
                 (case EmitWithEventData c cl h ob (args ! 1) i LOW em sy of
                    (sent, em1, sy1) \<Rightarrow> if sent then (em1, sy1) else (em1, send_default c cl h ob i LOW sy1))
             | Some p \<Rightarrow>
                 let (sent, em1, sy1) =
                       (if length args > 2 then EmitWithEventData c cl h ob (args ! 2) i (prio_cast p) em sy
                        else (False, em, sy))
                 in if sent then (em1, sy1) else (em1, send_default c cl h ob i (prio_cast p) sy1))"

subsection \<open>With the static runtime\<close>

definition send_enhanced ::
  "call_env \<Rightarrow> caller \<Rightarrow> handler_ref \<Rightarrow> object_ref \<Rightarrow> serialize_data \<Rightarrow> composite_id \<Rightarrow> priority \<Rightarrow>
     emitters \<Rightarrow> system \<Rightarrow> emitters \<times> system" where
  \<comment> \<open>the end of both functions below: the flag for the other runtime, the event, \<open>SendEvent\<close>\<close>
  "send_enhanced c cl h ob d i prio em sy =
     (let d1 = (if IsCrossRuntime i NAPI em then d\<lparr>sd_isCrossRuntime := True\<rparr> else d);
          event = (Get_shared (cid_eventId i) (SharedPtr SerializeData_type) ob 0 cl)
                    \<lparr>ev_isEnhanced := True, ev_emitterId := cid_emitterId i\<rparr>
      in (em\<lparr>em_data := (em_data em)(ob := d1)\<rparr>, snd (SendEvent c h (Some event) 0 prio sy)))"

definition enh_EmitWithEventData ::
  "call_env \<Rightarrow> caller \<Rightarrow> handler_ref \<Rightarrow> object_ref \<Rightarrow> bool \<Rightarrow> js_value \<Rightarrow> composite_id \<Rightarrow> priority \<Rightarrow>
     emitters \<Rightarrow> system \<Rightarrow> bool \<times> emitters \<times> system" where
  "enh_EmitWithEventData c cl h ob alloc v i prio em sy =
     (if jv_type v \<noteq> napi_object then (False, em, sy)
      else if \<not> alloc then (False, em, sy)
      else
        case PeerSerialize v (new_serialize_data\<lparr>sd_envType := NAPI\<rparr>) of
          None \<Rightarrow> (False, em, sy)
        | Some d \<Rightarrow> (True, send_enhanced c cl h ob d i prio em sy))"

definition EmitWithDefaultData ::
  "call_env \<Rightarrow> caller \<Rightarrow> handler_ref \<Rightarrow> object_ref \<Rightarrow> composite_id \<Rightarrow> priority \<Rightarrow> emitters \<Rightarrow> system \<Rightarrow>
     emitters \<times> system" where
  "EmitWithDefaultData c cl h ob i prio em sy =
     send_enhanced c cl h ob (new_serialize_data\<lparr>sd_envType := NAPI\<rparr>) i prio em sy"

definition enh_EmitWithEventIdUint32 :: "call_env \<Rightarrow> caller \<Rightarrow> handler_ref \<Rightarrow> object_ref \<Rightarrow> bool \<Rightarrow>
    js_value list \<Rightarrow> emitters \<Rightarrow> system \<Rightarrow> emitters \<times> system" where
  "enh_EmitWithEventIdUint32 c cl h ob alloc args em sy =
     (case jv_eventId (args ! 0) of
        None \<Rightarrow> (em, sy)
      | Some n \<Rightarrow>
          let i = composite_of (IdU32 n)
          in if \<not> IsExistValidCallback i em then (em, sy)
             else
               let prio = (case jv_priority (args ! 0) of None \<Rightarrow> LOW | Some p \<Rightarrow> prio_cast p);
                   (sent, em1, sy1) =
                     (if length args = 2 then enh_EmitWithEventData c cl h ob alloc (args ! 1) i prio em sy
                      else (False, em, sy))
               in if sent then (em1, sy1) else EmitWithDefaultData c cl h ob i prio em1 sy1)"

definition enh_EmitWithEventIdString :: "call_env \<Rightarrow> caller \<Rightarrow> handler_ref \<Rightarrow> object_ref \<Rightarrow> bool \<Rightarrow>
    js_value list \<Rightarrow> u32 \<Rightarrow> emitters \<Rightarrow> system \<Rightarrow> emitters \<times> system" where
  "enh_EmitWithEventIdString c cl h ob alloc args emitterId em sy =
     (if napi_string_value (args ! 0) = [] then (em, sy)
      else
        let i = CompositeEventId (IdStr (napi_string_value (args ! 0))) emitterId
        in if \<not> IsExistValidCallback i em then (em, sy)
           else if length args < 2 then EmitWithDefaultData c cl h ob i LOW em sy
           else
             case jv_priority (args ! 1) of
               None \<Rightarrow>
                 (case enh_EmitWithEventData c cl h ob alloc (args ! 1) i LOW em sy of
                    (sent, em1, sy1) \<Rightarrow> if sent then (em1, sy1) else EmitWithDefaultData c cl h ob i LOW em1 sy1)
             | Some p \<Rightarrow>
                 let (sent, em1, sy1) =
                       (if length args > 2
                        then enh_EmitWithEventData c cl h ob alloc (args ! 2) i (prio_cast p) em sy
                        else (False, em, sy))
                 in if sent then (em1, sy1) else EmitWithDefaultData c cl h ob i (prio_cast p) em1 sy1)"

definition enh_JS_Emit :: "call_env \<Rightarrow> caller \<Rightarrow> handler_ref \<Rightarrow> object_ref \<Rightarrow> bool \<Rightarrow>
    js_value list \<Rightarrow> emitters \<Rightarrow> system \<Rightarrow> emitters \<times> system" where
  "enh_JS_Emit c cl h ob alloc args em sy =
     (if length args < 1 then (em, sy)
      else if jv_type (args ! 0) \<noteq> napi_object \<and> jv_type (args ! 0) \<noteq> napi_string then (em, sy)
      else if jv_type (args ! 0) = napi_string then enh_EmitWithEventIdString c cl h ob alloc args 0 em sy
      else enh_EmitWithEventIdUint32 c cl h ob alloc args em sy)"

definition JS_Emit :: "call_env \<Rightarrow> caller \<Rightarrow> handler_ref \<Rightarrow> object_ref \<Rightarrow> bool \<Rightarrow>
    js_value list \<Rightarrow> emitters \<Rightarrow> system \<Rightarrow> emitters \<times> system" where
  "JS_Emit c cl h ob alloc args em sy =
     (if js_isInit (em_js em) then enh_JS_Emit c cl h ob alloc args em sy
      else if length args < 1 then (em, sy)
      else if jv_type (args ! 0) \<noteq> napi_object \<and> jv_type (args ! 0) \<noteq> napi_string then (em, sy)
      else if jv_type (args ! 0) = napi_string then EmitWithEventIdString c cl h ob args 0 em sy
      else EmitWithEventIdUint32 c cl h ob args em sy)"

definition enh_JS_EmitterEmit :: "call_env \<Rightarrow> caller \<Rightarrow> handler_ref \<Rightarrow> object_ref \<Rightarrow> bool \<Rightarrow>
    js_value list \<Rightarrow> u32 \<Rightarrow> emitters \<Rightarrow> system \<Rightarrow> emitters \<times> system" where
  "enh_JS_EmitterEmit c cl h ob alloc args emitterId em sy =
     (if length args < 1 then (em, sy)
      else enh_EmitWithEventIdString c cl h ob alloc args emitterId em sy)"

definition JS_EmitterEmit :: "call_env \<Rightarrow> caller \<Rightarrow> handler_ref \<Rightarrow> object_ref \<Rightarrow> bool \<Rightarrow>
    js_value list \<Rightarrow> u32 \<Rightarrow> emitters \<Rightarrow> system \<Rightarrow> emitters \<times> system" where
  "JS_EmitterEmit c cl h ob alloc args emitterId em sy =
     (if js_isInit (em_js em) then enh_JS_EmitterEmit c cl h ob alloc args emitterId em sy
      else if length args < 1 then (em, sy)
      else EmitWithEventIdString c cl h ob args emitterId em sy)"

section \<open>Processing an event\<close>

fun ProcessEventCallbacks ::
  "(nat \<Rightarrow> bool) \<Rightarrow> object_ref option \<Rightarrow> nat list \<Rightarrow> js_state \<Rightarrow> js_state" where
  "ProcessEventCallbacks alloc eventData [] st = st"
| "ProcessEventCallbacks alloc eventData (r # rs) st =
     (if \<not> alloc r then ProcessEventCallbacks alloc eventData rs st
      else if \<not> live_entry st r then ProcessEventCallbacks alloc eventData rs st
      else
        ProcessEventCallbacks alloc eventData rs
          (st\<lparr>js_deleteEnv := ai_env (js_infos st r),
              js_calls := js_calls st @
                [\<lparr>wk_data = eventData, wk_callbackInfo = r, wk_isCrossRuntime = False,
                  wk_enhancedData = None, wk_IsEnhanced = False\<rparr>]\<rparr>))"

definition EventHandlerInstance_ProcessEvent ::
  "(object_ref \<Rightarrow> bool) \<Rightarrow> (nat \<Rightarrow> bool) \<Rightarrow> inner_event \<Rightarrow> emitters \<Rightarrow> emitters" where
  "EventHandlerInstance_ProcessEvent alive alloc event em =
     (if ev_isEnhanced event \<and> js_isInit (em_js em) then DoCallback alive alloc event em
      else
        let i = CompositeEventId (ev_innerEventId event) (ev_emitterId event);
            (rs, st) = js_purge i (em_js em)
        in if length rs \<le> 0 then em\<lparr>em_js := st\<rparr>
           else em\<lparr>em_js := ProcessEventCallbacks alloc (fst (GetUniqueObject napi_value_ptr event)) rs st\<rparr>)"

section \<open>Calling the subscriber\<close>

text \<open>
  What the engine does with the call: whether a handle scope is opened, the result of
  deserialising (\<open>None\<close> is a failure, \<open>Some None\<close> no value), whether the thread is attached to the static runtime, and the effect of the function itself,
  which may subscribe and unsubscribe.
\<close>

record js_engine =
  en_same :: "nat \<Rightarrow> nat \<Rightarrow> bool"
  en_scope :: bool
  en_deserialize :: "nat option \<Rightarrow> nat option option"
  en_attached :: bool
  en_run :: "emitters \<Rightarrow> emitters"

record js_call =
  \<comment> \<open>a call of a script function with the value of the property \<open>data\<close>\<close>
  jc_function :: nat
  jc_data :: "nat option"

definition deserialize_value :: "js_engine \<Rightarrow> nat option \<Rightarrow> nat option option" where
  \<comment> \<open>without data nothing is deserialised; a null result counts as a failure\<close>
  [eh_defs]: "deserialize_value en v =
     (case v of
        None \<Rightarrow> Some None
      | Some n \<Rightarrow> (case en_deserialize en (Some n) of Some (Some x) \<Rightarrow> Some (Some x) | _ \<Rightarrow> None))"

definition ProcessCallbackEnhanced ::
  "js_engine \<Rightarrow> event_worker \<Rightarrow> emitters \<Rightarrow> js_call option \<times> emitters" where
  "ProcessCallbackEnhanced en w em =
     (if wk_isCrossRuntime w \<and> \<not> en_attached en then (None, em)
      else
        case en_deserialize en (wk_enhancedData w) of
          None \<Rightarrow> (None, em)
        | Some arg \<Rightarrow>
            let r = wk_callbackInfo w;
                fn = ai_callback (js_infos (em_js em) r);
                em1 = en_run en em;
                info = js_infos (em_js em1) r
            in (Some \<lparr>jc_function = fn, jc_data = arg\<rparr>,
                if ai_once info
                then DeleteCallbackInfo_napi (en_same en) (ai_env info) (info_id info) fn em1
                else em1))"

definition erase_entry :: "composite_id \<Rightarrow> nat \<Rightarrow> js_state \<Rightarrow> js_state" where
  [eh_defs]: "erase_entry i r st =
     (case map_of (js_instances st) i of
        None \<Rightarrow> st
      | Some rs \<Rightarrow> st\<lparr>js_instances := map_assign i (remove1 r rs) (js_instances st)\<rparr>)"

definition ProcessCallback :: "js_engine \<Rightarrow> event_worker \<Rightarrow> emitters \<Rightarrow> js_call option \<times> emitters" where
  "ProcessCallback en w em =
     (if wk_IsEnhanced w then
        (if js_isInit (em_js em) then ProcessCallbackEnhanced en w em else (None, em))
      else
        case deserialize_value en (case wk_data w of None \<Rightarrow> None | Some ob \<Rightarrow> em_values em ob) of
          None \<Rightarrow> (None, em)
        | Some arg \<Rightarrow>
            let r = wk_callbackInfo w;
                em1 = en_run en em;
                info = js_infos (em_js em1) r
            in (Some \<lparr>jc_function = ai_callback (js_infos (em_js em) r), jc_data = arg\<rparr>,
                if ai_once info then on_js (erase_entry (info_id info) r) em1 else em1))"

definition ThreadSafeCallback :: "js_engine \<Rightarrow> event_worker \<Rightarrow> emitters \<Rightarrow> js_call option \<times> emitters" where
  "ThreadSafeCallback en w em =
     (if ai_isDeleted (js_infos (em_js em) (wk_callbackInfo w)) then (None, em)
      else if \<not> en_scope en then (None, em)
      else ProcessCallback en w em)"

definition js_run_next :: "js_engine \<Rightarrow> emitters \<Rightarrow> js_call option \<times> emitters" where
  \<comment> \<open>the engine makes the first of the calls that wait\<close>
  "js_run_next en em =
     (case js_calls (em_js em) of
        [] \<Rightarrow> (None, em)
      | w # ws \<Rightarrow> ThreadSafeCallback en w (on_js (\<lambda>st. st\<lparr>js_calls := ws\<rparr>) em))"

fun js_run_all :: "js_engine \<Rightarrow> nat \<Rightarrow> emitters \<Rightarrow> js_call list \<times> emitters" where
  "js_run_all en 0 em = ([], em)"
| "js_run_all en (Suc n) em =
     (let (call, em1) = js_run_next en em;
          (calls, em2) = js_run_all en n em1
      in ((case call of None \<Rightarrow> [] | Some k \<Rightarrow> [k]) @ calls, em2))"

end
