(* ===== verification/Js_Table.thy ===== *)
theory Js_Table
  imports Js_Emitter
begin

text \<open>
  What the functions on the script table do to it: the sets of entries, the entries, and the
  subscriptions they stand for. The invariant says that the entries of a set carry its key, that
  those marked deleted have lost their environment, and that no function of an environment has two
  live entries in a set.
\<close>

named_theorems table_facts \<open>the sets and entries of the script table after each function\<close>

section \<open>The invariant and the subscriptions\<close>

definition live_info :: "async_callback_info \<Rightarrow> bool" where
  "live_info a \<longleftrightarrow> \<not> ai_isDeleted a \<and> ai_env a \<noteq> None"

lemma live_entry_info [simp]: "live_entry st = (\<lambda>r. live_info (js_infos st r))"
  by (simp add: live_entry_def live_info_def fun_eq_iff)

definition js_wf :: "js_state \<Rightarrow> bool" where
  "js_wf st \<longleftrightarrow>
     ordered_map (js_instances st) \<and>
     (\<forall>i. distinct (js_set i st) \<and>
          (\<forall>r\<in>set (js_set i st). r < js_next st \<and> info_id (js_infos st r) = i \<and>
             (ai_isDeleted (js_infos st r) \<longrightarrow> ai_env (js_infos st r) = None))) \<and>
     (\<forall>i. \<forall>r\<in>set (js_set i st). \<forall>r'\<in>set (js_set i st).
        live_info (js_infos st r) \<longrightarrow> live_info (js_infos st r') \<longrightarrow>
        ai_env (js_infos st r) = ai_env (js_infos st r') \<longrightarrow>
        ai_callback (js_infos st r) = ai_callback (js_infos st r') \<longrightarrow> r = r')"

definition sub_of :: "async_callback_info \<Rightarrow> nat \<times> nat \<times> bool" where
  "sub_of a = (the (ai_env a), ai_callback a, ai_once a)"

definition js_subs :: "js_state \<Rightarrow> composite_id \<Rightarrow> (nat \<times> nat \<times> bool) set" where
  \<comment> \<open>the subscriptions of an event: environment, function, and whether for one event only\<close>
  "js_subs st i = sub_of ` js_infos st ` {r \<in> set (js_set i st). live_info (js_infos st r)}"

lemma wf_ordered: "js_wf st \<Longrightarrow> ordered_map (js_instances st)"
  by (simp add: js_wf_def)

lemma wf_entry:
  assumes "js_wf st" "r \<in> set (js_set i st)"
  shows "info_id (js_infos st r) = i" and "r < js_next st"
    and "ai_isDeleted (js_infos st r) \<Longrightarrow> ai_env (js_infos st r) = None"
  using assms by (auto simp: js_wf_def)

lemma wf_distinct: "js_wf st \<Longrightarrow> distinct (js_set i st)"
  by (simp add: js_wf_def)

lemma wf_unique:
  assumes "js_wf st" "r \<in> set (js_set i st)" "r' \<in> set (js_set i st)"
    and "live_info (js_infos st r)" "live_info (js_infos st r')"
    and "ai_env (js_infos st r) = ai_env (js_infos st r')"
    and "ai_callback (js_infos st r) = ai_callback (js_infos st r')"
  shows "r = r'"
  using assms unfolding js_wf_def by blast

lemma wf_disjoint:
  assumes "js_wf st" "r \<in> set (js_set i st)" "r \<in> set (js_set k st)"
  shows "i = k"
  using wf_entry(1) [OF assms(1,2)] wf_entry(1) [OF assms(1,3)] by simp

lemma js_subs_iff:
  "(env, fn, once) \<in> js_subs st i \<longleftrightarrow>
     (\<exists>r\<in>set (js_set i st). \<not> ai_isDeleted (js_infos st r) \<and> ai_env (js_infos st r) = Some env \<and>
        ai_callback (js_infos st r) = fn \<and> ai_once (js_infos st r) = once)"
  by (force simp: js_subs_def sub_of_def live_info_def)

section \<open>Sets and entries after each function\<close>

lemma js_set_assign:
  assumes "ordered_map (js_instances st)"
  shows "js_set i (st\<lparr>js_instances := map_assign k v (js_instances st)\<rparr>) = (if i = k then v else js_set i st)"
  using assms by (simp add: js_set_def map_of_assign)

lemma js_set_erase:
  "js_set i (st\<lparr>js_instances := map_erase k (js_instances st)\<rparr>) = (if i = k then [] else js_set i st)"
  by (simp add: js_set_def map_of_erase)

lemma js_set_infos [simp]: "js_set i (st\<lparr>js_infos := f\<rparr>) = js_set i st"
  by (simp add: js_set_def)

lemma mark_deleted_simps [simp]:
  "js_instances (mark_deleted rs st) = js_instances st" "js_next (mark_deleted rs st) = js_next st"
  "js_set i (mark_deleted rs st) = js_set i st" "js_calls (mark_deleted rs st) = js_calls st"
  "js_isInit (mark_deleted rs st) = js_isInit st"
  "js_infos (mark_deleted rs st) r =
     (if r \<in> set rs then (js_infos st r)\<lparr>ai_isDeleted := True\<rparr> else js_infos st r)"
  by (simp_all add: mark_deleted_def js_set_def)

lemma set_info_simps [simp]:
  "js_instances (set_info r f st) = js_instances st" "js_next (set_info r f st) = js_next st"
  "js_set i (set_info r f st) = js_set i st"
  "js_infos (set_info r f st) x = (if x = r then f (js_infos st r) else js_infos st x)"
  by (simp_all add: set_info_def js_set_def)

lemma js_set_absent: "map_of (js_instances st) i = None \<Longrightarrow> js_set i st = []"
  by (simp add: js_set_def)

lemma js_set_present: "map_of (js_instances st) i = Some rs \<Longrightarrow> js_set i st = rs"
  by (simp add: js_set_def)

lemma js_set_member:
  "r \<in> set (js_set i st) \<longleftrightarrow> (\<exists>rs. map_of (js_instances st) i = Some rs \<and> r \<in> set rs)"
  by (cases "map_of (js_instances st) i") (auto simp: js_set_def)

lemma search_set:
  "js_SearchCallbackInfo same env i fn st =
     List.find (\<lambda>r. \<not> ai_isDeleted (js_infos st r) \<and> ai_env (js_infos st r) = Some env
                  \<and> same fn (ai_callback (js_infos st r))) (js_set i st)"
  by (simp add: js_SearchCallbackInfo_def js_set_def split: option.splits)

lemma delete_all_ordered [table_facts]:
  "ordered_map (js_instances st) \<Longrightarrow> ordered_map (js_instances (js_DeleteAll k st))"
  by (simp add: js_DeleteAll_def ordered_map_erase split: option.splits)

lemma delete_all_set [table_facts]: "js_set i (js_DeleteAll k st) = (if i = k then [] else js_set i st)"
  by (auto simp: js_DeleteAll_def js_set_def map_of_erase split: option.splits)

lemma delete_all_infos [table_facts]:
  "js_infos (js_DeleteAll k st) r =
     (if r \<in> set (js_set k st) then (js_infos st r)\<lparr>ai_isDeleted := True\<rparr> else js_infos st r)"
  by (auto simp: js_DeleteAll_def js_set_def split: option.splits)

lemma delete_all_next [table_facts]: "js_next (js_DeleteAll k st) = js_next st"
  by (simp add: js_DeleteAll_def split: option.splits)

lemma delete_one_ordered [table_facts]:
  "ordered_map (js_instances st) \<Longrightarrow> ordered_map (js_instances (js_DeleteCallbackInfo same env k fn st))"
  by (simp add: js_DeleteCallbackInfo_def ordered_map_assign split: option.splits)

lemma delete_one_next [table_facts]: "js_next (js_DeleteCallbackInfo same env k fn st) = js_next st"
  by (simp add: js_DeleteCallbackInfo_def split: option.splits)

lemma delete_one_found:
  assumes "ordered_map (js_instances st)"
    and "List.find (\<lambda>r. ai_env (js_infos st r) = Some env \<and> same fn (ai_callback (js_infos st r)))
           (js_set k st) = Some r"
  shows "js_set i (js_DeleteCallbackInfo same env k fn st) =
           (if i = k then remove1 r (js_set k st) else js_set i st)"
    and "js_infos (js_DeleteCallbackInfo same env k fn st) x =
           (if x = r then (js_infos st x)\<lparr>ai_isDeleted := True\<rparr> else js_infos st x)"
proof -
  obtain rs where rs: "map_of (js_instances st) k = Some rs"
    using assms(2) by (cases "map_of (js_instances st) k") (auto simp: js_set_def)
  then have "js_set k st = rs" by (simp add: js_set_def)
  with assms(2) rs have eq: "js_DeleteCallbackInfo same env k fn st =
      (mark_deleted [r] st)\<lparr>js_instances := map_assign k (remove1 r rs) (js_instances st)\<rparr>"
    by (simp add: js_DeleteCallbackInfo_def)
  show "js_set i (js_DeleteCallbackInfo same env k fn st) =
      (if i = k then remove1 r (js_set k st) else js_set i st)"
    using assms(1) \<open>js_set k st = rs\<close> by (simp add: eq js_set_def map_of_assign)
  show "js_infos (js_DeleteCallbackInfo same env k fn st) x =
      (if x = r then (js_infos st x)\<lparr>ai_isDeleted := True\<rparr> else js_infos st x)"
    by (simp add: eq)
qed

lemma delete_one_none:
  assumes "List.find (\<lambda>r. ai_env (js_infos st r) = Some env \<and> same fn (ai_callback (js_infos st r)))
             (js_set k st) = None"
  shows "js_DeleteCallbackInfo same env k fn st = st"
  using assms by (auto simp: js_DeleteCallbackInfo_def js_set_def split: option.splits)

lemma purge_facts [table_facts]:
  "js_infos (snd (js_purge k st)) = js_infos st"
  "js_next (snd (js_purge k st)) = js_next st"
  "ordered_map (js_instances st) \<Longrightarrow> ordered_map (js_instances (snd (js_purge k st)))"
  "ordered_map (js_instances st) \<Longrightarrow>
     js_set i (snd (js_purge k st)) =
       (if i = k then filter (\<lambda>r. live_info (js_infos st r)) (js_set k st) else js_set i st)"
  "fst (js_purge k st) = filter (\<lambda>r. live_info (js_infos st r)) (js_set k st)"
  by (auto simp: js_purge_def js_set_def map_of_assign ordered_map_assign split: option.splits)

lemma map_of_filter_keys:
  "map_of (filter (\<lambda>(k, v). P k) m) i = (if P i then map_of m i else None)"
  by (induction m) (auto split: if_splits)

lemma ordered_map_of: "ordered_map m \<Longrightarrow> (k, v) \<in> set m \<longleftrightarrow> map_of m k = Some v"
proof -
  assume "ordered_map m"
  then have "distinct (map fst m)" by (simp add: ordered_map_def strict_sorted_iff)
  then show ?thesis by simp
qed

lemma release_facts [table_facts]:
  "js_next (DeleteEmitterInstance e st) = js_next st"
  "ordered_map (js_instances st) \<Longrightarrow> ordered_map (js_instances (DeleteEmitterInstance e st))"
  "js_set i (DeleteEmitterInstance e st) = (if cid_emitterId i = e then [] else js_set i st)"
  by (auto simp: DeleteEmitterInstance_def Let_def js_set_def ordered_map_filter map_of_filter_keys)

lemma release_infos [table_facts]:
  assumes "ordered_map (js_instances st)"
  shows "js_infos (DeleteEmitterInstance e st) r =
     (if \<exists>k. cid_emitterId k = e \<and> r \<in> set (js_set k st)
      then (js_infos st r)\<lparr>ai_isDeleted := True\<rparr> else js_infos st r)"
proof -
  have "r \<in> set (concat (map snd (filter (\<lambda>(k, rs). cid_emitterId k = e) (js_instances st)))) \<longleftrightarrow>
      (\<exists>k rs. map_of (js_instances st) k = Some rs \<and> cid_emitterId k = e \<and> r \<in> set rs)"
    using ordered_map_of [OF assms] by auto
  also have "\<dots> \<longleftrightarrow> (\<exists>k. cid_emitterId k = e \<and> r \<in> set (js_set k st))"
    by (auto simp: js_set_member)
  finally show ?thesis by (simp add: DeleteEmitterInstance_def Let_def)
qed

lemma new_info_facts [table_facts]:
  "ordered_map (js_instances st) \<Longrightarrow> ordered_map (js_instances (js_new_info env k fn once tsfn st))"
  "js_next (js_new_info env k fn once tsfn st) = Suc (js_next st)"
  "ordered_map (js_instances st) \<Longrightarrow>
     js_set i (js_new_info env k fn once tsfn st) =
       (if i = k then js_set k st @ [js_next st] else js_set i st)"
  "js_infos (js_new_info env k fn once tsfn st) r =
     (if r = js_next st
      then \<lparr>ai_env = Some env, ai_once = once, ai_isDeleted = False, ai_callback = fn, ai_tsfn = tsfn,
            ai_eventId = cid_eventId k, ai_emitterId = cid_emitterId k\<rparr>
      else js_infos st r)"
  by (simp_all add: js_new_info_def Let_def js_set_def map_of_assign ordered_map_assign)

lemma erase_entry_facts [table_facts]:
  "js_infos (erase_entry k r st) = js_infos st"
  "js_next (erase_entry k r st) = js_next st"
  "ordered_map (js_instances st) \<Longrightarrow> ordered_map (js_instances (erase_entry k r st))"
  "ordered_map (js_instances st) \<Longrightarrow>
     js_set i (erase_entry k r st) = (if i = k then remove1 r (js_set k st) else js_set i st)"
  by (auto simp: erase_entry_def js_set_def map_of_assign ordered_map_assign split: option.splits)

lemma update_once_info:
  "js_UpdateOnceFlag r once st = set_info r (\<lambda>a. a\<lparr>ai_once := once\<rparr>) st"
  by (auto simp: js_UpdateOnceFlag_def set_info_def fun_eq_iff intro!: js_state.equality)

section \<open>Refinement of the abstract subscriptions\<close>

definition sub_on :: "nat \<Rightarrow> nat \<Rightarrow> bool \<Rightarrow> (nat \<times> nat \<times> bool) set \<Rightarrow> (nat \<times> nat \<times> bool) set" where
  \<comment> \<open>subscribing again changes the flag\<close>
  "sub_on env fn once S = insert (env, fn, once) {(e, f, once'). (e, f, once') \<in> S \<and> (e, f) \<noteq> (env, fn)}"

definition sub_off :: "nat \<Rightarrow> nat \<Rightarrow> (nat \<times> nat \<times> bool) set \<Rightarrow> (nat \<times> nat \<times> bool) set" where
  "sub_off env fn S = {(e, f, once'). (e, f, once') \<in> S \<and> (e, f) \<noteq> (env, fn)}"

lemma wrapped_irrelevant [simp]:
  "js_set i (st\<lparr>js_wrapped := w\<rparr>) = js_set i st"
  "js_wf (st\<lparr>js_wrapped := w\<rparr>) = js_wf st"
  "js_subs (st\<lparr>js_wrapped := w\<rparr>) = js_subs st"
  by (simp_all add: js_set_def js_wf_def js_subs_def fun_eq_iff)

text \<open>
  Every function but subscribing keeps or removes members of the sets and keeps the entries but for
  their flags, or marks them deleted: such a step preserves the invariant.
\<close>

lemma wf_shrink:
  assumes wf: "js_wf st" and om: "ordered_map (js_instances st')"
    and next': "js_next st' = js_next st"
    and sets: "\<And>i. set (js_set i st') \<subseteq> set (js_set i st) \<and> distinct (js_set i st')"
    and ids: "\<And>r. info_id (js_infos st' r) = info_id (js_infos st r)"
    and live: "\<And>r. live_info (js_infos st' r) \<Longrightarrow>
       live_info (js_infos st r) \<and> ai_env (js_infos st' r) = ai_env (js_infos st r) \<and>
       ai_callback (js_infos st' r) = ai_callback (js_infos st r)"
    and dead: "\<And>i r. r \<in> set (js_set i st') \<Longrightarrow> ai_isDeleted (js_infos st' r) \<Longrightarrow>
       ai_env (js_infos st' r) = None"
  shows "js_wf st'"
  unfolding js_wf_def
proof (intro conjI allI ballI impI)
  show "ordered_map (js_instances st')" by (fact om)
next
  fix i
  show "distinct (js_set i st')" using sets by blast
next
  fix i r assume "r \<in> set (js_set i st')"
  then have r: "r \<in> set (js_set i st)" using sets by blast
  show "r < js_next st'" using wf_entry(2) [OF wf r] next' by simp
  show "info_id (js_infos st' r) = i" using wf_entry(1) [OF wf r] ids by simp
next
  fix i r assume "r \<in> set (js_set i st')" "ai_isDeleted (js_infos st' r)"
  then show "ai_env (js_infos st' r) = None" by (rule dead)
next
  fix i r r'
  assume a: "r \<in> set (js_set i st')" "r' \<in> set (js_set i st')"
    "live_info (js_infos st' r)" "live_info (js_infos st' r')"
    "ai_env (js_infos st' r) = ai_env (js_infos st' r')"
    "ai_callback (js_infos st' r) = ai_callback (js_infos st' r')"
  show "r = r'"
    using wf_unique [OF wf, of r i r'] a sets [of i] live [OF a(3)] live [OF a(4)] by auto
qed

lemma marked_id [simp]: "info_id (a\<lparr>ai_isDeleted := b\<rparr>) = info_id a"
  "info_id (a\<lparr>ai_once := o1\<rparr>) = info_id a" "info_id (a\<lparr>ai_env := e\<rparr>) = info_id a"
  by (simp_all add: info_id_def)

lemma marked_live [simp]: "\<not> live_info (a\<lparr>ai_isDeleted := True\<rparr>)"
  "live_info (a\<lparr>ai_once := o1\<rparr>) = live_info a"
  by (simp_all add: live_info_def)

lemma live_unmarked:
  "live_info (if b then a\<lparr>ai_isDeleted := True\<rparr> else a) \<Longrightarrow>
     (if b then a\<lparr>ai_isDeleted := True\<rparr> else a) = a"
  by (cases b) simp_all

lemma delete_all_refines:
  assumes "js_wf st"
  shows "js_wf (js_DeleteAll k st)"
    and "js_subs (js_DeleteAll k st) = (js_subs st)(k := {})"
proof -
  note om = wf_ordered [OF assms]
  show "js_wf (js_DeleteAll k st)"
    by (rule wf_shrink [OF assms])
      (auto simp: table_facts om wf_distinct [OF assms] wf_entry(3) [OF assms] wf_disjoint [OF assms]
        split: if_splits)
  show "js_subs (js_DeleteAll k st) = (js_subs st)(k := {})"
    using wf_disjoint [OF assms]
    by (auto simp: fun_eq_iff js_subs_iff table_facts set_eq_iff)
qed

lemma purge_refines:
  assumes "js_wf st"
  shows "js_wf (snd (js_purge k st))" and "js_subs (snd (js_purge k st)) = js_subs st"
proof -
  note om = wf_ordered [OF assms]
  show "js_wf (snd (js_purge k st))"
    by (rule wf_shrink [OF assms])
      (auto simp: table_facts om wf_distinct [OF assms] wf_entry(3) [OF assms] split: if_splits)
  show "js_subs (snd (js_purge k st)) = js_subs st"
    using om by (auto simp: fun_eq_iff js_subs_def table_facts)
qed

lemma release_refines:
  assumes "js_wf st"
  shows "js_wf (DeleteEmitterInstance e st)"
    and "js_subs (DeleteEmitterInstance e st) = (\<lambda>i. if cid_emitterId i = e then {} else js_subs st i)"
proof -
  note om = wf_ordered [OF assms]
  have keep: "js_infos (DeleteEmitterInstance e st) r = js_infos st r"
    if "r \<in> set (js_set i st)" "cid_emitterId i \<noteq> e" for i r
  proof -
    have "\<not> (\<exists>k. cid_emitterId k = e \<and> r \<in> set (js_set k st))"
      using wf_disjoint [OF assms that(1)] that(2) by blast
    then show ?thesis by (simp only: release_infos [OF om] if_False)
  qed
  show "js_wf (DeleteEmitterInstance e st)"
  proof (rule wf_shrink [OF assms])
    fix i r assume a: "r \<in> set (js_set i (DeleteEmitterInstance e st))"
      "ai_isDeleted (js_infos (DeleteEmitterInstance e st) r)"
    then have i: "cid_emitterId i \<noteq> e" "r \<in> set (js_set i st)"
      by (simp_all add: table_facts split: if_splits)
    show "ai_env (js_infos (DeleteEmitterInstance e st) r) = None"
      using a(2) wf_entry(3) [OF assms i(2)] by (simp add: keep [OF i(2,1)])
  next
    fix r assume "live_info (js_infos (DeleteEmitterInstance e st) r)"
    then have "js_infos (DeleteEmitterInstance e st) r = js_infos st r"
      unfolding release_infos [OF om] by (rule live_unmarked)
    then show "live_info (js_infos st r) \<and>
        ai_env (js_infos (DeleteEmitterInstance e st) r) = ai_env (js_infos st r) \<and>
        ai_callback (js_infos (DeleteEmitterInstance e st) r) = ai_callback (js_infos st r)"
      using \<open>live_info (js_infos (DeleteEmitterInstance e st) r)\<close> by simp
  qed (simp_all add: table_facts om release_infos [OF om] wf_distinct [OF assms])
  show "js_subs (DeleteEmitterInstance e st) = (\<lambda>i. if cid_emitterId i = e then {} else js_subs st i)"
  proof (rule ext)
    fix i
    show "js_subs (DeleteEmitterInstance e st) i = (if cid_emitterId i = e then {} else js_subs st i)"
    proof (cases "cid_emitterId i = e")
      case True
      then show ?thesis by (simp add: js_subs_def table_facts)
    next
      case False
      then have "{r \<in> set (js_set i (DeleteEmitterInstance e st)). live_info (js_infos (DeleteEmitterInstance e st) r)}
          = {r \<in> set (js_set i st). live_info (js_infos st r)}"
        using keep by (auto simp: table_facts)
      moreover have "js_infos (DeleteEmitterInstance e st) ` {r \<in> set (js_set i st). live_info (js_infos st r)}
          = js_infos st ` {r \<in> set (js_set i st). live_info (js_infos st r)}"
        using keep False by (intro image_cong) auto
      ultimately show ?thesis using False by (simp add: js_subs_def)
    qed
  qed
qed

lemma delete_one_refines:
  assumes "js_wf st" and same: "\<And>f g. same f g \<longleftrightarrow> f = g"
  shows "js_wf (js_DeleteCallbackInfo same env k fn st)"
    and "js_subs (js_DeleteCallbackInfo same env k fn st) = (js_subs st)(k := sub_off env fn (js_subs st k))"
proof -
  note om = wf_ordered [OF assms(1)]
  let ?P = "\<lambda>r. ai_env (js_infos st r) = Some env \<and> same fn (ai_callback (js_infos st r))"
  have "js_wf (js_DeleteCallbackInfo same env k fn st) \<and>
    js_subs (js_DeleteCallbackInfo same env k fn st) = (js_subs st)(k := sub_off env fn (js_subs st k))"
  proof (cases "List.find ?P (js_set k st)")
    case None
    then have "\<forall>r\<in>set (js_set k st). \<not> ?P r" by (simp add: find_None_iff)
    then have "sub_off env fn (js_subs st k) = js_subs st k"
      using same by (auto simp: sub_off_def js_subs_iff)
    then show ?thesis using delete_one_none [where st = st and env = env and same = same and fn = fn and k = k, OF None] assms(1) by simp
  next
    case (Some r)
    then have r: "r \<in> set (js_set k st)" "ai_env (js_infos st r) = Some env" "ai_callback (js_infos st r) = fn"
      using same by (auto simp: find_Some_iff)
    then have alive: "\<not> ai_isDeleted (js_infos st r)" using wf_entry(3) [OF assms(1) r(1)] by auto
    then have live: "live_info (js_infos st r)" using r(2) by (simp add: live_info_def)
    note f = delete_one_found [where st = st and env = env and same = same and fn = fn and k = k, OF om Some]
    have notin: "r \<notin> set (remove1 r (js_set k st))" using wf_distinct [OF assms(1), of k] by simp
    have other: "r \<notin> set (js_set i st)" if "i \<noteq> k" for i using wf_disjoint [OF assms(1) r(1)] that by blast
    have wf: "js_wf (js_DeleteCallbackInfo same env k fn st)"
    proof (rule wf_shrink [OF assms(1)])
      fix i x assume "x \<in> set (js_set i (js_DeleteCallbackInfo same env k fn st))"
        "ai_isDeleted (js_infos (js_DeleteCallbackInfo same env k fn st) x)"
      then show "ai_env (js_infos (js_DeleteCallbackInfo same env k fn st) x) = None"
        using notin other wf_entry(3) [OF assms(1), of x i]
        by (auto simp: f split: if_splits dest: in_set_remove1 notin_set_remove1)
    qed (auto simp: f table_facts om wf_distinct [OF assms(1)] distinct_remove1 dest: notin_set_remove1
        split: if_splits)
    have uniq: "x = r" if "x \<in> set (js_set k st)" "ai_env (js_infos st x) = Some env"
      "ai_callback (js_infos st x) = fn" "\<not> ai_isDeleted (js_infos st x)" for x
      using wf_unique [OF assms(1) that(1) r(1)] that r live by (simp add: live_info_def)
    have "js_subs (js_DeleteCallbackInfo same env k fn st) i =
        ((js_subs st)(k := sub_off env fn (js_subs st k))) i" for i
    proof (cases "i = k")
      case True
      have mem: "set (remove1 r (js_set k st)) = set (js_set k st) - {r}"
        using wf_distinct [OF assms(1)] by (rule set_remove1_eq)
      have new: "(e, g, o1) \<in> js_subs (js_DeleteCallbackInfo same env k fn st) k \<longleftrightarrow>
          (\<exists>x\<in>set (js_set k st). x \<noteq> r \<and> \<not> ai_isDeleted (js_infos st x) \<and>
             ai_env (js_infos st x) = Some e \<and> ai_callback (js_infos st x) = g \<and>
             ai_once (js_infos st x) = o1)" for e g o1
        by (auto simp: js_subs_iff f mem)
      have old: "(\<exists>x\<in>set (js_set k st). x \<noteq> r \<and> \<not> ai_isDeleted (js_infos st x) \<and>
             ai_env (js_infos st x) = Some e \<and> ai_callback (js_infos st x) = g \<and>
             ai_once (js_infos st x) = o1) \<longleftrightarrow> (e, g, o1) \<in> sub_off env fn (js_subs st k)" for e g o1
      proof -
        have "x \<noteq> r \<longleftrightarrow> (e, g) \<noteq> (env, fn)"
          if "x \<in> set (js_set k st)" "\<not> ai_isDeleted (js_infos st x)" "ai_env (js_infos st x) = Some e"
            "ai_callback (js_infos st x) = g" for x
          using that uniq r(2,3) by auto
        then show ?thesis unfolding sub_off_def js_subs_iff mem_Collect_eq prod.case by blast
      qed
      have "(e, g, o1) \<in> js_subs (js_DeleteCallbackInfo same env k fn st) k \<longleftrightarrow>
          (e, g, o1) \<in> sub_off env fn (js_subs st k)" for e g o1
        unfolding new old ..
      with True show ?thesis by (auto simp: set_eq_iff)
    next
      case False
      then show ?thesis using other [OF False] by (auto simp: set_eq_iff js_subs_iff f)
    qed
    with wf show ?thesis by (simp add: fun_eq_iff)
  qed
  then show "js_wf (js_DeleteCallbackInfo same env k fn st)"
    "js_subs (js_DeleteCallbackInfo same env k fn st) = (js_subs st)(k := sub_off env fn (js_subs st k))"
    by auto
qed

lemma subscribe_refines:
  assumes "js_wf st" and same: "\<And>f g. same f g \<longleftrightarrow> f = g"
  shows "js_wf (js_subscribe same True tsfn wrapped env k fn once st)"
    and "js_subs (js_subscribe same True tsfn wrapped env k fn once st) =
           (js_subs st)(k := sub_on env fn once (js_subs st k))"
proof -
  note om = wf_ordered [OF assms(1)]
  let ?P = "\<lambda>r. \<not> ai_isDeleted (js_infos st r) \<and> ai_env (js_infos st r) = Some env
                  \<and> same fn (ai_callback (js_infos st r))"
  let ?st = "js_subscribe same True tsfn wrapped env k fn once st"
  have "js_wf ?st \<and> js_subs ?st = (js_subs st)(k := sub_on env fn once (js_subs st k))"
  proof (cases "List.find ?P (js_set k st)")
    case None
    then have none: "\<not> (ai_env (js_infos st r) = Some env \<and> ai_callback (js_infos st r) = fn \<and>
        \<not> ai_isDeleted (js_infos st r))" if "r \<in> set (js_set k st)" for r
      using that same by (auto simp: find_None_iff)
    let ?new = "js_new_info env k fn once tsfn st"
    have fresh: "js_next st \<notin> set (js_set i st)" for i using wf_entry(2) [OF assms(1)] by blast
    have old: "js_infos ?new r = js_infos st r" if "r \<in> set (js_set i st)" for r i
      using that fresh by (auto simp: table_facts)
    have wf: "js_wf ?new"
      unfolding js_wf_def
    proof (intro conjI allI ballI impI)
      show "ordered_map (js_instances ?new)" using om by (rule table_facts)
    next
      fix i show "distinct (js_set i ?new)"
        using om fresh wf_distinct [OF assms(1)] by (simp add: table_facts)
    next
      fix i r assume "r \<in> set (js_set i ?new)"
      then have "r \<in> set (js_set i st) \<or> r = js_next st \<and> i = k"
        using om by (auto simp: table_facts split: if_splits)
      then have "r < js_next ?new \<and> info_id (js_infos ?new r) = i \<and>
          (ai_isDeleted (js_infos ?new r) \<longrightarrow> ai_env (js_infos ?new r) = None)"
        using wf_entry [OF assms(1), of r i] old [of r i]
        by (auto simp: table_facts info_id_def less_Suc_eq)
      then show "r < js_next ?new" "info_id (js_infos ?new r) = i"
        "ai_isDeleted (js_infos ?new r) \<Longrightarrow> ai_env (js_infos ?new r) = None" by auto
    next
      fix i r r'
      assume a: "r \<in> set (js_set i ?new)" "r' \<in> set (js_set i ?new)"
        "live_info (js_infos ?new r)" "live_info (js_infos ?new r')"
        "ai_env (js_infos ?new r) = ai_env (js_infos ?new r')"
        "ai_callback (js_infos ?new r) = ai_callback (js_infos ?new r')"
      have m: "x \<in> set (js_set i st) \<or> x = js_next st \<and> i = k" if "x \<in> set (js_set i ?new)" for x
        using that om by (auto simp: table_facts split: if_splits)
      have n: "ai_env (js_infos ?new (js_next st)) = Some env" "ai_callback (js_infos ?new (js_next st)) = fn"
        by (simp_all add: table_facts)
      have clash: False if "x \<in> set (js_set k st)" "live_info (js_infos st x)"
        "ai_env (js_infos st x) = Some env" "ai_callback (js_infos st x) = fn" for x
        using none [OF that(1)] that by (simp add: live_info_def)
      show "r = r'"
        using m [OF a(1)] m [OF a(2)] a(3-6) n clash old wf_unique [OF assms(1), of r i r']
        by (elim disjE conjE) auto
    qed
    have "js_subs ?new i = ((js_subs st)(k := sub_on env fn once (js_subs st k))) i" for i
    proof -
      have "(e, g, o1) \<in> js_subs ?new i \<longleftrightarrow> (e, g, o1) \<in> js_subs st i \<or> i = k \<and> (e, g, o1) = (env, fn, once)"
        for e g o1
        using om old fresh by (auto simp: js_subs_iff new_info_facts)
      moreover have "(env, fn, o1) \<notin> js_subs st k" for o1
        using none by (auto simp: js_subs_iff)
      ultimately show ?thesis by (auto simp: sub_on_def set_eq_iff)
    qed
    then have "js_subs ?new = (js_subs st)(k := sub_on env fn once (js_subs st k))" by (rule ext)
    moreover have "?st = (if wrapped then ?new\<lparr>js_wrapped := js_next st # js_wrapped ?new\<rparr> else ?new)"
      using None by (simp add: js_subscribe_def search_set Let_def)
    ultimately show ?thesis using wf by simp
  next
    case (Some r)
    then have r: "r \<in> set (js_set k st)" "\<not> ai_isDeleted (js_infos st r)" "ai_env (js_infos st r) = Some env"
      "ai_callback (js_infos st r) = fn"
      using same by (auto simp: find_Some_iff)
    have st: "?st = set_info r (\<lambda>a. a\<lparr>ai_once := once\<rparr>) st"
      using Some by (simp add: js_subscribe_def search_set update_once_info)
    have wf: "js_wf (set_info r (\<lambda>a. a\<lparr>ai_once := once\<rparr>) st)"
      by (rule wf_shrink [OF assms(1)])
        (auto simp: om wf_distinct [OF assms(1)] dest: wf_entry(3) [OF assms(1)] split: if_splits)
    have uniq: "x = r" if "x \<in> set (js_set k st)" "ai_env (js_infos st x) = Some env"
      "ai_callback (js_infos st x) = fn" "\<not> ai_isDeleted (js_infos st x)" for x
      using wf_unique [OF assms(1) that(1) r(1)] that r by (simp add: live_info_def)
    have other: "r \<notin> set (js_set i st)" if "i \<noteq> k" for i using wf_disjoint [OF assms(1) r(1)] that by blast
    have "js_subs (set_info r (\<lambda>a. a\<lparr>ai_once := once\<rparr>) st) i =
        ((js_subs st)(k := sub_on env fn once (js_subs st k))) i" for i
    proof (cases "i = k")
      case True
      have "(e, g, o1) \<in> js_subs (set_info r (\<lambda>a. a\<lparr>ai_once := once\<rparr>) st) k \<longleftrightarrow>
          (e, g, o1) \<in> sub_on env fn once (js_subs st k)" for e g o1
      proof (cases "(e, g) = (env, fn)")
        case True
        have "(env, fn, o1) \<in> js_subs (set_info r (\<lambda>a. a\<lparr>ai_once := once\<rparr>) st) k \<longleftrightarrow> o1 = once"
        proof
          assume "(env, fn, o1) \<in> js_subs (set_info r (\<lambda>a. a\<lparr>ai_once := once\<rparr>) st) k"
          then obtain x where x: "x \<in> set (js_set k st)"
            "\<not> ai_isDeleted (js_infos (set_info r (\<lambda>a. a\<lparr>ai_once := once\<rparr>) st) x)"
            "ai_env (js_infos (set_info r (\<lambda>a. a\<lparr>ai_once := once\<rparr>) st) x) = Some env"
            "ai_callback (js_infos (set_info r (\<lambda>a. a\<lparr>ai_once := once\<rparr>) st) x) = fn"
            "ai_once (js_infos (set_info r (\<lambda>a. a\<lparr>ai_once := once\<rparr>) st) x) = o1"
            unfolding js_subs_iff set_info_simps(3) by (elim bexE conjE) (rule that)
          have "x = r"
          proof (rule ccontr)
            assume "x \<noteq> r"
            then have old: "js_infos (set_info r (\<lambda>a. a\<lparr>ai_once := once\<rparr>) st) x = js_infos st x"
              by (simp only: set_info_simps if_False)
            have "x = r" by (rule uniq [OF x(1)]) (use x(2-4) in \<open>simp_all only: old not_False_eq_True\<close>)
            with \<open>x \<noteq> r\<close> show False by contradiction
          qed
          with x(5) show "o1 = once" by simp
        next
          assume "o1 = once"
          then show "(env, fn, o1) \<in> js_subs (set_info r (\<lambda>a. a\<lparr>ai_once := once\<rparr>) st) k"
            unfolding js_subs_iff set_info_simps(3) using r by (intro bexI [of _ r]) simp_all
        qed
        with True show ?thesis by (simp add: sub_on_def)
      next
        case False
        then have "x \<noteq> r" if "ai_env (js_infos st x) = Some e" "ai_callback (js_infos st x) = g" for x
          using that r by auto
        with False show ?thesis using r unfolding sub_on_def js_subs_iff by auto
      qed
      with True show ?thesis by (auto simp: set_eq_iff)
    next
      case False
      then show ?thesis using other [OF False] by (auto simp: set_eq_iff js_subs_iff)
    qed
    then have "js_subs (set_info r (\<lambda>a. a\<lparr>ai_once := once\<rparr>) st) =
        (js_subs st)(k := sub_on env fn once (js_subs st k))" by (rule ext)
    with wf show ?thesis unfolding st by blast
  qed
  then show "js_wf ?st" "js_subs ?st = (js_subs st)(k := sub_on env fn once (js_subs st k))" by auto
qed

lemma finalize_wf: "js_wf st \<Longrightarrow> js_wf (js_finalize r st)"
  unfolding js_finalize_def
  by (rule wf_shrink) (auto simp: wf_ordered wf_distinct live_info_def info_id_def
      dest: wf_entry(3) split: if_splits)

lemma erase_entry_wf: "js_wf st \<Longrightarrow> js_wf (erase_entry k r st)"
  by (rule wf_shrink) (auto simp: erase_entry_facts wf_ordered wf_distinct distinct_remove1
      dest: wf_entry(3) notin_set_remove1 split: if_splits)

section \<open>The manager of the engine's callbacks works on the same table\<close>

lemma napi_is_js:
  "NapiDeleteCallbackInfoByEventId i st = js_DeleteAll i st"
  "NapiGetListenerCountByEventId i st = js_count i st"
  "NapiGetAsyncCallbackInfo i st = js_purge i st"
  "NapiDeleteCallbackInfo same (Some env) i fn st = js_DeleteCallbackInfo same env i fn st"
  "NapiIsExistValidCallback i st = js_IsExistValidCallback i st"
proof -
  have "map_erase i m = m" if "map_of m i = None" for m :: "(composite_id \<times> nat list) list"
    using that by (auto simp: map_erase_def map_of_eq_None_iff intro!: filter_True)
  then show "NapiDeleteCallbackInfoByEventId i st = js_DeleteAll i st"
    by (simp add: NapiDeleteCallbackInfoByEventId_def js_DeleteAll_def split: option.splits)
qed (simp_all add: NapiGetListenerCountByEventId_def js_count_def js_purge_def Let_def
    NapiGetAsyncCallbackInfo_def NapiDeleteCallbackInfo_def js_DeleteCallbackInfo_def
    NapiIsExistValidCallback_def js_IsExistValidCallback_def split: option.splits)

end
