(* ===== verification/Ani_Emitter.thy ===== *)
theory Ani_Emitter
  imports Js_Emitter
begin

text \<open>
  The emitter of the static runtime: \<open>frameworks/emitter/ani/src/ani_emitter.cpp\<close>. Strings and
  numbers of the runtime are given as \<open>string\<close> and \<open>int\<close>; what the environment answers about an
  object (its properties, whether a record can be serialised) is an argument. A null reference is
  \<open>None\<close>.
\<close>

record ani_answers =
  \<comment> \<open>whether the data is allocated, the virtual machine, and the answers about the event data\<close>
  aa_alloc :: bool
  aa_vm :: "nat option"
  aa_data :: interop_answers

definition EventsEmitter_OnOrOnce where
  "EventsEmitter_OnOrOnce same alloc vm workId i once callback dataType em =
     InsertCallbackInfo same alloc vm workId i once callback dataType em"

definition OffEmitterInstances :: "composite_id \<Rightarrow> emitters \<Rightarrow> emitters" where
  "OffEmitterInstances i em = DeleteCallbackInfoByEventId i em"

definition GetSharedSerializeData :: "ani_answers \<Rightarrow> serialize_data option" where
  "GetSharedSerializeData aa =
     (if \<not> aa_alloc aa then None
      else if aa_vm aa = None then None
      else Some (new_serialize_data\<lparr>sd_envType := ANI\<rparr>))"

datatype release_data_action = DeleteGlobalReference nat | DeleteSerializationData nat "nat option"

definition ReleaseAniData :: "serialize_data \<Rightarrow> release_data_action list" where
  [eh_defs]: "ReleaseAniData d = (case sd_peerAni d of None \<Rightarrow> [] | Some p \<Rightarrow> [DeleteGlobalReference p])"

definition ReleaseNapiData :: "serialize_data \<Rightarrow> release_data_action list" where
  [eh_defs]: "ReleaseNapiData d =
     (case sd_env d of None \<Rightarrow> [] | Some env \<Rightarrow> [DeleteSerializationData env (sd_crossData d)])"

definition release_serialize_data :: "bool \<Rightarrow> serialize_data \<Rightarrow> release_data_action list" where
  \<comment> \<open>the deleter in \<open>GetSharedSerializeData\<close>; \<open>attached\<close>: the thread has an environment or gets one\<close>
  "release_serialize_data attached d = (if attached then ReleaseAniData d @ ReleaseNapiData d else [])"

definition ani_serialize :: "ani_answers \<Rightarrow> composite_id \<Rightarrow> emitters \<Rightarrow> serialize_data option" where
  \<comment> \<open>the part between the priority and \<open>InnerEvent::Get\<close> of both emitting functions\<close>
  "ani_serialize aa i em =
     (case GetSharedSerializeData aa of
        None \<Rightarrow> None
      | Some d \<Rightarrow>
          (case ani_PeerSerialize (aa_data aa) d of
             None \<Rightarrow> None
           | Some d1 \<Rightarrow>
               if IsCrossRuntime i ANI em
               then fst (CrossSerialize (aa_data aa) (d1\<lparr>sd_isCrossRuntime := True\<rparr>))
               else Some d1))"

definition ani_send ::
  "call_env \<Rightarrow> caller \<Rightarrow> handler_ref \<Rightarrow> object_ref \<Rightarrow> serialize_data \<Rightarrow> composite_id \<Rightarrow> priority \<Rightarrow>
     emitters \<Rightarrow> system \<Rightarrow> emitters \<times> system" where
  [eh_defs]: "ani_send c cl h ob d i prio em sy =
     (let event = (Get_shared (cid_eventId i) (SharedPtr SerializeData_type) ob 0 cl)
                    \<lparr>ev_isEnhanced := True, ev_emitterId := cid_emitterId i\<rparr>
      in (em\<lparr>em_data := (em_data em)(ob := d)\<rparr>, snd (SendEvent c h (Some event) 0 prio sy)))"

definition EmitWithEventId :: "call_env \<Rightarrow> caller \<Rightarrow> handler_ref \<Rightarrow> object_ref \<Rightarrow> ani_answers \<Rightarrow> int option \<Rightarrow>
    int option \<Rightarrow> emitters \<Rightarrow> system \<Rightarrow> emitters \<times> system" where
  \<comment> \<open>\<open>eventId\<close>, \<open>priority\<close>: the properties of the inner event, \<open>None\<close> where absent or undefined\<close>
  "EmitWithEventId c cl h ob aa eventId priority em sy =
     (case eventId of
        None \<Rightarrow> (em, sy)
      | Some n \<Rightarrow>
          let i = composite_of (IdU32 (word_of_int n))
          in if \<not> IsExistValidCallback i em then (em, sy)
             else
               let prio = (case priority of None \<Rightarrow> LOW | Some p \<Rightarrow> prio_cast (word_of_int p))
               in (case ani_serialize aa i em of
                     None \<Rightarrow> (em, sy)
                   | Some d \<Rightarrow> ani_send c cl h ob d i prio em sy))"

definition ani_EmitWithEventIdString :: "call_env \<Rightarrow> caller \<Rightarrow> handler_ref \<Rightarrow> object_ref \<Rightarrow> ani_answers \<Rightarrow>
    string \<Rightarrow> int option \<Rightarrow> u32 \<Rightarrow> emitters \<Rightarrow> system \<Rightarrow> emitters \<times> system" where
  "ani_EmitWithEventIdString c cl h ob aa eventId enumItem emitterId em sy =
     (let i = CompositeEventId (IdStr eventId) emitterId
      in if \<not> IsExistValidCallback i em then (em, sy)
         else
           let prio = (case enumItem of None \<Rightarrow> LOW | Some p \<Rightarrow> prio_cast (word_of_int p))
           in (case ani_serialize aa i em of
                 None \<Rightarrow> (em, sy)
               | Some d \<Rightarrow> ani_send c cl h ob d i prio em sy))"

definition EventsEmitter_GetListenerCount :: "composite_id \<Rightarrow> emitters \<Rightarrow> int \<times> emitters" where
  "EventsEmitter_GetListenerCount i em = (let (n, em1) = GetListenerCountByEventId i em in (uint n, em1))"

definition EventsEmitter_EmitterConstructor :: "bool \<Rightarrow> emitters \<Rightarrow> int option \<times> emitters" where
  \<comment> \<open>the value of the property \<open>emitterId\<close>; \<open>found\<close>: the class of the emitter\<close>
  "EventsEmitter_EmitterConstructor found em =
     (if \<not> found then (None, em)
      else let (n, st) = GetNextEmitterInstanceId (em_js em) in (Some (uint n), em\<lparr>em_js := st\<rparr>))"

definition EmitterOnOrOnce_ani where
  "EmitterOnOrOnce_ani same alloc vm workId emitterId eventId once callback dataType em =
     EventsEmitter_OnOrOnce same alloc vm workId (CompositeEventId (IdStr eventId) (word_of_int emitterId))
       once callback dataType em"

definition EmitterOff ::
  "(nat \<Rightarrow> nat \<Rightarrow> bool) \<Rightarrow> int \<Rightarrow> string \<Rightarrow> nat option \<Rightarrow> emitters \<Rightarrow> emitters" where
  "EmitterOff same emitterId eventId callback em =
     (let i = CompositeEventId (IdStr eventId) (word_of_int emitterId)
      in case callback of
           None \<Rightarrow> OffEmitterInstances i em
         | Some f \<Rightarrow> DeleteCallbackInfo_ani same i f em)"

definition EmitterGetListenerCount :: "int \<Rightarrow> string \<Rightarrow> emitters \<Rightarrow> int \<times> emitters" where
  "EmitterGetListenerCount emitterId eventId em =
     EventsEmitter_GetListenerCount (CompositeEventId (IdStr eventId) (word_of_int emitterId)) em"

definition EmitterClean :: "int option \<Rightarrow> emitters \<Rightarrow> emitters" where
  "EmitterClean emitterId em =
     (case emitterId of
        None \<Rightarrow> em
      | Some n \<Rightarrow>
          let i = CompositeEventId (IdU32 0) (word_of_int n)
          in if cid_emitterId i > 0 then CleanCallbackInfo i em else em)"

definition GetPriority :: "int option option \<Rightarrow> int option" where
  \<comment> \<open>the property \<open>priority\<close> of the options: \<open>None\<close> where the lookup fails, \<open>Some None\<close> when undefined\<close>
  "GetPriority p = (case p of None \<Rightarrow> None | Some q \<Rightarrow> q)"

definition EmitterEmit :: "call_env \<Rightarrow> caller \<Rightarrow> handler_ref \<Rightarrow> object_ref \<Rightarrow> ani_answers \<Rightarrow> int \<Rightarrow>
    string \<Rightarrow> int option option option \<Rightarrow> emitters \<Rightarrow> system \<Rightarrow> emitters \<times> system" where
  \<comment> \<open>\<open>options\<close>: null, or an object with the property\<close>
  "EmitterEmit c cl h ob aa emitterId eventId options em sy =
     (let priority = (case options of None \<Rightarrow> None | Some p \<Rightarrow> GetPriority p)
      in ani_EmitWithEventIdString c cl h ob aa eventId priority (word_of_int emitterId) em sy)"

section \<open>The bound functions\<close>

text \<open>Each fixes the kind of event id; several variants of the bindings have the same body.\<close>

definition OnOrOnceSync where
  "OnOrOnceSync same alloc vm workId eventId once callback dataType em =
     EventsEmitter_OnOrOnce same alloc vm workId (composite_of (IdU32 (word_of_int eventId))) once callback
       dataType em"

definition OnOrOnceStringSync where
  "OnOrOnceStringSync same alloc vm workId eventId once callback dataType em =
     EventsEmitter_OnOrOnce same alloc vm workId (composite_of (IdStr eventId)) once callback dataType em"

definition OffStringIdSync :: "string \<Rightarrow> emitters \<Rightarrow> emitters" where
  "OffStringIdSync eventId em = OffEmitterInstances (composite_of (IdStr eventId)) em"

definition OffStringSync :: "(nat \<Rightarrow> nat \<Rightarrow> bool) \<Rightarrow> string \<Rightarrow> nat \<Rightarrow> emitters \<Rightarrow> emitters" where
  "OffStringSync same eventId callback em =
     DeleteCallbackInfo_ani same (composite_of (IdStr eventId)) callback em"

definition OffNumberSync :: "int \<Rightarrow> emitters \<Rightarrow> emitters" where
  "OffNumberSync eventId em = OffEmitterInstances (composite_of (IdU32 (word_of_int eventId))) em"

definition OffNumberCallbackSync :: "(nat \<Rightarrow> nat \<Rightarrow> bool) \<Rightarrow> int \<Rightarrow> nat \<Rightarrow> emitters \<Rightarrow> emitters" where
  "OffNumberCallbackSync same eventId callback em =
     DeleteCallbackInfo_ani same (composite_of (IdU32 (word_of_int eventId))) callback em"

definition getListenerCountNumber :: "int \<Rightarrow> emitters \<Rightarrow> int \<times> emitters" where
  "getListenerCountNumber eventId em =
     EventsEmitter_GetListenerCount (composite_of (IdU32 (word_of_int eventId))) em"

definition getListenerCountString :: "string \<Rightarrow> emitters \<Rightarrow> int \<times> emitters" where
  "getListenerCountString eventId em = EventsEmitter_GetListenerCount (composite_of (IdStr eventId)) em"

definition no_event_data :: "ani_answers \<Rightarrow> ani_answers" where
  \<comment> \<open>a null pointer in place of the event data\<close>
  [eh_defs]: "no_event_data aa = aa\<lparr>aa_data := (aa_data aa)\<lparr>ia_argv := False\<rparr>\<rparr>"

definition EmitStringSync where
  "EmitStringSync c cl h ob aa eventId em sy =
     ani_EmitWithEventIdString c cl h ob (no_event_data aa) eventId None 0 em sy"

definition EmitStringDataSync where
  \<comment> \<open>and \<open>EmitStringGenericSync\<close>\<close>
  "EmitStringDataSync c cl h ob aa eventId em sy =
     ani_EmitWithEventIdString c cl h ob aa eventId None 0 em sy"

definition EmitInnerEventSync where
  "EmitInnerEventSync c cl h ob aa eventId priority em sy =
     EmitWithEventId c cl h ob (no_event_data aa) eventId priority em sy"

definition EmitInnerEventDataSync where
  "EmitInnerEventDataSync c cl h ob aa eventId priority em sy =
     EmitWithEventId c cl h ob aa eventId priority em sy"

definition EmitStringOptionsSync where
  "EmitStringOptionsSync c cl h ob aa eventId p em sy =
     ani_EmitWithEventIdString c cl h ob (no_event_data aa) eventId (GetPriority p) 0 em sy"

definition EmitStringOptionsDataSync where
  \<comment> \<open>and \<open>EmitStringOptionsGenericSync\<close>\<close>
  "EmitStringOptionsDataSync c cl h ob aa eventId p em sy =
     ani_EmitWithEventIdString c cl h ob aa eventId (GetPriority p) 0 em sy"

definition EmitterOnDataSync where
  "EmitterOnDataSync same alloc vm workId emitterId eventId callback dataType em =
     EmitterOnOrOnce_ani same alloc vm workId emitterId eventId False callback dataType em"

definition EmitterOnceDataSync where
  "EmitterOnceDataSync same alloc vm workId emitterId eventId callback dataType em =
     EmitterOnOrOnce_ani same alloc vm workId emitterId eventId True callback dataType em"

definition EmitterOffSync :: "(nat \<Rightarrow> nat \<Rightarrow> bool) \<Rightarrow> int \<Rightarrow> string \<Rightarrow> emitters \<Rightarrow> emitters" where
  "EmitterOffSync same emitterId eventId em = EmitterOff same emitterId eventId None em"

definition EmitterOffCallbackSync ::
  "(nat \<Rightarrow> nat \<Rightarrow> bool) \<Rightarrow> int \<Rightarrow> string \<Rightarrow> nat \<Rightarrow> emitters \<Rightarrow> emitters" where
  "EmitterOffCallbackSync same emitterId eventId callback em =
     EmitterOff same emitterId eventId (Some callback) em"

definition EmitterEmitSync where
  "EmitterEmitSync c cl h ob aa emitterId eventId em sy =
     EmitterEmit c cl h ob (no_event_data aa) emitterId eventId None em sy"

definition EmitterEmitDataSync where
  \<comment> \<open>and \<open>EmitterEmitGenericSync\<close>\<close>
  "EmitterEmitDataSync c cl h ob aa emitterId eventId em sy =
     EmitterEmit c cl h ob aa emitterId eventId None em sy"

definition EmitterEmitOptionsSync where
  "EmitterEmitOptionsSync c cl h ob aa emitterId eventId p em sy =
     EmitterEmit c cl h ob (no_event_data aa) emitterId eventId (Some p) em sy"

definition EmitterEmitOptionsDataSync where
  \<comment> \<open>and \<open>EmitterEmitOptionsGenericSync\<close>\<close>
  "EmitterEmitOptionsDataSync c cl h ob aa emitterId eventId p em sy =
     EmitterEmit c cl h ob aa emitterId eventId (Some p) em sy"

end
