(* ===== verification/Cj_Emitter.thy ===== *)
theory Cj_Emitter
  imports Handler Composite_Event
begin

text \<open>
  The emitter of the Cangjie binding: \<open>frameworks/cj/src/emitter.cpp\<close> and the functions of
  \<open>emitter_ffi.cpp\<close> that call it. The state is the table \<open>g_emitterImpls\<close> and the two generic
  callbacks. An \<open>unordered_set\<close> of subscriptions is a list in one of the orders in which it may
  be iterated; \<open>Cj_Properties\<close> shows that the order is not observable but in the order of
  calls. Callbacks and memory blocks are numbers. Every operation holds its mutex.
\<close>

section \<open>The subscriptions\<close>

record cj_callback =
  \<comment> \<open>\<open>class CallbackImpl\<close>\<close>
  cb_name :: string
  cb_callback :: nat

record cj_info =
  \<comment> \<open>\<open>struct CallbackInfo\<close>\<close>
  ci_once :: bool
  ci_callbackImpl :: cj_callback

record c_event_data =
  \<comment> \<open>\<open>struct CEventData\<close>\<close>
  cd_parameters :: "nat option"
  cd_size :: int

type_synonym cj_impls = "(event_id \<times> cj_info list) list"

record cj_emitter =
  cj_emitterImpls :: cj_impls
  cj_u32Callback :: "nat option"
  cj_stringCallback :: "nat option"

definition new_cj_emitter :: cj_emitter where
  [eh_defs]: "new_cj_emitter = \<lparr>cj_emitterImpls = [], cj_u32Callback = None, cj_stringCallback = None\<rparr>"

definition CEventData_ptr :: smart_ptr where
  \<comment> \<open>\<open>std::unique_ptr<CEventData>\<close>: two words, and a deleter without state\<close>
  [eh_defs]: "CEventData_ptr = UniquePtr \<lparr>type_name = 1, type_size = 16\<rparr> 1"

definition no_data :: c_event_data where
  [eh_defs]: "no_data = \<lparr>cd_parameters = None, cd_size = 0\<rparr>"

definition cj_IsExistValidCallback :: "event_id \<Rightarrow> cj_emitter \<Rightarrow> bool" where
  "cj_IsExistValidCallback i em =
     (if map_of (cj_emitterImpls em) i \<noteq> None then True
      else if cj_u32Callback em \<noteq> None then True
      else cj_stringCallback em \<noteq> None)"

fun find_name :: "string \<Rightarrow> cj_info list \<Rightarrow> nat option" where
  \<comment> \<open>the loop over the subscriptions: the place of the first one with the name\<close>
  "find_name n [] = None"
| "find_name n (i # is) =
     (if cb_name (ci_callbackImpl i) = n then Some 0 else map_option Suc (find_name n is))"

definition remove_at :: "nat \<Rightarrow> 'a list \<Rightarrow> 'a list" where
  [eh_defs]: "remove_at k xs = take k xs @ drop (Suc k) xs"

definition drop_if_empty :: "event_id \<Rightarrow> cj_info list \<Rightarrow> cj_impls \<Rightarrow> cj_impls" where
  \<comment> \<open>\<open>if (subscribe->second.empty()) g_emitterImpls.erase(eventId)\<close>, after the set has become \<open>is\<close>\<close>
  [eh_defs]: "drop_if_empty i is m = (if is = [] then map_erase i m else map_assign i is m)"

definition SearchCallbackInfo :: "event_id \<Rightarrow> string \<Rightarrow> bool \<Rightarrow> cj_impls \<Rightarrow> nat option \<times> cj_impls" where
  "SearchCallbackInfo i callbackName erase m =
     (case map_of m i of
        None \<Rightarrow> (None, m)
      | Some is \<Rightarrow>
          (case find_name callbackName is of
             Some k \<Rightarrow>
               if erase then (None, drop_if_empty i (remove_at k is) m)
               else (Some k, m)
           | None \<Rightarrow> (None, drop_if_empty i is m)))"

definition UpdateOnceFlag :: "bool \<Rightarrow> cj_info \<Rightarrow> cj_info" where
  "UpdateOnceFlag once info =
     (if \<not> once then (if ci_once info then info\<lparr>ci_once := False\<rparr> else info)
      else if ci_once info then info else info\<lparr>ci_once := True\<rparr>)"

definition SUCCESS :: int where [eh_defs]: "SUCCESS = 0"
definition MEMORY_ERROR :: int where [eh_defs]: "MEMORY_ERROR = -1"

definition cj_OnOrOnce :: "bool \<Rightarrow> event_id \<Rightarrow> cj_callback \<Rightarrow> bool \<Rightarrow> cj_impls \<Rightarrow> int \<times> cj_impls" where
  \<comment> \<open>\<open>alloc\<close>: the allocation of the entry succeeds\<close>
  "cj_OnOrOnce alloc i callbackImpl once m =
     (case SearchCallbackInfo i (cb_name callbackImpl) False m of
        (Some k, m1) \<Rightarrow>
          (case map_of m1 i of
             None \<Rightarrow> (SUCCESS, m1)
           | Some is \<Rightarrow> (SUCCESS, map_assign i (is[k := UpdateOnceFlag once (is ! k)]) m1))
      | (None, m1) \<Rightarrow>
          if \<not> alloc then (MEMORY_ERROR, m1)
          else
            let info = \<lparr>ci_once = once, ci_callbackImpl = callbackImpl\<rparr>;
                is = (case map_of m1 i of None \<Rightarrow> [] | Some is \<Rightarrow> is)
            in (SUCCESS, map_assign i (is @ [info]) m1))"

definition on_impls :: "(cj_impls \<Rightarrow> cj_impls) \<Rightarrow> cj_emitter \<Rightarrow> cj_emitter" where
  [eh_defs]: "on_impls f em = em\<lparr>cj_emitterImpls := f (cj_emitterImpls em)\<rparr>"

definition Emitter_On :: "bool \<Rightarrow> event_id \<Rightarrow> cj_callback \<Rightarrow> cj_emitter \<Rightarrow> int \<times> cj_emitter" where
  \<comment> \<open>the overloads for numbers and strings build the two kinds of event id\<close>
  "Emitter_On alloc i callback em =
     (let (ret, m) = cj_OnOrOnce alloc i callback False (cj_emitterImpls em)
      in (ret, em\<lparr>cj_emitterImpls := m\<rparr>))"

definition Emitter_Once :: "bool \<Rightarrow> event_id \<Rightarrow> cj_callback \<Rightarrow> cj_emitter \<Rightarrow> int \<times> cj_emitter" where
  "Emitter_Once alloc i callback em =
     (let (ret, m) = cj_OnOrOnce alloc i callback True (cj_emitterImpls em)
      in (ret, em\<lparr>cj_emitterImpls := m\<rparr>))"

definition Unsubscribe :: "event_id \<Rightarrow> cj_impls \<Rightarrow> cj_impls" where
  "Unsubscribe i m = (if map_of m i \<noteq> None then map_erase i m else m)"

definition Unsubscribe_callback :: "event_id \<Rightarrow> cj_callback \<Rightarrow> cj_impls \<Rightarrow> cj_impls" where
  "Unsubscribe_callback i callback m = snd (SearchCallbackInfo i (cb_name callback) True m)"

definition Emitter_Off :: "event_id \<Rightarrow> cj_emitter \<Rightarrow> cj_emitter" where
  [eh_defs]: "Emitter_Off i em = on_impls (Unsubscribe i) em"

definition Emitter_Off_callback :: "event_id \<Rightarrow> cj_callback \<Rightarrow> cj_emitter \<Rightarrow> cj_emitter" where
  [eh_defs]: "Emitter_Off_callback i callback em = on_impls (Unsubscribe_callback i callback) em"

definition Emitter_On_u32 :: "nat option \<Rightarrow> cj_emitter \<Rightarrow> cj_emitter" where
  \<comment> \<open>\<open>Emitter::On(std::function<void(uint32_t, CEventData)>)\<close>\<close>
  [eh_defs]: "Emitter_On_u32 f em = em\<lparr>cj_u32Callback := f\<rparr>"

definition Emitter_On_string :: "nat option \<Rightarrow> cj_emitter \<Rightarrow> cj_emitter" where
  [eh_defs]: "Emitter_On_string f em = em\<lparr>cj_stringCallback := f\<rparr>"

definition GetListenerCount :: "event_id \<Rightarrow> cj_emitter \<Rightarrow> u32 option" where
  \<comment> \<open>\<open>None\<close>: the code dereferences the end of the map\<close>
  "GetListenerCount i em = map_option (\<lambda>is. of_nat (length is)) (map_of (cj_emitterImpls em) i)"

section \<open>Emitting and processing\<close>

definition cj_EmitWithEventData ::
  "call_env \<Rightarrow> caller \<Rightarrow> handler_ref \<Rightarrow> event_id \<Rightarrow> u32 \<Rightarrow> c_event_data \<Rightarrow> object_ref \<Rightarrow> cj_emitter \<Rightarrow>
     (object_ref \<Rightarrow> c_event_data) \<Rightarrow> system \<Rightarrow> (object_ref \<Rightarrow> c_event_data) \<times> system" where
  \<comment> \<open>\<open>ob\<close> is the object \<open>make_unique\<close> allocates, \<open>contents\<close> what the allocated objects hold\<close>
  "cj_EmitWithEventData c cl h i priority data ob em contents sy =
     (if \<not> cj_IsExistValidCallback i em then (contents, sy)
      else
        let contents1 = contents(ob := (if cd_size data = 0 then no_data else data));
            event = Get_unique i CEventData_ptr ob 0 cl
        in (contents1, snd (SendEvent c h (Some event) 0 (prio_cast priority) sy)))"

definition Emitter_Emit where
  [eh_defs]: "Emitter_Emit c cl h i priority data ob em contents sy =
     cj_EmitWithEventData c cl h i priority data ob em contents sy"

datatype cj_action =
    CallSubscriber nat c_event_data
  | FreeKey "nat option" nat
  | FreeValue "nat option" nat
  | FreeParameters "nat option"
  | CallU32 nat u32 c_event_data
  | CallString nat string c_event_data

definition FreeCEventData :: "c_event_data \<Rightarrow> cj_action list" where
  "FreeCEventData eventData =
     concat (map (\<lambda>i. [FreeKey (cd_parameters eventData) i, FreeValue (cd_parameters eventData) i])
       [0..<nat (cd_size eventData)]) @ [FreeParameters (cd_parameters eventData)]"

definition cj_ProcessCallback :: "c_event_data \<Rightarrow> cj_info list \<Rightarrow> cj_action list" where
  "cj_ProcessCallback eventData callbackInfos =
     map (\<lambda>info. CallSubscriber (cb_callback (ci_callbackImpl info)) eventData) callbackInfos @
     FreeCEventData eventData"

definition GetEventCallbacks :: "event_id \<Rightarrow> cj_impls \<Rightarrow> cj_info list \<times> cj_impls" where
  "GetEventCallbacks i m =
     (case map_of m i of
        None \<Rightarrow> ([], m)
      | Some is \<Rightarrow> (is, drop_if_empty i (filter (\<lambda>info. \<not> ci_once info) is) m))"

definition generic_calls :: "event_id \<Rightarrow> c_event_data \<Rightarrow> cj_emitter \<Rightarrow> cj_action list" where
  \<comment> \<open>the two uses of \<open>safeCall\<close>\<close>
  "generic_calls i eventData em =
     (case i of
        IdU32 n \<Rightarrow> (case cj_u32Callback em of None \<Rightarrow> [] | Some f \<Rightarrow> [CallU32 f n eventData])
      | IdStr s \<Rightarrow> (case cj_stringCallback em of None \<Rightarrow> [] | Some f \<Rightarrow> [CallString f s eventData]))"

definition cj_ProcessEvent ::
  "(object_ref \<Rightarrow> c_event_data) \<Rightarrow> inner_event \<Rightarrow> cj_emitter \<Rightarrow> cj_action list \<times> inner_event \<times> cj_emitter" where
  \<comment> \<open>the returned event has lost its payload\<close>
  "cj_ProcessEvent contents event em =
     (let i = ev_innerEventId event;
          (value, event1) = GetUniqueObject CEventData_ptr event;
          eventData = (case value of Some ob \<Rightarrow> contents ob | None \<Rightarrow> no_data);
          (callbackInfos, m) = GetEventCallbacks i (cj_emitterImpls em);
          em1 = em\<lparr>cj_emitterImpls := m\<rparr>
      in if callbackInfos = [] then ([], event1, em1)
         else (cj_ProcessCallback eventData callbackInfos @ generic_calls i eventData em1, event1, em1))"

section \<open>The foreign functions\<close>

record c_event_callback =
  \<comment> \<open>\<open>struct CEventCallback\<close>\<close>
  cc_name :: string
  cc_callbackRef :: nat

definition CreateCallback :: "bool \<Rightarrow> c_event_callback \<Rightarrow> cj_callback option" where
  [eh_defs]: "CreateCallback alloc ci =
     (if alloc then Some \<lparr>cb_name = cc_name ci, cb_callback = cc_callbackRef ci\<rparr> else None)"

definition CJ_On :: "bool \<Rightarrow> event_id \<Rightarrow> c_event_callback \<Rightarrow> cj_emitter \<Rightarrow> int \<times> cj_emitter" where
  \<comment> \<open>\<open>CJ_OnWithId\<close> and \<open>CJ_OnWithStringId\<close>\<close>
  "CJ_On alloc i ci em =
     (case CreateCallback alloc ci of
        None \<Rightarrow> (MEMORY_ERROR, em)
      | Some callback \<Rightarrow> Emitter_On alloc i callback em)"

definition CJ_Once :: "bool \<Rightarrow> event_id \<Rightarrow> c_event_callback \<Rightarrow> cj_emitter \<Rightarrow> int \<times> cj_emitter" where
  "CJ_Once alloc i ci em =
     (case CreateCallback alloc ci of
        None \<Rightarrow> (MEMORY_ERROR, em)
      | Some callback \<Rightarrow> Emitter_Once alloc i callback em)"

definition CJ_Off :: "event_id \<Rightarrow> cj_emitter \<Rightarrow> cj_emitter" where
  [eh_defs]: "CJ_Off i em = Emitter_Off i em"

definition CJ_Off_callback ::
  "int \<Rightarrow> bool \<Rightarrow> event_id \<Rightarrow> c_event_callback \<Rightarrow> cj_emitter \<Rightarrow> int \<times> cj_emitter" where
  \<comment> \<open>\<open>ok\<close> is \<open>SUCCESS_CODE\<close> of the foreign function library\<close>
  "CJ_Off_callback ok alloc i ci em =
     (case CreateCallback alloc ci of
        None \<Rightarrow> (MEMORY_ERROR, em)
      | Some callback \<Rightarrow> (ok, Emitter_Off_callback i callback em))"

definition CJ_GetListenerCount :: "event_id \<Rightarrow> cj_emitter \<Rightarrow> u32 option" where
  [eh_defs]: "CJ_GetListenerCount i em = GetListenerCount i em"

definition CJ_Emit where
  \<comment> \<open>\<open>CJ_EmitWithId\<close>, \<open>CJ_EmitWithString\<close> and the two \<open>FfiOHOSEmitterEmit\<close> functions\<close>
  [eh_defs]: "CJ_Emit c cl h i priority data ob em contents sy =
     Emitter_Emit c cl h i priority data ob em contents sy"

definition FfiOHOSEmitterOnU32Event :: "nat option \<Rightarrow> cj_emitter \<Rightarrow> cj_emitter" where
  \<comment> \<open>\<open>None\<close>: \<open>CJLambda::Create\<close> gave no function\<close>
  [eh_defs]: "FfiOHOSEmitterOnU32Event f em = (if f = None then em else Emitter_On_u32 f em)"

definition FfiOHOSEmitterOnStringEvent :: "nat option \<Rightarrow> cj_emitter \<Rightarrow> cj_emitter" where
  [eh_defs]: "FfiOHOSEmitterOnStringEvent f em = (if f = None then em else Emitter_On_string f em)"

end
