(* ===== verification/Cj_Properties.thy ===== *)
theory Cj_Properties
  imports Cj_Emitter
begin

text \<open>
  The Cangjie emitter against its abstract specification, a map from events and names to callbacks:
  the table refines it, whatever the order of the entries in a set, and what the generic callbacks
  see.
\<close>

section \<open>The abstract subscriptions\<close>

type_synonym subscriptions = "event_id \<Rightarrow> string \<Rightarrow> (nat \<times> bool) option"

abbreviation info_name :: "cj_info \<Rightarrow> string" where
  "info_name info \<equiv> cb_name (ci_callbackImpl info)"

definition entry_of :: "cj_info \<Rightarrow> string \<times> nat \<times> bool" where
  "entry_of info = (info_name info, cb_callback (ci_callbackImpl info), ci_once info)"

definition abs_set :: "cj_info list \<Rightarrow> string \<Rightarrow> (nat \<times> bool) option" where
  "abs_set is = map_of (map entry_of is)"

definition abs_impls :: "cj_impls \<Rightarrow> subscriptions" where
  "abs_impls m i = (case map_of m i of None \<Rightarrow> Map.empty | Some is \<Rightarrow> abs_set is)"

definition set_ok :: "cj_info list \<Rightarrow> bool" where
  "set_ok is \<longleftrightarrow> is \<noteq> [] \<and> distinct (map info_name is)"

definition impls_ok :: "cj_impls \<Rightarrow> bool" where
  \<comment> \<open>the table is a map, no set in it is empty and no name occurs twice in a set\<close>
  "impls_ok m \<longleftrightarrow> ordered_map m \<and> (\<forall>i is. map_of m i = Some is \<longrightarrow> set_ok is)"

definition spec_on :: "event_id \<Rightarrow> string \<Rightarrow> nat \<Rightarrow> bool \<Rightarrow> subscriptions \<Rightarrow> subscriptions" where
  \<comment> \<open>a second subscription under a name changes the flag only\<close>
  "spec_on i n f once S =
     S(i := (S i)(n \<mapsto> (case S i n of None \<Rightarrow> (f, once) | Some (g, _) \<Rightarrow> (g, once))))"

definition spec_off :: "event_id \<Rightarrow> string \<Rightarrow> subscriptions \<Rightarrow> subscriptions" where
  "spec_off i n S = S(i := (S i)(n := None))"

definition spec_deliver :: "event_id \<Rightarrow> subscriptions \<Rightarrow> subscriptions" where
  \<comment> \<open>what remains after an event: the subscriptions that are not for one event only\<close>
  "spec_deliver i S =
     S(i := (\<lambda>n. case S i n of Some (f, once) \<Rightarrow> if once then None else Some (f, once) | None \<Rightarrow> None))"

lemma keys_entry [simp]: "map fst (map entry_of is) = map info_name is"
  by (simp add: entry_of_def comp_def)

lemma abs_set_None: "abs_set is n = None \<longleftrightarrow> n \<notin> info_name ` set is"
  by (simp add: abs_set_def map_of_eq_None_iff image_image entry_of_def)

lemma abs_set_Some:
  assumes "distinct (map info_name is)"
  shows "abs_set is n = Some (f, once) \<longleftrightarrow>
           (\<exists>info\<in>set is. info_name info = n \<and> cb_callback (ci_callbackImpl info) = f \<and> ci_once info = once)"
  unfolding abs_set_def using assms map_of_eq_Some_iff [of "map entry_of is" n "(f, once)"]
  by (auto simp del: map_map simp: entry_of_def)

lemma find_name_None: "find_name n is = None \<longleftrightarrow> n \<notin> info_name ` set is"
  by (induction "is") auto

lemma find_name_Some:
  "find_name n is = Some k \<Longrightarrow> k < length is \<and> info_name (is ! k) = n"
  by (induction "is" arbitrary: k) (auto split: if_splits)

lemma distinct_unique_position:
  assumes "distinct (map g xs)" "k < length xs" "j < length xs" "g (xs ! k) = g (xs ! j)"
  shows "k = j"
  using assms nth_eq_iff_index_eq [of "map g xs" k j] by simp

section \<open>One set\<close>

lemma abs_set_update_flag:
  assumes "distinct (map info_name is)" "find_name n is = Some k"
  shows "abs_set (is[k := UpdateOnceFlag once (is ! k)]) =
           (abs_set is)(n \<mapsto> (cb_callback (ci_callbackImpl (is ! k)), once))"
    and "map info_name (is[k := UpdateOnceFlag once (is ! k)]) = map info_name is"
    and "abs_set is n = Some (cb_callback (ci_callbackImpl (is ! k)), ci_once (is ! k))"
proof -
  have k: "k < length is" "info_name (is ! k) = n" using find_name_Some [OF assms(2)] by auto
  have cb: "ci_callbackImpl (UpdateOnceFlag once x) = ci_callbackImpl x" for x
    by (simp add: UpdateOnceFlag_def)
  have fl: "ci_once (UpdateOnceFlag once x) = once" for x
    by (simp add: UpdateOnceFlag_def)
  show names: "map info_name (is[k := UpdateOnceFlag once (is ! k)]) = map info_name is"
    using k(1) by (simp add: map_update cb list_update_same_conv)
  show "abs_set is n = Some (cb_callback (ci_callbackImpl (is ! k)), ci_once (is ! k))"
    using k assms(1) by (auto simp: abs_set_Some)
  have eq: "map_of ((map entry_of xs)[k := (n, y)]) = (map_of (map entry_of xs))(n \<mapsto> y)"
    if "k < length xs" "info_name (xs ! k) = n" "distinct (map info_name xs)" for xs y k
    using that
  proof (induction xs arbitrary: k)
    case Nil
    then show ?case by simp
  next
    case (Cons x xs)
    show ?case
    proof (cases k)
      case 0
      with Cons.prems show ?thesis by (auto simp: entry_of_def fun_eq_iff)
    next
      case (Suc j)
      with Cons.prems have "info_name x \<noteq> n" by auto
      then show ?thesis using Cons.IH [of j] Cons.prems Suc
        by (auto simp: entry_of_def fun_eq_iff)
    qed
  qed
  show "abs_set (is[k := UpdateOnceFlag once (is ! k)]) =
      (abs_set is)(n \<mapsto> (cb_callback (ci_callbackImpl (is ! k)), once))"
    using eq [OF k assms(1)] k by (simp add: abs_set_def map_update entry_of_def cb fl)
qed

lemma remove_at_subset: "set (remove_at k xs) \<subseteq> set xs"
  using set_take_subset [of k xs] set_drop_subset [of "Suc k" xs] by (auto simp: remove_at_def)

lemma remove_at_Cons [simp]:
  "remove_at 0 (x # xs) = xs" "remove_at (Suc k) (x # xs) = x # remove_at k xs"
  by (simp_all add: remove_at_def)

lemma remove_at_names: "distinct (map g xs) \<Longrightarrow> distinct (map g (remove_at k xs))"
proof (induction xs arbitrary: k)
  case Nil
  then show ?case by (simp add: remove_at_def)
next
  case (Cons x xs)
  then show ?case using remove_at_subset [of _ xs] by (cases k) auto
qed

lemma abs_set_remove:
  assumes "distinct (map info_name is)" "find_name n is = Some k"
  shows "abs_set (remove_at k is) = (abs_set is)(n := None)"
  using assms
proof (induction "is" arbitrary: k)
  case Nil
  then show ?case by simp
next
  case (Cons x xs)
  show ?case
  proof (cases "info_name x = n")
    case True
    with Cons.prems have "k = 0" "abs_set xs n = None" by (auto simp: abs_set_None)
    with True show ?thesis by (auto simp: remove_at_def abs_set_def entry_of_def fun_eq_iff)
  next
    case False
    with Cons.prems obtain j where "k = Suc j" "find_name n xs = Some j" by auto
    with False Cons show ?thesis by (auto simp: remove_at_def abs_set_def entry_of_def fun_eq_iff)
  qed
qed

lemma abs_set_drop_once:
  assumes "distinct (map info_name is)"
  shows "abs_set (filter (\<lambda>info. \<not> ci_once info) is) =
           (\<lambda>n. case abs_set is n of Some (f, once) \<Rightarrow> if once then None else Some (f, once) | None \<Rightarrow> None)"
  using assms
proof (induction "is")
  case Nil
  then show ?case by (simp add: abs_set_def fun_eq_iff)
next
  case (Cons x xs)
  then have "abs_set xs (info_name x) = None" by (simp add: abs_set_None)
  with Cons show ?case by (auto simp: abs_set_def entry_of_def fun_eq_iff)
qed

section \<open>The table\<close>

lemma abs_drop_if_empty:
  assumes "ordered_map m"
  shows "abs_impls (drop_if_empty i is m) = (abs_impls m)(i := abs_set is)"
  using assms
  by (auto simp: drop_if_empty_def abs_impls_def map_of_assign map_of_erase abs_set_def fun_eq_iff)

lemma abs_assign:
  assumes "ordered_map m"
  shows "abs_impls (map_assign i is m) = (abs_impls m)(i := abs_set is)"
  using assms by (auto simp: abs_impls_def map_of_assign abs_set_def fun_eq_iff)

lemma ok_assign: "impls_ok m \<Longrightarrow> set_ok is \<Longrightarrow> impls_ok (map_assign i is m)"
  by (auto simp: impls_ok_def ordered_map_assign map_of_assign split: if_splits)

lemma ok_erase: "impls_ok m \<Longrightarrow> impls_ok (map_erase i m)"
  by (auto simp: impls_ok_def ordered_map_erase map_of_erase split: if_splits)

lemma ok_drop_if_empty: "impls_ok m \<Longrightarrow> distinct (map info_name is) \<Longrightarrow> impls_ok (drop_if_empty i is m)"
  by (auto simp: drop_if_empty_def intro!: ok_assign ok_erase) (auto simp: set_ok_def)

lemma on_refines:
  assumes "impls_ok m"
  shows "impls_ok (snd (cj_OnOrOnce True i cb once m))"
    and "abs_impls (snd (cj_OnOrOnce True i cb once m)) =
           spec_on i (cb_name cb) (cb_callback cb) once (abs_impls m)"
    and "fst (cj_OnOrOnce True i cb once m) = SUCCESS"
proof -
  have om: "ordered_map m" using assms by (simp add: impls_ok_def)
  consider (absent) "map_of m i = None"
    | (new) "is" where "map_of m i = Some is" "find_name (cb_name cb) is = None"
    | (old) "is" k where "map_of m i = Some is" "find_name (cb_name cb) is = Some k"
    by (cases "map_of m i"; cases "find_name (cb_name cb) (the (map_of m i))") auto
  then have "impls_ok (snd (cj_OnOrOnce True i cb once m)) \<and>
      abs_impls (snd (cj_OnOrOnce True i cb once m)) =
        spec_on i (cb_name cb) (cb_callback cb) once (abs_impls m) \<and>
      fst (cj_OnOrOnce True i cb once m) = SUCCESS"
  proof cases
    case absent
    then have e: "abs_impls m i = Map.empty" by (simp add: abs_impls_def)
    show ?thesis using absent om ok_assign [OF assms, of "[\<lparr>ci_once = once, ci_callbackImpl = cb\<rparr>]" i] e
      by (auto simp: cj_OnOrOnce_def SearchCallbackInfo_def set_ok_def abs_assign spec_on_def
          abs_set_def entry_of_def fun_eq_iff)
  next
    case new
    have ok: "set_ok is" using assms new(1) by (auto simp: impls_ok_def)
    then have ne: "is \<noteq> []" and d: "distinct (map info_name is)" by (auto simp: set_ok_def)
    let ?is = "is @ [\<lparr>ci_once = once, ci_callbackImpl = cb\<rparr>]"
    have n: "abs_set is (cb_name cb) = None" using new(2) by (simp add: abs_set_None find_name_None)
    have m1: "drop_if_empty i is m = map_assign i is m" using ne by (simp add: drop_if_empty_def)
    have "set_ok ?is" using d new(2) by (auto simp: set_ok_def find_name_None)
    then have ok1: "impls_ok (map_assign i ?is (map_assign i is m))"
      by (intro ok_assign assms ok)
    have "abs_set ?is = (abs_set is)(cb_name cb \<mapsto> (cb_callback cb, once))"
      using n by (auto simp: abs_set_def entry_of_def fun_eq_iff map_add_def split: option.splits)
    with new m1 om ok1 n show ?thesis
      by (auto simp: cj_OnOrOnce_def SearchCallbackInfo_def map_of_assign abs_assign ordered_map_assign
          spec_on_def abs_impls_def fun_eq_iff)
  next
    case old
    have ok: "set_ok is" using assms old(1) by (auto simp: impls_ok_def)
    then have ne: "is \<noteq> []" and d: "distinct (map info_name is)" by (auto simp: set_ok_def)
    note up = abs_set_update_flag(1,2) [OF d old(2), of once] abs_set_update_flag(3) [OF d old(2)]
    have "set_ok (is[k := UpdateOnceFlag once (is ! k)])"
      using ne d up(2) by (simp add: set_ok_def)
    then have "impls_ok (map_assign i (is[k := UpdateOnceFlag once (is ! k)]) m)"
      by (rule ok_assign [OF assms])
    with old om up show ?thesis
      by (auto simp: cj_OnOrOnce_def SearchCallbackInfo_def abs_assign spec_on_def abs_impls_def fun_eq_iff)
  qed
  then show "impls_ok (snd (cj_OnOrOnce True i cb once m))"
    "abs_impls (snd (cj_OnOrOnce True i cb once m)) =
       spec_on i (cb_name cb) (cb_callback cb) once (abs_impls m)"
    "fst (cj_OnOrOnce True i cb once m) = SUCCESS" by auto
qed

lemma off_refines:
  assumes "impls_ok m"
  shows "impls_ok (Unsubscribe_callback i cb m)"
    and "abs_impls (Unsubscribe_callback i cb m) = spec_off i (cb_name cb) (abs_impls m)"
proof -
  have om: "ordered_map m" using assms by (simp add: impls_ok_def)
  have ok: "map_of m i = Some is \<Longrightarrow> distinct (map info_name is)" for "is"
    using assms by (auto simp: impls_ok_def set_ok_def)
  show "impls_ok (Unsubscribe_callback i cb m)"
    using assms ok by (auto simp: Unsubscribe_callback_def SearchCallbackInfo_def
        intro!: ok_drop_if_empty remove_at_names split: option.splits)
  show "abs_impls (Unsubscribe_callback i cb m) = spec_off i (cb_name cb) (abs_impls m)"
  proof (cases "map_of m i")
    case None
    then show ?thesis by (auto simp: Unsubscribe_callback_def SearchCallbackInfo_def spec_off_def
          abs_impls_def fun_eq_iff)
  next
    case (Some "is")
    show ?thesis
    proof (cases "find_name (cb_name cb) is")
      case None
      then have "abs_set is (cb_name cb) = None" by (simp add: abs_set_None find_name_None)
      with None Some om show ?thesis
        by (auto simp: Unsubscribe_callback_def SearchCallbackInfo_def spec_off_def abs_drop_if_empty
            abs_impls_def fun_eq_iff)
    next
      case (Some k)
      with \<open>map_of m i = Some is\<close> om show ?thesis
        using abs_set_remove [OF ok [OF \<open>map_of m i = Some is\<close>] Some]
        by (auto simp: Unsubscribe_callback_def SearchCallbackInfo_def spec_off_def abs_drop_if_empty
            abs_impls_def fun_eq_iff)
    qed
  qed
qed

lemma off_all_refines:
  assumes "impls_ok m"
  shows "impls_ok (Unsubscribe i m)" and "abs_impls (Unsubscribe i m) = (abs_impls m)(i := Map.empty)"
  using assms ok_erase [OF assms, of i]
  by (auto simp: Unsubscribe_def abs_impls_def map_of_erase fun_eq_iff)

lemma deliver_refines:
  assumes "impls_ok m"
  shows "impls_ok (snd (GetEventCallbacks i m))"
    and "abs_impls (snd (GetEventCallbacks i m)) = spec_deliver i (abs_impls m)"
    and "distinct (map info_name (fst (GetEventCallbacks i m)))"
    and "abs_set (fst (GetEventCallbacks i m)) = abs_impls m i"
proof -
  have om: "ordered_map m" using assms by (simp add: impls_ok_def)
  have ok: "map_of m i = Some is \<Longrightarrow> distinct (map info_name is)" for "is"
    using assms by (auto simp: impls_ok_def set_ok_def)
  show "impls_ok (snd (GetEventCallbacks i m))"
    using assms ok by (auto simp: GetEventCallbacks_def distinct_map_filter
        intro!: ok_drop_if_empty split: option.splits)
  show "abs_impls (snd (GetEventCallbacks i m)) = spec_deliver i (abs_impls m)"
    using ok om
    by (cases "map_of m i")
      (auto simp: GetEventCallbacks_def spec_deliver_def abs_drop_if_empty abs_set_drop_once
        abs_impls_def fun_eq_iff)
  show "distinct (map info_name (fst (GetEventCallbacks i m)))"
    using ok by (auto simp: GetEventCallbacks_def split: option.splits)
  show "abs_set (fst (GetEventCallbacks i m)) = abs_impls m i"
    by (auto simp: GetEventCallbacks_def abs_impls_def abs_set_def split: option.splits)
qed

lemma listener_count:
  assumes "impls_ok (cj_emitterImpls em)"
  shows "GetListenerCount i em =
     (if dom (abs_impls (cj_emitterImpls em) i) = {} then None
      else Some (of_nat (card (dom (abs_impls (cj_emitterImpls em) i)))))"
proof (cases "map_of (cj_emitterImpls em) i")
  case None
  then show ?thesis by (simp add: GetListenerCount_def abs_impls_def)
next
  case (Some "is")
  then have ok: "is \<noteq> []" "distinct (map info_name is)" using assms by (auto simp: impls_ok_def set_ok_def)
  have "dom (abs_set is) = info_name ` set is"
    by (auto simp: abs_set_None dom_def simp flip: not_None_eq)
  moreover have "card (info_name ` set is) = length is"
    using distinct_card [OF ok(2)] by simp
  ultimately show ?thesis using Some ok by (simp add: GetListenerCount_def abs_impls_def)
qed

section \<open>Properties\<close>

datatype cj_op =
    OpOn event_id cj_callback bool
  | OpOff event_id
  | OpOffCallback event_id cj_callback
  | OpDeliver event_id

fun cj_apply :: "cj_op \<Rightarrow> cj_impls \<Rightarrow> cj_impls" where
  "cj_apply (OpOn i cb once) m = snd (cj_OnOrOnce True i cb once m)"
| "cj_apply (OpOff i) m = Unsubscribe i m"
| "cj_apply (OpOffCallback i cb) m = Unsubscribe_callback i cb m"
| "cj_apply (OpDeliver i) m = snd (GetEventCallbacks i m)"

fun spec_apply :: "cj_op \<Rightarrow> subscriptions \<Rightarrow> subscriptions" where
  "spec_apply (OpOn i cb once) S = spec_on i (cb_name cb) (cb_callback cb) once S"
| "spec_apply (OpOff i) S = S(i := Map.empty)"
| "spec_apply (OpOffCallback i cb) S = spec_off i (cb_name cb) S"
| "spec_apply (OpDeliver i) S = spec_deliver i S"

lemma cj_apply_refines:
  "impls_ok m \<Longrightarrow> impls_ok (cj_apply op m) \<and> abs_impls (cj_apply op m) = spec_apply op (abs_impls m)"
  by (cases op) (simp_all add: on_refines off_refines off_all_refines deliver_refines)

lemma cj_run_refines:
  "impls_ok m \<Longrightarrow>
     impls_ok (fold cj_apply ops m) \<and> abs_impls (fold cj_apply ops m) = fold spec_apply ops (abs_impls m)"
  by (induction ops arbitrary: m) (simp_all add: cj_apply_refines)

lemma empty_impls: "impls_ok []" "abs_impls [] = (\<lambda>i. Map.empty)"
  by (simp_all add: impls_ok_def abs_impls_def fun_eq_iff)

text \<open>
  C19. The table of the Cangjie emitter refines a map from events and names to callbacks: after any
  sequence of subscriptions, removals and deliveries it stands for the map that the same sequence
  gives, no set in it is empty and no name occurs twice, an event is delivered to exactly the
  callbacks of the map, each once, and the number of listeners is the size of the map, where the
  code reads past the end of the table when nobody is subscribed.
\<close>

theorem cj_emitter_refines_subscriptions:
  fixes ops :: "cj_op list" and em :: cj_emitter and i :: event_id
  defines "m \<equiv> fold cj_apply ops []" and "S \<equiv> fold spec_apply ops (\<lambda>i. Map.empty)"
  shows "abs_impls m = S \<and> impls_ok m \<and>
    abs_set (fst (GetEventCallbacks i m)) = S i \<and>
    distinct (map info_name (fst (GetEventCallbacks i m))) \<and>
    GetListenerCount i (em\<lparr>cj_emitterImpls := m\<rparr>) =
      (if dom (S i) = {} then None else Some (of_nat (card (dom (S i)))))"
proof (intro conjI)
  have ok: "impls_ok m" and ab: "abs_impls m = S"
    using cj_run_refines [OF empty_impls(1), of ops] by (simp_all add: m_def S_def empty_impls(2))
  show "abs_impls m = S" "impls_ok m" by (fact ab, fact ok)
  show "abs_set (fst (GetEventCallbacks i m)) = S i"
    using deliver_refines(4) [OF ok] ab by simp
  show "distinct (map info_name (fst (GetEventCallbacks i m)))"
    by (rule deliver_refines(3) [OF ok])
  show "GetListenerCount i (em\<lparr>cj_emitterImpls := m\<rparr>) =
      (if dom (S i) = {} then None else Some (of_nat (card (dom (S i)))))"
    using listener_count [of "em\<lparr>cj_emitterImpls := m\<rparr>" i] ok ab by simp
qed

lemma first_occurrence_after:
  assumes "xs @ ys = us @ a # vs" "a \<notin> set xs"
  shows "set xs \<subseteq> set us"
proof -
  have "length xs \<le> length us"
  proof (rule ccontr)
    assume "\<not> length xs \<le> length us"
    then have l: "length us < length xs" by simp
    have "a = (us @ a # vs) ! length us" by simp
    also have "\<dots> = xs ! length us" using l by (simp add: assms(1) [symmetric] nth_append)
    finally show False using assms(2) l by auto
  qed
  then have "take (length xs) us = xs" using arg_cong [OF assms(1), of "take (length xs)"] by simp
  then show ?thesis using set_take_subset [of "length xs" us] by simp
qed

text \<open>
  The generic callback of the Cangjie emitter is called only for an event that has a subscriber
  of its own, although an event is also accepted when only a generic callback is set, and by then the
  parameters of the data it is given have been freed.
\<close>

lemma generic_callback_gets_freed_data:
  assumes "fst (cj_ProcessEvent contents event em) = us @ act # vs"
    and "act = CallU32 f n d \<or> act = CallString f s d"
  shows "FreeParameters (cd_parameters d) \<in> set us \<and>
    map_of (cj_emitterImpls em) (ev_innerEventId event) \<noteq> None"
proof (intro conjI)
  define data where "data = (case fst (GetUniqueObject CEventData_ptr event) of
     Some ob \<Rightarrow> contents ob | None \<Rightarrow> no_data)"
  define cbs where "cbs = fst (GetEventCallbacks (ev_innerEventId event) (cj_emitterImpls em))"
  define em1 where "em1 = em\<lparr>cj_emitterImpls :=
     snd (GetEventCallbacks (ev_innerEventId event) (cj_emitterImpls em))\<rparr>"
  have trace: "fst (cj_ProcessEvent contents event em) =
      (if cbs = [] then [] else cj_ProcessCallback data cbs @ generic_calls (ev_innerEventId event) data em1)"
    by (simp add: cj_ProcessEvent_def Let_def split_beta data_def cbs_def em1_def)
  with assms(1) have ne: "cbs \<noteq> []" by auto
  with trace assms(1) have eq:
    "cj_ProcessCallback data cbs @ generic_calls (ev_innerEventId event) data em1 = us @ act # vs" by simp
  have notin: "act \<notin> set (cj_ProcessCallback data cbs)"
    using assms(2) by (auto simp: cj_ProcessCallback_def FreeCEventData_def)
  have "act \<in> set (us @ act # vs)" by simp
  then have "act \<in> set (cj_ProcessCallback data cbs @ generic_calls (ev_innerEventId event) data em1)"
    by (simp only: eq)
  with notin have "act \<in> set (generic_calls (ev_innerEventId event) data em1)" by simp
  with assms(2) have "d = data" by (auto simp: generic_calls_def split: event_id.splits option.splits)
  moreover have "FreeParameters (cd_parameters data) \<in> set (cj_ProcessCallback data cbs)"
    by (simp add: cj_ProcessCallback_def FreeCEventData_def)
  ultimately show "FreeParameters (cd_parameters d) \<in> set us"
    using first_occurrence_after [OF eq notin] by auto
  show "map_of (cj_emitterImpls em) (ev_innerEventId event) \<noteq> None"
    using ne by (auto simp: cbs_def GetEventCallbacks_def split: option.splits)
qed

definition subscriber_and_generic :: cj_emitter where
  \<comment> \<open>an emitter for evaluations: event 1 has a subscriber, and the generic callback for numbers is set\<close>
  [eh_defs]: "subscriber_and_generic =
     Emitter_On_u32 (Some 9) (snd (Emitter_On True (IdU32 1) \<lparr>cb_name = ''a'', cb_callback = 7\<rparr> new_cj_emitter))"

definition cj_event :: inner_event where
  [eh_defs]: "cj_event = Get_unique (IdU32 1) CEventData_ptr 5 0 no_caller"

end
