(* ===== verification/Emitter_Properties.thy ===== *)
theory Emitter_Properties
  imports Js_Table Ani_Emitter Cj_Properties
begin

text \<open>
  Properties of the emitters. A locale states what a table of subscriptions promises its users; the
  tables of the script engine and of Cangjie satisfy it. Then the refinement of a set of
  subscriptions by the table of the script engine, for any sequence of operations.
\<close>

section \<open>What a table of subscriptions promises\<close>

locale subscription_table =
  fixes ok :: "'s \<Rightarrow> bool"
    and members :: "'s \<Rightarrow> 'k \<Rightarrow> 'm set"
    and on :: "'k \<Rightarrow> 'm \<Rightarrow> bool \<Rightarrow> 's \<Rightarrow> 's"
    and off :: "'k \<Rightarrow> 'm \<Rightarrow> 's \<Rightarrow> 's"
    and off_all :: "'k \<Rightarrow> 's \<Rightarrow> 's"
  assumes on_ok: "ok s \<Longrightarrow> ok (on k m once s)"
    and off_ok: "ok s \<Longrightarrow> ok (off k m s)"
    and off_all_ok: "ok s \<Longrightarrow> ok (off_all k s)"
    and on_members: "ok s \<Longrightarrow> members (on k m once s) = (members s)(k := insert m (members s k))"
    and off_members: "ok s \<Longrightarrow> members (off k m s) = (members s)(k := members s k - {m})"
    and off_all_members: "ok s \<Longrightarrow> members (off_all k s) = (members s)(k := {})"
begin

lemma off_undoes_on:
  "ok s \<Longrightarrow> m \<notin> members s k \<Longrightarrow> members (off k m (on k m once s)) = members s"
  by (simp add: on_ok off_members on_members)

lemma on_again_keeps_members:
  "ok s \<Longrightarrow> members (on k m once' (on k m once s)) = members (on k m once s)"
  by (simp add: on_ok on_members)

lemma off_all_is_final: "ok s \<Longrightarrow> m \<notin> members (off k m' (off_all k s)) k"
  by (simp add: off_all_ok off_members off_all_members)

lemma other_events_unaffected:
  assumes "ok s" "i \<noteq> k"
  shows "members (on k m once s) i = members s i" "members (off k m s) i = members s i"
    "members (off_all k s) i = members s i"
  using assms by (simp_all add: on_members off_members off_all_members)

end

definition cj_members :: "cj_impls \<Rightarrow> event_id \<Rightarrow> string set" where
  "cj_members m i = dom (abs_impls m i)"

definition cj_on :: "nat \<Rightarrow> event_id \<Rightarrow> string \<Rightarrow> bool \<Rightarrow> cj_impls \<Rightarrow> cj_impls" where
  "cj_on f i n once m = snd (cj_OnOrOnce True i \<lparr>cb_name = n, cb_callback = f\<rparr> once m)"

definition cj_off :: "nat \<Rightarrow> event_id \<Rightarrow> string \<Rightarrow> cj_impls \<Rightarrow> cj_impls" where
  "cj_off f i n m = Unsubscribe_callback i \<lparr>cb_name = n, cb_callback = f\<rparr> m"

interpretation cj: subscription_table impls_ok cj_members "cj_on f" "cj_off f" Unsubscribe for f
proof
  fix m :: cj_impls and i n once
  assume ok: "impls_ok m"
  show "impls_ok (cj_on f i n once m)" by (simp add: cj_on_def on_refines ok)
  show "impls_ok (cj_off f i n m)" by (simp add: cj_off_def off_refines ok)
  show "impls_ok (Unsubscribe i m)" by (rule off_all_refines [OF ok])
  show "cj_members (cj_on f i n once m) = (cj_members m)(i := insert n (cj_members m i))"
    by (auto simp: cj_members_def cj_on_def on_refines ok spec_on_def fun_eq_iff)
  show "cj_members (cj_off f i n m) = (cj_members m)(i := cj_members m i - {n})"
    by (auto simp: cj_members_def cj_off_def off_refines ok spec_off_def fun_eq_iff)
  show "cj_members (Unsubscribe i m) = (cj_members m)(i := {})"
    by (auto simp: cj_members_def off_all_refines ok fun_eq_iff)
qed

definition js_members :: "js_state \<Rightarrow> composite_id \<Rightarrow> (nat \<times> nat) set" where
  "js_members st i = (\<lambda>(env, fn, once). (env, fn)) ` js_subs st i"

definition js_on :: "composite_id \<Rightarrow> nat \<times> nat \<Rightarrow> bool \<Rightarrow> js_state \<Rightarrow> js_state" where
  "js_on i m once st = js_subscribe (=) True 0 False (fst m) i (snd m) once st"

definition js_off :: "composite_id \<Rightarrow> nat \<times> nat \<Rightarrow> js_state \<Rightarrow> js_state" where
  "js_off i m st = js_DeleteCallbackInfo (=) (fst m) i (snd m) st"

lemma members_sub_on: "(\<lambda>(e, f, o1). (e, f)) ` sub_on env fn once S = insert (env, fn) ((\<lambda>(e, f, o1). (e, f)) ` S)"
  by (force simp: sub_on_def)

lemma members_sub_off: "(\<lambda>(e, f, o1). (e, f)) ` sub_off env fn S = (\<lambda>(e, f, o1). (e, f)) ` S - {(env, fn)}"
  by (force simp: sub_off_def)

interpretation js: subscription_table js_wf js_members js_on js_off js_DeleteAll
proof
  fix st :: js_state and i m once
  assume ok: "js_wf st"
  note sub = subscribe_refines [OF ok, of "(=)" 0 False "fst m" i "snd m" once, OF refl]
  note del = delete_one_refines [OF ok, of "(=)" "fst m" i "snd m", OF refl]
  show "js_wf (js_on i m once st)" unfolding js_on_def by (rule sub)
  show "js_wf (js_off i m st)" unfolding js_off_def by (rule del)
  show "js_wf (js_DeleteAll i st)" by (rule delete_all_refines [OF ok])
  show "js_members (js_on i m once st) = (js_members st)(i := insert m (js_members st i))"
    unfolding js_on_def js_members_def sub(2) by (rule ext) (simp add: members_sub_on)
  show "js_members (js_off i m st) = (js_members st)(i := js_members st i - {m})"
    unfolding js_off_def js_members_def del(2) by (rule ext) (simp add: members_sub_off)
  show "js_members (js_DeleteAll i st) = (js_members st)(i := {})"
    unfolding js_members_def delete_all_refines(2) [OF ok] by (rule ext) simp
qed

text \<open>
  Unsubscribing undoes subscribing, for the tables of the script engine and of Cangjie: when a
  function or name that is not subscribed is subscribed and removed again, every event has the
  subscribers it had before.
\<close>

lemma off_undoes_on_in_both_tables:
  assumes "js_wf st" and "m \<notin> js_members st i"
    and "impls_ok impls" and "n \<notin> cj_members impls e"
  shows "js_members (js_off i m (js_on i m once st)) = js_members st \<and>
    cj_members (cj_off f e n (cj_on f e n once' impls)) = cj_members impls"
  using js.off_undoes_on [OF assms(1,2)] cj.off_undoes_on [OF assms(3,4)] by (rule conjI)

lemma new_js_wf: "js_wf new_js_state" "js_subs new_js_state = (\<lambda>i. {})"
  by (simp_all add: js_wf_def new_js_state_def js_set_def js_subs_def fun_eq_iff)

section \<open>The script table\<close>

datatype js_op =
    JsSubscribe nat composite_id nat bool nat bool
  | JsOff nat composite_id nat
  | JsOffAll composite_id
  | JsCount composite_id
  | JsRelease u32

fun js_apply :: "(nat \<Rightarrow> nat \<Rightarrow> bool) \<Rightarrow> js_op \<Rightarrow> js_state \<Rightarrow> js_state" where
  "js_apply same (JsSubscribe env i fn once tsfn wrapped) st =
     js_subscribe same True tsfn wrapped env i fn once st"
| "js_apply same (JsOff env i fn) st = js_DeleteCallbackInfo same env i fn st"
| "js_apply same (JsOffAll i) st = js_DeleteAll i st"
| "js_apply same (JsCount i) st = snd (js_count i st)"
| "js_apply same (JsRelease e) st = js_release_finalizer e st"

fun js_spec :: "js_op \<Rightarrow> (composite_id \<Rightarrow> (nat \<times> nat \<times> bool) set) \<Rightarrow>
    composite_id \<Rightarrow> (nat \<times> nat \<times> bool) set" where
  "js_spec (JsSubscribe env i fn once tsfn wrapped) S = S(i := sub_on env fn once (S i))"
| "js_spec (JsOff env i fn) S = S(i := sub_off env fn (S i))"
| "js_spec (JsOffAll i) S = S(i := {})"
| "js_spec (JsCount i) S = S"
| "js_spec (JsRelease e) S = (\<lambda>i. if e \<noteq> 0 \<and> cid_emitterId i = e then {} else S i)"

lemma js_apply_refines:
  assumes "\<And>f g. same f g \<longleftrightarrow> f = g" "js_wf st"
  shows "js_wf (js_apply same op st) \<and> js_subs (js_apply same op st) = js_spec op (js_subs st)"
  using assms(2)
  by (cases op) (simp_all add: subscribe_refines assms(1) delete_one_refines delete_all_refines
      purge_refines js_count_def Let_def split_beta release_refines js_release_finalizer_def)

lemma js_run_refines:
  assumes "\<And>f g. same f g \<longleftrightarrow> f = g" "js_wf st"
  shows "js_wf (fold (js_apply same) ops st) \<and>
    js_subs (fold (js_apply same) ops st) = fold js_spec ops (js_subs st)"
  using assms(2) by (induction ops arbitrary: st) (simp_all add: js_apply_refines [OF assms(1)])

lemma js_count_card:
  assumes "js_wf st"
  shows "fst (js_count i st) = of_nat (card (js_subs st i))"
proof -
  let ?rs = "filter (\<lambda>r. live_info (js_infos st r)) (js_set i st)"
  have inj: "inj_on (\<lambda>r. sub_of (js_infos st r)) (set ?rs)"
  proof (rule inj_onI)
    fix r r' assume a: "r \<in> set ?rs" "r' \<in> set ?rs" "sub_of (js_infos st r) = sub_of (js_infos st r')"
    then have "ai_env (js_infos st r) = ai_env (js_infos st r')"
      "ai_callback (js_infos st r) = ai_callback (js_infos st r')"
      by (auto simp: sub_of_def live_info_def)
    with a show "r = r'" using wf_unique [OF assms, of r i r'] by simp
  qed
  have "js_subs st i = (\<lambda>r. sub_of (js_infos st r)) ` set ?rs"
    by (simp add: js_subs_def image_image set_filter)
  then have "card (js_subs st i) = card (set ?rs)" by (simp add: card_image [OF inj] del: set_filter)
  also have "\<dots> = length ?rs" using wf_distinct [OF assms, of i] by (simp add: distinct_card del: set_filter)
  finally show ?thesis by (simp add: js_count_def Let_def split_beta table_facts)
qed

text \<open>
  C18. The table of the script emitter refines, for each event of each emitter, a set of
  subscriptions: after any sequence of subscribing, unsubscribing, counting and releasing an emitter
  it is well formed and stands for the set that the same sequence gives; the number of listeners is
  the size of that set, and the entries to which an event is delivered are those of the set.
\<close>

theorem script_table_refines_subscriptions:
  fixes ops :: "js_op list" and i :: composite_id
  assumes "\<And>f g. same f g \<longleftrightarrow> f = g"
  defines "st \<equiv> fold (js_apply same) ops new_js_state" and "S \<equiv> fold js_spec ops (\<lambda>i. {})"
  shows "js_wf st \<and> js_subs st = S \<and>
    fst (js_count i st) = of_nat (card (S i)) \<and>
    sub_of ` js_infos st ` set (fst (js_purge i st)) = S i"
proof (intro conjI)
  have w: "js_wf st" and s: "js_subs st = S"
    using js_run_refines [OF assms(1) new_js_wf(1), of ops] by (simp_all add: st_def S_def new_js_wf(2))
  show "js_wf st" "js_subs st = S" by (fact w, fact s)
  show "fst (js_count i st) = of_nat (card (S i))" using js_count_card [OF w] s by simp
  show "sub_of ` js_infos st ` set (fst (js_purge i st)) = S i"
    by (simp add: s [symmetric] js_subs_def table_facts)
qed

lemma script_table_refines_subscriptions_witness:
  "fst (js_count (CompositeEventId (IdStr ''e'') 2)
     (fold (js_apply (=)) [JsSubscribe 5 (CompositeEventId (IdStr ''e'') 2) 7 False 0 True,
        JsSubscribe 5 (CompositeEventId (IdStr ''e'') 2) 7 True 0 True,
        JsSubscribe 5 (CompositeEventId (IdStr ''e'') 3) 7 True 0 True, JsRelease 3] new_js_state)) = 1"
proof -
  have S: "fold js_spec [JsSubscribe 5 (CompositeEventId (IdStr ''e'') 2) 7 False 0 True,
        JsSubscribe 5 (CompositeEventId (IdStr ''e'') 2) 7 True 0 True,
        JsSubscribe 5 (CompositeEventId (IdStr ''e'') 3) 7 True 0 True, JsRelease 3] (\<lambda>i. {})
      (CompositeEventId (IdStr ''e'') 2) = {(5, 7, True)}"
    by (auto simp: sub_on_def)
  show ?thesis
    by (subst script_table_refines_subscriptions [of "(=)", THEN conjunct2, THEN conjunct2, THEN conjunct1])
      (simp_all only: refl S, simp)
qed

end
