(* ===== verification/Emitter_Delivery.thy ===== *)
theory Emitter_Delivery
  imports Emitter_Properties Handler_Properties
begin

text \<open>
  What happens to an event between \<open>emit\<close> and the functions of its subscribers: which entries are
  called and with what data, what unsubscribing does to calls that are already queued, and how
  often a subscriber for one event is called.
\<close>

section \<open>Silence after off\<close>

lemma off_infos:
  assumes "jv_type v = napi_string" "napi_string_value v \<noteq> []"
    and "i = CompositeEventId (IdStr (napi_string_value v)) emitterId"
  shows "em_js (JS_EmitterOff same env emitterId [v] em) = js_DeleteAll i (em_js em)"
    and "em_ani (JS_EmitterOff same env emitterId [v] em) =
       (if js_isInit (em_js em) then AniDeleteCallbackInfoByEventId i (em_ani em) else em_ani em)"
  using assms
  by (simp_all add: JS_EmitterOff_def enh_JS_EmitterOff_def GetEventIdWithNumberOrString_def on_js_def
      DeleteCallbackInfoByEventId_def napi_is_js)

lemma delete_all_init [simp]: "js_isInit (js_DeleteAll i st) = js_isInit st"
  by (simp add: js_DeleteAll_def split: option.splits)

lemma ani_mark_deleted_container [simp]: "an_container (ani_mark_deleted rs an) = an_container an"
  by (simp add: ani_mark_deleted_def)

lemma ani_deleted_container:
  "an_container (AniDeleteCallbackInfoByEventId i an) = map_erase i (an_container an)"
  by (auto simp: AniDeleteCallbackInfoByEventId_def Let_def split: option.splits)

text \<open>
  C21. After \<open>off\<close> with an event id on an emitter object, with the static runtime or without: a call
  that the engine has already been given for one of the removed subscribers is not made any more, the
  event has no listener, and the subscriptions of every other event and emitter are as before.
\<close>

theorem no_call_after_off:
  assumes "js_wf (em_js em)"
    and "jv_type v = napi_string" "napi_string_value v \<noteq> []"
    and "i = CompositeEventId (IdStr (napi_string_value v)) emitterId"
    and "wk_callbackInfo w \<in> set (js_set i (em_js em))" and "k \<noteq> i"
  shows "fst (ThreadSafeCallback en w (JS_EmitterOff same env emitterId [v] em)) = None \<and>
    fst (JS_EmitterGetListenerCount emitterId [v] (JS_EmitterOff same env emitterId [v] em)) = JsNumber 0 \<and>
    js_subs (em_js (JS_EmitterOff same env emitterId [v] em)) k = js_subs (em_js em) k"
proof (intro conjI)
  note off = off_infos [OF assms(2-4), of same env em]
  show "fst (ThreadSafeCallback en w (JS_EmitterOff same env emitterId [v] em)) = None"
    using assms(5) by (simp add: ThreadSafeCallback_def off table_facts)
  have "fst (js_count i (js_DeleteAll i (em_js em))) = 0"
    by (simp add: js_count_def Let_def split_beta table_facts)
  moreover have "fst (AniGetListenerCountByEventId i (AniDeleteCallbackInfoByEventId i an)) = 0" for an
    by (simp add: AniGetListenerCountByEventId_def ani_deleted_container)
  ultimately show "fst (JS_EmitterGetListenerCount emitterId [v] (JS_EmitterOff same env emitterId [v] em)) = JsNumber 0"
    using assms(2-4)
    by (auto simp: JS_EmitterGetListenerCount_def enh_JS_GetListenerCount_def off Let_def split_beta
        GetEventIdWithNumberOrString_def GetListenerCountByEventId_def napi_is_js)
  show "js_subs (em_js (JS_EmitterOff same env emitterId [v] em)) k = js_subs (em_js em) k"
    using assms(6) by (simp add: off delete_all_refines(2) [OF assms(1)])
qed

section \<open>Examples for evaluations\<close>

definition js_text :: "string \<Rightarrow> js_value" where
  [eh_defs]: "js_text s =
     \<lparr>jv_type = napi_string, jv_string = s, jv_uint32 = 0, jv_function = 0, jv_eventId = None,
      jv_priority = None, jv_data = NoData\<rparr>"

definition js_object :: "nat \<Rightarrow> js_value" where
  \<comment> \<open>an object whose property \<open>data\<close> can be serialised\<close>
  [eh_defs]: "js_object n =
     \<lparr>jv_type = napi_object, jv_string = [], jv_uint32 = 0, jv_function = 0, jv_eventId = None,
      jv_priority = None, jv_data = Serialized n\<rparr>"

definition plain_engine :: js_engine where
  [eh_defs]: "plain_engine =
     \<lparr>en_same = (=), en_scope = True, en_deserialize = (\<lambda>v. Some v), en_attached = True,
      en_run = (\<lambda>em. em)\<rparr>"

definition once_subscribed :: "bool \<Rightarrow> emitters" where
  \<comment> \<open>function 7 of environment 5 waits for one event ''e'' of emitter 2; \<open>b\<close>: the static runtime has
     registered\<close>
  [eh_defs]: "once_subscribed b =
     new_emitters\<lparr>em_js := (js_new_info 5 (CompositeEventId (IdStr ''e'') 2) 7 True 0 new_js_state)
                   \<lparr>js_isInit := b\<rparr>\<rparr>"

definition worker_for :: "nat \<Rightarrow> bool \<Rightarrow> event_worker" where
  [eh_defs]: "worker_for r b =
     \<lparr>wk_data = None, wk_callbackInfo = r, wk_isCrossRuntime = False, wk_enhancedData = Some 3,
      wk_IsEnhanced = b\<rparr>"

lemma js_wf_isInit [simp]: "js_wf (st\<lparr>js_isInit := b\<rparr>) = js_wf st"
  by (simp add: js_wf_def js_set_def)

lemma once_subscribed_wf: "js_wf (em_js (once_subscribed b))"
proof -
  have "js_wf (js_subscribe (=) True 0 False 5 (CompositeEventId (IdStr ''e'') 2) 7 True new_js_state)"
    by (rule subscribe_refines [OF new_js_wf(1)]) simp
  also have "js_subscribe (=) True 0 False 5 (CompositeEventId (IdStr ''e'') 2) 7 True new_js_state =
      js_new_info 5 (CompositeEventId (IdStr ''e'') 2) 7 True 0 new_js_state"
    by (simp add: js_subscribe_def js_SearchCallbackInfo_def new_js_state_def)
  finally show ?thesis by (simp add: once_subscribed_def)
qed

lemma once_subscribed_facts:
  "js_set (CompositeEventId (IdStr ''e'') 2) (em_js (once_subscribed b)) = [0]"
  "js_infos (em_js (once_subscribed b)) 0 =
     \<lparr>ai_env = Some 5, ai_once = True, ai_isDeleted = False, ai_callback = 7, ai_tsfn = 0,
      ai_eventId = IdStr ''e'', ai_emitterId = 2\<rparr>"
  "js_isInit (em_js (once_subscribed b)) = b"
  by (simp_all add: once_subscribed_def js_new_info_def new_js_state_def js_set_def Let_def)

lemma no_call_after_off_witness:
  "fst (ThreadSafeCallback plain_engine (worker_for 0 False) (once_subscribed False)) =
     Some \<lparr>jc_function = 7, jc_data = None\<rparr> \<and>
   fst (ThreadSafeCallback plain_engine (worker_for 0 False)
     (JS_EmitterOff (=) 5 2 [js_text ''e''] (once_subscribed False))) = None"
proof -
  have v: "napi_string_value (js_text ''e'') = ''e''" "jv_type (js_text ''e'') = napi_string"
    by (simp_all add: napi_string_value_def js_text_def NAPI_VALUE_STRING_LEN_def)
  have "fst (ThreadSafeCallback plain_engine (worker_for 0 False)
     (JS_EmitterOff (=) 5 2 [js_text ''e''] (once_subscribed False))) = None"
    by (rule no_call_after_off [where i = "CompositeEventId (IdStr ''e'') 2"
          and k = "CompositeEventId (IdStr ''f'') 2", THEN conjunct1, OF once_subscribed_wf])
      (simp_all add: v once_subscribed_facts worker_for_def)
  moreover have "fst (ThreadSafeCallback plain_engine (worker_for 0 False) (once_subscribed False)) =
     Some \<lparr>jc_function = 7, jc_data = None\<rparr>"
    by (simp add: ThreadSafeCallback_def ProcessCallback_def worker_for_def plain_engine_def
        deserialize_value_def once_subscribed_facts Let_def)
  ultimately show ?thesis by simp
qed

section \<open>Subscribers for one event\<close>

lemma delete_own_entry:
  assumes "js_wf st" "r \<in> set (js_set (info_id (js_infos st r)) st)" "\<not> ai_isDeleted (js_infos st r)"
    and "ai_env (js_infos st r) = Some env" and same: "\<And>f g. same f g \<longleftrightarrow> f = g"
  shows "ai_isDeleted (js_infos (js_DeleteCallbackInfo same env (info_id (js_infos st r))
           (ai_callback (js_infos st r)) st) r)"
proof -
  let ?i = "info_id (js_infos st r)" and ?fn = "ai_callback (js_infos st r)"
  let ?P = "\<lambda>x. ai_env (js_infos st x) = Some env \<and> same ?fn (ai_callback (js_infos st x))"
  have P: "?P r" using assms(4) same by simp
  then obtain x where x: "List.find ?P (js_set ?i st) = Some x"
    using assms(2) by (cases "List.find ?P (js_set ?i st)") (auto simp: find_None_iff)
  then have "x \<in> set (js_set ?i st)" "?P x" by (auto simp: find_Some_iff)
  moreover from this have "\<not> ai_isDeleted (js_infos st x)" using wf_entry(3) [OF assms(1)] by fastforce
  ultimately have "x = r"
    using wf_unique [OF assms(1), of x ?i r] assms(2-4) same by (auto simp: live_info_def)
  then show ?thesis
    using delete_one_found(2) [where st = st and env = env and same = same and fn = ?fn and k = ?i and x = r,
        OF wf_ordered [OF assms(1)] x] by simp
qed

text \<open>
  C22. A subscriber for one event whose call was made through the static runtime's path is not called
  again, even by a call that is already queued; without that path the entry leaves the table but a
  second queued call for it is made, so the function is called twice.
\<close>

theorem once_subscriber_called_once_only_when_enhanced:
  assumes "js_wf (em_js em)" and "r = wk_callbackInfo w"
    and "r \<in> set (js_set (info_id (js_infos (em_js em) r)) (em_js em))"
    and "ai_once (js_infos (em_js em) r)" and "ai_env (js_infos (em_js em) r) = Some env"
    and "\<And>f g. en_same en f g \<longleftrightarrow> f = g" and "\<And>e. en_run en e = e"
    and call: "ThreadSafeCallback en w em = (Some made, em')"
  shows "(wk_IsEnhanced w \<and> wk_callbackInfo w' = r \<longrightarrow> fst (ThreadSafeCallback en w' em') = None) \<and>
    (\<not> wk_IsEnhanced w \<longrightarrow>
       r \<notin> set (js_set (info_id (js_infos (em_js em) r)) (em_js em')) \<and> fst (ThreadSafeCallback en w em') = Some made)"
proof -
  have live: "\<not> ai_isDeleted (js_infos (em_js em) r)" and scope: "en_scope en"
    and pc: "ProcessCallback en w em = (Some made, em')"
    using call assms(2) by (auto simp: ThreadSafeCallback_def split: if_splits)
  have once: "fst (ThreadSafeCallback en w' em') = None" if "wk_IsEnhanced w" "wk_callbackInfo w' = r"
  proof -
    have "em' = DeleteCallbackInfo_napi (en_same en) (Some env) (info_id (js_infos (em_js em) r))
        (ai_callback (js_infos (em_js em) r)) em"
      using pc that assms(2,4,5,7)
      by (auto simp: ProcessCallback_def ProcessCallbackEnhanced_def Let_def split: if_splits option.splits)
    then have "em_js em' = js_DeleteCallbackInfo (en_same en) env (info_id (js_infos (em_js em) r))
        (ai_callback (js_infos (em_js em) r)) (em_js em)"
      by (simp add: DeleteCallbackInfo_napi_def napi_is_js)
    then have "ai_isDeleted (js_infos (em_js em') r)"
      using delete_own_entry [OF assms(1,3) live assms(5), of "en_same en"] assms(6) by simp
    then show ?thesis using that(2) by (simp add: ThreadSafeCallback_def)
  qed
  have twice: "r \<notin> set (js_set (info_id (js_infos (em_js em) r)) (em_js em')) \<and> fst (ThreadSafeCallback en w em') = Some made"
    if "\<not> wk_IsEnhanced w"
  proof
    have em': "em' = on_js (erase_entry (info_id (js_infos (em_js em) r)) r) em"
      using pc that assms(2,4,7)
      by (auto simp: ProcessCallback_def Let_def split: option.splits)
    then show "r \<notin> set (js_set (info_id (js_infos (em_js em) r)) (em_js em'))"
      using wf_distinct [OF assms(1)] by (simp add: on_js_def erase_entry_facts wf_ordered [OF assms(1)])
    show "fst (ThreadSafeCallback en w em') = Some made"
      using pc that live scope assms(2)
      by (auto simp: ThreadSafeCallback_def ProcessCallback_def em' on_js_def erase_entry_facts Let_def
          split: option.splits)
  qed
  from once twice show ?thesis by blast
qed

lemma once_subscriber_called_once_only_when_enhanced_witness:
  "fst (ThreadSafeCallback plain_engine (worker_for 0 False)
     (snd (ThreadSafeCallback plain_engine (worker_for 0 False) (once_subscribed False)))) =
       Some \<lparr>jc_function = 7, jc_data = None\<rparr> \<and>
   fst (ThreadSafeCallback plain_engine (worker_for 0 True)
     (snd (ThreadSafeCallback plain_engine (worker_for 0 True) (once_subscribed True)))) = None"
proof -
  have a: "ThreadSafeCallback plain_engine (worker_for 0 False) (once_subscribed False) =
      (Some \<lparr>jc_function = 7, jc_data = None\<rparr>,
       snd (ThreadSafeCallback plain_engine (worker_for 0 False) (once_subscribed False)))"
    by (simp add: ThreadSafeCallback_def ProcessCallback_def worker_for_def plain_engine_def
        deserialize_value_def once_subscribed_facts Let_def)
  have b: "ThreadSafeCallback plain_engine (worker_for 0 True) (once_subscribed True) =
      (Some \<lparr>jc_function = 7, jc_data = Some 3\<rparr>,
       snd (ThreadSafeCallback plain_engine (worker_for 0 True) (once_subscribed True)))"
    by (simp add: ThreadSafeCallback_def ProcessCallback_def ProcessCallbackEnhanced_def worker_for_def
        plain_engine_def once_subscribed_facts Let_def)
  have s: "js_set (info_id (js_infos (em_js (once_subscribed b)) 0)) (em_js (once_subscribed b)) = [0]" for b
    by (simp add: once_subscribed_facts info_id_def)
  show ?thesis
    using once_subscriber_called_once_only_when_enhanced [OF once_subscribed_wf, of 0 "worker_for 0 False"
        False 5 plain_engine, OF _ _ _ _ _ _ a]
      once_subscriber_called_once_only_when_enhanced [OF once_subscribed_wf, of 0 "worker_for 0 True"
        True 5 plain_engine, OF _ _ _ _ _ _ b, of "worker_for 0 True"] s
    by (simp add: worker_for_def once_subscribed_facts plain_engine_def)
qed

section \<open>From emit to the subscribers\<close>

definition same_payload :: "inner_event \<Rightarrow> inner_event \<Rightarrow> bool" where
  \<comment> \<open>the members that sending and queueing do not touch\<close>
  "same_payload e e' \<longleftrightarrow>
     ev_innerEventId e = ev_innerEventId e' \<and> ev_emitterId e = ev_emitterId e' \<and>
     ev_smartPtr e = ev_smartPtr e' \<and> ev_smartPtrTypeId e = ev_smartPtrTypeId e' \<and>
     ev_isEnhanced e = ev_isEnhanced e'"

definition basic_event :: "composite_id \<Rightarrow> object_ref \<Rightarrow> caller \<Rightarrow> inner_event" where
  \<comment> \<open>the event that \<open>EmitWithEventData\<close> sends\<close>
  "basic_event i ob cl = (Get_unique (cid_eventId i) napi_value_ptr ob 0 cl)\<lparr>ev_emitterId := cid_emitterId i\<rparr>"

definition basic_worker :: "object_ref option \<Rightarrow> nat \<Rightarrow> event_worker" where
  "basic_worker d r =
     \<lparr>wk_data = d, wk_callbackInfo = r, wk_isCrossRuntime = False, wk_enhancedData = None,
      wk_IsEnhanced = False\<rparr>"

lemma queued_calls:
  assumes "\<And>r. r \<in> set rs \<Longrightarrow> alloc r \<and> live_info (js_infos st r)"
  shows "js_calls (ProcessEventCallbacks alloc d rs st) = js_calls st @ map (basic_worker d) rs"
    and "js_infos (ProcessEventCallbacks alloc d rs st) = js_infos st"
    and "js_instances (ProcessEventCallbacks alloc d rs st) = js_instances st"
  using assms by (induction rs arbitrary: st) (simp_all add: basic_worker_def)

lemma basic_event_facts:
  "ev_innerEventId (basic_event i ob cl) = cid_eventId i" "ev_emitterId (basic_event i ob cl) = cid_emitterId i"
  "ev_smartPtr (basic_event i ob cl) = Some ob" "ev_isEnhanced (basic_event i ob cl) = False"
  "ev_smartPtrTypeId (basic_event i ob cl) = CalculateSmartPtrTypeId napi_value_ptr"
  by (simp_all add: basic_event_def Get_unique_def SaveUniquePtr_def new_event_def)

text \<open>
  C20. Data that a script emits reaches every subscriber: \<open>emit\<close> sends one event, the processing of
  that event queues one call for each live entry of its event id, in their order, and each of these
  calls gives the function the value that the engine reads back from what it had serialised.
\<close>

theorem emitted_data_arrives:
  fixes alive :: "object_ref \<Rightarrow> bool"
  assumes emit: "EmitWithEventData c cl h ob v i prio em sy = (True, em1, sy1)"
    and "jv_data v = Serialized n" and "en_deserialize en (Some n) = Some (Some x)" and "en_scope en"
    and "\<And>r. alloc r" and "same_payload (basic_event i ob cl) e"
  defines "rs \<equiv> filter (live_entry (em_js em)) (js_set i (em_js em))"
    and "em2 \<equiv> EventHandlerInstance_ProcessEvent alive alloc e em1"
  shows "sy1 = snd (SendEvent c h (Some (basic_event i ob cl)) 0 prio sy) \<and>
    js_calls (em_js em2) = js_calls (em_js em) @ map (basic_worker (Some ob)) rs \<and>
    (\<forall>r\<in>set rs. fst (ThreadSafeCallback en (basic_worker (Some ob) r) em2) =
       Some \<lparr>jc_function = ai_callback (js_infos (em_js em) r), jc_data = Some x\<rparr>)"
proof (intro conjI ballI)
  have em1: "em1 = em\<lparr>em_values := (em_values em)(ob := Some n)\<rparr>"
    and sy1: "sy1 = snd (SendEvent c h (Some (basic_event i ob cl)) 0 prio sy)"
    using emit assms(2) by (auto simp: EmitWithEventData_def basic_event_def Let_def split: if_splits)
  show "sy1 = snd (SendEvent c h (Some (basic_event i ob cl)) 0 prio sy)" by (fact sy1)
  have e: "CompositeEventId (ev_innerEventId e) (ev_emitterId e) = i" "\<not> ev_isEnhanced e"
    "fst (GetUniqueObject napi_value_ptr e) = Some ob"
    using assms(6) by (cases i, simp_all add: same_payload_def basic_event_facts GetUniqueObject_def)+
  have rs: "fst (js_purge i (em_js em)) = rs" by (simp add: table_facts rs_def)
  let ?st = "snd (js_purge i (em_js em))"
  have live: "alloc r \<and> live_info (js_infos ?st r)" if "r \<in> set rs" for r
    using that assms(5) by (simp add: rs_def table_facts)
  note q = queued_calls [of rs alloc ?st "Some ob", OF live]
  have calls: "js_calls ?st = js_calls (em_js em)" by (simp add: js_purge_def split: option.splits)
  have em2: "em_js em2 = (if rs = [] then ?st else ProcessEventCallbacks alloc (Some ob) rs ?st)"
    "em_values em2 ob = Some n"
    by (simp_all add: em2_def EventHandlerInstance_ProcessEvent_def e em1 Let_def split_beta rs)
  show "js_calls (em_js em2) = js_calls (em_js em) @ map (basic_worker (Some ob)) rs"
    using q(1) calls by (simp add: em2)
  show "fst (ThreadSafeCallback en (basic_worker (Some ob) r) em2) =
      Some \<lparr>jc_function = ai_callback (js_infos (em_js em) r), jc_data = Some x\<rparr>" if "r \<in> set rs" for r
  proof -
    have "js_infos (em_js em2) = js_infos (em_js em)"
      using q(2) that by (auto simp: em2 table_facts)
    moreover have "\<not> ai_isDeleted (js_infos (em_js em) r)"
      using that by (simp add: rs_def live_info_def)
    ultimately show ?thesis
      using assms(3,4) by (simp add: ThreadSafeCallback_def ProcessCallback_def basic_worker_def
          deserialize_value_def em2(2) Let_def)
  qed
qed

lemma emitted_data_arrives_witness:
  defines "i \<equiv> CompositeEventId (IdStr ''e'') 2"
  defines "em1 \<equiv> fst (snd (EmitWithEventData (call_at 1000) no_caller 2 9 (js_object 3) i LOW
     (once_subscribed False) (system_of (queue_with []))))"
  shows "js_calls (em_js (EventHandlerInstance_ProcessEvent (\<lambda>_. True) (\<lambda>_. True) (basic_event i 9 no_caller) em1)) =
      [basic_worker (Some 9) 0] \<and>
    fst (ThreadSafeCallback plain_engine (basic_worker (Some 9) 0)
      (EventHandlerInstance_ProcessEvent (\<lambda>_. True) (\<lambda>_. True) (basic_event i 9 no_caller) em1)) =
      Some \<lparr>jc_function = 7, jc_data = Some 3\<rparr>"
proof -
  have emit: "EmitWithEventData (call_at 1000) no_caller 2 9 (js_object 3) i LOW (once_subscribed False)
      (system_of (queue_with [])) = (True, em1, snd (snd (EmitWithEventData (call_at 1000) no_caller 2 9
        (js_object 3) i LOW (once_subscribed False) (system_of (queue_with [])))))"
    by (simp add: em1_def EmitWithEventData_def js_object_def)
  have rs: "filter (live_entry (em_js (once_subscribed False))) (js_set i (em_js (once_subscribed False))) = [0]"
    by (simp add: i_def once_subscribed_facts live_info_def)
  have calls: "js_calls (em_js (once_subscribed False)) = []"
    by (simp add: once_subscribed_def js_new_info_def new_js_state_def Let_def)
  have "fst (ThreadSafeCallback plain_engine (basic_worker (Some 9) 0)
      (EventHandlerInstance_ProcessEvent (\<lambda>_. True) (\<lambda>_. True) (basic_event i 9 no_caller) em1)) =
      Some \<lparr>jc_function = ai_callback (js_infos (em_js (once_subscribed False)) 0), jc_data = Some 3\<rparr>"
    by (rule emitted_data_arrives [THEN conjunct2, THEN conjunct2, THEN bspec, OF emit])
      (simp_all add: js_object_def plain_engine_def same_payload_def i_def once_subscribed_facts live_info_def)
  moreover have "js_calls (em_js (EventHandlerInstance_ProcessEvent (\<lambda>_. True) (\<lambda>_. True) (basic_event i 9 no_caller) em1)) =
      js_calls (em_js (once_subscribed False)) @ map (basic_worker (Some 9))
        (filter (live_entry (em_js (once_subscribed False))) (js_set i (em_js (once_subscribed False))))"
    by (rule emitted_data_arrives [where en = plain_engine and x = 3, THEN conjunct2, THEN conjunct1, OF emit])
      (simp_all add: js_object_def plain_engine_def same_payload_def)
  ultimately show ?thesis unfolding rs calls by (simp add: once_subscribed_facts)
qed

end
