(* ===== verification/Ani_Tasks.thy ===== *)
theory Ani_Tasks
  imports Emitter_Delivery
begin

text \<open>
  The emitter of the static runtime: its queue of tasks with the worker threads, as a relation of
  reachable states, and its table, whose removal of a subscriber can hit a spent entry instead.
\<close>

section \<open>Reachable states\<close>

text \<open>
  \<open>ani_reach ok\<close>: the states that the manager, its workers and the loops of the subscribers can reach; with \<open>ok\<close>, every
  worker could be attached to the virtual machine and no allocation failed.
\<close>

inductive ani_reach :: "bool \<Rightarrow> ani_state \<Rightarrow> bool" for ok where
  start: "ani_reach ok new_ani_state"
| insert_step: "ani_reach ok an \<Longrightarrow>
    ani_reach ok (AniInsertCallbackInfo same alloc vm workId i once callback dataType an)"
| delete_step: "ani_reach ok an \<Longrightarrow> ani_reach ok (AniDeleteCallbackInfo same i callback an)"
| delete_all_step: "ani_reach ok an \<Longrightarrow> ani_reach ok (AniDeleteCallbackInfoByEventId i an)"
| clean_step: "ani_reach ok an \<Longrightarrow> ani_reach ok (AniCleanCallbackInfo i an)"
| count_step: "ani_reach ok an \<Longrightarrow> ani_reach ok (snd (AniGetListenerCountByEventId i an))"
| event_step: "ani_reach ok an \<Longrightarrow> ani_reach ok (AniDoCallback alive event an)"
| worker_step: "ani_reach ok an \<Longrightarrow> k < length (an_workers an) \<Longrightarrow> (ok \<Longrightarrow> attached \<and> alloc) \<Longrightarrow>
    ani_reach ok (WorkTheadFunction_step attached alloc k an)"
| subscriber_step: "ani_reach ok an \<Longrightarrow> j < length (an_sent an) \<Longrightarrow> ani_reach ok (snd (run_sent ia classes d j an))"

section \<open>The invariant of the workers\<close>

definition awake :: "ani_worker \<Rightarrow> bool" where
  \<comment> \<open>the worker will look at the queue again without a notification of \<open>taskCond_\<close>\<close>
  "awake w \<longleftrightarrow> w \<noteq> WkWaiting \<and> w \<noteq> WkWoken"

primrec many :: "ani_worker \<Rightarrow> ani_worker list \<Rightarrow> nat" where
  "many v [] = 0"
| "many v (w # ws) = (if w = v then 1 else 0) + many v ws"

definition tasks_ok :: "ani_state \<Rightarrow> bool" where
  \<comment> \<open>while the manager runs, somebody will look at the queue or has asked to be notified, and a task
     in the queue has a worker that does not wait for a task\<close>
  "tasks_ok an \<longleftrightarrow>
     (an_taskRunning an \<longrightarrow>
        an_workers an \<noteq> [] \<and>
        (an_needNotify an \<or> (\<exists>w\<in>set (an_workers an). awake w)) \<and>
        (an_taskData an \<noteq> [] \<longrightarrow> (\<exists>w\<in>set (an_workers an). w \<noteq> WkWaiting)))"

definition sent_ok :: "ani_state \<Rightarrow> bool" where
  \<comment> \<open>every worker that is blocked on \<open>g_taskCond\<close>, or may be after its test, has a function that has not run yet\<close>
  "sent_ok an \<longleftrightarrow>
     many WkSentWaiting (an_workers an) \<le> length (an_sent an) \<and>
     (\<not> an_g_taskRunning an \<longrightarrow>
        many WkSentWaiting (an_workers an) + many WkSent (an_workers an) \<le> length (an_sent an) \<and>
        many WkSentWoken (an_workers an) = 0)"

definition same_tasks :: "ani_state \<Rightarrow> ani_state \<Rightarrow> bool" where
  \<comment> \<open>nothing of the workers and tasks differs, except that the manager may have stopped\<close>
  "same_tasks an an' \<longleftrightarrow> (an_taskRunning an' \<longrightarrow> an_taskRunning an) \<and> an_workers an' = an_workers an \<and>
     an_needNotify an' = an_needNotify an \<and> an_taskData an' = an_taskData an \<and> an_sent an' = an_sent an \<and>
     an_g_taskRunning an' = an_g_taskRunning an"

lemma same_tasks_ok:
  assumes "same_tasks an an'"
  shows "tasks_ok an \<Longrightarrow> tasks_ok an'" "sent_ok an \<Longrightarrow> sent_ok an'"
  using assms by (simp_all add: same_tasks_def tasks_ok_def sent_ok_def)

lemma ani_mark_deleted_same: "same_tasks an (ani_mark_deleted rs an)"
  by (simp add: same_tasks_def ani_mark_deleted_def)

lemma many_append [simp]: "many v (xs @ ys) = many v xs + many v ys"
  by (induction xs) simp_all

lemma many_update:
  "k < length ws \<Longrightarrow> many v (ws[k := w]) + (if ws ! k = v then 1 else 0) = many v ws + (if w = v then 1 else 0)"
proof (induction ws arbitrary: k)
  case (Cons x ws)
  then show ?case by (cases k) auto
qed simp

lemma many_delete:
  "k < length ws \<Longrightarrow> many v (take k ws @ drop (Suc k) ws) + (if ws ! k = v then 1 else 0) = many v ws"
  by (subst (4) id_take_nth_drop [of k ws]) simp_all

lemma many_pos: "k < length ws \<Longrightarrow> ws ! k = v \<Longrightarrow> many v ws \<noteq> 0"
  using many_update [of k ws v v] by (induction ws arbitrary: k) (auto simp: nth_Cons split: nat.splits)

lemma many_wake_one:
  "v \<noteq> v' \<Longrightarrow> many u (wake_one v v' ws) =
     (if many v ws = 0 then many u ws
      else if u = v then many u ws - 1 else if u = v' then many u ws + 1 else many u ws)"
  by (induction ws) auto

lemma wake_one_Nil [simp]: "wake_one v v' ws = [] \<longleftrightarrow> ws = []"
  by (cases ws) auto

lemma wake_one_length [simp]: "length (wake_one v v' ws) = length ws"
  by (induction ws) simp_all

lemma wake_one_ex: "\<exists>x\<in>set ws. P x \<Longrightarrow> P v \<longrightarrow> P v' \<Longrightarrow> \<exists>x\<in>set (wake_one v v' ws). P x"
  by (induction ws) auto

lemma wake_one_wakes: "ws \<noteq> [] \<Longrightarrow> v \<noteq> v' \<Longrightarrow> \<exists>w\<in>set (wake_one v v' ws). w \<noteq> v"
  by (induction ws) auto

lemma push_ok: "tasks_ok an \<Longrightarrow> tasks_ok (PushTaskData t an)"
  using wake_one_wakes [of "an_workers an" WkWaiting WkWoken]
    wake_one_ex [of "an_workers an" awake WkWaiting WkWoken]
  by (auto simp: tasks_ok_def PushTaskData_def Let_def awake_def)

lemma push_sent_ok: "sent_ok an \<Longrightarrow> sent_ok (PushTaskData t an)"
  by (auto simp: sent_ok_def PushTaskData_def Let_def many_wake_one)

lemma start_ok: "tasks_ok an \<Longrightarrow> tasks_ok (ani_start_worker an)" "sent_ok an \<Longrightarrow> sent_ok (ani_start_worker an)"
  by (auto simp: tasks_ok_def sent_ok_def ani_start_worker_def awake_def)

lemma dispatch_ok:
  "tasks_ok an \<Longrightarrow> tasks_ok (ani_dispatch d r an)" "sent_ok an \<Longrightarrow> sent_ok (ani_dispatch d r an)"
  by (auto simp: ani_dispatch_def Let_def intro!: start_ok push_ok push_sent_ok
      intro: same_tasks_ok [OF ani_mark_deleted_same])

lemma fold_dispatch_ok:
  "tasks_ok an \<Longrightarrow> tasks_ok (fold (ani_dispatch d) rs an)" "sent_ok an \<Longrightarrow> sent_ok (fold (ani_dispatch d) rs an)"
  by (induction rs arbitrary: an) (simp_all add: dispatch_ok)

lemma update_member:
  assumes "k < length ws" "P w"
  shows "\<exists>x\<in>set (ws[k := w]). P x"
  using assms set_update_memI by fastforce

lemma update_keeps:
  assumes "k < length ws" "\<exists>x\<in>set ws. P x" "\<not> P (ws ! k)"
  shows "\<exists>x\<in>set (ws[k := w]). P x"
proof -
  obtain j where j: "j < length ws" "P (ws ! j)" using assms(2) by (auto simp: in_set_conv_nth)
  with assms(3) have "j \<noteq> k" by auto
  with j have "ws[k := w] ! j = ws ! j" "j < length (ws[k := w])" by simp_all
  with j(2) show ?thesis by (metis nth_mem)
qed

text \<open>A worker that goes on in a state in which it will look at the queue again.\<close>

lemma set_awake_ok:
  assumes "tasks_ok an" "k < length (an_workers an)" "awake w"
  shows "tasks_ok (set_worker k w an)"
proof -
  have "\<exists>x\<in>set ((an_workers an)[k := w]). awake x" "\<exists>x\<in>set ((an_workers an)[k := w]). x \<noteq> WkWaiting"
    using assms(3) by (intro update_member [OF assms(2)]; simp add: awake_def)+
  with assms(1) show ?thesis by (auto simp: tasks_ok_def set_worker_def)
qed

lemma take_task_ok:
  assumes "tasks_ok an" "k < length (an_workers an)"
  shows "tasks_ok (take_task True k an)"
proof (cases "an_taskData an")
  case Nil
  then show ?thesis using assms by (simp add: take_task_def PopTaskData_def tasks_ok_def set_worker_def)
next
  case (Cons t ts)
  have "\<exists>w\<in>set ((an_workers an)[k := WkSent]). awake w" "\<exists>w\<in>set ((an_workers an)[k := WkSent]). w \<noteq> WkWaiting"
    by (rule update_member [OF assms(2)], simp add: awake_def)+
  with Cons assms show ?thesis
    by (simp add: take_task_def PopTaskData_def tasks_ok_def set_worker_def SendEventData_def)
qed

lemma worker_ok:
  assumes "tasks_ok an" "k < length (an_workers an)"
  shows "tasks_ok (WorkTheadFunction_step True True k an)"
proof (cases "an_workers an ! k")
  case WkStart
  then show ?thesis using set_awake_ok [OF assms, of WkTop] by (simp add: WorkTheadFunction_step_def awake_def)
next
  case WkTop
  then show ?thesis using set_awake_ok [OF assms, of WkReady]
    by (simp add: WorkTheadFunction_step_def awake_def end_worker_def tasks_ok_def)
next
  case WkReady
  then show ?thesis using take_task_ok [OF assms] by (simp add: WorkTheadFunction_step_def)
next
  case WkWaiting
  then show ?thesis using assms by (simp add: WorkTheadFunction_step_def)
next
  case WkWoken
  show ?thesis
  proof (cases "an_taskData an = []")
    case True
    have "(\<exists>w\<in>set (an_workers an). awake w) \<longrightarrow> (\<exists>w\<in>set ((an_workers an)[k := WkWaiting]). awake w)"
      using update_keeps [OF assms(2), of awake WkWaiting] WkWoken by (auto simp: awake_def)
    then show ?thesis using True WkWoken assms
      by (auto simp: WorkTheadFunction_step_def tasks_ok_def set_worker_def)
  next
    case False
    then show ?thesis using take_task_ok [OF assms] WkWoken by (simp add: WorkTheadFunction_step_def)
  qed
next
  case WkSent
  then show ?thesis using set_awake_ok [OF assms, of "if an_g_taskRunning an then WkTop else WkSentWaiting"]
    by (simp add: WorkTheadFunction_step_def awake_def)
next
  case WkSentWaiting
  then show ?thesis using assms by (simp add: WorkTheadFunction_step_def)
next
  case WkSentWoken
  then show ?thesis using set_awake_ok [OF assms, of "if an_g_taskRunning an then WkTop else WkSentWaiting"]
    by (simp add: WorkTheadFunction_step_def awake_def)
qed

lemma worker_sent_ok:
  assumes "sent_ok an" "k < length (an_workers an)"
  shows "sent_ok (WorkTheadFunction_step True True k an)"
proof -
  note m = many_update [OF assms(2)] many_delete [OF assms(2)] many_pos [OF assms(2)]
  have "sent_ok (take_task True k an)" if "an_workers an ! k \<in> {WkReady, WkWoken}"
    using assms(1) that m(1) [of WkSentWaiting WkSent] m(1) [of WkSent WkSent] m(1) [of WkSentWoken WkSent]
      m(1) [of WkSentWaiting WkWaiting] m(1) [of WkSent WkWaiting] m(1) [of WkSentWoken WkWaiting]
    by (auto simp: take_task_def PopTaskData_def sent_ok_def set_worker_def SendEventData_def split: list.split if_splits)
  then show ?thesis
    using assms(1) m(1) [of WkSentWaiting] m(1) [of WkSent] m(1) [of WkSentWoken]
      m(2) [of WkSentWaiting] m(2) [of WkSent] m(2) [of WkSentWoken] m(3) [of WkSentWoken]
    by (cases "an_workers an ! k")
      (force simp: WorkTheadFunction_step_def sent_ok_def set_worker_def end_worker_def split: if_splits)+
qed


lemma run_sent_ok:
  assumes "j < length (an_sent an)"
  shows "tasks_ok an \<Longrightarrow> tasks_ok (snd (run_sent ia classes d j an))"
    and "sent_ok an \<Longrightarrow> sent_ok (snd (run_sent ia classes d j an))"
proof -
  let ?an = "an\<lparr>an_sent := take j (an_sent an) @ drop (Suc j) (an_sent an), an_g_taskRunning := True,
    an_workers := wake_one WkSentWaiting WkSentWoken (an_workers an)\<rparr>"
  have s: "snd (run_sent ia classes d j an) = ?an"
    by (simp add: run_sent_def ani_work_function_def Let_def split: option.split)
  show "tasks_ok (snd (run_sent ia classes d j an))" if "tasks_ok an"
  proof -
    let ?ws = "wake_one WkSentWaiting WkSentWoken (an_workers an)"
    have "\<exists>x\<in>set (an_workers an). awake x \<Longrightarrow> \<exists>x\<in>set ?ws. awake x"
      "\<exists>x\<in>set (an_workers an). x \<noteq> WkWaiting \<Longrightarrow> \<exists>x\<in>set ?ws. x \<noteq> WkWaiting"
      by (erule wake_one_ex; simp add: awake_def)+
    with that show ?thesis unfolding s by (simp add: tasks_ok_def) blast
  qed
  show "sent_ok (snd (run_sent ia classes d j an))" if "sent_ok an"
    unfolding s using that assms by (auto simp: sent_ok_def many_wake_one)
qed

lemma reach_ok: "ani_reach True an \<Longrightarrow> tasks_ok an \<and> sent_ok an"
proof (induction rule: ani_reach.induct)
  case start
  show ?case by (simp add: tasks_ok_def sent_ok_def new_ani_state_def)
next
  case (insert_step an same alloc vm workId i once callback dataType)
  have "same_tasks an (AniInsertCallbackInfo same alloc vm workId i once callback dataType an)"
    by (simp add: same_tasks_def AniInsertCallbackInfo_def Let_def split: option.splits)
  from same_tasks_ok [OF this] insert_step.IH show ?case by blast
next
  case (delete_step an same i callback)
  have "same_tasks an (AniDeleteCallbackInfo same i callback an)"
    by (simp add: same_tasks_def AniDeleteCallbackInfo_def ani_mark_deleted_def split: option.splits)
  from same_tasks_ok [OF this] delete_step.IH show ?case by blast
next
  case (delete_all_step an i)
  have "same_tasks an (AniDeleteCallbackInfoByEventId i an)"
    by (simp add: same_tasks_def AniDeleteCallbackInfoByEventId_def ani_mark_deleted_def Let_def split: option.splits)
  from same_tasks_ok [OF this] delete_all_step.IH show ?case by blast
next
  case (clean_step an i)
  have "same_tasks an (AniCleanCallbackInfo i an)"
    by (simp add: same_tasks_def AniCleanCallbackInfo_def ani_mark_deleted_def Let_def)
  from same_tasks_ok [OF this] clean_step.IH show ?case by blast
next
  case (count_step an i)
  have "same_tasks an (snd (AniGetListenerCountByEventId i an))"
    by (simp add: same_tasks_def AniGetListenerCountByEventId_def split: option.splits)
  from same_tasks_ok [OF this] count_step.IH show ?case by blast
next
  case (event_step an alive event)
  have "same_tasks an (snd (AniGetAsyncCallbackInfo i an))" for i
    by (simp add: same_tasks_def AniGetAsyncCallbackInfo_def split: option.splits)
  from same_tasks_ok [OF this] event_step.IH show ?case
    by (simp add: AniDoCallback_def Let_def split_beta fold_dispatch_ok)
next
  case (worker_step an k attached alloc)
  then show ?case by (simp add: worker_ok worker_sent_ok)
next
  case (subscriber_step an j ia classes d)
  then show ?case by (simp add: run_sent_ok)
qed

section \<open>Progress\<close>

inductive ani_goes :: "ani_state \<Rightarrow> ani_state \<Rightarrow> bool" where
  \<comment> \<open>a worker that is not blocked takes a step, or the loop of a subscriber runs a function that was sent to it\<close>
  worker_goes: "k < length (an_workers an) \<Longrightarrow> an_workers an ! k \<notin> {WkWaiting, WkSentWaiting} \<Longrightarrow>
     ani_goes an (WorkTheadFunction_step True True k an)"
| function_goes: "j < length (an_sent an) \<Longrightarrow> ani_goes an (snd (run_sent ia classes d j an))"

fun worker_rank :: "ani_worker \<Rightarrow> nat" where
  "worker_rank WkWaiting = 0"
| "worker_rank WkWoken = 1"
| "worker_rank WkReady = 1"
| "worker_rank WkTop = 2"
| "worker_rank WkStart = 3"
| "worker_rank WkSentWoken = 3"
| "worker_rank WkSentWaiting = 3"
| "worker_rank WkSent = 4"

definition ani_rank :: "ani_state \<Rightarrow> nat" where
  \<comment> \<open>at most four steps of each worker, and one run of each function\<close>
  "ani_rank an = sum_list (map worker_rank (an_workers an)) + length (an_sent an)"

definition takes_task :: "ani_task \<Rightarrow> ani_state \<Rightarrow> ani_state \<Rightarrow> bool" where
  \<comment> \<open>the step from \<open>an\<close> to \<open>an'\<close> takes the first task out of the queue and sends it to its subscriber\<close>
  "takes_task t an an' \<longleftrightarrow> an_taskData an = t # an_taskData an' \<and>
     an_sent an' = an_sent an @ [(an_workId (an_infos an (at_cb t)), t)]"

lemma goes_reach: "ani_goes an an' \<Longrightarrow> ani_reach True an \<Longrightarrow> ani_reach True an'"
  by (induction rule: ani_goes.induct) (auto intro: worker_step subscriber_step)

lemma rank_update:
  assumes "k < length ws"
  shows "sum_list (map worker_rank (ws[k := w])) + worker_rank (ws ! k) = sum_list (map worker_rank ws) + worker_rank w"
proof -
  have "worker_rank (ws ! k) \<le> sum_list (map worker_rank ws)"
    using assms elem_le_sum_list [of k "map worker_rank ws"] by simp
  then show ?thesis using assms by (simp add: map_update sum_list_update)
qed

lemma rank_wake_one: "worker_rank v' = worker_rank v \<Longrightarrow>
    sum_list (map worker_rank (wake_one v v' ws)) = sum_list (map worker_rank ws)"
  by (induction ws) auto

lemma set_worker_rank:
  assumes "k < length (an_workers an)" "worker_rank w < worker_rank (an_workers an ! k)"
  shows "ani_rank (set_worker k w an) < ani_rank an"
  using rank_update [OF assms(1), of w] assms(2) by (simp add: ani_rank_def set_worker_def)

lemma take_task_takes:
  "an_taskData an = t # ts \<Longrightarrow> takes_task t an (take_task True k an) \<and> an_taskRunning (take_task True k an) = an_taskRunning an"
  by (simp add: takes_task_def take_task_def PopTaskData_def set_worker_def SendEventData_def)

lemma goes_lowers_rank:
  assumes "ani_goes an an'" "ani_reach True an" "an_taskRunning an" "an_taskData an = t # ts"
  shows "an_taskRunning an' \<and> (takes_task t an an' \<or> (an_taskData an' = t # ts \<and> ani_rank an' < ani_rank an))"
  using assms(1)
proof cases
  case (worker_goes k)
  have g: "an_g_taskRunning an" if "an_workers an ! k = WkSentWoken"
    using many_pos [OF worker_goes(2) that] reach_ok [OF assms(2)] by (auto simp: sent_ok_def)
  have r: "ani_rank (set_worker k w an) < ani_rank an" if "worker_rank w < worker_rank (an_workers an ! k)" for w
    using set_worker_rank [OF worker_goes(2) that] .
  have k: "an_taskRunning (set_worker k w an) = an_taskRunning an" "an_taskData (set_worker k w an) = an_taskData an" for w
    by (simp_all add: set_worker_def)
  show ?thesis
    using worker_goes(1,3) assms(3,4) g r take_task_takes [OF assms(4), of k] k
    by (cases "an_workers an ! k") (auto simp: WorkTheadFunction_step_def)
next
  case (function_goes j ia classes d)
  have "an' = an\<lparr>an_sent := take j (an_sent an) @ drop (Suc j) (an_sent an), an_g_taskRunning := True,
      an_workers := wake_one WkSentWaiting WkSentWoken (an_workers an)\<rparr>"
    unfolding function_goes(1) by (simp add: run_sent_def ani_work_function_def Let_def split: option.split)
  moreover have "0 < length (an_sent an)" using function_goes(2) by linarith
  ultimately show ?thesis using function_goes(2) assms(3,4) by (simp add: ani_rank_def rank_wake_one)
qed

lemma somebody_goes:
  assumes "ani_reach True an" "an_taskRunning an" "an_taskData an \<noteq> []"
  shows "\<exists>an'. ani_goes an an'"
proof -
  obtain k where k: "k < length (an_workers an)" "an_workers an ! k \<noteq> WkWaiting"
    using reach_ok [OF assms(1)] assms(2,3) by (auto simp: tasks_ok_def in_set_conv_nth)
  show ?thesis
  proof (cases "an_workers an ! k = WkSentWaiting")
    case True
    from many_pos [OF k(1) True] reach_ok [OF assms(1)] have "0 < length (an_sent an)" by (auto simp: sent_ok_def)
    from function_goes [OF this] show ?thesis by blast
  next
    case False
    with worker_goes [OF k(1)] k(2) show ?thesis by blast
  qed
qed

lemma goes_chain:
  assumes "(ani_goes ^^ n) an an'" "ani_reach True an" "an_taskRunning an" "an_taskData an = t # ts"
  shows "n \<le> ani_rank an \<or> (\<exists>i<n. \<exists>an1 an2. (ani_goes ^^ i) an an1 \<and> ani_goes an1 an2 \<and> takes_task t an1 an2)"
  using assms
proof (induction n arbitrary: an)
  case (Suc n)
  obtain an1 where a: "ani_goes an an1" "(ani_goes ^^ n) an1 an'" using Suc.prems(1) by (blast elim: relpowp_Suc_E2)
  from goes_lowers_rank [OF a(1) Suc.prems(2-4)] consider "takes_task t an an1"
    | "an_taskRunning an1" "an_taskData an1 = t # ts" "ani_rank an1 < ani_rank an" by blast
  then show ?case
  proof cases
    case 1
    then have "(ani_goes ^^ 0) an an \<and> ani_goes an an1 \<and> takes_task t an an1" using a(1) by simp
    then show ?thesis by blast
  next
    case 2
    from Suc.IH [OF a(2) goes_reach [OF a(1) Suc.prems(2)] 2(1,2)] show ?thesis
    proof
      assume "\<exists>i<n. \<exists>b1 b2. (ani_goes ^^ i) an1 b1 \<and> ani_goes b1 b2 \<and> takes_task t b1 b2"
      then obtain i b1 b2 where "i < n" "(ani_goes ^^ i) an1 b1" "ani_goes b1 b2" "takes_task t b1 b2" by blast
      moreover from this(2) a(1) have "(ani_goes ^^ Suc i) an b1" by (blast intro: relpowp_Suc_I2)
      ultimately have "Suc i < Suc n \<and> (ani_goes ^^ Suc i) an b1 \<and> ani_goes b1 b2 \<and> takes_task t b1 b2" by simp
      then show ?thesis by blast
    qed (use 2(3) in simp)
  qed
qed simp

text \<open>
  C23. No task of the static runtime is lost: while the manager runs and a task is in its queue, some thread can always go
  on - a worker that is not blocked, or the loop of a subscriber with a function that was sent to it and has not run -
  and after more than \<open>ani_rank\<close> such steps, in whatever order the threads take them, the first task was taken out
  and sent to the loop of its subscriber. This although \<open>PushTaskData\<close> notifies only when \<open>needNotify_\<close> is set, and a
  worker that has sent a task may block on \<open>g_taskCond\<close> until some function has run. The workers could be attached to
  the virtual machine and the allocations succeeded. The count is for the steps alone: events that are emitted and
  subscriptions that are made or removed may precede them in any order, but do not come in between.
\<close>

theorem no_ani_task_is_lost:
  assumes "ani_reach True an" "an_taskRunning an" "an_taskData an = t # ts"
  shows "(\<exists>an'. ani_goes an an') \<and>
    (\<forall>n an'. (ani_goes ^^ n) an an' \<and> ani_rank an < n \<longrightarrow>
       (\<exists>i<n. \<exists>an1 an2. (ani_goes ^^ i) an an1 \<and> ani_goes an1 an2 \<and> takes_task t an1 an2))"
proof -
  have "an_taskData an \<noteq> []" using assms(3) by simp
  from somebody_goes [OF assms(1,2) this] goes_chain [OF _ assms] show ?thesis by (meson leD)
qed

definition ani_event :: inner_event where
  \<comment> \<open>event 1 of the module with an empty payload\<close>
  [eh_defs]: "ani_event = Get_shared (IdU32 1) (SharedPtr SerializeData_type) 4 0 no_caller"

definition no_answers :: interop_answers where
  [eh_defs]: "no_answers =
     \<lparr>ia_argv = False, ia_record = None, ia_globalReference = None, ia_create = False, ia_open = False,
      ia_get = False, ia_serialize = None, ia_deserialize = False, ia_esvalue = None, ia_delete = False,
      ia_close = False\<rparr>"

definition ani_subscribed :: "bool \<Rightarrow> ani_state \<Rightarrow> ani_state" where
  [eh_defs]: "ani_subscribed once an =
     AniInsertCallbackInfo (=) True (Some 1) 0 (composite_of (IdU32 1)) once 7 ''eventData'' an"

abbreviation ani_step :: "ani_state \<Rightarrow> ani_state" where
  "ani_step \<equiv> WorkTheadFunction_step True True 0"

definition ani_sent_waiting :: ani_state where
  \<comment> \<open>the first worker has sent a task, no function has run yet, and a second event was emitted\<close>
  [eh_defs]: "ani_sent_waiting =
     AniDoCallback (\<lambda>_. True) ani_event (ani_step (ani_step (ani_step (ani_step
       (AniDoCallback (\<lambda>_. True) ani_event (ani_subscribed False new_ani_state))))))"

lemma ani_sent_waiting_reach:
  "ani_reach True ani_sent_waiting" "an_workers ani_sent_waiting = [WkSentWaiting]" "an_taskRunning ani_sent_waiting"
  "an_taskData ani_sent_waiting = [\<lparr>at_cb = 0, at_serializeData = Some 4\<rparr>]"
proof -
  have go: "ani_reach True an \<Longrightarrow> an_workers an \<noteq> [] \<Longrightarrow> ani_reach True (ani_step an)" for an
    by (rule worker_step) simp_all
  let ?a = "AniDoCallback (\<lambda>_. True) ani_event (ani_subscribed False new_ani_state)"
  have a: "ani_reach True ?a" unfolding ani_subscribed_def by (intro event_step insert_step start)
  have w: "an_workers ?a \<noteq> []" "an_workers (ani_step ?a) \<noteq> []" "an_workers (ani_step (ani_step ?a)) \<noteq> []"
    "an_workers (ani_step (ani_step (ani_step ?a))) \<noteq> []" by code_simp+
  show "ani_reach True ani_sent_waiting"
    unfolding ani_sent_waiting_def by (rule event_step [OF go [OF go [OF go [OF go [OF a w(1)] w(2)] w(3)] w(4)]])
  show "an_workers ani_sent_waiting = [WkSentWaiting]" "an_taskRunning ani_sent_waiting" by code_simp+
  show "an_taskData ani_sent_waiting = [\<lparr>at_cb = 0, at_serializeData = Some 4\<rparr>]" by code_simp
qed

theorem no_ani_task_is_lost_witness:
  "\<exists>an t. an_workers an = [WkSentWaiting] \<and> an_taskData an = [t] \<and> (\<exists>an'. ani_goes an an') \<and>
    (\<forall>n an'. (ani_goes ^^ n) an an' \<and> ani_rank an < n \<longrightarrow>
       (\<exists>i<n. \<exists>an1 an2. (ani_goes ^^ i) an an1 \<and> ani_goes an1 an2 \<and> takes_task t an1 an2))"
  using no_ani_task_is_lost [OF ani_sent_waiting_reach(1,3,4)] ani_sent_waiting_reach(2,4) by blast

text \<open>
  Without the attachment the tasks are lost: the thread returns, \<open>taskRunning_\<close> stays set, and no later event starts
  another worker.
\<close>

lemma dispatch_without_worker:
  assumes "an_taskRunning an" "an_workers an = []"
  shows "an_taskRunning (AniDoCallback alive event an) \<and> an_workers (AniDoCallback alive event an) = []"
proof -
  have d: "an_taskRunning (ani_dispatch d r an) \<and> an_workers (ani_dispatch d r an) = []"
    if "an_taskRunning an" "an_workers an = []" for d r an
    using that by (simp add: ani_dispatch_def ani_start_worker_def PushTaskData_def ani_mark_deleted_def Let_def)
  have "an_taskRunning (fold (ani_dispatch d) rs an) \<and> an_workers (fold (ani_dispatch d) rs an) = []"
    if "an_taskRunning an" "an_workers an = []" for d rs an
    using that d by (induction rs arbitrary: an) simp_all
  moreover have "an_taskRunning (snd (AniGetAsyncCallbackInfo i an)) = an_taskRunning an"
    "an_workers (snd (AniGetAsyncCallbackInfo i an)) = an_workers an" for i
    by (simp_all add: AniGetAsyncCallbackInfo_def split: option.split)
  ultimately show ?thesis using assms by (simp add: AniDoCallback_def Let_def case_prod_unfold)
qed

lemma failed_attachment_stops_tasks:
  "\<exists>an. ani_reach False an \<and> an_taskRunning an \<and> an_taskData an \<noteq> [] \<and> an_workers an = [] \<and>
     (\<forall>alive event. an_workers (AniDoCallback alive event an) = [])"
proof -
  let ?a = "AniDoCallback (\<lambda>_. True) ani_event (ani_subscribed False new_ani_state)"
  let ?b = "WorkTheadFunction_step False True 0 ?a"
  have "ani_reach False ?a" unfolding ani_subscribed_def by (intro event_step insert_step start)
  moreover have "0 < length (an_workers ?a)" by code_simp
  ultimately have "ani_reach False ?b" by (rule worker_step) simp
  moreover have "an_taskRunning ?b" "an_taskData ?b \<noteq> []" "an_workers ?b = []" by code_simp+
  ultimately show ?thesis using dispatch_without_worker by blast
qed

section \<open>Removing a subscriber\<close>

text \<open>
  The table of the static runtime does not keep the promise: when a function subscribed for one
  event has been dispatched, is subscribed again and then removed, the removal takes out the spent
  entry, which the set may yield first, and the function stays subscribed.
\<close>

lemma ani_off_can_leave_subscriber:
  fixes alive :: "object_ref \<Rightarrow> bool" and i :: composite_id and event :: inner_event and vm workId callback :: nat and dataType :: string
  assumes "\<And>f. same f f"
    and "i = CompositeEventId (ev_innerEventId event) (ev_emitterId event)"
  defines "on once an \<equiv> AniInsertCallbackInfo same True (Some vm) workId i once callback dataType an"
  defines "an \<equiv> AniDeleteCallbackInfo same i callback
     (on False (AniDoCallback alive event (on True new_ani_state)))"
  shows "fst (AniGetListenerCountByEventId i an) = 1 \<and>
    map (an_callback \<circ> an_infos an) (fst (AniGetAsyncCallbackInfo i an)) = [callback]"
  using assms(1)
  by (simp_all add: an_def on_def assms(2) AniInsertCallbackInfo_def AniDeleteCallbackInfo_def
      AniDoCallback_def AniGetAsyncCallbackInfo_def AniGetListenerCountByEventId_def ani_set_def
      ani_dispatch_def ani_start_worker_def PushTaskData_def ani_mark_deleted_def new_ani_state_def
      ani_live_def Let_def)

text \<open>
  A task that is in the queue when its subscriber is removed is still sent to the subscriber's loop
  and run there; and the function is given an unassigned reference when the event had no data.
\<close>

lemma ani_call_after_off:
  fixes d :: serialize_data
  defines "an0 \<equiv> ani_step (ani_step
     (AniDoCallback (\<lambda>_. True) ani_event (ani_subscribed False new_ani_state)))"
  defines "an \<equiv> AniDeleteCallbackInfoByEventId (composite_of (IdU32 1)) an0"
  defines "an1 \<equiv> ani_step an"
  assumes "d = new_serialize_data\<lparr>sd_envType := ANI\<rparr>"
  shows "an_isDeleted (an_infos an 0)" and "map (at_cb \<circ> snd) (an_sent an1) = [0]"
    and "fst (run_sent no_answers True d 0 an1) = AniCall 7 (DataArgument None)"
  unfolding an_def an1_def an0_def assms(4) by code_simp+

end
