(* ===== verification/Emitter_Class.thy ===== *)
theory Emitter_Class
  imports Js_Emitter Ani_Emitter Runner
begin

text \<open>
  What the modules of the emitter set up in the two runtimes: the class \<open>Emitter\<close> and the functions and
  enumeration of the module (\<open>EmitterInit\<close> of \<open>events_emitter.cpp\<close>), the native methods of the static
  runtime (\<open>ANI_Constructor\<close> of \<open>ani_emitter.cpp\<close>), the handler that all emitters share, and the
  transfer of emitter objects between the runtimes. Objects are numbers; the answers of the engines are
  arguments.
\<close>

section \<open>The exports of the module\<close>

datatype js_function =
    Fun_JS_On | Fun_JS_Once | Fun_JS_Off | Fun_JS_Emit | Fun_JS_GetListenerCount
  | Fun_JS_EmitterOn | Fun_JS_EmitterOnce | Fun_JS_EmitterOff | Fun_JS_EmitterEmit | Fun_JS_EmitterGetListenerCount
  | Fun_JS_EmitterConstructor

definition exported_functions :: "(string \<times> js_function) list" where
  "exported_functions =
     [(''on'', Fun_JS_On), (''once'', Fun_JS_Once), (''off'', Fun_JS_Off), (''emit'', Fun_JS_Emit),
      (''getListenerCount'', Fun_JS_GetListenerCount)]"

definition emitter_methods :: "(string \<times> js_function) list" where
  "emitter_methods =
     [(''on'', Fun_JS_EmitterOn), (''once'', Fun_JS_EmitterOnce), (''off'', Fun_JS_EmitterOff),
      (''emit'', Fun_JS_EmitterEmit), (''getListenerCount'', Fun_JS_EmitterGetListenerCount)]"

definition CreateEnumEventPriority :: "(string \<times> u32) list" where
  "CreateEnumEventPriority =
     [(''IMMEDIATE'', prio_num IMMEDIATE), (''HIGH'', prio_num HIGH), (''LOW'', prio_num LOW), (''IDLE'', prio_num IDLE)]"

text \<open>
  A script that passes a member of the enumeration to \<open>emit\<close> gets that priority; the priority of the
  library that is missing in the enumeration is \<open>VIP\<close>.
\<close>

lemma enumerated_priorities:
  "map (\<lambda>(name, n). (name, prio_cast n)) CreateEnumEventPriority =
     [(''IMMEDIATE'', IMMEDIATE), (''HIGH'', HIGH), (''LOW'', LOW), (''IDLE'', IDLE)]"
  by code_simp

section \<open>State\<close>

record class_state =
  \<comment> \<open>\<open>cs_refs\<close>: \<open>g_emitterConstructorRefSets\<close>, by the address of the pairs; \<open>cs_wraps\<close>: the numbers that
     script objects carry; \<open>cs_statics\<close>: the property \<open>emitterId\<close> of objects of the static runtime;
     \<open>cs_cleaners\<close>: the number that the cleaner registered for such an object has;
     \<open>cs_scopes\<close>: the scopes of \<open>arkts_napi_scope_open\<close> that are open\<close>
  cs_refs :: "(nat \<times> nat \<times> nat) list"
  cs_js :: js_state
  cs_wraps :: "nat \<rightharpoonup> u32"
  cs_statics :: "nat \<rightharpoonup> int"
  cs_cleaners :: "nat \<rightharpoonup> int"
  cs_next :: nat
  cs_scopes :: nat
  cs_handler :: "creation option"

definition new_class_state :: class_state where
  [eh_defs]: "new_class_state =
     \<lparr>cs_refs = [], cs_js = new_js_state, cs_wraps = Map.empty, cs_statics = Map.empty, cs_cleaners = Map.empty, cs_next = 1,
      cs_scopes = 0, cs_handler = None\<rparr>"

definition GetInstance :: "time \<Rightarrow> nat \<Rightarrow> class_state \<Rightarrow> class_state" where
  \<comment> \<open>\<open>EventHandlerInstance::GetInstance\<close>: the runner and the handler are static\<close>
  "GetInstance now gen cs =
     (case cs_handler cs of
        None \<Rightarrow> cs\<lparr>cs_handler := Some (Create_named now gen ''OS_eventsEmtr'' MODE_DEFAULT THREAD_FFRT)\<rparr>
      | Some c \<Rightarrow> cs)"

section \<open>The registry of constructors\<close>

definition register_constructor :: "nat \<Rightarrow> nat \<Rightarrow> nat \<Rightarrow> class_state \<Rightarrow> class_state" where
  \<comment> \<open>the set is ordered by address\<close>
  [eh_defs]: "register_constructor addr env ref cs = cs\<lparr>cs_refs := insort_key fst (addr, env, ref) (cs_refs cs)\<rparr>"

definition EmitterConstructorCleanupCallback :: "nat \<Rightarrow> class_state \<Rightarrow> class_state" where
  [eh_defs]: "EmitterConstructorCleanupCallback addr cs = cs\<lparr>cs_refs := filter (\<lambda>(a, p). a \<noteq> addr) (cs_refs cs)\<rparr>"

definition GetSubscriberConstructor :: "nat \<Rightarrow> class_state \<Rightarrow> nat option" where
  "GetSubscriberConstructor env cs = map_option (\<lambda>(a, e, ref). ref) (List.find (\<lambda>(a, e, ref). e = env) (cs_refs cs))"

definition EmitterInit ::
  "bool \<Rightarrow> bool \<Rightarrow> bool \<Rightarrow> time \<Rightarrow> nat \<Rightarrow> nat \<Rightarrow> nat \<Rightarrow> nat \<Rightarrow> class_state \<Rightarrow> bool \<times> class_state" where
  \<comment> \<open>the first three arguments: the engine accepts the functions, the class and the property of the
     exports; the result says whether the exports are returned\<close>
  "EmitterInit functions_ok class_ok export_ok now gen addr env ref cs =
     (if \<not> functions_ok then (False, cs)
      else if \<not> class_ok then (False, cs)
      else
        let cs1 = register_constructor addr env ref cs
        in if \<not> export_ok then (False, cs1)
           else (True, GetInstance now gen cs1))"

text \<open>
  Every environment finds the constructor it registered as long as the module is loaded there once; the
  hook that runs when the environment ends removes it.
\<close>

lemma find_insort:
  "\<forall>(a, e, r)\<in>set refs. e \<noteq> env \<Longrightarrow>
     List.find (\<lambda>(a, e, r). e = env) (insort_key fst (addr, env, ref) refs) = Some (addr, env, ref)"
  by (induction refs) auto

lemma find_insort_other:
  "env' \<noteq> env \<Longrightarrow>
     List.find (\<lambda>(a, e, r). e = env') (insort_key fst (addr, env, ref) refs) = List.find (\<lambda>(a, e, r). e = env') refs"
  by (induction refs) auto

lemma constructor_is_found:
  assumes "GetSubscriberConstructor env cs = None"
  shows "GetSubscriberConstructor env' (snd (EmitterInit True True ex now gen addr env ref cs)) =
    (if env' = env then Some ref else GetSubscriberConstructor env' cs)"
proof -
  have "\<forall>(a, e, r)\<in>set (cs_refs cs). e \<noteq> env"
    using assms by (fastforce simp: GetSubscriberConstructor_def find_None_iff)
  then have "List.find (\<lambda>(a, e, r). e = env) (insort_key fst (addr, env, ref) (cs_refs cs)) = Some (addr, env, ref)"
    by (rule find_insort)
  then show ?thesis
    by (auto simp: EmitterInit_def GetSubscriberConstructor_def register_constructor_def GetInstance_def Let_def
        find_insort_other split: option.split)
qed

section \<open>Objects of the class\<close>

definition napi_wrap :: "bool \<Rightarrow> nat \<Rightarrow> u32 \<Rightarrow> class_state \<Rightarrow> class_state" where
  \<comment> \<open>\<open>rewraps\<close>: the engine accepts an object that carries a pointer already\<close>
  [eh_defs]: "napi_wrap rewraps obj n cs =
     (if cs_wraps cs obj = None \<or> rewraps then cs\<lparr>cs_wraps := (cs_wraps cs)(obj \<mapsto> n)\<rparr> else cs)"

definition new_emitter_object :: "bool \<Rightarrow> class_state \<Rightarrow> nat \<times> class_state" where
  \<comment> \<open>\<open>new Emitter()\<close>, which runs \<open>JS_EmitterConstructor\<close> on a new object\<close>
  "new_emitter_object rewraps cs =
     (let obj = cs_next cs;
          (n, st) = JS_EmitterConstructor (cs_js cs)
      in (obj, napi_wrap rewraps obj n (cs\<lparr>cs_next := Suc obj, cs_js := st\<rparr>)))"

definition TransferedEmitterConstructor :: "bool \<Rightarrow> nat \<Rightarrow> class_state \<Rightarrow> nat option \<times> class_state" where
  \<comment> \<open>without a constructor the engine creates nothing\<close>
  "TransferedEmitterConstructor rewraps env cs =
     (case GetSubscriberConstructor env cs of
        None \<Rightarrow> (None, cs)
      | Some constructor \<Rightarrow> map_prod Some id (new_emitter_object rewraps cs))"

definition EmitterTransferToDynamic :: "bool \<Rightarrow> nat \<Rightarrow> nat \<Rightarrow> class_state \<Rightarrow> nat option \<times> class_state" where
  \<comment> \<open>\<open>input\<close>: the object of the static runtime; the result \<open>None\<close> is \<open>undefined\<close>\<close>
  "EmitterTransferToDynamic rewraps env input cs =
     (case cs_statics cs input of
        None \<Rightarrow> (None, cs)
      | Some emitterId \<Rightarrow>
          if emitterId = 0 then (None, cs)
          else
            let n = word_of_int emitterId;
                cs1 = cs\<lparr>cs_scopes := Suc (cs_scopes cs)\<rparr>
            in case TransferedEmitterConstructor rewraps env cs1 of
                 (None, cs2) \<Rightarrow> (None, cs2)
               | (Some obj, cs2) \<Rightarrow>
                   (Some obj, (napi_wrap rewraps obj n cs2)\<lparr>cs_scopes := cs_scopes cs2 - 1\<rparr>))"

definition new_static_emitter :: "bool \<Rightarrow> class_state \<Rightarrow> nat \<times> class_state" where
  \<comment> \<open>the constructor of the class of the static runtime in \<open>@ohos.events.emitter.ets\<close>, with
     \<open>EventsEmitter::EmitterConstructor\<close>, and the registration of the cleaner; the member is 0 before.
     \<open>found\<close>: the class is found\<close>
  "new_static_emitter found cs =
     (let obj = cs_next cs;
          (n, st) = (if found then map_prod uint id (GetNextEmitterInstanceId (cs_js cs)) else (0, cs_js cs))
      in (obj, cs\<lparr>cs_next := Suc obj, cs_js := st, cs_statics := (cs_statics cs)(obj \<mapsto> n),
                 cs_cleaners := (cs_cleaners cs)(obj \<mapsto> n)\<rparr>))"

definition EmitterTransferToStatic :: "bool \<Rightarrow> bool \<Rightarrow> nat \<Rightarrow> class_state \<Rightarrow> nat option \<times> class_state" where
  \<comment> \<open>\<open>created\<close>: the class and its constructor are found and the object is created; \<open>referenced\<close>: so is the
     global reference\<close>
  "EmitterTransferToStatic created referenced input cs =
     (case cs_wraps cs input of
        None \<Rightarrow> (None, cs)
      | Some emitterId \<Rightarrow>
          if emitterId = 0 then (None, cs)
          else if \<not> created then (None, cs)
          else
            let (obj, cs1) = new_static_emitter True cs;
                cs2 = cs1\<lparr>cs_statics := (cs_statics cs1)(obj \<mapsto> uint emitterId)\<rparr>
            in if \<not> referenced then (None, cs2) else (Some obj, cs2))"

section \<open>The native methods\<close>

definition ani_methods :: "(string \<times> string option \<times> string) list" where
  \<comment> \<open>name, signature and function\<close>
  "ani_methods =
    [(''OnOrOnceSync'', None, ''OnOrOnceSync''),
     (''OnOrOnceStringSync'', None, ''OnOrOnceStringSync''),
     (''OnOrOnceGenericEventSync'', None, ''OnOrOnceGenericEventSync''),
     (''OffStringIdSync'', Some ''C{std.core.String}:'', ''OffStringIdSync''),
     (''OffStringSync'', None, ''OffStringSync''),
     (''OffGenericEventSync'', None, ''OffGenericEventSync''),
     (''OffNumberSync'', Some ''l:'', ''OffNumberSync''),
     (''OffNumberCallbackSync'', None, ''OffNumberCallbackSync''),
     (''getListenerCountSync'', Some ''l:l'', ''getListenerCountNumber''),
     (''getListenerCountStringSync'', Some ''C{std.core.String}:l'', ''getListenerCountString''),
     (''EmitInnerEventSync'', Some ''C{@ohos.events.emitter.emitter.InnerEvent}:'', ''EmitInnerEventSync''),
     (''EmitInnerEventDataSync'', Some ''C{@ohos.events.emitter.emitter.InnerEvent}C{@ohos.events.emitter.emitter.EventData}:'', ''EmitInnerEventDataSync''),
     (''EmitStringSync'', Some ''C{std.core.String}:'', ''EmitStringSync''),
     (''EmitStringDataSync'', Some ''C{std.core.String}C{@ohos.events.emitter.emitter.EventData}:'', ''EmitStringDataSync''),
     (''EmitStringGenericSync'', Some ''C{std.core.String}C{@ohos.events.emitter.emitter.GenericEventData}:'', ''EmitStringGenericSync''),
     (''EmitStringOptionsSync'', Some ''C{std.core.String}C{@ohos.events.emitter.emitter.Options}:'', ''EmitStringOptionsSync''),
     (''EmitStringOptionsGenericSync'', Some ''C{std.core.String}C{@ohos.events.emitter.emitter.Options}C{@ohos.events.emitter.emitter.GenericEventData}:'', ''EmitStringOptionsGenericSync''),
     (''EmitStringOptionsDataSync'', Some ''C{std.core.String}C{@ohos.events.emitter.emitter.Options}C{@ohos.events.emitter.emitter.EventData}:'', ''EmitStringOptionsDataSync''),
     (''EmitterConstructor'', None, ''EmitterConstructor''),
     (''EmitterOnDataSync'', None, ''EmitterOnDataSync''),
     (''EmitterOnceDataSync'', None, ''EmitterOnceDataSync''),
     (''EmitterOnGenericSync'', None, ''EmitterOnGenericSync''),
     (''EmitterOnceGenericSync'', None, ''EmitterOnceGenericSync''),
     (''EmitterOffSync'', None, ''EmitterOffSync''),
     (''EmitterOffDataSync'', None, ''EmitterOffCallbackSync''),
     (''EmitterOffGenericSync'', None, ''EmitterOffCallbackSync''),
     (''EmitterEmitSync'', None, ''EmitterEmitSync''),
     (''EmitterEmitDataSync'', None, ''EmitterEmitDataSync''),
     (''EmitterEmitGenericSync'', None, ''EmitterEmitGenericSync''),
     (''EmitterEmitOptionsSync'', None, ''EmitterEmitOptionsSync''),
     (''EmitterEmitOptionsDataSync'', None, ''EmitterEmitOptionsDataSync''),
     (''EmitterEmitOptionsGenericSync'', None, ''EmitterEmitOptionsGenericSync''),
     (''EmitterGetListenerCountSync'', None, ''EmitterGetListenerCountSync''),
     (''EmitterTransferToDynamic'', None, ''EmitterTransferToDynamic''),
     (''EmitterTransferToStatic'', None, ''EmitterTransferToStatic'')]"

lemma ani_methods_distinct: "distinct (map fst ani_methods)"
  by code_simp

datatype ani_status = ANI_OK | ANI_ERROR | ANI_INVALID_ARGS | ANI_INVALID_TYPE | OtherStatus nat

record ani_setup =
  su_getEnv :: ani_status
  su_findNamespace :: ani_status
  su_bindFunctions :: ani_status
  su_findClass :: ani_status
  su_bindMethods :: ani_status

definition AgentInit :: "class_state \<Rightarrow> class_state" where
  \<comment> \<open>of \<open>napi_emitter.cpp\<close>: switches the script emitter to the functions that serve both runtimes\<close>
  [eh_defs]: "AgentInit cs = cs\<lparr>cs_js := Register (cs_js cs)\<rparr>"

definition ANI_Constructor :: "ani_setup \<Rightarrow> class_state \<Rightarrow> ani_status \<times> class_state" where
  \<comment> \<open>with \<open>init\<close>, whose \<open>AgentInit\<close> runs before the methods are bound\<close>
  "ANI_Constructor su cs =
     (if su_getEnv su \<noteq> ANI_OK then (ANI_ERROR, cs)
      else if su_findNamespace su \<noteq> ANI_OK then (su_findNamespace su, cs)
      else
        let cs1 = AgentInit cs
        in if su_bindFunctions su \<noteq> ANI_OK then (ANI_INVALID_TYPE, cs1)
           else if su_findClass su \<noteq> ANI_OK then (ANI_INVALID_ARGS, cs1)
           else if su_bindMethods su \<noteq> ANI_OK then (ANI_INVALID_TYPE, cs1)
           else (ANI_OK, cs1))"

text \<open>
  The enhanced functions are registered whenever the name space is found, also when binding the native methods
  fails afterwards.
\<close>

lemma constructor_registers:
  "js_isInit (cs_js (snd (ANI_Constructor su cs))) \<longleftrightarrow>
     js_isInit (cs_js cs) \<or> su_getEnv su = ANI_OK \<and> su_findNamespace su = ANI_OK"
  by (simp add: ANI_Constructor_def AgentInit_def Register_def Let_def)

section \<open>\<open>AniReleaseCallbackInfo\<close>\<close>

datatype ani_release = AttachThread | DeleteGlobalRef nat | DetachThread | DeleteAniInfo

definition AniReleaseCallbackInfo :: "bool \<Rightarrow> bool \<Rightarrow> ani_callback_info option \<Rightarrow> ani_release list option" where
  \<comment> \<open>the deleter of an entry; \<open>attached\<close>: the thread has an environment, \<open>attaches\<close>: it can be attached.
     The result \<open>None\<close>: a machine that is null is dereferenced\<close>
  "AniReleaseCallbackInfo attached attaches callbackInfo =
     (case callbackInfo of
        None \<Rightarrow> Some []
      | Some info \<Rightarrow>
          if an_vm info = None then None
          else if \<not> attached then
            (if \<not> attaches then Some [AttachThread, DeleteAniInfo]
             else Some [AttachThread, DeleteGlobalRef (an_callback info), DetachThread, DeleteAniInfo])
          else Some [DeleteGlobalRef (an_callback info), DeleteAniInfo])"

text \<open>
  \<open>AniInsertCallbackInfo\<close> gives up when the environment does not tell its machine, and the entry it has made
  is then released with the machine still null.
\<close>

lemma release_without_machine_crashes: "AniReleaseCallbackInfo a b (Some no_ani_info) = None"
  by (simp add: AniReleaseCallbackInfo_def no_ani_info_def)

lemma release_deletes_reference:
  "an_vm info \<noteq> None \<Longrightarrow> attached \<or> attaches \<Longrightarrow>
     \<exists>acts. AniReleaseCallbackInfo attached attaches (Some info) = Some acts \<and>
       DeleteGlobalRef (an_callback info) \<in> set acts \<and> last acts = DeleteAniInfo"
  by (auto simp: AniReleaseCallbackInfo_def)

section \<open>Transfer\<close>

definition class_wf :: "class_state \<Rightarrow> bool" where
  \<comment> \<open>objects that do not exist carry nothing\<close>
  "class_wf cs \<longleftrightarrow> (\<forall>obj. cs_next cs \<le> obj \<longrightarrow> cs_wraps cs obj = None \<and> cs_statics cs obj = None)"

lemma new_class_state_wf: "class_wf new_class_state"
  by (simp add: class_wf_def new_class_state_def)

lemma napi_wrap_keeps [simp]:
  "cs_next (napi_wrap b obj n cs) = cs_next cs" "cs_js (napi_wrap b obj n cs) = cs_js cs"
  "cs_statics (napi_wrap b obj n cs) = cs_statics cs" "cs_refs (napi_wrap b obj n cs) = cs_refs cs"
  "cs_scopes (napi_wrap b obj n cs) = cs_scopes cs"
  by (simp_all add: napi_wrap_def)

lemma GetSubscriberConstructor_scopes [simp]:
  "GetSubscriberConstructor env (cs\<lparr>cs_scopes := k\<rparr>) = GetSubscriberConstructor env cs"
  by (simp add: GetSubscriberConstructor_def)

lemma transfer_to_dynamic:
  assumes "class_wf cs" "cs_statics cs input = Some e" "e \<noteq> 0" "GetSubscriberConstructor env cs \<noteq> None"
  shows "\<exists>cs1. EmitterTransferToDynamic rewraps env input cs = (Some (cs_next cs), cs1) \<and>
    cs_wraps cs1 (cs_next cs) = Some (if rewraps then word_of_int e else fst (JS_EmitterConstructor (cs_js cs))) \<and>
    cs_scopes cs1 = cs_scopes cs \<and> js_instances (cs_js cs1) = js_instances (cs_js cs)"
  using assms
  by (auto simp: EmitterTransferToDynamic_def TransferedEmitterConstructor_def new_emitter_object_def Let_def
      class_wf_def napi_wrap_def JS_EmitterConstructor_def GetNextEmitterInstanceId_def)

text \<open>
  Without a constructor of the environment the scope that was opened for the transfer stays open.
\<close>

lemma failed_transfer_leaves_scope_open:
  assumes "cs_statics cs input = Some e" "e \<noteq> 0" "GetSubscriberConstructor env cs = None"
  shows "EmitterTransferToDynamic rewraps env input cs = (None, cs\<lparr>cs_scopes := Suc (cs_scopes cs)\<rparr>)"
  using assms by (simp add: EmitterTransferToDynamic_def TransferedEmitterConstructor_def Let_def)

text \<open>The states that the two runtimes reach together.\<close>

inductive class_reach :: "class_state \<Rightarrow> bool" where
  class_start: "class_reach new_class_state"
| class_init: "class_reach cs \<Longrightarrow> class_reach (snd (EmitterInit f c x now gen addr env ref cs))"
| class_cleanup: "class_reach cs \<Longrightarrow> class_reach (EmitterConstructorCleanupCallback addr cs)"
| class_ani: "class_reach cs \<Longrightarrow> class_reach (snd (ANI_Constructor su cs))"
| class_new: "class_reach cs \<Longrightarrow> class_reach (snd (new_emitter_object b cs))"
| class_new_static: "class_reach cs \<Longrightarrow> class_reach (snd (new_static_emitter found cs))"
| class_to_dynamic: "class_reach cs \<Longrightarrow> class_reach (snd (EmitterTransferToDynamic b env obj cs))"
| class_to_static: "class_reach cs \<Longrightarrow> class_reach (snd (EmitterTransferToStatic c r obj cs))"

lemma class_wf_wrap: "class_wf cs \<Longrightarrow> obj < cs_next cs \<Longrightarrow> class_wf (napi_wrap b obj n cs)"
  by (auto simp: class_wf_def napi_wrap_def)

lemma class_wf_scopes [simp]: "class_wf (cs\<lparr>cs_scopes := k\<rparr>) \<longleftrightarrow> class_wf cs"
  by (simp add: class_wf_def)

lemma new_emitter_object_wf:
  "class_wf cs \<Longrightarrow> class_wf (snd (new_emitter_object b cs)) \<and> fst (new_emitter_object b cs) < cs_next (snd (new_emitter_object b cs))"
  by (auto simp: class_wf_def new_emitter_object_def napi_wrap_def Let_def split: prod.splits)

lemma EmitterTransferToDynamic_wf:
  assumes "class_wf cs"
  shows "class_wf (snd (EmitterTransferToDynamic b env obj cs))"
  using assms new_emitter_object_wf [of "cs\<lparr>cs_scopes := Suc (cs_scopes cs)\<rparr>" b]
  by (cases "new_emitter_object b (cs\<lparr>cs_scopes := Suc (cs_scopes cs)\<rparr>)") (auto simp: EmitterTransferToDynamic_def TransferedEmitterConstructor_def Let_def class_wf_wrap
      split: option.splits prod.splits)

lemma class_reach_wf: "class_reach cs \<Longrightarrow> class_wf cs"
proof (induction rule: class_reach.induct)
  case class_start
  show ?case by (rule new_class_state_wf)
next
  case (class_to_dynamic cs b env obj)
  then show ?case by (simp add: EmitterTransferToDynamic_wf)
next
  case (class_new cs b)
  then show ?case by (simp add: new_emitter_object_wf)
qed (auto simp: class_wf_def EmitterInit_def register_constructor_def GetInstance_def EmitterConstructorCleanupCallback_def
    ANI_Constructor_def AgentInit_def new_static_emitter_def EmitterTransferToStatic_def Let_def split: option.split prod.split)

text \<open>
  The cleaner of an object that was transferred to the static runtime has a number of its own, so the
  subscriptions of the emitter outlive that object.
\<close>

lemma transferred_object_has_own_cleaner:
  assumes "EmitterTransferToStatic True True input cs = (Some obj, cs')" "cs_wraps cs input = Some n"
  shows "cs_statics cs' obj = Some (uint n) \<and> cs_cleaners cs' obj = Some (uint (js_nextEmitterInstanceId (cs_js cs) + 1))"
  using assms
  by (auto simp: EmitterTransferToStatic_def new_static_emitter_def GetNextEmitterInstanceId_def Let_def split: if_splits)

text \<open>
  C37. An emitter of the static runtime that is transferred to the script runtime and back has the number
  it had, so all three objects address the same subscriptions, and no subscription changes - when the
  engine lets a second \<open>napi_wrap\<close> replace the number that the constructor of the transferred object has
  drawn. When the engine refuses it, as Node-API documents, the transferred objects carry that fresh
  number instead.
\<close>

theorem emitter_transfer_roundtrip:
  assumes "class_reach cs" "cs_statics cs input = Some e" "0 < e" "e < 2 ^ 32"
    and "GetSubscriberConstructor env cs \<noteq> None" "js_nextEmitterInstanceId (cs_js cs) + 1 \<noteq> 0"
  shows "\<exists>obj cs1 obj' cs2. EmitterTransferToDynamic rewraps env input cs = (Some obj, cs1) \<and>
    EmitterTransferToStatic True True obj cs1 = (Some obj', cs2) \<and>
    cs_statics cs2 obj' = Some (if rewraps then e else uint (js_nextEmitterInstanceId (cs_js cs) + 1)) \<and>
    cs_scopes cs2 = cs_scopes cs \<and> js_instances (cs_js cs2) = js_instances (cs_js cs)"
proof -
  have e: "uint (word_of_int e :: u32) = e" using assms(3,4) by (simp add: uint_word_of_int_eq take_bit_int_eq_self)
  then have nz: "(word_of_int e :: u32) \<noteq> 0" using assms(3) by (metis less_irrefl uint_0_eq)
  obtain cs1 where 1: "EmitterTransferToDynamic rewraps env input cs = (Some (cs_next cs), cs1)"
      "cs_wraps cs1 (cs_next cs) = Some (if rewraps then word_of_int e else js_nextEmitterInstanceId (cs_js cs) + 1)"
      "cs_scopes cs1 = cs_scopes cs" "js_instances (cs_js cs1) = js_instances (cs_js cs)"
    using transfer_to_dynamic [OF class_reach_wf [OF assms(1)] assms(2) _ assms(5), of rewraps] assms(3)
    by (auto simp: JS_EmitterConstructor_def GetNextEmitterInstanceId_def)
  then show ?thesis
    using e nz assms(6)
    by (auto simp: EmitterTransferToStatic_def new_static_emitter_def GetNextEmitterInstanceId_def Let_def)
qed

lemma emitter_transfer_roundtrip_witness:
  "\<exists>obj cs1 obj' cs2.
     EmitterTransferToDynamic True 3 1 (snd (new_static_emitter True (snd (EmitterInit True True True 0 0 7 3 5 new_class_state)))) = (Some obj, cs1) \<and>
     EmitterTransferToStatic True True obj cs1 = (Some obj', cs2) \<and>
     cs_statics cs2 obj' = Some 2"
proof -
  let ?cs = "snd (new_static_emitter True (snd (EmitterInit True True True 0 0 7 3 5 new_class_state)))"
  have r: "class_reach ?cs" by (intro class_reach.intros)
  have s: "cs_statics ?cs 1 = Some 2" by code_simp
  have c: "GetSubscriberConstructor 3 ?cs \<noteq> None" by code_simp
  have n: "js_nextEmitterInstanceId (cs_js ?cs) + 1 \<noteq> 0" by code_simp
  show ?thesis using emitter_transfer_roundtrip [OF r s _ _ c n, of True] by auto
qed

end
