(* ===== verification/Adapters.thy ===== *)
theory Adapters
  imports Distribution
begin

text \<open>
  The adapters to functions of other libraries: \<open>frame_report_sched.cpp\<close>, \<open>async_stack_adapter.cpp\<close>
  and \<open>event_hitrace_meter_adapter.h\<close>. A symbol of a loaded library is the handle of the library
  with the name of the symbol, a function that others register is itself or whether it is not null. The
  calls of such functions are recorded.
\<close>

section \<open>\<open>FrameReport\<close>\<close>

type_synonym lib_handle = nat

record frame_report =
  fr_frameSchedHandle :: "lib_handle option"
  fr_frameSchedSoLoaded :: bool
  fr_uid :: u32
  fr_reportSchedEventFunc :: "(lib_handle \<times> string) option"

definition no_frame_report :: frame_report where
  [eh_defs]: "no_frame_report =
     \<lparr>fr_frameSchedHandle = None, fr_frameSchedSoLoaded = False, fr_uid = 0, fr_reportSchedEventFunc = None\<rparr>"

definition RS_UID :: u32 where [eh_defs]: "RS_UID = 1003"

definition LoadSymbol :: "(lib_handle \<Rightarrow> string \<Rightarrow> bool) \<Rightarrow> string \<Rightarrow> frame_report \<Rightarrow> (lib_handle \<times> string) option" where
  \<comment> \<open>\<open>has h s\<close>: \<open>dlsym\<close> finds the symbol\<close>
  "LoadSymbol has symName f =
     (case fr_frameSchedHandle f of
        None \<Rightarrow> None
      | Some h \<Rightarrow> if has h symName then Some (h, symName) else None)"

definition LoadLibrary :: "(lib_handle \<Rightarrow> string \<Rightarrow> bool) \<Rightarrow> lib_handle option \<Rightarrow> frame_report \<Rightarrow> frame_report" where
  \<comment> \<open>\<open>opened\<close>: the result of \<open>dlopen\<close>\<close>
  "LoadLibrary has opened f =
     (if \<not> fr_frameSchedSoLoaded f then
        (case opened of
           None \<Rightarrow> f\<lparr>fr_frameSchedHandle := None\<rparr>
         | Some h \<Rightarrow>
             let f1 = f\<lparr>fr_frameSchedHandle := Some h, fr_frameSchedSoLoaded := True\<rparr>
             in f1\<lparr>fr_reportSchedEventFunc := LoadSymbol has ''ReportSchedEvent'' f1\<rparr>)
      else f\<lparr>fr_reportSchedEventFunc := LoadSymbol has ''ReportSchedEvent'' f\<rparr>)"

definition CloseLibrary :: "int \<Rightarrow> frame_report \<Rightarrow> frame_report" where
  \<comment> \<open>\<open>ret\<close>: the result of \<open>dlclose\<close>, which is called with a null handle when nothing is open\<close>
  "CloseLibrary ret f =
     (if ret \<noteq> 0 then f else f\<lparr>fr_frameSchedHandle := None, fr_frameSchedSoLoaded := False\<rparr>)"

definition FrameReport :: "(lib_handle \<Rightarrow> string \<Rightarrow> bool) \<Rightarrow> lib_handle option \<Rightarrow> u32 \<Rightarrow> frame_report" where
  "FrameReport has opened uid = (LoadLibrary has opened no_frame_report)\<lparr>fr_uid := uid\<rparr>"

definition ReportSchedEvent ::
  "int \<Rightarrow> (string \<rightharpoonup> string) \<Rightarrow> frame_report \<Rightarrow> ((lib_handle \<times> string) \<times> int \<times> (string \<rightharpoonup> string)) list" where
  \<comment> \<open>the call of the library's function with the event and the payload\<close>
  "ReportSchedEvent event payload f =
     (if \<not> fr_frameSchedSoLoaded f then []
      else
        case fr_reportSchedEventFunc f of
          None \<Rightarrow> []
        | Some func \<Rightarrow> if fr_uid f = RS_UID then [] else [(func, event, payload)])"

inductive frame_reach :: "(lib_handle \<Rightarrow> string \<Rightarrow> bool) \<Rightarrow> frame_report \<Rightarrow> bool" for has where
  created: "frame_reach has (FrameReport has opened uid)"
| loaded: "frame_reach has f \<Longrightarrow> frame_reach has (LoadLibrary has opened f)"
| closed: "frame_reach has f \<Longrightarrow> frame_reach has (CloseLibrary ret f)"

definition symbols_ok :: "(lib_handle \<Rightarrow> string \<Rightarrow> bool) \<Rightarrow> frame_report \<Rightarrow> bool" where
  "symbols_ok has f \<longleftrightarrow> fr_frameSchedSoLoaded f \<longrightarrow>
     fr_frameSchedHandle f \<noteq> None \<and>
     (\<forall>h s. fr_reportSchedEventFunc f = Some (h, s) \<longrightarrow> fr_frameSchedHandle f = Some h \<and> has h s)"

lemma LoadLibrary_ok: "symbols_ok has f \<Longrightarrow> symbols_ok has (LoadLibrary has opened f)"
  by (auto simp: symbols_ok_def LoadLibrary_def LoadSymbol_def Let_def split: option.splits if_splits)

lemma frame_reach_ok: "frame_reach has f \<Longrightarrow> symbols_ok has f"
proof (induction rule: frame_reach.induct)
  case (created opened uid)
  have "symbols_ok has no_frame_report" by (simp add: symbols_ok_def no_frame_report_def)
  then have "symbols_ok has (LoadLibrary has opened no_frame_report)" by (rule LoadLibrary_ok)
  then show ?case by (simp add: FrameReport_def symbols_ok_def)
next
  case (loaded f opened)
  then show ?case by (simp add: LoadLibrary_ok)
next
  case (closed f ret)
  then show ?case by (simp add: symbols_ok_def CloseLibrary_def)
qed

text \<open>
  A report is made only with a symbol of the library that is open, and never by the render service:
  after the library has been closed its pointer stays, but is not used until it has been loaded anew.
\<close>

lemma reports_call_the_open_library:
  assumes "frame_reach has f" "(func, arg) \<in> set (ReportSchedEvent event payload f)"
  shows "fr_frameSchedHandle f = Some (fst func) \<and> has (fst func) (snd func) \<and> arg = (event, payload) \<and> fr_uid f \<noteq> RS_UID"
  using frame_reach_ok [OF assms(1)] assms(2)
  by (cases func; cases "fr_reportSchedEventFunc f") (auto simp: symbols_ok_def ReportSchedEvent_def split: if_splits)

section \<open>\<open>AsyncStackAdapter\<close>\<close>

record async_stack_adapter =
  as_asyncStackFunc :: "(u64 \<Rightarrow> u64) option"
  as_stackIdFunc :: bool
  as_releaseStackIdFunc :: bool

definition new_async_stack :: async_stack_adapter where
  [eh_defs]: "new_async_stack = \<lparr>as_asyncStackFunc = None, as_stackIdFunc = False, as_releaseStackIdFunc = False\<rparr>"

datatype stack_call = SetStackIdCall u64 | ReleaseStackIdCall u64

definition EventCollectAsyncStack :: "u64 \<Rightarrow> async_stack_adapter \<Rightarrow> u64" where
  "EventCollectAsyncStack t a = (case as_asyncStackFunc a of None \<Rightarrow> 0 | Some func \<Rightarrow> func t)"

definition EventSetStackId :: "u64 \<Rightarrow> async_stack_adapter \<Rightarrow> stack_call list" where
  "EventSetStackId stackId a = (if as_stackIdFunc a then [SetStackIdCall stackId] else [])"

definition EventReleaseStackId :: "u64 \<Rightarrow> async_stack_adapter \<Rightarrow> stack_call list" where
  "EventReleaseStackId stackId a = (if as_releaseStackIdFunc a then [ReleaseStackIdCall stackId] else [])"

definition EventSetAsyncStackFunc :: "(u64 \<Rightarrow> u64) option \<Rightarrow> bool \<Rightarrow> async_stack_adapter \<Rightarrow> async_stack_adapter" where
  [eh_defs]: "EventSetAsyncStackFunc collectFunc setStackIdFunc a =
     a\<lparr>as_asyncStackFunc := collectFunc, as_stackIdFunc := setStackIdFunc\<rparr>"

definition EventSetReleaseAsyncStackFunc :: "bool \<Rightarrow> async_stack_adapter \<Rightarrow> async_stack_adapter" where
  [eh_defs]: "EventSetReleaseAsyncStackFunc func a = a\<lparr>as_releaseStackIdFunc := func\<rparr>"

definition ASYNC_TYPE_EVENTHANDLER :: u64 where
  [eh_defs]: "ASYNC_TYPE_EVENTHANDLER = push_bit 16 1"

fun stack_calls :: "async_stack_adapter \<Rightarrow> action list \<Rightarrow> stack_call list" where
  \<comment> \<open>the calls of the adapter that the actions of a distribution amount to\<close>
  "stack_calls a [] = []"
| "stack_calls a (ThreadStackId s # acts) = EventSetStackId s a @ stack_calls a acts"
| "stack_calls a (Recycle (ReleaseStack s) # acts) = EventReleaseStackId s a @ stack_calls a acts"
| "stack_calls a (_ # acts) = stack_calls a acts"

section \<open>\<open>TraceAdapter\<close>\<close>

record trace_adapter =
  ta_handle :: "lib_handle option"
  ta_IsTagEnabled :: bool
  ta_StartTrace :: bool
  ta_FinishTrace :: bool

definition TraceAdapter_Load :: "lib_handle option \<Rightarrow> (string \<Rightarrow> bool) \<Rightarrow> trace_adapter \<Rightarrow> trace_adapter" where
  "TraceAdapter_Load opened has t =
     (if ta_handle t \<noteq> None then t
      else
        case opened of
          None \<Rightarrow> t\<lparr>ta_handle := None\<rparr>
        | Some h \<Rightarrow>
            let t1 = t\<lparr>ta_handle := Some h, ta_IsTagEnabled := has ''IsTagEnabled''\<rparr>
            in if \<not> ta_IsTagEnabled t1 then t1
               else
                 let t2 = t1\<lparr>ta_StartTrace := has ''StartTrace''\<rparr>
                 in if \<not> ta_StartTrace t2 then t2 else t2\<lparr>ta_FinishTrace := has ''FinishTrace''\<rparr>)"

datatype trace_call = StartTrace string | FinishTrace

definition StartTraceAdapter :: "bool \<Rightarrow> (handler_ref \<Rightarrow> bool) \<Rightarrow> inner_event \<Rightarrow> trace_adapter \<Rightarrow> trace_call list" where
  \<comment> \<open>\<open>enabled\<close>: the library's answer for \<open>HITRACE_TAG_NOTIFICATION\<close>\<close>
  "StartTraceAdapter enabled alive e t =
     (if ta_IsTagEnabled t \<and> ta_StartTrace t then if enabled then [StartTrace (TraceInfo alive e)] else [] else [])"

definition StartTraceAdapterMsg :: "bool \<Rightarrow> string \<Rightarrow> trace_adapter \<Rightarrow> trace_call list" where
  "StartTraceAdapterMsg enabled msg t =
     (if ta_IsTagEnabled t \<and> ta_StartTrace t then if enabled then [StartTrace msg] else [] else [])"

definition getTraceInfo :: "string \<Rightarrow> string \<Rightarrow> string" where
  \<comment> \<open>\<open>ObserverTrace::getTraceInfo\<close> of a source and a stage\<close>
  "getTraceInfo source stage = ''Et-obs:'' @ (if stage = [] then '' '' else stage) @ '','' @ source"

definition StartTraceObserver :: "bool \<Rightarrow> string \<Rightarrow> string \<Rightarrow> trace_adapter \<Rightarrow> trace_call list" where
  "StartTraceObserver enabled source stage t =
     (if ta_IsTagEnabled t \<and> ta_StartTrace t then if enabled then [StartTrace (getTraceInfo source stage)] else [] else [])"

definition FinishTraceAdapter :: "trace_adapter \<Rightarrow> trace_call list" where
  "FinishTraceAdapter t = (if ta_FinishTrace t then [FinishTrace] else [])"

text \<open>A trace that is started can be finished, unless the library lacks the last of the three symbols.\<close>

lemma started_trace_is_finished:
  assumes "t = TraceAdapter_Load opened has \<lparr>ta_handle = None, ta_IsTagEnabled = False, ta_StartTrace = False, ta_FinishTrace = False\<rparr>"
    and "StartTraceAdapter enabled alive e t \<noteq> []"
  shows "FinishTraceAdapter t = [FinishTrace] \<longleftrightarrow> has ''FinishTrace''"
  using assms by (auto simp: TraceAdapter_Load_def StartTraceAdapter_def FinishTraceAdapter_def Let_def
      split: option.splits if_splits)

end
