(* ===== verification/Tracing.thy ===== *)
theory Tracing
  imports Adapters "HOL-Library.Signed_Division"
begin

text \<open>
  What goes with an event besides its handling: the data of the running thread (\<open>thread_local_data.h\<close>),
  the trace chain that \<open>SendEvent\<close>, \<open>PostTaskAtFront\<close>, \<open>PostTaskAtTail\<close> and \<open>DistributeEvent\<close> continue
  (\<open>event_handler_utils.h\<close>, \<open>inner_event.cpp\<close>, \<open>event_handler.cpp\<close>), and the rendering of time
  points. The chain of a thread is kept by the HiTrace library: its identifiers are values of
  \<open>trace_id\<close>, a fresh span is an argument, and the calls of the library are listed.
\<close>

section \<open>\<open>ThreadLocalData\<close>\<close>

type_synonym 'a thread_data = "nat \<rightharpoonup> 'a"

definition Current :: "'a \<Rightarrow> nat \<Rightarrow> 'a thread_data \<Rightarrow> 'a" where
  \<comment> \<open>\<open>dflt\<close> is \<open>T()\<close>\<close>
  "Current dflt tid d = (case d tid of None \<Rightarrow> dflt | Some x \<Rightarrow> x)"

definition Save :: "nat \<Rightarrow> 'a \<Rightarrow> 'a thread_data \<Rightarrow> 'a thread_data" where
  "Save tid x d = d(tid \<mapsto> x)"

definition Discard :: "nat \<Rightarrow> 'a thread_data \<Rightarrow> 'a thread_data" where
  "Discard tid d = d(tid := None)"

lemma Current_Save [simp]: "Current dflt t (Save t' x d) = (if t = t' then x else Current dflt t d)"
  by (simp add: Current_def Save_def)

lemma Current_Discard [simp]: "Current dflt t (Discard t' d) = (if t = t' then dflt else Current dflt t d)"
  by (simp add: Current_def Discard_def)

definition Run_thread_data ::
  "nat \<Rightarrow> runner_ref option \<Rightarrow> (runner_ref option thread_data \<Rightarrow> runner_ref option thread_data) \<Rightarrow>
     runner_ref option thread_data \<Rightarrow> runner_ref option thread_data" where
  \<comment> \<open>what \<open>Run\<close> does with \<open>currentEventRunner\<close>; \<open>others\<close>: what happens while the loop runs. The
     assignment of the old value is that of a weak pointer, not of \<open>nullptr\<close>.\<close>
  "Run_thread_data tid owner others d =
     (if owner = None then d
      else
        let oldRunner = Current None tid d
        in Save tid oldRunner (others (Save tid owner d)))"

text \<open>
  While the loop runs, the thread's runner is the owner of the loop. Afterwards it is what it was, and
  the entry of the thread stays in the map for ever, even when there was none before.
\<close>

lemma Run_thread_data_restores:
  assumes "\<And>d t. t \<noteq> tid \<Longrightarrow> Current None t (others d) = Current None t d"
  shows "Current None t (Run_thread_data tid owner others d) = Current None t d"
  using assms by (simp add: Run_thread_data_def Let_def)

lemma Run_leaves_entry: "owner \<noteq> None \<Longrightarrow> tid \<in> dom (Run_thread_data tid owner others d)"
  by (auto simp: Run_thread_data_def Save_def Let_def)

section \<open>The trace chain\<close>

record trace_id =
  ti_valid :: bool
  ti_includeAsync :: bool
  ti_number :: u64

definition no_trace_id :: trace_id where
  [eh_defs]: "no_trace_id = \<lparr>ti_valid = False, ti_includeAsync = False, ti_number = 0\<rparr>"

datatype tracepoint_type = TP_CS | TP_CR | TP_SS | TP_SR

datatype chain_call = Tracepoint tracepoint_type trace_id string | SetId trace_id | ClearId

definition GetOrCreateTraceId :: "trace_id \<Rightarrow> trace_id \<Rightarrow> trace_id option \<Rightarrow> trace_id option" where
  \<comment> \<open>\<open>current\<close>: the id of the thread's chain; \<open>span\<close>: the result of \<open>CreateSpan\<close>; the last argument is
     \<open>hiTraceId_\<close>, and its new value is the result\<close>
  "GetOrCreateTraceId current span hiTraceId =
     (if hiTraceId \<noteq> None then hiTraceId
      else if \<not> ti_valid current then None
      else Some span)"

definition AllowHiTraceOutPut :: "trace_id option \<Rightarrow> bool \<Rightarrow> bool" where
  "AllowHiTraceOutPut traceId isSyncEvent \<longleftrightarrow>
     (case traceId of
        None \<Rightarrow> False
      | Some t \<Rightarrow>
          if \<not> ti_valid t then False
          else if \<not> isSyncEvent \<and> \<not> ti_includeAsync t then False
          else True)"

definition cut_at_null :: "string \<Rightarrow> string" where
  \<comment> \<open>what a conversion \<open>%s\<close> prints of the characters of a string\<close>
  "cut_at_null s = takeWhile (\<lambda>c. c \<noteq> CHR 0x00) s"

definition HiTracePointerOutPut :: "trace_id \<Rightarrow> inner_event \<Rightarrow> string \<Rightarrow> tracepoint_type \<Rightarrow> chain_call list" where
  \<comment> \<open>called with an id that is present only; with \<open>HiTracePointerOutPutEventId\<close> written out\<close>
  "HiTracePointerOutPut spanId e action' type =
     (if \<not> HasTask e then
        (case ev_innerEventId e of
           IdU32 n \<Rightarrow> [Tracepoint type spanId (action' @ '' event, event id: '' @ to_string_nat (unat n))]
         | IdStr s \<Rightarrow> [Tracepoint type spanId (action' @ '' event, event id: '' @ cut_at_null s)])
      else if ev_taskName e \<noteq> [] then
        [Tracepoint type spanId (action' @ '' task with name, name: '' @ cut_at_null (ev_taskName e))]
      else [Tracepoint type spanId (action' @ '' UnNamed Task'')])"

definition send_trace :: "string \<Rightarrow> trace_id \<Rightarrow> trace_id \<Rightarrow> trace_id option \<Rightarrow> inner_event \<Rightarrow> chain_call list" where
  \<comment> \<open>the calls that \<open>SendEvent\<close>, \<open>PostTaskAtFront\<close> and \<open>PostTaskAtTail\<close> make around the insertion, whatever
     its result is\<close>
  "send_trace action' current span hiTraceId e =
     (let traceId = GetOrCreateTraceId current span hiTraceId
      in if AllowHiTraceOutPut traceId (HasWaiter e) then
           (case traceId of
              None \<Rightarrow> []
            | Some t \<Rightarrow> HiTracePointerOutPut t e action' TP_CS @ [Tracepoint TP_CR t (action' @ '' over'')])
         else [])"

definition distribute_trace :: "trace_id \<Rightarrow> trace_id option \<Rightarrow> inner_event \<Rightarrow> chain_call list \<times> chain_call list" where
  \<comment> \<open>the calls of \<open>DistributeEvent\<close> before and after the event is handled; \<open>traceId\<close> is the thread's id
     at its start\<close>
  "distribute_trace traceId hiTraceId e =
     (if AllowHiTraceOutPut hiTraceId (HasWaiter e) then
        (case hiTraceId of
           None \<Rightarrow> ([], [])
         | Some spanId \<Rightarrow>
             (SetId spanId # HiTracePointerOutPut spanId e ''Receive'' TP_SR,
              [Tracepoint TP_SS spanId ''Event Distribute over'', ClearId] @
              (if ti_valid traceId then [SetId traceId] else [])))
      else ([], []))"

fun chain_id :: "trace_id \<Rightarrow> chain_call list \<Rightarrow> trace_id" where
  \<comment> \<open>the id of the thread after the calls\<close>
  "chain_id t [] = t"
| "chain_id t (SetId t' # cs) = chain_id t' cs"
| "chain_id t (ClearId # cs) = chain_id no_trace_id cs"
| "chain_id t (Tracepoint _ _ _ # cs) = chain_id t cs"

lemma chain_id_append [simp]: "chain_id t (cs @ ds) = chain_id (chain_id t cs) ds"
  by (induction t cs rule: chain_id.induct) auto

lemma HiTracePointerOutPut_chain [simp]: "chain_id t (HiTracePointerOutPut s e a ty) = t"
  by (simp add: HiTracePointerOutPut_def split: event_id.split)

text \<open>
  An event is handled under the span that its sender opened, and the thread's own chain is in place
  again after it, whatever the handler did with the chain meanwhile.
\<close>

lemma event_is_handled_under_senders_span:
  assumes "ti_valid current" and "ti_valid span" and "HasWaiter e \<or> ti_includeAsync span"
  shows "chain_id own (fst (distribute_trace own (GetOrCreateTraceId current span None) e)) = span"
  using assms
  by (auto simp: distribute_trace_def GetOrCreateTraceId_def AllowHiTraceOutPut_def)

lemma distribution_restores_chain:
  assumes "AllowHiTraceOutPut hiTraceId (HasWaiter e)"
  shows "chain_id t (snd (distribute_trace own hiTraceId e)) = (if ti_valid own then own else no_trace_id)"
  using assms by (auto simp: distribute_trace_def AllowHiTraceOutPut_def split: option.splits)

text \<open>An event that may not be traced leaves the chain alone, so what its handler sets stays.\<close>

lemma untraced_event_keeps_chain:
  "\<not> AllowHiTraceOutPut hiTraceId (HasWaiter e) \<Longrightarrow> distribute_trace own hiTraceId e = ([], [])"
  by (simp add: distribute_trace_def)

text \<open>Outside a chain nothing is traced.\<close>

lemma no_chain_no_trace: "\<not> ti_valid current \<Longrightarrow> send_trace a current span None e = []"
  by (simp add: send_trace_def GetOrCreateTraceId_def AllowHiTraceOutPut_def)

section \<open>\<open>DumpTimeToString\<close>\<close>

definition MS_PER_SECOND :: int where [eh_defs]: "MS_PER_SECOND = 1000"
definition MAX_MS_LENGTH :: nat where [eh_defs]: "MAX_MS_LENGTH = 3"

definition pad_ms :: "string \<Rightarrow> string" where
  "pad_ms msString =
     (if length msString < MAX_MS_LENGTH then replicate (MAX_MS_LENGTH - length msString) CHR ''0'' @ msString
      else msString)"

definition DumpTimeToString :: "(int \<Rightarrow> string) \<Rightarrow> int \<Rightarrow> string" where
  \<comment> \<open>of a time of the system clock in nanoseconds; \<open>cal\<close>: \<open>strftime\<close> of the local calendar time of a
     \<open>time_t\<close>. The casts of durations truncate.\<close>
  "DumpTimeToString cal time =
     (let tp = time sdiv MS;
          ms = tp smod MS_PER_SECOND
      in cal (time sdiv (MS * MS_PER_SECOND)) @ pad_ms (to_string_int ms))"

definition DumpTimeToString_steady :: "(int \<Rightarrow> string) \<Rightarrow> int \<Rightarrow> time \<Rightarrow> time \<Rightarrow> string" where
  \<comment> \<open>of a time point of the steady clock: the readings of the two clocks are arguments\<close>
  "DumpTimeToString_steady cal nowSys nowSteady time =
     DumpTimeToString cal (nowSys + ((time - nowSteady) sdiv MS) * MS)"

lemma to_string_nat_length: "n < 10 ^ Suc k \<Longrightarrow> length (to_string_nat n) \<le> Suc k"
proof (induction k arbitrary: n)
  case 0
  then show ?case by (subst to_string_nat.simps) simp
next
  case (Suc k)
  show ?case
  proof (cases "n < 10")
    case True
    then show ?thesis by (subst to_string_nat.simps) simp
  next
    case False
    have "n div 10 < 10 ^ Suc k" using Suc.prems by (simp add: less_mult_imp_div_less mult.commute)
    with Suc.IH have "length (to_string_nat (n div 10)) \<le> Suc k" .
    with False show ?thesis by (subst to_string_nat.simps) simp
  qed
qed

lemma pad_ms_value: "decimal_value (pad_ms (to_string_nat n)) = n"
proof -
  have zeros: "foldl (\<lambda>acc c. 10 * acc + (of_char c - 48)) (0::nat) (replicate k CHR ''0'') = 0" for k
    by (induction k) auto
  have "decimal_value (replicate k CHR ''0'' @ s) = decimal_value s" for k s
    by (simp add: decimal_value_def zeros)
  then show ?thesis by (simp add: pad_ms_def)
qed

text \<open>The milliseconds of a time after the epoch have three digits, and the value they should.\<close>

lemma milliseconds_have_three_digits:
  assumes "0 \<le> time"
  shows "\<exists>ms. DumpTimeToString cal time = cal (time div (MS * MS_PER_SECOND)) @ ms \<and> length ms = MAX_MS_LENGTH \<and>
    int (decimal_value ms) = time div MS mod MS_PER_SECOND"
proof -
  let ?m = "time div MS mod MS_PER_SECOND"
  have m: "0 \<le> ?m" "?m < 1000" by (simp_all add: MS_PER_SECOND_def)
  have s: "time sdiv MS = time div MS" "time sdiv (MS * MS_PER_SECOND) = time div (MS * MS_PER_SECOND)"
      "time div MS smod MS_PER_SECOND = ?m"
    using assms by (simp_all add: signed_divide_int_def signed_modulo_int_def MS_def MS_PER_SECOND_def sgn_if
        pos_imp_zdiv_nonneg_iff minus_div_mult_eq_mod)
  have "length (to_string_nat (nat ?m)) \<le> Suc 2"
    using m by (intro to_string_nat_length) simp
  then have "length (pad_ms (to_string_nat (nat ?m))) = 3"
    by (simp add: pad_ms_def MAX_MS_LENGTH_def)
  moreover have "int (decimal_value (pad_ms (to_string_nat (nat ?m)))) = ?m"
    using m by (simp add: pad_ms_value)
  ultimately show ?thesis
    using m s by (simp add: DumpTimeToString_def Let_def to_string_int_def MAX_MS_LENGTH_def)
qed

lemma dump_time_examples:
  "DumpTimeToString (\<lambda>t. ''C.'') 5007000000 = ''C.007''"
  "DumpTimeToString (\<lambda>t. ''C.'') 5123456789 = ''C.123''"
  by code_simp+

end
