(* ===== verification/Locks.thy ===== *)
theory Locks
  imports Prelude
begin

text \<open>
  The locks of the queues: \<open>lock_base.h\<close>, \<open>std_lock.h\<close> and \<open>priority_inheritance_lock.h\<close>. A lock is a
  number; its calls of the mutex are recorded. The owners are the objects of \<open>LockGuardBase\<close> and
  \<open>UniqueLockBase\<close>, by the order of their construction; one that was destroyed is \<open>None\<close>.
\<close>

section \<open>The owners of a lock\<close>

datatype lock_type = STANDARD | PRIORITY_INHERIT

datatype lock_call = LockCall nat | UnlockCall nat

record unique_lock =
  ul_lock :: "nat option"
  ul_owns :: bool

definition UniqueLock_lock :: "unique_lock \<Rightarrow> lock_call list \<times> unique_lock" where
  "UniqueLock_lock u =
     (case ul_lock u of
        None \<Rightarrow> ([], u)
      | Some l \<Rightarrow> if \<not> ul_owns u then ([LockCall l], u\<lparr>ul_owns := True\<rparr>) else ([], u))"

definition UniqueLock_unlock :: "unique_lock \<Rightarrow> lock_call list \<times> unique_lock" where
  "UniqueLock_unlock u =
     (case ul_lock u of
        None \<Rightarrow> ([], u)
      | Some l \<Rightarrow> if ul_owns u then ([UnlockCall l], u\<lparr>ul_owns := False\<rparr>) else ([], u))"

definition UniqueLock_new :: "nat \<Rightarrow> lock_call list \<times> unique_lock" where
  "UniqueLock_new l = UniqueLock_lock \<lparr>ul_lock = Some l, ul_owns = False\<rparr>"

definition moved_from :: unique_lock where
  \<comment> \<open>what a move leaves\<close>
  [eh_defs]: "moved_from = \<lparr>ul_lock = None, ul_owns = False\<rparr>"

definition UniqueLock_assign :: "unique_lock \<Rightarrow> unique_lock \<Rightarrow> lock_call list \<times> unique_lock" where
  \<comment> \<open>the move assignment from another object\<close>
  "UniqueLock_assign u other =
     (let (cs, u1) = (if ul_owns u then UniqueLock_unlock u else ([], u))
      in (cs, u1\<lparr>ul_lock := ul_lock other, ul_owns := ul_owns other\<rparr>))"

definition UniqueLock_destroy :: "unique_lock \<Rightarrow> lock_call list" where
  "UniqueLock_destroy u = (if ul_owns u then fst (UniqueLock_unlock u) else [])"

section \<open>The lock of a queue\<close>

datatype lock_class = StdLock | PriorityInheritanceLock

fun InitializeLocks :: "lock_type \<Rightarrow> lock_class" where
  \<comment> \<open>the class of \<open>queueLock_\<close>\<close>
  "InitializeLocks PRIORITY_INHERIT = PriorityInheritanceLock"
| "InitializeLocks STANDARD = StdLock"

section \<open>All owners together\<close>

record lock_world =
  lw_uniques :: "unique_lock option list"
  lw_guards :: "nat option list"
  lw_calls :: "lock_call list"

definition no_locks :: lock_world where
  [eh_defs]: "no_locks = \<lparr>lw_uniques = [], lw_guards = [], lw_calls = []\<rparr>"

datatype lock_op =
    NewUnique nat
  | MoveUnique nat
  | AssignUnique nat nat
  | LockUnique nat
  | UnlockUnique nat
  | DestroyUnique nat
  | NewGuard nat
  | DestroyGuard nat

definition unique_at :: "nat \<Rightarrow> lock_world \<Rightarrow> unique_lock option" where
  [eh_defs]: "unique_at i w = (if i < length (lw_uniques w) then lw_uniques w ! i else None)"

definition set_unique :: "nat \<Rightarrow> unique_lock option \<Rightarrow> lock_call list \<Rightarrow> lock_world \<Rightarrow> lock_world" where
  [eh_defs]: "set_unique i u cs w = w\<lparr>lw_uniques := (lw_uniques w)[i := u], lw_calls := lw_calls w @ cs\<rparr>"

fun lock_apply :: "lock_op \<Rightarrow> lock_world \<Rightarrow> lock_world" where
  \<comment> \<open>an operation on an object that does not exist is none\<close>
  "lock_apply (NewUnique l) w =
     (let (cs, u) = UniqueLock_new l in w\<lparr>lw_uniques := lw_uniques w @ [Some u], lw_calls := lw_calls w @ cs\<rparr>)"
| "lock_apply (MoveUnique j) w =
     (case unique_at j w of
        None \<Rightarrow> w
      | Some other \<Rightarrow> w\<lparr>lw_uniques := (lw_uniques w)[j := Some moved_from] @ [Some other]\<rparr>)"
| "lock_apply (AssignUnique i j) w =
     (case (unique_at i w, unique_at j w) of
        (Some u, Some other) \<Rightarrow>
          if i = j then w
          else
            let (cs, u1) = UniqueLock_assign u other
            in set_unique j (Some moved_from) [] (set_unique i (Some u1) cs w)
      | _ \<Rightarrow> w)"
| "lock_apply (LockUnique i) w =
     (case unique_at i w of None \<Rightarrow> w | Some u \<Rightarrow> let (cs, u1) = UniqueLock_lock u in set_unique i (Some u1) cs w)"
| "lock_apply (UnlockUnique i) w =
     (case unique_at i w of None \<Rightarrow> w | Some u \<Rightarrow> let (cs, u1) = UniqueLock_unlock u in set_unique i (Some u1) cs w)"
| "lock_apply (DestroyUnique i) w =
     (case unique_at i w of None \<Rightarrow> w | Some u \<Rightarrow> set_unique i None (UniqueLock_destroy u) w)"
| "lock_apply (NewGuard l) w = w\<lparr>lw_guards := lw_guards w @ [Some l], lw_calls := lw_calls w @ [LockCall l]\<rparr>"
| "lock_apply (DestroyGuard i) w =
     (case (if i < length (lw_guards w) then lw_guards w ! i else None) of
        None \<Rightarrow> w
      | Some l \<Rightarrow> w\<lparr>lw_guards := (lw_guards w)[i := None], lw_calls := lw_calls w @ [UnlockCall l]\<rparr>)"

section \<open>Every lock is released as often as it is taken\<close>

definition held :: "nat \<Rightarrow> lock_call list \<Rightarrow> int" where
  "held l cs = int (count_list cs (LockCall l)) - int (count_list cs (UnlockCall l))"

definition owns :: "nat \<Rightarrow> unique_lock option \<Rightarrow> bool" where
  "owns l u \<longleftrightarrow> (case u of None \<Rightarrow> False | Some u \<Rightarrow> ul_owns u \<and> ul_lock u = Some l)"

definition owners :: "nat \<Rightarrow> lock_world \<Rightarrow> nat" where
  "owners l w = length (filter (owns l) (lw_uniques w)) + length (filter (\<lambda>g. g = Some l) (lw_guards w))"

definition lock_inv :: "lock_world \<Rightarrow> bool" where
  "lock_inv w \<longleftrightarrow>
     (\<forall>u\<in>set (lw_uniques w). \<forall>v. u = Some v \<longrightarrow> ul_owns v \<longrightarrow> ul_lock v \<noteq> None) \<and>
     (\<forall>l. held l (lw_calls w) = int (owners l w))"

lemma held_simps [simp]:
  "held l [] = 0" "held l (xs @ ys) = held l xs + held l ys"
  "held l [LockCall k] = (if k = l then 1 else 0)" "held l [UnlockCall k] = (if k = l then - 1 else 0)"
  by (simp_all add: held_def)

lemma length_filter_update:
  "i < length xs \<Longrightarrow>
     int (length (filter P (xs[i := x]))) = int (length (filter P xs)) - of_bool (P (xs ! i)) + of_bool (P x)"
proof (induction xs arbitrary: i)
  case (Cons a xs)
  then show ?case by (cases i) auto
qed simp

lemma moved_from_owns [simp]: "\<not> ul_owns moved_from"
  by (simp add: moved_from_def)

lemma owns_simps [simp]:
  "\<not> owns l None" "\<not> owns l (Some moved_from)" "owns l (Some u) \<longleftrightarrow> ul_owns u \<and> ul_lock u = Some l"
  by (simp_all add: owns_def moved_from_def)

lemma unique_at_Some: "unique_at i w = Some u \<Longrightarrow> i < length (lw_uniques w) \<and> lw_uniques w ! i = Some u"
  by (simp add: unique_at_def split: if_splits)

lemma unique_at_owns:
  "lock_inv w \<Longrightarrow> unique_at i w = Some u \<Longrightarrow> ul_owns u \<Longrightarrow> \<exists>l. ul_lock u = Some l"
  unfolding lock_inv_def by (metis unique_at_Some nth_mem not_None_eq)

lemma set_unique_inv:
  assumes w: "lock_inv w" and u: "unique_at i w = Some u"
    and ok: "\<And>v. u' = Some v \<Longrightarrow> ul_owns v \<Longrightarrow> ul_lock v \<noteq> None"
    and c: "\<And>l. held l cs = of_bool (owns l u') - of_bool (owns l (Some u))"
  shows "lock_inv (set_unique i u' cs w)"
proof -
  note i = unique_at_Some [OF u]
  have "held l (lw_calls (set_unique i u' cs w)) = int (owners l (set_unique i u' cs w))" for l
    using w i c [of l] length_filter_update [of i "lw_uniques w" "owns l" u']
    by (simp add: lock_inv_def set_unique_def owners_def)
  moreover have "\<forall>v\<in>set (lw_uniques (set_unique i u' cs w)). \<forall>x. v = Some x \<longrightarrow> ul_owns x \<longrightarrow> ul_lock x \<noteq> None"
    using w ok by (auto simp: lock_inv_def set_unique_def dest!: set_update_subset_insert [THEN subsetD])
  ultimately show ?thesis by (simp add: lock_inv_def)
qed

lemma lock_apply_inv: "lock_inv w \<Longrightarrow> lock_inv (lock_apply op w)"
proof (cases op)
  case (NewUnique l)
  assume "lock_inv w"
  then show ?thesis
    using NewUnique by (auto simp: lock_inv_def UniqueLock_new_def UniqueLock_lock_def owners_def)
next
  case (MoveUnique j)
  assume w: "lock_inv w"
  show ?thesis
  proof (cases "unique_at j w")
    case (Some u)
    note j = unique_at_Some [OF Some]
    have "held l (lw_calls w) = int (owners l (lock_apply op w))" for l
      using w j length_filter_update [of j "lw_uniques w" "owns l" "Some moved_from"]
      by (simp add: MoveUnique Some lock_inv_def owners_def)
    moreover have "ul_owns v \<Longrightarrow> ul_lock v \<noteq> None" if "Some v \<in> set (lw_uniques (lock_apply op w))" for v
      using that w j unfolding lock_inv_def
      by (auto simp: MoveUnique Some moved_from_def dest!: set_update_subset_insert [THEN subsetD]) (metis nth_mem)+
    ultimately show ?thesis by (auto simp: lock_inv_def MoveUnique Some)
  qed (simp add: w MoveUnique)
next
  case (AssignUnique i j)
  assume w: "lock_inv w"
  show ?thesis
  proof (cases "(unique_at i w, unique_at j w)")
    case (Pair a b)
    show ?thesis
    proof (cases "a = None \<or> b = None \<or> i = j")
      case False
      then obtain u v where uv: "unique_at i w = Some u" "unique_at j w = Some v" "i \<noteq> j" using Pair by auto
      obtain cs u1 where a1: "UniqueLock_assign u v = (cs, u1)" by fastforce
      let ?w1 = "set_unique i (Some u1) cs w" and ?w2 = "set_unique j (Some moved_from) [] (set_unique i (Some u1) cs w)"
      note i = unique_at_Some [OF uv(1)] and j = unique_at_Some [OF uv(2)]
      have u1: "ul_lock u1 = ul_lock v" "ul_owns u1 = ul_owns v"
        using a1 by (auto simp: UniqueLock_assign_def Let_def split: prod.splits)
      have cs: "held l cs = - of_bool (owns l (Some u))" for l
        using a1 unique_at_owns [OF w uv(1)]
        by (auto simp: UniqueLock_assign_def UniqueLock_unlock_def Let_def split: if_splits option.splits)
      have "held l (lw_calls ?w2) = int (owners l ?w2)" for l
        using w i j uv(3) cs [of l] u1 length_filter_update [of i "lw_uniques w" "owns l" "Some u1"]
          length_filter_update [of j "(lw_uniques w)[i := Some u1]" "owns l" "Some moved_from"]
        by (simp add: lock_inv_def set_unique_def owners_def)
      moreover have "ul_owns x \<Longrightarrow> ul_lock x \<noteq> None" if "Some x \<in> set (lw_uniques ?w2)" for x
        using that w i j u1 unfolding lock_inv_def
        by (auto simp: set_unique_def moved_from_def dest!: set_update_subset_insert [THEN subsetD]) (metis nth_mem)+
      ultimately have "lock_inv ?w2" by (auto simp: lock_inv_def)
      then show ?thesis using uv a1 by (simp add: AssignUnique)
    qed (use w Pair AssignUnique in \<open>auto split: option.splits\<close>)
  qed
next
  case (LockUnique i)
  assume w: "lock_inv w"
  show ?thesis
  proof (cases "unique_at i w")
    case (Some u)
    show ?thesis
      using set_unique_inv [OF w Some, of "Some (snd (UniqueLock_lock u))" "fst (UniqueLock_lock u)"]
        unique_at_owns [OF w Some]
      by (fastforce simp: LockUnique Some UniqueLock_lock_def split: option.splits)
  qed (simp add: w LockUnique)
next
  case (UnlockUnique i)
  assume w: "lock_inv w"
  show ?thesis
  proof (cases "unique_at i w")
    case (Some u)
    show ?thesis
      using set_unique_inv [OF w Some, of "Some (snd (UniqueLock_unlock u))" "fst (UniqueLock_unlock u)"]
        unique_at_owns [OF w Some]
      by (fastforce simp: UnlockUnique Some UniqueLock_unlock_def split: option.splits)
  qed (simp add: w UnlockUnique)
next
  case (DestroyUnique i)
  assume w: "lock_inv w"
  show ?thesis
  proof (cases "unique_at i w")
    case (Some u)
    show ?thesis
      using set_unique_inv [OF w Some, of None "UniqueLock_destroy u"] unique_at_owns [OF w Some]
      by (fastforce simp: DestroyUnique Some UniqueLock_destroy_def UniqueLock_unlock_def split: option.splits)
  qed (simp add: w DestroyUnique)
next
  case (NewGuard l)
  assume "lock_inv w"
  then show ?thesis using NewGuard by (auto simp: lock_inv_def owners_def)
next
  case (DestroyGuard i)
  assume w: "lock_inv w"
  show ?thesis
  proof (cases "i < length (lw_guards w) \<and> lw_guards w ! i \<noteq> None")
    case True
    then obtain k where k: "i < length (lw_guards w)" "lw_guards w ! i = Some k" by auto
    have "held l (lw_calls (lock_apply op w)) = int (owners l (lock_apply op w))" for l
      using w k length_filter_update [of i "lw_guards w" "\<lambda>g. g = Some l" None]
      by (auto simp: DestroyGuard lock_inv_def owners_def)
    then show ?thesis using w k by (simp add: lock_inv_def DestroyGuard)
  qed (use w in \<open>auto simp: DestroyGuard\<close>)
qed

text \<open>
  Whatever the owners do, a lock has been taken as often as it has been released but for the owners that
  hold it; when all of them are gone, it is free. No owner takes the lock that it holds once more, and none
  releases what it does not hold.
\<close>

lemma lock_ops_inv: "lock_inv (fold lock_apply ops no_locks)"
proof -
  have "lock_inv (fold lock_apply ops w)" if "lock_inv w" for w
    using that by (induction ops arbitrary: w) (simp_all add: lock_apply_inv)
  moreover have "lock_inv no_locks" by (simp add: lock_inv_def no_locks_def owners_def)
  ultimately show ?thesis by blast
qed

lemma filter_nones: "set xs \<subseteq> {None} \<Longrightarrow> \<not> P None \<Longrightarrow> filter P xs = []"
  by (auto simp: filter_empty_conv)

lemma destroyed_owners_leave_locks_free:
  assumes "w = fold lock_apply ops no_locks" "set (lw_uniques w) \<subseteq> {None}" "set (lw_guards w) \<subseteq> {None}"
  shows "held l (lw_calls w) = 0"
proof -
  have "owners l w = 0"
    using filter_nones [OF assms(2), of "owns l"] filter_nones [OF assms(3), of "\<lambda>g. g = Some l"]
    by (simp add: owners_def)
  then show ?thesis using lock_ops_inv [of ops] unfolding assms(1) lock_inv_def by simp
qed

section \<open>Mutual exclusion\<close>

fun mutex_lets :: "lock_call list \<Rightarrow> lock_call list \<Rightarrow> bool" where
  \<comment> \<open>the mutex lets the calls happen in this order after the calls \<open>before\<close>: \<open>lock\<close> returns only when
     nobody holds it\<close>
  "mutex_lets before [] \<longleftrightarrow> True"
| "mutex_lets before (c # cs) \<longleftrightarrow>
     (case c of LockCall l \<Rightarrow> held l before = 0 | UnlockCall l \<Rightarrow> True) \<and> mutex_lets (before @ [c]) cs"

lemma held_at_most_one: "mutex_lets before cs \<Longrightarrow> held l before \<le> 1 \<Longrightarrow> held l (before @ cs) \<le> 1"
proof (induction cs arbitrary: before)
  case (Cons c cs)
  have "held l (before @ [c]) \<le> 1" using Cons.prems by (cases c) auto
  then show ?case using Cons.IH [of "before @ [c]"] Cons.prems(1) by simp
qed simp

text \<open>
  C39. The guards of the queue locks exclude each other. Whatever sequence of constructions, moves, locks,
  unlocks and destructions of \<open>LockGuardBase\<close> and \<open>UniqueLockBase\<close> objects is run, a lock has been taken once
  more than it was released for each object that owns it - none takes it twice, none releases what it does not
  own, and with the last owner it is free. As far as a mutex lets the calls happen in that order, at most
  one object owns it at a time.
\<close>

theorem lock_has_one_owner:
  assumes "w = fold lock_apply ops no_locks" "mutex_lets [] (lw_calls w)"
  shows "held l (lw_calls w) = int (owners l w) \<and> owners l w \<le> 1"
proof -
  have "held l (lw_calls w) = int (owners l w)" using lock_ops_inv [of ops] by (simp add: assms(1) lock_inv_def)
  then show ?thesis using held_at_most_one [OF assms(2), of l] by simp
qed

lemma lock_has_one_owner_witness:
  "owners 7 (fold lock_apply [NewUnique 7, UnlockUnique 0, NewGuard 7, DestroyGuard 0, LockUnique 0, MoveUnique 0] no_locks) = 1"
proof -
  let ?w = "fold lock_apply [NewUnique 7, UnlockUnique 0, NewGuard 7, DestroyGuard 0, LockUnique 0, MoveUnique 0] no_locks"
  have m: "mutex_lets [] (lw_calls ?w)" by code_simp
  have h: "held 7 (lw_calls ?w) = 1" by code_simp
  show ?thesis using lock_has_one_owner [OF refl m, of 7] h by simp
qed

end
