(* ===== verification/Runner_Threads.thy ===== *)
theory Runner_Threads
  imports Runner Adapters Tracing Locks
begin

text \<open>
  The threads behind runners, in \<open>event_runner.cpp\<close>: what \<open>ThreadMain\<close> does, how \<open>Create\<close> and
  \<open>StartRunningForNoWait\<close> start a thread and hand it to the collector, and the destructors; and the setters
  of \<open>event_runner.h\<close>. The steps of the new thread and of the thread that creates the runner interleave.
\<close>

section \<open>Setters\<close>

definition SetDeliveryTimeout :: "int \<Rightarrow> event_runner \<Rightarrow> event_runner" where
  [eh_defs]: "SetDeliveryTimeout t rn = rn\<lparr>rn_deliveryTimeout := t\<rparr>"

definition SetDistributeTimeout :: "int \<Rightarrow> event_runner \<Rightarrow> event_runner" where
  [eh_defs]: "SetDistributeTimeout t rn = rn\<lparr>rn_distributeTimeout := t\<rparr>"

definition SetTimeout :: "int \<Rightarrow> event_runner \<Rightarrow> event_runner" where
  [eh_defs]: "SetTimeout t rn = rn\<lparr>rn_timeout := t\<rparr>"

definition SetTimeoutCallback :: "bool \<Rightarrow> watch \<Rightarrow> watch" where
  \<comment> \<open>the callback is a static member, shared by all runners\<close>
  [eh_defs]: "SetTimeoutCallback callback w = w\<lparr>wa_report := callback\<rparr>"

definition SetDeliveryTimeoutCallback :: "bool \<Rightarrow> watch \<Rightarrow> watch" where
  \<comment> \<open>of the handler whose events are distributed; whether the callback is not empty\<close>
  [eh_defs]: "SetDeliveryTimeoutCallback callback w = w\<lparr>wa_deliveryCallback := callback\<rparr>"

definition SetDistributeTimeoutCallback :: "bool \<Rightarrow> watch \<Rightarrow> watch" where
  [eh_defs]: "SetDistributeTimeoutCallback callback w = w\<lparr>wa_distributeCallback := callback\<rparr>"

definition SetLogger :: "bool \<Rightarrow> watch \<Rightarrow> watch" where
  [eh_defs]: "SetLogger logger w = w\<lparr>wa_logger := logger\<rparr>"

definition EventSetEnvToHandler :: "bool \<Rightarrow> event_runner \<Rightarrow> event_runner" where
  \<comment> \<open>whether the pointer is not null\<close>
  [eh_defs]: "EventSetEnvToHandler env rn = rn\<lparr>rn_env := env\<rparr>"

definition EventOpenLocalHandle :: "bool \<times> bool \<Rightarrow> event_runner \<Rightarrow> action list" where
  \<comment> \<open>the first argument: the functions that \<open>SetLocalHandleFunc\<close> registered are not null\<close>
  "EventOpenLocalHandle fs rn = (if rn_env rn \<and> fst fs then [OpenLocalHandle] else [])"

definition EventCloseLocalHandle :: "bool \<times> bool \<Rightarrow> event_runner \<Rightarrow> action list" where
  "EventCloseLocalHandle fs rn = (if rn_env rn \<and> snd fs then [CloseLocalHandle] else [])"

definition RegisterLocalHandleCallback :: "bool \<Rightarrow> bool \<Rightarrow> event_runner \<Rightarrow> watch \<Rightarrow> watch" where
  \<comment> \<open>\<open>rn\<close>: the main runner, through which the loop calls the two functions\<close>
  "RegisterLocalHandleCallback openFunc closeFunc rn w =
     w\<lparr>wa_localHandle :=
          (EventOpenLocalHandle (openFunc, closeFunc) rn \<noteq> [], EventCloseLocalHandle (openFunc, closeFunc) rn \<noteq> [])\<rparr>"

section \<open>\<open>ThreadMain\<close> and the destructors\<close>

datatype thread_call = SetCrashCallback | SetSystemThreadName string | RunLoop | ReclaimThread

definition ThreadMain :: "bool \<Rightarrow> string option \<Rightarrow> thread_call list" where
  \<comment> \<open>\<open>weak\<close>: \<open>SetThreadInfoCallback\<close> is linked; \<open>inner\<close>: the name of the inner runner when it still exists\<close>
  "ThreadMain weak inner =
     (if weak then [SetCrashCallback] else []) @
     (case inner of None \<Rightarrow> [] | Some threadName \<Rightarrow> [SetSystemThreadName threadName, RunLoop]) @
     [ReclaimThread]"

text \<open>Every thread reports to the collector, as its last action.\<close>

lemma ThreadMain_reclaims: "\<exists>cs. ThreadMain weak inner = cs @ [ReclaimThread] \<and> ReclaimThread \<notin> set cs"
  by (simp add: ThreadMain_def split: option.split)

definition EventRunnerImpl_dtor :: "event_queue_base \<Rightarrow> event_queue_base" where
  [eh_defs]: "EventRunnerImpl_dtor q = RemoveAll q"

definition EventRunner_dtor :: "event_runner \<Rightarrow> event_queue_base \<Rightarrow> event_queue_base" where
  \<comment> \<open>the queue of the inner runner\<close>
  [eh_defs]: "EventRunner_dtor rn q = (if rn_deposit rn then Finish q else q)"

section \<open>Starting a thread\<close>

definition Attach :: "bool \<Rightarrow> nat \<Rightarrow> collector \<Rightarrow> bool \<times> collector" where
  \<comment> \<open>the exit callback of the thread is \<open>queue_->Finish()\<close>\<close>
  [eh_defs]: "Attach joinable t c = Deposit joinable t c"

datatype creator_point = Attaching | Stopping | Joining | Returned

record start_state =
  ss_thread :: deposit_state
  ss_creator :: creator_point
  ss_collector :: collector

definition start_runner :: "collector \<Rightarrow> start_state" where
  \<comment> \<open>the thread has been constructed, and \<open>Create\<close> or \<open>StartRunningForNoWait\<close> goes on\<close>
  [eh_defs]: "start_runner c = \<lparr>ss_thread = deposit_start, ss_creator = Attaching, ss_collector = c\<rparr>"

definition creator_next :: "nat \<Rightarrow> start_state \<Rightarrow> start_state" where
  \<comment> \<open>the next step of the creating thread; \<open>t\<close>: the id of the new thread\<close>
  "creator_next t s =
     (case ss_creator s of
        Attaching \<Rightarrow>
          (let (attached, c) = Attach True t (ss_collector s)
           in s\<lparr>ss_creator := (if attached then Returned else Stopping), ss_collector := c\<rparr>)
      | Stopping \<Rightarrow> s\<lparr>ss_thread := (ss_thread s)\<lparr>dp_finished := True\<rparr>, ss_creator := Joining\<rparr>
      | Joining \<Rightarrow> if dp_point (ss_thread s) = Ended then s\<lparr>ss_creator := Returned\<rparr> else s
      | Returned \<Rightarrow> s)"

definition new_thread_next :: "start_state \<Rightarrow> start_state" where
  [eh_defs]: "new_thread_next s = s\<lparr>ss_thread := thread_next (ss_thread s)\<rparr>"

datatype start_op = CreatorStep | ThreadStep

fun start_apply :: "nat \<Rightarrow> start_op \<Rightarrow> start_state \<Rightarrow> start_state" where
  "start_apply t CreatorStep s = creator_next t s"
| "start_apply t ThreadStep s = new_thread_next s"

text \<open>
  While the collector accepts threads, the creator returns after its first step and the collector holds
  the thread.
\<close>

lemma accepted_thread_is_deposited:
  "\<not> tc_destroying c \<Longrightarrow>
     ss_creator (creator_next t (start_runner c)) = Returned \<and>
     t \<in> set (tc_depositMap (ss_collector (creator_next t (start_runner c))))"
  by (simp add: creator_next_def start_runner_def Attach_def Deposit_def)

text \<open>
  When the collector is being destroyed, the creator stops the loop and joins the thread itself. If the
  thread had already prepared its queue, it sees the stop: it ends, and the creator returns.
\<close>

lemma refused_thread_ends_when_prepared:
  assumes "dp_point (ss_thread s) = InLoop" "ss_creator s = Stopping"
  shows "ss_creator (fold (start_apply t) [CreatorStep, ThreadStep, CreatorStep] s) = Returned"
  using assms by (simp add: creator_next_def new_thread_next_def thread_next_def thread_exit_def)

text \<open>
  If the thread prepares its queue after the stop, the stop is gone: the runner still exists, since its creator
  holds it, so the thread stays in its loop, and the creator waits for it for ever.
\<close>

definition start_stuck :: "start_state \<Rightarrow> bool" where
  "start_stuck s \<longleftrightarrow> ss_creator s = Joining \<and> dp_point (ss_thread s) = InLoop \<and> \<not> dp_finished (ss_thread s)"

lemma start_stuck_step: "start_stuck s \<Longrightarrow> start_stuck (start_apply t op s)"
  by (cases op) (simp_all add: start_stuck_def creator_next_def new_thread_next_def thread_next_def)

lemma start_stuck_forever: "start_stuck s \<Longrightarrow> start_stuck (fold (start_apply t) ops s)"
  by (induction ops arbitrary: s) (simp_all add: start_stuck_step)

lemma refused_thread_can_block_creator:
  assumes "tc_destroying c"
  shows "start_stuck (fold (start_apply t) ([CreatorStep, CreatorStep, ThreadStep, ThreadStep] @ ops) (start_runner c))"
proof -
  have "start_stuck (fold (start_apply t) [CreatorStep, CreatorStep, ThreadStep, ThreadStep] (start_runner c))"
    using assms
    by (simp add: start_stuck_def start_runner_def creator_next_def new_thread_next_def Attach_def Deposit_def
        thread_next_def thread_prepare_def thread_check_owner_def deposit_start_def)
  then show ?thesis by (simp only: fold_append comp_def start_stuck_forever)
qed

section \<open>Construction of a queue\<close>

definition EventQueue_ctor :: "io_waiter option \<Rightarrow> lock_type \<Rightarrow> event_queue \<times> lock_class" where
  \<comment> \<open>the constructors of \<open>EventQueue\<close>: without an IO waiter, or with a null one, the queue makes its own\<close>
  "EventQueue_ctor ioWaiter lockType =
     (let w = (case ioWaiter of None \<Rightarrow> NoneWaiter \<lparr>n_pred = False\<rparr> | Some w \<Rightarrow> w);
          w1 = (if io_SupportListeningFileDescriptor w
                then (case w of NoneWaiter n \<Rightarrow> w | EpollWaiter e \<Rightarrow> EpollWaiter (Epoll_SetFileDescriptorEventCallback e))
                else w)
      in (new_event_queue\<lparr>q_ioWaiter := w1\<rparr>, InitializeLocks lockType))"

text \<open>A queue that listens to descriptors has its callback in place from the start.\<close>

lemma constructed_queue_has_callback:
  "fst (EventQueue_ctor ioWaiter lockType) = q \<Longrightarrow> q_ioWaiter q = EpollWaiter e \<Longrightarrow> io_callback e"
  by (auto simp: EventQueue_ctor_def Epoll_SetFileDescriptorEventCallback_def io_SupportListeningFileDescriptor_def
      Let_def split: option.splits io_waiter.splits)

section \<open>Handlers for the FFRT library\<close>

definition new_handler :: "string \<Rightarrow> handler_ref \<Rightarrow> runner_ref option \<Rightarrow> system \<Rightarrow> system" where
  \<comment> \<open>\<open>EventHandler(runner)\<close>; \<open>h\<close> is the new object and \<open>hid\<close> the id that \<open>EventHandler_ctor\<close> gives it\<close>
  [eh_defs]: "new_handler hid h runner sy =
     sy\<lparr>sy_world := (sy_world sy)\<lparr>wd_handlerId := (wd_handlerId (sy_world sy))(h := hid),
                                wd_runner := (wd_runner (sy_world sy))(h := runner),
                                wd_alive := (wd_alive (sy_world sy))(h := True)\<rparr>\<rparr>"

definition GetMainEventHandlerForFFRT ::
  "string \<Rightarrow> handler_ref \<Rightarrow> runner_ref option \<Rightarrow> handler_ref option \<Rightarrow> system \<Rightarrow> handler_ref \<times> handler_ref option \<times> system" where
  \<comment> \<open>\<open>main\<close>: \<open>GetMainEventRunner()\<close>; the third argument is the static variable\<close>
  "GetMainEventHandlerForFFRT hid h main mainHandler sy =
     (case mainHandler of
        Some k \<Rightarrow> (k, mainHandler, sy)
      | None \<Rightarrow> (h, Some h, new_handler hid h main sy))"

definition GetCurrentEventHandlerForFFRT ::
  "string \<Rightarrow> handler_ref \<Rightarrow> nat \<Rightarrow> runner_ref option \<Rightarrow> handler_ref thread_data \<Rightarrow> system \<Rightarrow>
     handler_ref \<times> handler_ref thread_data \<times> system" where
  \<comment> \<open>\<open>runner\<close>: \<open>EventRunner::Current()\<close>; the data are the thread local variable\<close>
  "GetCurrentEventHandlerForFFRT hid h tid runner currentHandler sy =
     (case currentHandler tid of
        Some k \<Rightarrow> (k, currentHandler, sy)
      | None \<Rightarrow> (h, Save tid h currentHandler, new_handler hid h runner sy))"

text \<open>
  The handler of a thread keeps the runner of the first call: when that call came before the thread
  had a runner, the handler refuses tasks for ever.
\<close>

lemma current_handler_keeps_first_runner:
  assumes "GetCurrentEventHandlerForFFRT hid h tid None d sy = (k, d1, sy1)" "d tid = None"
  shows "GetCurrentEventHandlerForFFRT hid' h' tid (Some r) d1 sy1 = (k, d1, sy1) \<and>
    fst (SendEvent c k event delay prio sy1) = False"
  using assms
  by (auto simp: GetCurrentEventHandlerForFFRT_def Save_def new_handler_def SendEvent_def split: option.split)

end
