(* ===== verification/Accessors.thy ===== *)
theory Accessors
  imports Handler
begin

text \<open>
  The inline members of \<open>inner_event.h\<close>, \<open>event_queue.h\<close>, \<open>file_descriptor_listener.h\<close> and
  \<open>event_handler.cpp\<close> that read or set one field; that what \<open>SendEvent\<close> and \<open>CreateTask\<close> do to an event is the
  sequence of calls in the code is proved below.
\<close>

section \<open>Events\<close>

definition SetOwner :: "handler_ref \<Rightarrow> inner_event \<Rightarrow> inner_event" where
  [eh_defs]: "SetOwner h e = e\<lparr>ev_owner := Some h\<rparr>"

definition SetHandleTime :: "time \<Rightarrow> inner_event \<Rightarrow> inner_event" where
  [eh_defs]: "SetHandleTime t e = e\<lparr>ev_handleTime := t\<rparr>"

definition SetSendTime :: "time \<Rightarrow> inner_event \<Rightarrow> inner_event" where
  [eh_defs]: "SetSendTime t e = e\<lparr>ev_sendTime := t\<rparr>"

definition SetSenderKernelThreadId :: "u64 \<Rightarrow> inner_event \<Rightarrow> inner_event" where
  [eh_defs]: "SetSenderKernelThreadId t e = e\<lparr>ev_senderKernelThreadId := t\<rparr>"

definition SetEventPriority :: "int \<Rightarrow> inner_event \<Rightarrow> inner_event" where
  [eh_defs]: "SetEventPriority prio e = e\<lparr>ev_priority := prio\<rparr>"

definition SetOwnerId :: "string \<Rightarrow> inner_event \<Rightarrow> inner_event" where
  [eh_defs]: "SetOwnerId ownerId e = e\<lparr>ev_ownerId := ownerId\<rparr>"

definition SetDelayTime :: "int \<Rightarrow> inner_event \<Rightarrow> inner_event" where
  [eh_defs]: "SetDelayTime delayTime e = e\<lparr>ev_delayTime := delayTime\<rparr>"

definition MarkVsyncTask :: "inner_event \<Rightarrow> inner_event" where
  [eh_defs]: "MarkVsyncTask e = e\<lparr>ev_isVsync := True\<rparr>"

definition IsVsyncTask :: "inner_event \<Rightarrow> bool" where
  [eh_defs]: "IsVsyncTask e = ev_isVsync e"

definition MarkBarrierTask :: "inner_event \<Rightarrow> inner_event" where
  [eh_defs]: "MarkBarrierTask e = e\<lparr>ev_isBarrier := True\<rparr>"

definition IsBarrierTask :: "inner_event \<Rightarrow> bool" where
  [eh_defs]: "IsBarrierTask e = ev_isBarrier e"

definition SetIsEnhanced :: "bool \<Rightarrow> inner_event \<Rightarrow> inner_event" where
  [eh_defs]: "SetIsEnhanced isEnhanced e = e\<lparr>ev_isEnhanced := isEnhanced\<rparr>"

definition SetEmitterId :: "u32 \<Rightarrow> inner_event \<Rightarrow> inner_event" where
  [eh_defs]: "SetEmitterId emitterId e = e\<lparr>ev_emitterId := emitterId\<rparr>"

section \<open>Queues and listeners\<close>

definition SetIoWaiter :: "bool \<Rightarrow> 'a event_queue_scheme \<Rightarrow> 'a event_queue_scheme" where
  [eh_defs]: "SetIoWaiter useDeamonIoWaiter q = q\<lparr>q_useDeamonIoWaiter := useDeamonIoWaiter\<rparr>"

definition IsBarrierMode :: "'a event_queue_scheme \<Rightarrow> bool" where
  [eh_defs]: "IsBarrierMode q = q_isBarrierMode q"

definition SetDeamonWaiter :: "fd_listener \<Rightarrow> fd_listener" where
  [eh_defs]: "SetDeamonWaiter l = l\<lparr>l_isDeamonWaiter := True\<rparr>"

definition SetType :: "listener_type \<Rightarrow> fd_listener \<Rightarrow> fd_listener" where
  [eh_defs]: "SetType type l = l\<lparr>l_type := type\<rparr>"

section \<open>The calls of \<open>SendEvent\<close> and \<open>CreateTask\<close>\<close>

definition event_for_sending :: "call_env \<Rightarrow> string \<Rightarrow> handler_ref \<Rightarrow> int \<Rightarrow> bool \<Rightarrow> inner_event \<Rightarrow> inner_event" where
  \<comment> \<open>\<open>collected\<close>: the runner has a thread of its own, so the stack of the caller is collected\<close>
  "event_for_sending c hid h delayTime collected e =
     (let now = ca_now c;
          e1 = SetEventUniqueId now (SetSenderKernelThreadId (ca_tid c) (SetSendTime now e));
          e2 = (if delayTime > 0 then SetHandleTime (now + delayTime * MS) e1 else SetHandleTime now e1);
          e3 = SetOwner h (SetDelayTime delayTime (SetOwnerId hid e2))
      in if collected then fst (SetStackId (ca_stackId c) e3) else e3)"

lemma SendEvent_by_setters:
  "wd_runner (sy_world sy) h = Some r \<Longrightarrow>
     SendEvent c h (Some e) delayTime prio sy =
       (let e' = event_for_sending c (wd_handlerId (sy_world sy) h) h delayTime
                   (rn_threadMode (sy_runner sy r) \<noteq> THREAD_FFRT) e;
            (ret, q) = rq_Insert c (sy_world sy) (Some e') prio AT_END NO_BARRIER (sy_queue sy r)
        in (ret, set_queue r q sy))"
  by (simp add: SendEvent_def event_for_sending_def SetOwner_def SetHandleTime_def SetSendTime_def
      SetSenderKernelThreadId_def SetOwnerId_def SetDelayTime_def SetEventUniqueId_def Let_def)

lemma CreateTask_by_setters:
  "wd_runner (sy_world sy) h = Some r \<Longrightarrow> Get_task alloc cb name cl = Some e \<Longrightarrow>
     CreateTask c alloc h cb name cl sy =
       Some (SetOwner h (SetEventUniqueId (ca_now c) (SetSenderKernelThreadId (ca_tid c)
         (SetHandleTime (ca_now c) (SetSendTime (ca_now c) (SetOwnerId (wd_handlerId (sy_world sy) h) (SetDelayTime 0 e)))))))"
  by (simp add: CreateTask_def SetOwner_def SetHandleTime_def SetSendTime_def SetSenderKernelThreadId_def
      SetOwnerId_def SetDelayTime_def SetEventUniqueId_def)

end
