(* ===== verification/Spec2Isabelle.thy ===== *)
theory Spec2Isabelle
  imports Ffrt_Properties Queue_Refinement Descriptor_Events Loop_Removal Ani_Tasks Emitter_Class Runner_Threads Accessors
begin

text \<open>
  A verification development of the event handler library: inner events, the queues that order
  them, the IO waiters they block on, the handlers that send and receive them, the runners that
  distribute them, and the emitters of the script bindings on top of them. Paths below are under
  \<open>src/\<close>.

  The program. An \<open>InnerEvent\<close> (\<open>interfaces/inner_api/inner_event.h\<close>) is an id or a task with a
  handle time, an owner and a payload. An \<open>EventHandler\<close> sends it into the \<open>EventQueue\<close> of its
  \<open>EventRunner\<close>. The queue keeps one list per priority, ordered by handle time; the thread of the
  runner takes the next event with \<open>GetEvent\<close>, which blocks in an IO waiter (\<open>epoll\<close>, a condition
  variable, or the process-wide daemon) until an event is due or a file descriptor is ready, and
  gives it to \<open>EventHandler::DistributeEvent\<close> of its owner. A runner in the FFRT thread mode has
  no lists of its own: its queue hands the events to the FFRT library as named tasks.

  An emitter is a handler on a runner of its own and a table from pairs of event id and emitter
  number to the subscribed functions. \<open>emit\<close> sends an event whose payload is the emitted data;
  when it is distributed, each live subscriber gets a call on its own thread: through a
  thread-safe function of the script engine, or through the queue of tasks and the worker threads of
  the static runtime. A subscriber for one event is taken out with its call, and one that
  unsubscribes is marked deleted. Once the static runtime is loaded, the functions of the script
  engine are replaced by others that serve both tables and copy the data between the runtimes.
  The Cangjie emitter has a table and a distribution of its own.

  Conventions. Unsigned and fixed width integers are words. Time points and durations are \<open>int\<close>
  counts of nanoseconds or milliseconds. A reading of the clock, the result of a system call, of
  a user callback, of the FFRT library or of a script engine is an argument of the operation that reads it, and the
  calls an operation makes on such code are recorded in its result. Objects behind shared
  pointers are numbers, weak pointers that have expired are recognised by a predicate argument.
  An unordered set is a list in one of the orders in which it may be iterated. Each operation is
  atomic where the code holds its lock; where the code leaves a gap, the steps
  are separate definitions and a relation interleaves them.

  The theories, with the code they model:

  \<^item> \<open>Prelude\<close>: words, times, decimal rendering (\<open>std::to_string\<close>), list searches of
    \<open><algorithm>\<close>, the collections of rewrite rules.
  \<^item> \<open>Inner_Event\<close>, \<open>Waiter\<close>: the event object, its payload and the waiter of a synchronous event
    (\<open>inner_event.cpp\<close>); \<open>Wait\<close> and \<open>Notify\<close> are steps of threads, spurious wake-ups included.
  \<^item> \<open>Queue_Types\<close>, \<open>Event_Queue\<close>: enumerations, vsync bookkeeping, listeners and waiting of the
    base class (\<open>event_queue.h\<close>, \<open>event_queue.cpp\<close>).
  \<^item> \<open>Event_List\<close>: the unnamed namespace of \<open>event_queue_base.cpp\<close> on one list, with the locale
    \<open>event_store\<close> that its interpretations satisfy.
  \<^item> \<open>Queue_Base\<close>, \<open>Queue_History\<close>: every operation of \<open>EventQueueBase\<close>; \<open>Queue_History\<close> has the
    ring of distributed events, the dumps and the queries.
  \<^item> \<open>Io_Waiter\<close>, \<open>Deamon_Waiter\<close>, \<open>Wakeup\<close>: the waiters (\<open>epoll_io_waiter.cpp\<close>,
    \<open>none_io_waiter.cpp\<close>, \<open>deamon_io_waiter.cpp\<close>), and the daemon thread interleaved with its stop.
    \<open>Queue_Wakeup\<close>: \<open>GetEvent\<close> cut at the releases of the queue lock and around \<open>epoll_wait\<close>, interleaved with
    every operation of other threads.
  \<^item> \<open>Ffrt_Queue\<close>, \<open>Ffrt_Names\<close>: \<open>event_queue_ffrt.cpp\<close>, \<open>ffrt_descriptor_listener.cpp\<close>; the library
    is a parameter.
  \<^item> \<open>Runner_State\<close>, \<open>Handler\<close>, \<open>Accessors\<close>, \<open>Distribution\<close>: \<open>event_handler.h\<close>, \<open>event_handler.cpp\<close> on the
    runner a handler sees, with all handlers, runners and queues in one system record.
  \<^item> \<open>Runner\<close>, \<open>Runner_Threads\<close>: \<open>event_runner.cpp\<close>: creation, \<open>Run\<close>, \<open>Stop\<close>, the two loops, the
    dumps, the collector of finished threads, the start of a thread as interleaved steps, and the
    handlers that FFRT tasks use.
  \<^item> \<open>Locks\<close>, \<open>Adapters\<close>, \<open>Tracing\<close>: the owners of queue locks (\<open>lock_base.h\<close>), the functions of
    loaded libraries (\<open>frame_report_sched.cpp\<close>, \<open>async_stack_adapter.cpp\<close>,
    \<open>event_hitrace_meter_adapter.h\<close>), the data of a thread (\<open>thread_local_data.h\<close>), the HiTrace chain that an
    event carries, and the rendering of times.
  \<^item> \<open>Native_Interface\<close>: the C interface (\<open>native_interface_eventhandler.cpp\<close>,
    \<open>native_implement_eventhandler.cpp\<close>).
  \<^item> \<open>Composite_Event\<close>, \<open>Js_Subscriptions\<close>, \<open>Js_Emitter\<close>, \<open>Emitter_Class\<close>: the script emitter
    (\<open>events_emitter.cpp\<close>, \<open>interops.cpp\<close>, \<open>napi_emitter.cpp\<close>), its class, and the transfer of its
    objects between the runtimes.
  \<^item> \<open>Emitter_Data\<close>, \<open>Callback_Manager\<close>, \<open>Ani_Emitter\<close>: the data of events and the managers and functions of
    the static runtime (\<open>frameworks/emitter\<close>); \<open>Cj_Emitter\<close>: the Cangjie emitter (\<open>frameworks/cj\<close>).

  What the groups of lemmas show:

  \<^item> \<open>Queue_Invariant\<close>, \<open>Queue_Pick\<close>, \<open>Queue_Loop\<close>, \<open>Queue_Properties\<close>: the invariant of every
    reachable queue, what \<open>GetEvent\<close> takes, exactly when nothing is taken, and how long it sleeps.
  \<^item> \<open>Queue_Schedule\<close>, \<open>Queue_Fairness\<close>, \<open>Queue_Updates\<close>: the scan over the priorities and its
    freedom from starvation, the barrier mode, the vsync bookkeeping.
  \<^item> \<open>Queue_Contents\<close>, \<open>Queue_Refinement\<close>: what insertion and removal do to the content; insertion
    is the stable sort of the library, and the queue refines five plain lists. \<open>Queue_Wakeup\<close>: a sleeping
    consumer loses no wake-up.
  \<^item> \<open>Handler_Properties\<close>, \<open>Runner_Loop\<close>, \<open>Runner_Properties\<close>: sending, synchronous events, the
    loops, the exclusion of runs, stopping, the collector.
  \<^item> \<open>Loop_Liveness\<close>: the composition of sending, waiting and distribution: an event that is sent
    reaches its handler, and a \<open>NO_WAIT\<close> run that is left alone executes what is due and ends.
  \<^item> \<open>Queue_Competition\<close>, \<open>Loop_Fairness\<close>: the same while other threads and the handlers go on sending and
    removing: a measure that every event taken lowers, so no event starves, and the sender of a
    synchronous event, interleaved with the loop, returns. \<open>Loop_Removal\<close>: a removed event is not executed.
  \<^item> \<open>Descriptor_Events\<close>: from \<open>epoll_wait\<close> to the functions of a listener, with the posts that the callback
    of the waiter makes, and the tasks of vsync listeners, which do not wait for their time.
  \<^item> \<open>Listener_Properties\<close>, \<open>Native_Properties\<close>, \<open>Ffrt_Properties\<close>: the daemon's wake-ups, descriptors, payloads;
    whose listeners are called; the patterns of the FFRT queue against the filters of the base queue.
  \<^item> \<open>Js_Table\<close>, \<open>Cj_Properties\<close>, \<open>Emitter_Properties\<close>: the tables of the emitters refine sets of
    subscriptions; the locale \<open>subscription_table\<close> is what they promise their users.
  \<^item> \<open>Emitter_Delivery\<close>, \<open>Ani_Tasks\<close>: who is called with what data, what unsubscribing does to queued
    calls, and the workers of the static runtime, none of whose tasks is lost while they can be attached.

  Bounds and fuel. A blocking call has one entry of a list of rounds (clock readings and the
  operations other threads perform meanwhile) for each iteration; the list is the fuel, and the
  result is \<open>None\<close> only when it is used up. \<open>due_event_delivered\<close> shows that two iterations
  are enough whenever an event is due. The loops of a runner and of the daemon take such a list
  for each pass; 216 = 6^3 passes for each event that is due are enough under any load, since a sub
  queue hands out five events in a row before the next one gets its turn. The ring of distributed events has 32 slots and a dump 512 entries, as in the
  code.

  Not modelled, and why: log output (\<open>event_logger.h\<close>; no effect on the state); the naming and
  scheduling of system threads beyond the calls that ask for it, and the calendar of the C library
  (arguments); the objects of the script engines beyond the answers the code uses, with the conversion
  of their strings; the inside of the FFRT, HiTrace and HiChecker libraries, which are not part of the repository.
\<close>

end
